(* ===== verification/Prelude.thy ===== *)
theory Prelude
  imports Main "HOL-Library.Word" "HOL-Library.Char_ord" "HOL-Library.List_Lexorder"
    "HOL-Library.Product_Lexorder" "HOL-Library.Option_ord" "HOL-Library.Multiset"
begin

text \<open>
  Shared vocabulary of the development: Rust strings as their UTF-8 bytes with the string
  functions the sources call (trim, split, ASCII case folding, decimal formatting), Rust's
  Result as a datatype, the machine integers the sources use with their saturating
  conversions, association lists for tables with a key, and the generic lemmas and
  collections the component theories rely on.
\<close>

named_theorems str_simps \<open>equations of the string functions\<close>
named_theorems access_simps \<open>unfolding rules of the access checks\<close>
named_theorems table_simps \<open>what table updates leave behind\<close>

section \<open>Results\<close>

datatype ('a, 'e) result = Ok (ok_val: 'a) | Err (err_val: 'e)

definition is_ok :: "('a, 'e) result \<Rightarrow> bool" where
  "is_ok r \<longleftrightarrow> (case r of Ok _ \<Rightarrow> True | Err _ \<Rightarrow> False)"

text \<open>The question-mark operator: go on with the value, or return the error.\<close>

definition try_bind :: "('a, 'e) result \<Rightarrow> ('a \<Rightarrow> ('b, 'e) result) \<Rightarrow> ('b, 'e) result" where
  "try_bind r f = (case r of Ok x \<Rightarrow> f x | Err e \<Rightarrow> Err e)"

definition map_err :: "('e \<Rightarrow> 'f) \<Rightarrow> ('a, 'e) result \<Rightarrow> ('a, 'f) result" where
  "map_err f r = (case r of Ok x \<Rightarrow> Ok x | Err e \<Rightarrow> Err (f e))"

definition ok_or :: "'a option \<Rightarrow> 'e \<Rightarrow> ('a, 'e) result" where
  "ok_or x e = (case x of None \<Rightarrow> Err e | Some v \<Rightarrow> Ok v)"

lemma is_ok_simps [simp]: "is_ok (Ok x)" "\<not> is_ok (Err e)"
  by (simp_all add: is_ok_def)

lemma is_ok_iff: "is_ok r \<longleftrightarrow> (\<exists>x. r = Ok x)"
  by (cases r) simp_all

lemma try_bind_simps [simp]:
  "try_bind (Ok x) f = f x" "try_bind (Err e) f = Err e"
  by (simp_all add: try_bind_def)

lemma map_err_simps [simp]: "map_err f (Ok x) = Ok x" "map_err f (Err e) = Err (f e)"
  by (simp_all add: map_err_def)

lemma ok_or_simps [simp]: "ok_or None e = Err e" "ok_or (Some v) e = Ok v"
  by (simp_all add: ok_or_def)

lemma try_bind_Ok_iff: "try_bind r f = Ok y \<longleftrightarrow> (\<exists>x. r = Ok x \<and> f x = Ok y)"
  by (cases r) simp_all

lemma map_err_Ok_iff [simp]: "map_err f r = Ok x \<longleftrightarrow> r = Ok x"
  by (cases r) simp_all

lemma ok_or_Ok_iff [simp]: "ok_or v e = Ok x \<longleftrightarrow> v = Some x"
  by (cases v) simp_all

text \<open>A loop that collects results and stops at the first error.\<close>

fun try_map :: "('a \<Rightarrow> ('b, 'e) result) \<Rightarrow> 'a list \<Rightarrow> ('b list, 'e) result" where
  "try_map f [] = Ok []"
| "try_map f (x # xs) = try_bind (f x) (\<lambda>y. try_bind (try_map f xs) (\<lambda>ys. Ok (y # ys)))"

lemma try_map_Ok_iff: "try_map f xs = Ok ys \<longleftrightarrow> map f xs = map Ok ys"
proof (induction xs arbitrary: ys)
  case (Cons x xs)
  then show ?case by (cases ys) (auto simp: try_bind_Ok_iff)
qed auto

text \<open>An HTTP error: the status code and the body the handler returns.\<close>

type_synonym http_error = "nat \<times> string"

abbreviation BAD_REQUEST :: nat where "BAD_REQUEST \<equiv> 400"
abbreviation UNAUTHORIZED :: nat where "UNAUTHORIZED \<equiv> 401"
abbreviation FORBIDDEN :: nat where "FORBIDDEN \<equiv> 403"
abbreviation NOT_FOUND :: nat where "NOT_FOUND \<equiv> 404"
abbreviation CONFLICT :: nat where "CONFLICT \<equiv> 409"
abbreviation TOO_MANY_REQUESTS :: nat where "TOO_MANY_REQUESTS \<equiv> 429"
abbreviation INTERNAL_SERVER_ERROR :: nat where "INTERNAL_SERVER_ERROR \<equiv> 500"

section \<open>Strings as UTF-8 bytes\<close>

text \<open>
  A Rust string is a sequence of UTF-8 bytes; HOL's \<^typ>\<open>string\<close> is a list of 8-bit
  characters and stands for exactly these bytes, so \<^term>\<open>length\<close> is Rust's
  \<open>str::len\<close>. Splitting at, comparing with and folding the case of ASCII characters work on
  bytes in Rust as well, because no byte of a multi-byte character is below 128. Only
  whitespace is not always one byte: \<open>ws_len\<close> gives the number of bytes of the
  whitespace character (Unicode property White\_Space) a string starts with, 0 for none.
\<close>

definition byte :: "char \<Rightarrow> nat" where
  "byte c = of_char c"

definition ascii_ws :: "char \<Rightarrow> bool" where
  "ascii_ws c \<longleftrightarrow> byte c = 32 \<or> 9 \<le> byte c \<and> byte c \<le> 13"

definition ws2 :: "char \<Rightarrow> char \<Rightarrow> bool" where
  "ws2 c d \<longleftrightarrow> c = CHR 0xC2 \<and> (d = CHR 0x85 \<or> d = CHR 0xA0)"

definition ws3 :: "char \<Rightarrow> char \<Rightarrow> char \<Rightarrow> bool" where
  "ws3 c d e \<longleftrightarrow>
     c = CHR 0xE1 \<and> d = CHR 0x9A \<and> e = CHR 0x80
   \<or> c = CHR 0xE2 \<and> d = CHR 0x80 \<and>
       (0x80 \<le> byte e \<and> byte e \<le> 0x8A \<or> e = CHR 0xA8 \<or> e = CHR 0xA9 \<or> e = CHR 0xAF)
   \<or> c = CHR 0xE2 \<and> d = CHR 0x81 \<and> e = CHR 0x9F
   \<or> c = CHR 0xE3 \<and> d = CHR 0x80 \<and> e = CHR 0x80"

fun ws_len :: "string \<Rightarrow> nat" where
  "ws_len [] = 0"
| "ws_len [c] = (if ascii_ws c then 1 else 0)"
| "ws_len [c, d] = (if ascii_ws c then 1 else if ws2 c d then 2 else 0)"
| "ws_len (c # d # e # s) =
     (if ascii_ws c then 1 else if ws2 c d then 2 else if ws3 c d e then 3 else 0)"

text \<open>The same for the whitespace character a string ends with, read from its end.\<close>

fun ws_len_rev :: "string \<Rightarrow> nat" where
  "ws_len_rev [] = 0"
| "ws_len_rev [e] = (if ascii_ws e then 1 else 0)"
| "ws_len_rev [e, d] = (if ascii_ws e then 1 else if ws2 d e then 2 else 0)"
| "ws_len_rev (e # d # c # s) =
     (if ascii_ws e then 1 else if ws2 d e then 2 else if ws3 c d e then 3 else 0)"

function drop_ws :: "(string \<Rightarrow> nat) \<Rightarrow> string \<Rightarrow> string" where
  "drop_ws f s = (if f s = 0 \<or> s = [] then s else drop_ws f (drop (f s) s))"
  by pat_completeness auto
termination
  by (relation "measure (\<lambda>(f, s). length s)") auto

declare drop_ws.simps [simp del]

definition trim_start :: "string \<Rightarrow> string" where
  "trim_start s = drop_ws ws_len s"

definition trim_end :: "string \<Rightarrow> string" where
  "trim_end s = rev (drop_ws ws_len_rev (rev s))"

definition trim :: "string \<Rightarrow> string" where
  "trim s = trim_end (trim_start s)"

lemma drop_ws_stop: "f (drop_ws f s) = 0 \<or> drop_ws f s = []"
  by (induction f s rule: drop_ws.induct) (subst (1 2) drop_ws.simps, simp)

lemma drop_ws_fixed: "f s = 0 \<Longrightarrow> drop_ws f s = s"
  by (simp add: drop_ws.simps)

lemma drop_ws_Nil [simp]: "drop_ws f [] = []"
  by (simp add: drop_ws.simps)

lemma drop_ws_suffix: "\<exists>p. s = p @ drop_ws f s"
proof (induction f s rule: drop_ws.induct)
  case (1 f s)
  show ?case
  proof (cases "f s = 0 \<or> s = []")
    case True
    then show ?thesis by (auto simp: drop_ws.simps [of f s])
  next
    case False
    with 1 obtain p where "drop (f s) s = p @ drop_ws f (drop (f s) s)" by blast
    then have "s = (take (f s) s @ p) @ drop_ws f (drop (f s) s)"
      by (metis append.assoc append_take_drop_id)
    then have "\<exists>p. s = p @ drop_ws f (drop (f s) s)" ..
    with False show ?thesis by (simp add: drop_ws.simps [of f s])
  qed
qed

lemma trim_start_suffix: "\<exists>p. s = p @ trim_start s"
  unfolding trim_start_def by (rule drop_ws_suffix)

lemma trim_end_prefix: "\<exists>q. s = trim_end s @ q"
proof -
  obtain p where "rev s = p @ drop_ws ws_len_rev (rev s)"
    using drop_ws_suffix by blast
  then have "s = trim_end s @ rev p"
    unfolding trim_end_def by (metis rev_append rev_rev_ident)
  then show ?thesis ..
qed

lemma ws_len_append: "ws_len s > 0 \<Longrightarrow> ws_len (s @ t) = ws_len s"
  by (induction s rule: ws_len.induct; cases t; cases "tl t") (auto split: if_splits)

lemma trim_start_stop: "ws_len (trim_start s) = 0"
  using drop_ws_stop [of ws_len s] unfolding trim_start_def by auto

lemma trim_end_stop: "ws_len_rev (rev (trim_end s)) = 0"
  using drop_ws_stop [of ws_len_rev "rev s"] unfolding trim_end_def by auto

lemma trim_no_leading: "ws_len (trim s) = 0"
proof -
  obtain q where "trim_start s = trim s @ q"
    unfolding trim_def using trim_end_prefix by blast
  then show ?thesis
    by (metis bot_nat_0.not_eq_extremum trim_start_stop ws_len_append)
qed

lemma trim_no_trailing: "ws_len_rev (rev (trim s)) = 0"
  unfolding trim_def by (rule trim_end_stop)

lemma trim_trim [simp]: "trim (trim s) = trim s"
proof -
  have "trim_start (trim s) = trim s"
    unfolding trim_start_def by (rule drop_ws_fixed) (rule trim_no_leading)
  moreover have "trim_end (trim s) = trim s"
    unfolding trim_end_def by (simp add: drop_ws_fixed trim_no_trailing)
  ultimately show ?thesis unfolding trim_def [of "trim s"] by simp
qed

lemma length_trim: "length (trim s) \<le> length s"
proof -
  obtain p q where "s = p @ trim_start s" "trim_start s = trim s @ q"
    unfolding trim_def using trim_start_suffix trim_end_prefix by blast
  then show ?thesis by (metis le_add1 le_add2 le_trans length_append)
qed

lemma set_trim: "set (trim s) \<subseteq> set s"
proof -
  obtain p q where "s = p @ trim_start s" "trim_start s = trim s @ q"
    unfolding trim_def using trim_start_suffix trim_end_prefix by blast
  then show ?thesis by (metis Un_iff set_append subsetI)
qed

lemma ws2_high: "ws2 c d \<Longrightarrow> 128 \<le> byte c"
  by (auto simp: ws2_def byte_def)

lemma ws3_high: "ws3 c d e \<Longrightarrow> 128 \<le> byte c"
  by (auto simp: ws3_def byte_def)

text \<open>ASCII text without whitespace is left alone by trimming.\<close>

definition plain_char :: "char \<Rightarrow> bool" where
  "plain_char c \<longleftrightarrow> \<not> ascii_ws c \<and> byte c < 128"

lemma ws_len_plain: "list_all plain_char s \<Longrightarrow> ws_len s = 0"
  by (cases s rule: ws_len.cases) (auto simp: plain_char_def dest: ws2_high ws3_high)

lemma ws_len_rev_plain: "list_all plain_char s \<Longrightarrow> ws_len_rev s = 0"
  by (cases s rule: ws_len_rev.cases) (auto simp: plain_char_def dest: ws2_high ws3_high)

lemma trim_plain: "list_all plain_char s \<Longrightarrow> trim s = s"
  by (simp add: trim_def trim_start_def trim_end_def drop_ws_fixed ws_len_plain ws_len_rev_plain)

lemma trim_Nil [simp]: "trim [] = []"
  by (simp add: trim_def trim_start_def trim_end_def)


section \<open>Splitting, joining, ASCII case, formatting\<close>

text \<open>\<open>str::split\<close> on a character: always at least one piece.\<close>

fun split_on :: "char \<Rightarrow> string \<Rightarrow> string list" where
  "split_on c [] = [[]]"
| "split_on c (x # xs) =
     (if x = c then [] # split_on c xs
      else (x # hd (split_on c xs)) # tl (split_on c xs))"

fun join_on :: "char \<Rightarrow> string list \<Rightarrow> string" where
  "join_on c [] = []"
| "join_on c [s] = s"
| "join_on c (s # t # ts) = s @ c # join_on c (t # ts)"

fun split_once :: "char \<Rightarrow> string \<Rightarrow> (string \<times> string) option" where
  "split_once c [] = None"
| "split_once c (x # xs) =
     (if x = c then Some ([], xs)
      else map_option (\<lambda>(l, r). (x # l, r)) (split_once c xs))"

definition strip_prefix :: "string \<Rightarrow> string \<Rightarrow> string option" where
  "strip_prefix p s = (if take (length p) s = p then Some (drop (length p) s) else None)"

definition is_ascii_alphanumeric :: "char \<Rightarrow> bool" where
  "is_ascii_alphanumeric c \<longleftrightarrow>
     48 \<le> byte c \<and> byte c \<le> 57 \<or> 65 \<le> byte c \<and> byte c \<le> 90 \<or> 97 \<le> byte c \<and> byte c \<le> 122"

definition ascii_lower :: "char \<Rightarrow> char" where
  "ascii_lower c = (if 65 \<le> byte c \<and> byte c \<le> 90 then char_of (byte c + 32) else c)"

definition to_ascii_lowercase :: "string \<Rightarrow> string" where
  "to_ascii_lowercase s = map ascii_lower s"

definition eq_ignore_ascii_case :: "string \<Rightarrow> string \<Rightarrow> bool" where
  "eq_ignore_ascii_case s t \<longleftrightarrow> to_ascii_lowercase s = to_ascii_lowercase t"

text \<open>Decimal formatting of unsigned and signed integers, and a text in single quotes.\<close>

fun show_nat :: "nat \<Rightarrow> string" where
  "show_nat n =
     (if n < 10 then [''0123456789'' ! n] else show_nat (n div 10) @ [''0123456789'' ! (n mod 10)])"

declare show_nat.simps [simp del]

definition show_int :: "int \<Rightarrow> string" where
  "show_int i = (if i < 0 then CHR ''-'' # show_nat (nat (- i)) else show_nat (nat i))"

definition sq :: "string \<Rightarrow> string" where
  "sq s = CHR 0x27 # s @ [CHR 0x27]"

text \<open>Evaluation of case folding on literals.\<close>

lemmas char_eval = ascii_lower_def byte_def char_of_def bit_Suc_0_iff

lemma split_on_ne [simp]: "split_on c s \<noteq> []"
  by (induction s) auto

lemma split_on_code [code]:
  "split_on c [] = [[]]"
  "split_on c (x # xs) =
     (case split_on c xs of
        [] \<Rightarrow> [[x]] | p # ps \<Rightarrow> if x = c then [] # p # ps else (x # p) # ps)"
  using split_on_ne [of c xs] by (auto split: list.split)

lemma join_split: "join_on c (split_on c s) = s"
proof (induction s)
  case (Cons x xs)
  then show ?case
    by (cases "split_on c xs") (auto intro: list.exhaust [of "tl (split_on c xs)"])
qed simp

lemma split_on_no_sep: "t \<in> set (split_on c s) \<Longrightarrow> c \<notin> set t"
proof (induction s arbitrary: t)
  case (Cons x xs)
  then show ?case
    by (cases "split_on c xs") (auto split: if_splits)
qed simp

lemma split_on_notin: "c \<notin> set s \<Longrightarrow> split_on c s = [s]"
  by (induction s) auto

lemma split_on_append: "c \<notin> set s \<Longrightarrow> split_on c (s @ c # t) = s # split_on c t"
  by (induction s) auto

lemma split_once_Some: "split_once c s = Some (l, r) \<Longrightarrow> s = l @ c # r \<and> c \<notin> set l"
  by (induction s arbitrary: l r) (auto split: if_splits)

lemma split_once_None: "split_once c s = None \<longleftrightarrow> c \<notin> set s"
  by (induction s) auto

lemma split_once_append: "c \<notin> set l \<Longrightarrow> split_once c (l @ c # r) = Some (l, r)"
  by (induction l) auto

lemma strip_prefix_Some: "strip_prefix p s = Some r \<longleftrightarrow> s = p @ r"
  by (auto simp: strip_prefix_def) (metis append_take_drop_id)

lemma byte_char_of: "n < 256 \<Longrightarrow> byte (char_of n) = n"
  by (simp add: byte_def)

lemma ascii_lower_idem [simp]: "ascii_lower (ascii_lower c) = ascii_lower c"
  by (simp add: ascii_lower_def byte_char_of)

lemma to_ascii_lowercase_idem [simp]:
  "to_ascii_lowercase (to_ascii_lowercase s) = to_ascii_lowercase s"
  by (simp add: to_ascii_lowercase_def)

lemma length_to_ascii_lowercase [simp]: "length (to_ascii_lowercase s) = length s"
  by (simp add: to_ascii_lowercase_def)

lemma to_ascii_lowercase_Nil_iff [simp]: "to_ascii_lowercase s = [] \<longleftrightarrow> s = []"
  by (simp add: to_ascii_lowercase_def)

lemma to_ascii_lowercase_append [simp]:
  "to_ascii_lowercase (s @ t) = to_ascii_lowercase s @ to_ascii_lowercase t"
  by (simp add: to_ascii_lowercase_def)

lemma show_nat_ne [simp]: "show_nat n \<noteq> []"
  by (subst show_nat.simps) simp

section \<open>Machine integers\<close>

text \<open>
  \<open>usize\<close> and \<open>u64\<close> values are \<^typ>\<open>nat\<close>, \<open>i64\<close> values are \<^typ>\<open>int\<close>; the bounds
  are written out wherever the sources convert, saturate or may overflow.
\<close>

abbreviation U32_MAX :: nat where "U32_MAX \<equiv> 4294967295"
abbreviation U64_MAX :: nat where "U64_MAX \<equiv> 18446744073709551615"
abbreviation I32_MAX :: int where "I32_MAX \<equiv> 2147483647"
abbreviation I64_MAX :: int where "I64_MAX \<equiv> 9223372036854775807"
abbreviation I64_MIN :: int where "I64_MIN \<equiv> -9223372036854775808"

definition u32_saturating_add :: "nat \<Rightarrow> nat \<Rightarrow> nat" where
  "u32_saturating_add a b = min (a + b) U32_MAX"

definition u64_saturating_mul :: "nat \<Rightarrow> nat \<Rightarrow> nat" where
  "u64_saturating_mul a b = min (a * b) U64_MAX"

text \<open>The eight little-endian bytes of an \<open>i64\<close> (two's complement).\<close>

definition i64_le_bytes :: "int \<Rightarrow> string" where
  "i64_le_bytes x = map (\<lambda>i. char_of (nat (x div 256 ^ i mod 256))) [0..<8]"

definition u64_le_bytes :: "64 word \<Rightarrow> string" where
  "u64_le_bytes w = map (\<lambda>i. char_of (unat w div 256 ^ i mod 256)) [0..<8]"

lemma length_i64_le_bytes [simp]: "length (i64_le_bytes x) = 8"
  by (simp add: i64_le_bytes_def)

lemma length_u64_le_bytes [simp]: "length (u64_le_bytes w) = 8"
  by (simp add: u64_le_bytes_def)

section \<open>Tables\<close>

text \<open>
  An SQL table is the list of its rows in the order of their row ids; the statements the
  store issues are a search, an update of the rows a condition selects and a deletion.
\<close>

definition update_where :: "('r \<Rightarrow> bool) \<Rightarrow> ('r \<Rightarrow> 'r) \<Rightarrow> 'r list \<Rightarrow> 'r list" where
  "update_where P f rs = map (\<lambda>r. if P r then f r else r) rs"

definition delete_where :: "('r \<Rightarrow> bool) \<Rightarrow> 'r list \<Rightarrow> 'r list" where
  "delete_where P rs = filter (\<lambda>r. \<not> P r) rs"

definition count_where :: "('r \<Rightarrow> bool) \<Rightarrow> 'r list \<Rightarrow> nat" where
  "count_where P rs = length (filter P rs)"

lemma update_where_simps [simp]:
  "update_where P f [] = []"
  "update_where P f (r # rs) = (if P r then f r else r) # update_where P f rs"
  by (simp_all add: update_where_def)

lemma length_update_where [simp]: "length (update_where P f rs) = length rs"
  by (simp add: update_where_def)

lemma map_update_where [table_simps]:
  "(\<And>r. g (f r) = g r) \<Longrightarrow> map g (update_where P f rs) = map g rs"
  by (simp add: update_where_def)

lemma set_update_where: "set (update_where P f rs) = (\<lambda>r. if P r then f r else r) ` set rs"
  by (simp add: update_where_def)

lemma in_update_where:
  "r \<in> set rs \<Longrightarrow> P r \<Longrightarrow> f r \<in> set (update_where P f rs)"
  "r \<in> set rs \<Longrightarrow> \<not> P r \<Longrightarrow> r \<in> set (update_where P f rs)"
  by (force simp: set_update_where)+

lemma update_where_none: "(\<And>r. r \<in> set rs \<Longrightarrow> \<not> P r) \<Longrightarrow> update_where P f rs = rs"
  by (induction rs) auto

text \<open>Giving the only selected row a value that no other row has keeps the column unique.\<close>

lemma distinct_update_one:
  assumes "distinct (map g rs)" and "\<And>x y. x \<in> set rs \<Longrightarrow> y \<in> set rs \<Longrightarrow> P x \<Longrightarrow> P y \<Longrightarrow> x = y"
    and "\<And>r. g (f r) = v" and "\<And>r. r \<in> set rs \<Longrightarrow> g r = v \<Longrightarrow> P r"
  shows "distinct (map g (update_where P f rs))"
  using assms(1,2,4)
proof (induction rs)
  case (Cons r rs)
  show ?case
  proof (cases "P r")
    case True
    then have none: "\<not> P x" if "x \<in> set rs" for x
      using Cons.prems(1) Cons.prems(2) [of x r] that by auto
    then have "update_where P f rs = rs" by (rule update_where_none)
    moreover have "v \<notin> g ` set rs" using none Cons.prems(3) by fastforce
    ultimately show ?thesis using Cons.prems(1) True by (simp add: assms(3))
  next
    case False
    then have "g r \<noteq> v" using Cons.prems(3) by auto
    moreover have "g r \<notin> g ` set rs" using Cons.prems(1) by simp
    ultimately have "g r \<noteq> g (if P x then f x else x)" if "x \<in> set rs" for x
      using that by (cases "P x") (simp_all add: assms(3) image_iff)
    then have "g r \<notin> set (map g (update_where P f rs))"
      unfolding update_where_def by auto
    moreover have "distinct (map g (update_where P f rs))"
    proof (rule Cons.IH)
      show "distinct (map g rs)" using Cons.prems(1) by simp
      show "x = y" if "x \<in> set rs" "y \<in> set rs" "P x" "P y" for x y
        by (rule Cons.prems(2)) (use that in simp_all)
      show "P x" if "x \<in> set rs" "g x = v" for x
        by (rule Cons.prems(3)) (use that in simp_all)
    qed
    ultimately show ?thesis using False by simp
  qed
qed simp

lemma set_delete_where [simp]: "set (delete_where P rs) = {r \<in> set rs. \<not> P r}"
  by (simp add: delete_where_def)

lemma delete_where_simps [simp]:
  "delete_where P [] = []"
  "delete_where P (r # rs) = (if P r then delete_where P rs else r # delete_where P rs)"
  by (simp_all add: delete_where_def)

lemma distinct_map_delete_where [table_simps]:
  "distinct (map g rs) \<Longrightarrow> distinct (map g (delete_where P rs))"
  by (simp add: delete_where_def distinct_map_filter)

lemma sorted_map_delete_where [table_simps]:
  "sorted_wrt lt (map g rs) \<Longrightarrow> sorted_wrt lt (map g (delete_where P rs))"
  by (simp add: delete_where_def sorted_wrt_map sorted_wrt_filter)

lemma not_in_map: "v \<notin> set (map f xs) \<longleftrightarrow> (\<forall>x \<in> set xs. f x \<noteq> v)"
  by auto

lemma find_None_conv: "find P xs = None \<longleftrightarrow> (\<forall>x \<in> set xs. \<not> P x)"
  by (auto simp: find_None_iff)

lemma find_SomeD: "find P xs = Some x \<Longrightarrow> x \<in> set xs \<and> P x"
  by (auto simp: find_Some_iff in_set_conv_nth)

lemma find_unique:
  "x \<in> set xs \<Longrightarrow> P x \<Longrightarrow> (\<And>y. y \<in> set xs \<Longrightarrow> P y \<Longrightarrow> y = x) \<Longrightarrow> find P xs = Some x"
  by (metis find_None_conv find_SomeD option.exhaust)

lemma find_key:
  "distinct (map k xs) \<Longrightarrow> x \<in> set xs \<Longrightarrow> find (\<lambda>y. k y = k x) xs = Some x"
  by (rule find_unique) (auto simp: distinct_map inj_on_def)

lemma find_key_iff:
  "distinct (map k xs) \<Longrightarrow> find (\<lambda>y. k y = v) xs = Some x \<longleftrightarrow> x \<in> set xs \<and> k x = v"
  using find_key [of k xs x] find_SomeD [of "\<lambda>y. k y = v" xs x] by blast

lemma find_update_where:
  "(\<And>r. Q (f r) = Q r) \<Longrightarrow>
   find Q (update_where P f rs) = map_option (\<lambda>r. if P r then f r else r) (find Q rs)"
  by (induction rs) auto

lemma find_update_sel:
  "(\<And>r. P r \<Longrightarrow> Q (f r) = Q r) \<Longrightarrow>
   find Q (update_where P f rs) = map_option (\<lambda>r. if P r then f r else r) (find Q rs)"
  by (induction rs) auto

lemma find_delete_where:
  "(\<And>r. Q r \<Longrightarrow> \<not> P r) \<Longrightarrow> find Q (delete_where P rs) = find Q rs"
  by (induction rs) auto

lemma find_append: "find P (xs @ ys) = (case find P xs of None \<Rightarrow> find P ys | Some x \<Rightarrow> Some x)"
  by (induction xs) auto

lemma count_where_0: "count_where P rs = 0 \<longleftrightarrow> (\<forall>r \<in> set rs. \<not> P r)"
  by (simp add: count_where_def filter_empty_conv)

lemma count_where_pos: "count_where P rs > 0 \<longleftrightarrow> (\<exists>r \<in> set rs. P r)"
  using count_where_0 [of P rs] by auto

section \<open>Ordered results\<close>

text \<open>
  \<open>ORDER BY\<close>: insertion sort by a comparison of rows, which keeps rows that compare equal in
  the order of the table.
\<close>

fun insert_by :: "('r \<Rightarrow> 'r \<Rightarrow> bool) \<Rightarrow> 'r \<Rightarrow> 'r list \<Rightarrow> 'r list" where
  "insert_by le x [] = [x]"
| "insert_by le x (y # ys) = (if le x y then x # y # ys else y # insert_by le x ys)"

definition sort_by :: "('r \<Rightarrow> 'r \<Rightarrow> bool) \<Rightarrow> 'r list \<Rightarrow> 'r list" where
  "sort_by le xs = foldr (insert_by le) xs []"

definition asc :: "('r \<Rightarrow> 'k::linorder) \<Rightarrow> 'r \<Rightarrow> 'r \<Rightarrow> bool" where
  "asc f x y \<longleftrightarrow> f x \<le> f y"

definition desc :: "('r \<Rightarrow> 'k::linorder) \<Rightarrow> 'r \<Rightarrow> 'r \<Rightarrow> bool" where
  "desc f x y \<longleftrightarrow> f y \<le> f x"

text \<open>A further \<open>ORDER BY\<close> term decides between rows that are equal on the terms before it.\<close>

definition then_by :: "('r \<Rightarrow> 'r \<Rightarrow> bool) \<Rightarrow> ('r \<Rightarrow> 'r \<Rightarrow> bool) \<Rightarrow> 'r \<Rightarrow> 'r \<Rightarrow> bool" where
  "then_by le1 le2 x y \<longleftrightarrow> le1 x y \<and> (le1 y x \<longrightarrow> le2 x y)"

definition row_order :: "('r \<Rightarrow> 'r \<Rightarrow> bool) \<Rightarrow> bool" where
  "row_order le \<longleftrightarrow> (\<forall>x y. le x y \<or> le y x) \<and> (\<forall>x y z. le x y \<longrightarrow> le y z \<longrightarrow> le x z)"

lemma mset_insert_by [simp]: "mset (insert_by le x ys) = add_mset x (mset ys)"
  by (induction ys) auto

lemma mset_sort_by [simp]: "mset (sort_by le xs) = mset xs"
  by (induction xs) (auto simp: sort_by_def)

lemma set_sort_by [simp]: "set (sort_by le xs) = set xs"
  by (metis mset_sort_by set_mset_mset)

lemma length_sort_by [simp]: "length (sort_by le xs) = length xs"
  by (metis mset_sort_by size_mset)

lemma row_order_asc [simp, intro]: "row_order (asc f)"
  by (auto simp: row_order_def asc_def)

lemma row_order_desc [simp, intro]: "row_order (desc f)"
  by (auto simp: row_order_def desc_def)

lemma row_order_then [intro]: "row_order le1 \<Longrightarrow> row_order le2 \<Longrightarrow> row_order (then_by le1 le2)"
  unfolding row_order_def then_by_def by meson

lemma sorted_insert_by:
  assumes le: "row_order le" and "sorted_wrt le ys"
  shows "sorted_wrt le (insert_by le x ys)"
  using assms(2)
proof (induction ys)
  case (Cons y ys)
  have "set (insert_by le x ys) = insert x (set ys)"
    by (metis mset_insert_by set_mset_add_mset_insert set_mset_mset)
  with Cons le show ?case by (auto simp: row_order_def)
qed simp

lemma sorted_sort_by: "row_order le \<Longrightarrow> sorted_wrt le (sort_by le xs)"
  by (induction xs) (auto simp: sort_by_def intro: sorted_insert_by)

section \<open>Fallible state transformers\<close>

text \<open>
  An operation on a store returns a result and the new state. What it wrote before it failed
  stays written, unless it ran in a transaction.
\<close>

type_synonym ('s, 'a, 'e) op = "'s \<Rightarrow> ('a, 'e) result \<times> 's"

definition op_return :: "'a \<Rightarrow> ('s, 'a, 'e) op" where
  "op_return x = (\<lambda>s. (Ok x, s))"

definition op_fail :: "'e \<Rightarrow> ('s, 'a, 'e) op" where
  "op_fail e = (\<lambda>s. (Err e, s))"

definition op_bind :: "('s, 'a, 'e) op \<Rightarrow> ('a \<Rightarrow> ('s, 'b, 'e) op) \<Rightarrow> ('s, 'b, 'e) op" where
  "op_bind m f = (\<lambda>s. case m s of (Ok x, s') \<Rightarrow> f x s' | (Err e, s') \<Rightarrow> (Err e, s'))"

definition op_write :: "('s \<Rightarrow> 's) \<Rightarrow> ('s, unit, 'e) op" where
  "op_write f = (\<lambda>s. (Ok (), f s))"

text \<open>Run an operation for each element in turn, stopping at the first failure.\<close>

fun op_for :: "('a \<Rightarrow> ('s, unit, 'e) op) \<Rightarrow> 'a list \<Rightarrow> ('s, unit, 'e) op" where
  "op_for f [] = op_return ()"
| "op_for f (x # xs) = op_bind (f x) (\<lambda>_. op_for f xs)"

text \<open>A transaction: a failure restores the state it started from.\<close>

definition op_atomic :: "('s, 'a, 'e) op \<Rightarrow> ('s, 'a, 'e) op" where
  "op_atomic m = (\<lambda>s. case m s of (Ok x, s') \<Rightarrow> (Ok x, s') | (Err e, s') \<Rightarrow> (Err e, s))"

lemma op_apply [simp]:
  "op_return x s = (Ok x, s)" "op_fail e s = (Err e, s)" "op_write f s = (Ok (), f s)"
  by (simp_all add: op_return_def op_fail_def op_write_def)

lemma op_bind_apply:
  "op_bind m f s = (case m s of (Ok x, s') \<Rightarrow> f x s' | (Err e, s') \<Rightarrow> (Err e, s'))"
  by (simp add: op_bind_def)

lemma op_bind_Ok: "m s = (Ok x, s') \<Longrightarrow> op_bind m f s = f x s'"
  by (simp add: op_bind_apply)

lemma op_bind_Err: "m s = (Err e, s') \<Longrightarrow> op_bind m f s = (Err e, s')"
  by (simp add: op_bind_apply)

lemma op_bind_Ok_iff:
  "op_bind m f s = (Ok y, s'') \<longleftrightarrow> (\<exists>x s'. m s = (Ok x, s') \<and> f x s' = (Ok y, s''))"
  by (auto simp: op_bind_apply split: prod.splits result.splits)

text \<open>The rules by which an invariant is carried through a composed operation.\<close>

definition preserves :: "('s \<Rightarrow> bool) \<Rightarrow> ('s, 'a, 'e) op \<Rightarrow> bool" where
  "preserves I m \<longleftrightarrow> (\<forall>s. I s \<longrightarrow> I (snd (m s)))"

named_theorems preserves_intros \<open>rules for preserved invariants\<close>

lemma preserves_return [preserves_intros]: "preserves I (op_return x)"
  by (simp add: preserves_def)

lemma preserves_fail [preserves_intros]: "preserves I (op_fail e)"
  by (simp add: preserves_def)

lemma preserves_bind [preserves_intros]:
  "preserves I m \<Longrightarrow> (\<And>x. preserves I (f x)) \<Longrightarrow> preserves I (op_bind m f)"
  by (auto simp: preserves_def op_bind_apply split: prod.splits result.splits)

lemma preserves_for [preserves_intros]: "(\<And>x. preserves I (f x)) \<Longrightarrow> preserves I (op_for f xs)"
  by (induction xs) (auto intro: preserves_intros)

lemma preserves_atomic [preserves_intros]: "preserves I m \<Longrightarrow> preserves I (op_atomic m)"
  by (auto simp: preserves_def op_atomic_def split: prod.splits result.splits)

lemma preserves_write: "(\<And>s. I s \<Longrightarrow> I (f s)) \<Longrightarrow> preserves I (op_write f)"
  by (simp add: preserves_def)

lemma preservesD: "preserves I m \<Longrightarrow> I s \<Longrightarrow> m s = (r, s') \<Longrightarrow> I s'"
  by (metis preserves_def snd_conv)

end
