(* ===== verification/Idempotency.thy ===== *)
theory Idempotency
  imports Prelude "HOL-Library.Multiset"
begin

text \<open>
  The batch deduplication service (services/idempotency.rs). The store keeps the record of
  every batch seen and, per run, the highest sequence number. A call of
  \<open>check_and_record\<close> takes three locks one after the other; each critical section is one
  definition and the call is their composition. The locale \<open>dedup_store\<close> states what the
  service promises to a client that retries, and the step relation \<open>idem_step\<close> the
  interleavings of concurrent calls.
\<close>

section \<open>Data\<close>

datatype IdempotencyResult =
    New
  | Duplicate
  | Conflict string string
  | OutOfOrder int int

definition should_process :: "IdempotencyResult \<Rightarrow> bool" where
  "should_process r = (case r of New \<Rightarrow> True | OutOfOrder _ _ \<Rightarrow> True | _ \<Rightarrow> False)"

definition is_error :: "IdempotencyResult \<Rightarrow> bool" where
  "is_error r = (case r of Conflict _ _ \<Rightarrow> True | _ \<Rightarrow> False)"

record BatchRecord =
  br_project_id :: string
  br_run_id :: string
  br_batch_id :: string
  br_seq :: int
  br_payload_hash :: string
  br_metric_count :: int
  br_param_count :: int
  br_tag_count :: int
  br_event_count :: int
  br_created_at :: nat

record IdempotencyStore =
  batches :: "string \<times> string \<rightharpoonup> BatchRecord"
  sequences :: "string \<rightharpoonup> int"

definition idem_new :: IdempotencyStore where
  "idem_new = \<lparr>batches = Map.empty, sequences = Map.empty\<rparr>"

section \<open>Operations\<close>

text \<open>
  The request carries the call's arguments; \<open>br_created_at\<close> is the clock reading of the
  recording step.
\<close>

abbreviation batch_key :: "BatchRecord \<Rightarrow> string \<times> string" where
  "batch_key b \<equiv> (br_run_id b, br_batch_id b)"

text \<open>First critical section, under the read lock of \<open>batches\<close>: an early return or none.\<close>

definition check_existing ::
  "IdempotencyStore \<Rightarrow> string \<Rightarrow> string \<Rightarrow> string \<Rightarrow> IdempotencyResult option" where
  "check_existing st run_id batch_id payload_hash =
     (case batches st (run_id, batch_id) of
        None \<Rightarrow> None
      | Some existing \<Rightarrow>
          if br_payload_hash existing = payload_hash then Some Duplicate
          else Some (Conflict (br_payload_hash existing) payload_hash))"

text \<open>Second critical section, under the write lock of \<open>sequences\<close>.\<close>

definition advance_sequence ::
  "IdempotencyStore \<Rightarrow> string \<Rightarrow> int \<Rightarrow> IdempotencyResult option \<times> IdempotencyStore" where
  "advance_sequence st run_id seq =
     (let current_seq = (case sequences st run_id of None \<Rightarrow> 0 | Some s \<Rightarrow> s) in
      if 0 < seq \<and> seq < current_seq then (Some (OutOfOrder current_seq seq), st)
      else if current_seq < seq
        then (None, st\<lparr>sequences := (sequences st)(run_id \<mapsto> seq)\<rparr>)
      else (None, st))"

text \<open>Third critical section, under the write lock of \<open>batches\<close>.\<close>

definition record_new :: "IdempotencyStore \<Rightarrow> BatchRecord \<Rightarrow> IdempotencyStore" where
  "record_new st b = st\<lparr>batches := (batches st)(batch_key b \<mapsto> b)\<rparr>"

definition check_and_record ::
  "IdempotencyStore \<Rightarrow> BatchRecord \<Rightarrow> IdempotencyResult \<times> IdempotencyStore" where
  "check_and_record st b =
     (case check_existing st (br_run_id b) (br_batch_id b) (br_payload_hash b) of
        Some r \<Rightarrow> (r, st)
      | None \<Rightarrow>
          (let (seq_result, st1) = advance_sequence st (br_run_id b) (br_seq b);
               st2 = record_new st1 b
           in (case seq_result of None \<Rightarrow> New | Some r \<Rightarrow> r, st2)))"

definition check_only ::
  "IdempotencyStore \<Rightarrow> string \<Rightarrow> string \<Rightarrow> string \<Rightarrow> IdempotencyResult" where
  "check_only st run_id batch_id payload_hash =
     (case batches st (run_id, batch_id) of
        Some existing \<Rightarrow>
          if br_payload_hash existing = payload_hash then Duplicate
          else Conflict (br_payload_hash existing) payload_hash
      | None \<Rightarrow> New)"

definition get_batch :: "IdempotencyStore \<Rightarrow> string \<Rightarrow> string \<Rightarrow> BatchRecord option" where
  "get_batch st run_id batch_id = batches st (run_id, batch_id)"

definition get_sequence :: "IdempotencyStore \<Rightarrow> string \<Rightarrow> int" where
  "get_sequence st run_id = (case sequences st run_id of None \<Rightarrow> 0 | Some s \<Rightarrow> s)"

text \<open>The records of a run; the order of a hash map's values is not specified, so a set.\<close>

definition get_batches_for_run :: "IdempotencyStore \<Rightarrow> string \<Rightarrow> BatchRecord set" where
  "get_batches_for_run st run_id = {b \<in> ran (batches st). br_run_id b = run_id}"

definition idem_clear_run :: "IdempotencyStore \<Rightarrow> string \<Rightarrow> IdempotencyStore" where
  "idem_clear_run st run_id =
     st\<lparr>batches := (\<lambda>k. if fst k \<noteq> run_id then batches st k else None),
        sequences := (sequences st)(run_id := None)\<rparr>"

section \<open>The payload hash\<close>

record MetricPayload =
  mp_name :: string
  mp_value :: "64 word"
  mp_step :: int

record ParamPayload =
  pp_name :: string
  pp_value :: string

record TagPayload =
  tp_key :: string
  tp_value :: string

record EventPayload =
  ep_level :: string
  ep_source :: string
  ep_message :: string
  ep_step :: "int option"
  ep_timestamp :: "64 word option"

definition metric_key :: "MetricPayload \<Rightarrow> string \<times> int" where
  "metric_key m = (mp_name m, mp_step m)"

definition metric_bytes :: "MetricPayload \<Rightarrow> string" where
  "metric_bytes m = mp_name m @ i64_le_bytes (mp_step m) @ u64_le_bytes (mp_value m)"

definition param_bytes :: "ParamPayload \<Rightarrow> string" where
  "param_bytes p = pp_name p @ pp_value p"

definition tag_bytes :: "TagPayload \<Rightarrow> string" where
  "tag_bytes t = tp_key t @ tp_value t"

definition event_key ::
  "EventPayload \<Rightarrow> int option \<times> string \<times> string \<times> string \<times> nat" where
  "event_key e =
     (ep_step e, ep_level e, ep_source e, ep_message e,
      case ep_timestamp e of None \<Rightarrow> 0 | Some bits \<Rightarrow> unat bits)"

definition event_bytes :: "EventPayload \<Rightarrow> string" where
  "event_bytes e =
     ep_level e @ ep_source e @ ep_message e
     @ (case ep_step e of Some step \<Rightarrow> i64_le_bytes step | None \<Rightarrow> i64_le_bytes 0)
     @ (case ep_timestamp e of Some bits \<Rightarrow> u64_le_bytes bits | None \<Rightarrow> u64_le_bytes 0)"

text \<open>
  The digest function (SHA-256 of the crate sha2, printed in hexadecimal) is the parameter
  \<open>digest\<close>; what is modelled is the byte sequence the code feeds it.
\<close>

definition hash_input ::
  "MetricPayload list \<Rightarrow> ParamPayload list \<Rightarrow> TagPayload list \<Rightarrow> EventPayload list \<Rightarrow> string" where
  "hash_input metrics params tags events =
     concat (map metric_bytes (sort_key metric_key metrics))
     @ concat (map param_bytes (sort_key pp_name params))
     @ concat (map tag_bytes (sort_key tp_key tags))
     @ concat (map event_bytes (sort_key event_key events))"

definition compute_payload_hash ::
  "(string \<Rightarrow> string) \<Rightarrow> MetricPayload list \<Rightarrow> ParamPayload list \<Rightarrow> TagPayload list
     \<Rightarrow> EventPayload list \<Rightarrow> string" where
  "compute_payload_hash digest metrics params tags events =
     digest (hash_input metrics params tags events)"

section \<open>Behaviour of a single call\<close>

lemmas idem_defs = check_and_record_def check_existing_def advance_sequence_def record_new_def

lemma check_and_record_seen:
  assumes "batches st (batch_key b) = Some old"
  shows "check_and_record st b =
    (if br_payload_hash old = br_payload_hash b then Duplicate
     else Conflict (br_payload_hash old) (br_payload_hash b), st)"
  using assms by (simp add: idem_defs)

lemma check_and_record_unseen:
  assumes "batches st (batch_key b) = None"
  shows "check_and_record st b =
    (let cur = get_sequence st (br_run_id b) in
     (if 0 < br_seq b \<and> br_seq b < cur then OutOfOrder cur (br_seq b) else New,
      st\<lparr>batches := (batches st)(batch_key b \<mapsto> b),
         sequences := (if cur < br_seq b then (sequences st)(br_run_id b \<mapsto> br_seq b)
                       else sequences st)\<rparr>))"
  using assms by (auto simp: idem_defs get_sequence_def Let_def)

lemma batches_check_and_record:
  "batches (snd (check_and_record st b)) =
     (if batches st (batch_key b) = None then (batches st)(batch_key b \<mapsto> b) else batches st)"
  by (cases "batches st (batch_key b)")
     (simp_all add: check_and_record_seen check_and_record_unseen Let_def)

lemma should_process_check_and_record:
  "should_process (fst (check_and_record st b)) \<longleftrightarrow> batches st (batch_key b) = None"
  by (cases "batches st (batch_key b)")
     (auto simp: check_and_record_seen check_and_record_unseen should_process_def Let_def)

lemma get_sequence_check_and_record:
  "get_sequence (snd (check_and_record st b)) r =
     (if r = br_run_id b \<and> batches st (batch_key b) = None
      then max (get_sequence st r) (br_seq b) else get_sequence st r)"
  by (cases "batches st (batch_key b)")
     (auto simp: check_and_record_seen check_and_record_unseen get_sequence_def Let_def max_def
       split: option.splits)

lemma check_only_agrees:
  "check_only st (br_run_id b) (br_batch_id b) (br_payload_hash b) \<noteq> New \<Longrightarrow>
   check_and_record st b = (check_only st (br_run_id b) (br_batch_id b) (br_payload_hash b), st)"
  by (auto simp: check_only_def idem_defs split: option.splits if_splits)


section \<open>The contract of a deduplicating store\<close>

text \<open>
  What a retrying client relies on: a request whose key has not been seen is processed and
  its fingerprint is remembered under that key; a request whose key has been seen is not
  processed and changes nothing.
\<close>

locale dedup_store =
  fixes submit :: "'st \<Rightarrow> 'req \<Rightarrow> 'res \<times> 'st"
    and seen :: "'st \<Rightarrow> 'key \<rightharpoonup> 'fp"
    and key :: "'req \<Rightarrow> 'key"
    and fp :: "'req \<Rightarrow> 'fp"
    and processed :: "'res \<Rightarrow> bool"
  assumes submit_new: "seen st (key r) = None \<Longrightarrow>
      processed (fst (submit st r)) \<and> seen (snd (submit st r)) = (seen st)(key r \<mapsto> fp r)"
    and submit_seen: "seen st (key r) = Some f \<Longrightarrow>
      \<not> processed (fst (submit st r)) \<and> snd (submit st r) = st"
begin

text \<open>A client's history: the requests in the order they reach the store.\<close>

fun submit_all :: "'st \<Rightarrow> 'req list \<Rightarrow> 'res list \<times> 'st" where
  "submit_all st [] = ([], st)"
| "submit_all st (r # rs) =
     (let (x, st1) = submit st r; (xs, st2) = submit_all st1 rs in (x # xs, st2))"

definition processed_with_key :: "'st \<Rightarrow> 'req list \<Rightarrow> 'key \<Rightarrow> nat" where
  "processed_with_key st rs k =
     length (filter (\<lambda>(r, x). key r = k \<and> processed x) (zip rs (fst (submit_all st rs))))"

lemma seen_submit: "seen (snd (submit st r)) = (if seen st (key r) = None
    then (seen st)(key r \<mapsto> fp r) else seen st)"
  using submit_new submit_seen by (cases "seen st (key r)") auto

lemma processed_submit: "processed (fst (submit st r)) \<longleftrightarrow> seen st (key r) = None"
  using submit_new submit_seen by (cases "seen st (key r)") auto

lemma submit_all_Cons:
  "submit_all st (r # rs) =
     (fst (submit st r) # fst (submit_all (snd (submit st r)) rs),
      snd (submit_all (snd (submit st r)) rs))"
  by (simp add: case_prod_beta Let_def)

lemma seen_mono: "seen st k = Some f \<Longrightarrow> seen (snd (submit_all st rs)) k = Some f"
proof (induction rs arbitrary: st)
  case (Cons r rs)
  have "seen (snd (submit st r)) k = Some f"
    using Cons.prems by (auto simp: seen_submit)
  then show ?case using Cons.IH by (simp add: submit_all_Cons del: submit_all.simps)
qed simp

lemma processed_with_key_Cons:
  "processed_with_key st (r # rs) k =
     (if key r = k \<and> seen st k = None then 1 else 0)
     + processed_with_key (snd (submit st r)) rs k"
  unfolding processed_with_key_def
  by (auto simp: submit_all_Cons processed_submit simp del: submit_all.simps)

lemma processed_none_if_seen: "seen st k = Some f \<Longrightarrow> processed_with_key st rs k = 0"
proof (induction rs arbitrary: st)
  case (Cons r rs)
  then have "seen (snd (submit st r)) k = Some f" by (auto simp: seen_submit)
  with Cons show ?case by (simp add: processed_with_key_Cons)
qed (simp add: processed_with_key_def)

theorem exactly_once:
  "seen st k = None \<Longrightarrow>
   processed_with_key st rs k = (if k \<in> key ` set rs then 1 else 0)"
proof (induction rs arbitrary: st)
  case Nil
  then show ?case by (simp add: processed_with_key_def)
next
  case (Cons r rs)
  show ?case
  proof (cases "key r = k")
    case True
    with Cons.prems have "seen (snd (submit st r)) k = Some (fp r)"
      by (simp add: seen_submit)
    with True Cons.prems show ?thesis
      by (simp add: processed_with_key_Cons processed_none_if_seen)
  next
    case False
    with Cons.prems have "seen (snd (submit st r)) k = None" by (simp add: seen_submit)
    with False Cons show ?thesis by (simp add: processed_with_key_Cons)
  qed
qed

lemma first_fingerprint_kept:
  "seen st (key r) = None \<Longrightarrow> seen (snd (submit_all st (r # rs))) (key r) = Some (fp r)"
  by (simp add: submit_all_Cons seen_mono seen_submit del: submit_all.simps)

end

definition hash_of_batch :: "IdempotencyStore \<Rightarrow> string \<times> string \<rightharpoonup> string" where
  "hash_of_batch st k = map_option br_payload_hash (batches st k)"

interpretation idem: dedup_store check_and_record hash_of_batch batch_key br_payload_hash
    should_process
proof unfold_locales
  fix st b
  assume "hash_of_batch st (batch_key b) = None"
  then have none: "batches st (batch_key b) = None" by (simp add: hash_of_batch_def)
  then show "should_process (fst (check_and_record st b))
      \<and> hash_of_batch (snd (check_and_record st b))
          = (hash_of_batch st)(batch_key b \<mapsto> br_payload_hash b)"
    by (auto simp: should_process_check_and_record batches_check_and_record hash_of_batch_def
      fun_eq_iff)
next
  fix st b f
  assume "hash_of_batch st (batch_key b) = Some f"
  then show "\<not> should_process (fst (check_and_record st b)) \<and> snd (check_and_record st b) = st"
    by (auto simp: hash_of_batch_def should_process_check_and_record check_and_record_seen)
qed

section \<open>Order independence and collisions of the payload hash\<close>

lemma sort_key_bytes_perm:
  assumes "mset xs = mset ys" and "bytes = g \<circ> k"
  shows "concat (map bytes (sort_key k xs)) = concat (map bytes (sort_key k ys))"
proof -
  have "map k (sort_key k zs) = sort (map k zs)" for zs
    by (rule properties_for_sort [symmetric]) simp_all
  moreover have "sort (map k xs) = sort (map k ys)"
    using assms(1) by (metis mset_map properties_for_sort mset_sort sorted_sort)
  ultimately have "map k (sort_key k xs) = map k (sort_key k ys)" by simp
  then have "map g (map k (sort_key k xs)) = map g (map k (sort_key k ys))" by simp
  then have "map bytes (sort_key k xs) = map bytes (sort_key k ys)"
    unfolding assms(2) by simp
  then show ?thesis by simp
qed

lemma sort_key_perm:
  assumes "mset xs = mset ys" and "distinct (map k xs)"
  shows "sort_key k xs = sort_key k ys"
proof (rule sort_key_inj_key_eq)
  show "inj_on k (set xs)" using assms(2) by (simp add: distinct_map)
qed (use assms in simp_all)

lemma event_bytes_of_key:
  "event_bytes = (\<lambda>(step, level, source, message, bits).
     level @ source @ message @ i64_le_bytes (case step of None \<Rightarrow> 0 | Some s \<Rightarrow> s)
     @ u64_le_bytes (of_nat bits)) \<circ> event_key"
  by (auto simp: event_bytes_def event_key_def fun_eq_iff split: option.splits)

lemma hash_input_perm:
  assumes "mset metrics = mset metrics'" "distinct (map metric_key metrics)"
    and "mset params = mset params'" "distinct (map pp_name params)"
    and "mset tags = mset tags'" "distinct (map tp_key tags)"
    and "mset events = mset events'"
  shows "hash_input metrics params tags events = hash_input metrics' params' tags' events'"
  unfolding hash_input_def
  using sort_key_perm [OF assms(1,2)] sort_key_perm [OF assms(3,4)] sort_key_perm [OF assms(5,6)]
    sort_key_bytes_perm [OF assms(7) event_bytes_of_key]
  by simp


section \<open>Concurrent calls\<close>

text \<open>
  Concurrent calls interleave at the three critical sections. A thread is a call's
  arguments with its program counter; a step runs one critical section of one thread.
\<close>

datatype idem_pc =
    Start
  | Checked
  | Sequenced "IdempotencyResult option"
  | Finished IdempotencyResult

type_synonym idem_sys = "IdempotencyStore \<times> (BatchRecord \<times> idem_pc) list"

inductive idem_step :: "idem_sys \<Rightarrow> idem_sys \<Rightarrow> bool" where
  hit: "i < length ths \<Longrightarrow> ths ! i = (b, Start) \<Longrightarrow>
     check_existing st (br_run_id b) (br_batch_id b) (br_payload_hash b) = Some r \<Longrightarrow>
     idem_step (st, ths) (st, ths[i := (b, Finished r)])"
| miss: "i < length ths \<Longrightarrow> ths ! i = (b, Start) \<Longrightarrow>
     check_existing st (br_run_id b) (br_batch_id b) (br_payload_hash b) = None \<Longrightarrow>
     idem_step (st, ths) (st, ths[i := (b, Checked)])"
| sequence: "i < length ths \<Longrightarrow> ths ! i = (b, Checked) \<Longrightarrow>
     advance_sequence st (br_run_id b) (br_seq b) = (r, st') \<Longrightarrow>
     idem_step (st, ths) (st', ths[i := (b, Sequenced r)])"
| store: "i < length ths \<Longrightarrow> ths ! i = (b, Sequenced r) \<Longrightarrow>
     idem_step (st, ths)
       (record_new st b, ths[i := (b, Finished (case r of None \<Rightarrow> New | Some x \<Rightarrow> x))])"

definition idem_start :: "IdempotencyStore \<Rightarrow> BatchRecord list \<Rightarrow> idem_sys" where
  "idem_start st bs = (st, map (\<lambda>b. (b, Start)) bs)"

inductive idem_reach :: "idem_sys \<Rightarrow> idem_sys \<Rightarrow> bool" for s0 where
  reach_start: "idem_reach s0 s0"
| reach_step: "idem_reach s0 s \<Longrightarrow> idem_step s t \<Longrightarrow> idem_reach s0 t"

lemma advance_sequence_batches:
  "advance_sequence st r q = (x, st') \<Longrightarrow> batches st' = batches st"
  by (auto simp: advance_sequence_def Let_def split: if_splits)

lemma advance_sequence_result:
  "advance_sequence st r q = (x, st') \<Longrightarrow> should_process (case x of None \<Rightarrow> New | Some y \<Rightarrow> y)"
  by (auto simp: advance_sequence_def Let_def should_process_def split: if_splits)

lemma check_existing_Some:
  "check_existing st r q h = Some x \<Longrightarrow> batches st (r, q) \<noteq> None \<and> \<not> should_process x"
  by (auto simp: check_existing_def should_process_def split: option.splits if_splits)

lemma check_existing_None: "check_existing st r q h = None \<longleftrightarrow> batches st (r, q) = None"
  by (simp add: check_existing_def split: option.splits)

text \<open>
  The invariant of a system of calls with pairwise distinct keys: what is recorded now was
  recorded at the start or by a finished, processed call, and a call past its check has a
  key that was not recorded at the start.
\<close>

definition pc_ok :: "IdempotencyStore \<Rightarrow> BatchRecord \<Rightarrow> idem_pc \<Rightarrow> bool" where
  "pc_ok st0 b pc = (case pc of
     Start \<Rightarrow> True
   | Checked \<Rightarrow> batches st0 (batch_key b) = None
   | Sequenced x \<Rightarrow> batches st0 (batch_key b) = None
       \<and> should_process (case x of None \<Rightarrow> New | Some y \<Rightarrow> y)
   | Finished x \<Rightarrow> should_process x \<longleftrightarrow> batches st0 (batch_key b) = None)"

definition finished_keys :: "(BatchRecord \<times> idem_pc) list \<Rightarrow> (string \<times> string) set" where
  "finished_keys ths =
     {batch_key (fst (ths ! i)) |i. i < length ths \<and> (\<exists>x. snd (ths ! i) = Finished x)}"

definition idem_inv :: "IdempotencyStore \<Rightarrow> BatchRecord list \<Rightarrow> idem_sys \<Rightarrow> bool" where
  "idem_inv st0 bs s \<longleftrightarrow>
     map fst (snd s) = bs
   \<and> (\<forall>th \<in> set (snd s). pc_ok st0 (fst th) (snd th))
   \<and> dom (batches st0) \<subseteq> dom (batches (fst s))
   \<and> dom (batches (fst s)) \<subseteq> dom (batches st0) \<union> finished_keys (snd s)"

lemma idem_inv_start: "idem_inv st bs (idem_start st bs)"
  by (auto simp: idem_inv_def idem_start_def pc_ok_def comp_def)

lemma map_fst_update: "i < length ths \<Longrightarrow> ths ! i = (b, pc) \<Longrightarrow> map fst (ths[i := (b, pc')]) = map fst ths"
  by (metis fst_conv list_update_id map_update nth_map)

lemma finished_keys_update:
  assumes "i < length ths" "ths ! i = (b, pc)" "\<And>x. pc \<noteq> Finished x"
  shows "finished_keys (ths[i := (b, pc')]) =
    finished_keys ths \<union> (if \<exists>x. pc' = Finished x then {batch_key b} else {})"
  using assms unfolding finished_keys_def
  by (auto simp: nth_list_update split: if_splits) (metis snd_conv)+

lemma idem_inv_update:
  assumes inv: "idem_inv st0 bs (st, ths)"
    and i: "i < length ths" "ths ! i = (b, pc)" "\<And>x. pc \<noteq> Finished x"
    and pc': "pc_ok st0 b pc'"
    and grow: "dom (batches st) \<subseteq> dom (batches st')"
    and only: "dom (batches st') \<subseteq> dom (batches st) \<union> (if \<exists>x. pc' = Finished x then {batch_key b} else {})"
  shows "idem_inv st0 bs (st', ths[i := (b, pc')])"
proof -
  have "\<forall>th \<in> set (ths[i := (b, pc')]). pc_ok st0 (fst th) (snd th)"
    using inv pc' set_update_subset_insert [of ths i "(b, pc')"] by (auto simp: idem_inv_def)
  moreover have "map fst (ths[i := (b, pc')]) = bs"
    using inv i by (simp add: idem_inv_def map_fst_update)
  moreover have "dom (batches st0) \<subseteq> dom (batches st')"
    using inv grow unfolding idem_inv_def by force
  moreover have "dom (batches st') \<subseteq> dom (batches st0) \<union> finished_keys (ths[i := (b, pc')])"
    unfolding finished_keys_update [OF i] using inv only
    unfolding idem_inv_def fst_conv snd_conv by blast
  ultimately show ?thesis unfolding idem_inv_def by simp
qed

lemma idem_inv_pc: "idem_inv st0 bs (st, ths) \<Longrightarrow> i < length ths \<Longrightarrow> ths ! i = (b, pc) \<Longrightarrow> pc_ok st0 b pc"
  unfolding idem_inv_def by (metis fst_conv nth_mem snd_conv)

lemma recorded_at_start:
  assumes inv: "idem_inv st0 bs (st, ths)" and d: "distinct (map batch_key bs)"
    and i: "i < length ths" "ths ! i = (b, Start)" and b: "batches st (batch_key b) \<noteq> None"
  shows "batches st0 (batch_key b) \<noteq> None"
proof (rule ccontr)
  assume "\<not> batches st0 (batch_key b) \<noteq> None"
  then have "batch_key b \<notin> dom (batches st0)" by (simp add: dom_def)
  moreover have "batch_key b \<in> dom (batches st)" using b by (simp add: dom_def)
  ultimately have "batch_key b \<in> finished_keys ths" using inv unfolding idem_inv_def by auto
  then obtain j x where j: "j < length ths" "snd (ths ! j) = Finished x"
    "batch_key (fst (ths ! j)) = batch_key (fst (ths ! i))"
    using i by (auto simp: finished_keys_def)
  from inv have "bs = map fst ths" by (simp add: idem_inv_def)
  then have "map batch_key bs ! j = map batch_key bs ! i" using i j by simp
  then have "j = i" using d i j \<open>bs = map fst ths\<close> by (subst (asm) nth_eq_iff_index_eq) simp_all
  with i j show False by simp
qed

lemma idem_step_inv:
  assumes "idem_step s t" and inv: "idem_inv st0 bs s" and d: "distinct (map batch_key bs)"
  shows "idem_inv st0 bs t"
  using assms(1)
proof cases
  case (hit i ths b st r)
  have "batches st (batch_key b) \<noteq> None" "\<not> should_process r"
    using check_existing_Some [OF hit(5)] by simp_all
  with recorded_at_start [OF _ d hit(3,4)] inv hit(1) have "pc_ok st0 b (Finished r)"
    by (simp add: pc_ok_def)
  with inv hit show ?thesis by (auto intro: idem_inv_update)
next
  case (miss i ths b st)
  then have "batch_key b \<notin> dom (batches st)" by (simp add: check_existing_None domIff)
  then have "batch_key b \<notin> dom (batches st0)" using inv miss(1) unfolding idem_inv_def by auto
  then have "pc_ok st0 b Checked" by (simp add: pc_ok_def domIff)
  with inv miss show ?thesis by (auto intro: idem_inv_update)
next
  case (sequence i ths b st r st')
  then have "pc_ok st0 b (Sequenced r)"
    using inv idem_inv_pc [of st0 bs st ths i b Checked] advance_sequence_result
    by (auto simp: pc_ok_def)
  with inv sequence show ?thesis
    by (auto intro: idem_inv_update simp: advance_sequence_batches)
next
  case (store i ths b r st)
  then have "pc_ok st0 b (Sequenced r)" using inv idem_inv_pc by blast
  then have "pc_ok st0 b (Finished (case r of None \<Rightarrow> New | Some x \<Rightarrow> x))"
    by (auto simp: pc_ok_def)
  with inv store show ?thesis
    by (auto intro!: idem_inv_update simp: record_new_def)
qed

lemma idem_reach_inv:
  "idem_reach (idem_start st bs) s \<Longrightarrow> distinct (map batch_key bs) \<Longrightarrow> idem_inv st bs s"
  by (induction rule: idem_reach.induct) (auto intro: idem_inv_start idem_step_inv)


section \<open>Properties\<close>

text \<open>The results of a sequence of calls, one after the other.\<close>

fun submit_batches ::
  "IdempotencyStore \<Rightarrow> BatchRecord list \<Rightarrow> IdempotencyResult list \<times> IdempotencyStore" where
  "submit_batches st [] = ([], st)"
| "submit_batches st (b # bs) =
     (let (r, st1) = check_and_record st b; (rs, st2) = submit_batches st1 bs in (r # rs, st2))"

lemma submit_batches_eq: "submit_batches st bs = idem.submit_all st bs"
  by (induction bs arbitrary: st) simp_all

text \<open>
  C1: Exactly once under retries. However often and in whatever order the batches of a
  client are sent, the calls that carry one (run, batch) key not seen before answer "process"
  exactly once, and every other call with that key answers Duplicate or Conflict.
\<close>

theorem ingest_exactly_once:
  assumes "batches st k = None"
  shows "length (filter (\<lambda>(b, r). batch_key b = k \<and> should_process r)
           (zip bs (fst (submit_batches st bs)))) = (if k \<in> batch_key ` set bs then 1 else 0)"
  using idem.exactly_once [of st k bs] assms
  unfolding submit_batches_eq idem.processed_with_key_def by (simp add: hash_of_batch_def)

definition sample_batch :: "string \<Rightarrow> int \<Rightarrow> string \<Rightarrow> BatchRecord" where
  "sample_batch bid seq h =
     \<lparr>br_project_id = ''p'', br_run_id = ''r'', br_batch_id = bid, br_seq = seq,
      br_payload_hash = h, br_metric_count = 1, br_param_count = 0, br_tag_count = 0,
      br_event_count = 0, br_created_at = 7\<rparr>"

lemma ingest_exactly_once_witness:
  "batches idem_new (''r'', ''b1'') = None \<and>
   length (filter (\<lambda>(b, r). batch_key b = (''r'', ''b1'') \<and> should_process r)
     (zip [sample_batch ''b1'' 1 ''h'', sample_batch ''b2'' 2 ''g'', sample_batch ''b1'' 1 ''h'']
        (fst (submit_batches idem_new
          [sample_batch ''b1'' 1 ''h'', sample_batch ''b2'' 2 ''g'', sample_batch ''b1'' 1 ''h'']))))
   = 1"
proof -
  have h: "batches idem_new (''r'', ''b1'') = None" by (simp add: idem_new_def)
  show ?thesis
    using h ingest_exactly_once [OF h, of "[sample_batch ''b1'' 1 ''h'', sample_batch ''b2'' 2 ''g'',
      sample_batch ''b1'' 1 ''h'']"]
    by (simp add: sample_batch_def)
qed

text \<open>
  One call in full. A key on record gives Duplicate or Conflict by comparing hashes and
  leaves the store alone; a new key is recorded, the run's sequence number becomes the
  maximum of the old one and the batch's, and the answer is OutOfOrder exactly when the
  batch's positive number is below the old one.
\<close>

lemma check_and_record_spec:
  "check_and_record st b =
     (case get_batch st (br_run_id b) (br_batch_id b) of
        Some old \<Rightarrow>
          (if br_payload_hash old = br_payload_hash b then Duplicate
           else Conflict (br_payload_hash old) (br_payload_hash b), st)
      | None \<Rightarrow>
          (if 0 < br_seq b \<and> br_seq b < get_sequence st (br_run_id b)
             then OutOfOrder (get_sequence st (br_run_id b)) (br_seq b) else New,
           st\<lparr>batches := (batches st)((br_run_id b, br_batch_id b) \<mapsto> b),
              sequences := (if get_sequence st (br_run_id b) < br_seq b
                then (sequences st)(br_run_id b \<mapsto> br_seq b) else sequences st)\<rparr>))
   \<and> get_sequence (snd (check_and_record st b)) (br_run_id b)
       = (if get_batch st (br_run_id b) (br_batch_id b) = None
          then max (get_sequence st (br_run_id b)) (br_seq b)
          else get_sequence st (br_run_id b))"
proof
  show "check_and_record st b =
     (case get_batch st (br_run_id b) (br_batch_id b) of
        Some old \<Rightarrow>
          (if br_payload_hash old = br_payload_hash b then Duplicate
           else Conflict (br_payload_hash old) (br_payload_hash b), st)
      | None \<Rightarrow>
          (if 0 < br_seq b \<and> br_seq b < get_sequence st (br_run_id b)
             then OutOfOrder (get_sequence st (br_run_id b)) (br_seq b) else New,
           st\<lparr>batches := (batches st)((br_run_id b, br_batch_id b) \<mapsto> b),
              sequences := (if get_sequence st (br_run_id b) < br_seq b
                then (sequences st)(br_run_id b \<mapsto> br_seq b) else sequences st)\<rparr>))"
    by (cases "batches st (batch_key b)")
       (simp_all add: get_batch_def check_and_record_seen check_and_record_unseen Let_def)
qed (simp add: get_sequence_check_and_record get_batch_def)

text \<open>
  The hash does not depend on the order of the batch: metrics with distinct (name, step)
  pairs, parameters and tags with distinct names, and arbitrary events may be permuted.
\<close>

lemma payload_hash_order_independent:
  assumes "mset metrics = mset metrics'" "distinct (map metric_key metrics)"
    and "mset params = mset params'" "distinct (map pp_name params)"
    and "mset tags = mset tags'" "distinct (map tp_key tags)"
    and "mset events = mset events'"
  shows "compute_payload_hash digest metrics params tags events
       = compute_payload_hash digest metrics' params' tags' events'"
  unfolding compute_payload_hash_def using hash_input_perm [OF assms] by simp

lemma payload_hash_order_independent_witness:
  "\<exists>params params'. params \<noteq> params' \<and> distinct (map pp_name params)
     \<and> compute_payload_hash rev [] params [] [] = compute_payload_hash rev [] params' [] []"
proof -
  let ?a = "\<lparr>pp_name = ''lr'', pp_value = ''1''\<rparr>" and ?b = "\<lparr>pp_name = ''bs'', pp_value = ''8''\<rparr>"
  have "compute_payload_hash rev [] [?a, ?b] [] [] = compute_payload_hash rev [] [?b, ?a] [] []"
    by (rule payload_hash_order_independent) simp_all
  then show ?thesis by (intro exI [of _ "[?a, ?b]"] exI [of _ "[?b, ?a]"]) simp
qed

text \<open>
  The fields are concatenated without lengths or separators, so whatever the digest is,
  moving the boundary between a parameter's name and value leaves the hash unchanged: a
  different batch under the same key is then answered Duplicate instead of Conflict.
\<close>

lemma payload_hash_boundary_collision:
  "compute_payload_hash digest ms (\<lparr>pp_name = n, pp_value = x @ v\<rparr> # []) ts es
   = compute_payload_hash digest ms (\<lparr>pp_name = n @ x, pp_value = v\<rparr> # []) ts es"
  by (simp add: compute_payload_hash_def hash_input_def param_bytes_def)

text \<open>
  Concurrent calls with pairwise distinct keys: in every interleaving of their critical
  sections a call that has finished answers "process" exactly when its key was not on record
  at the start.
\<close>

lemma concurrent_distinct_batches:
  assumes "distinct (map batch_key bs)" and "idem_reach (idem_start st bs) (st', ths)"
    and "i < length ths" and "ths ! i = (b, Finished r)"
  shows "should_process r \<longleftrightarrow> batches st (batch_key b) = None"
  using idem_inv_pc [OF idem_reach_inv [OF assms(2,1)] assms(3,4)] by (simp add: pc_ok_def)

lemma concurrent_distinct_batches_witness:
  "should_process New \<longleftrightarrow> batches idem_new (batch_key (sample_batch ''b1'' 0 ''h'')) = None"
proof -
  let ?b = "sample_batch ''b1'' 0 ''h''"
  have "idem_step (idem_start idem_new [?b]) (idem_new, [(?b, Checked)])"
    using miss [of 0 "[(?b, Start)]" ?b idem_new]
    by (simp add: idem_start_def check_existing_def idem_new_def)
  moreover have "idem_step (idem_new, [(?b, Checked)]) (idem_new, [(?b, Sequenced None)])"
    using sequence [of 0 "[(?b, Checked)]" ?b idem_new None idem_new]
    by (simp add: advance_sequence_def idem_new_def sample_batch_def)
  moreover have "idem_step (idem_new, [(?b, Sequenced None)])
      (record_new idem_new ?b, [(?b, Finished New)])"
    using store [of 0 "[(?b, Sequenced None)]" ?b None idem_new] by simp
  ultimately have "idem_reach (idem_start idem_new [?b])
      (record_new idem_new ?b, [(?b, Finished New)])"
    by (meson reach_start reach_step)
  then show ?thesis
    using concurrent_distinct_batches [of "[?b]" idem_new "record_new idem_new ?b"
      "[(?b, Finished New)]" 0 ?b New] by simp
qed

text \<open>
  The check and the recording are separate critical sections, so two concurrent calls
  with the same new batch can both pass the check: there is an interleaving in which both
  answer New and the batch is processed twice.
\<close>

lemma concurrent_same_batch_race:
  "\<exists>st. idem_reach (idem_start idem_new [sample_batch ''b1'' 0 ''h'', sample_batch ''b1'' 0 ''h''])
     (st, [(sample_batch ''b1'' 0 ''h'', Finished New), (sample_batch ''b1'' 0 ''h'', Finished New)])"
proof -
  let ?b = "sample_batch ''b1'' 0 ''h''"
  have adv: "advance_sequence idem_new (br_run_id ?b) (br_seq ?b) = (None, idem_new)"
    by (simp add: advance_sequence_def idem_new_def sample_batch_def)
  have none: "check_existing idem_new (br_run_id ?b) (br_batch_id ?b) (br_payload_hash ?b) = None"
    by (simp add: check_existing_def idem_new_def)
  have adv': "advance_sequence (record_new idem_new ?b) (br_run_id ?b) (br_seq ?b)
      = (None, record_new idem_new ?b)"
    by (simp add: advance_sequence_def idem_new_def record_new_def sample_batch_def)
  have s1: "idem_step (idem_start idem_new [?b, ?b]) (idem_new, [(?b, Checked), (?b, Start)])"
    using miss [of 0 "[(?b, Start), (?b, Start)]" ?b idem_new] none by (simp add: idem_start_def)
  have s2: "idem_step (idem_new, [(?b, Checked), (?b, Start)])
      (idem_new, [(?b, Checked), (?b, Checked)])"
    using miss [of 1 "[(?b, Checked), (?b, Start)]" ?b idem_new] none by simp
  have s3: "idem_step (idem_new, [(?b, Checked), (?b, Checked)])
      (idem_new, [(?b, Sequenced None), (?b, Checked)])"
    using sequence [of 0 "[(?b, Checked), (?b, Checked)]" ?b idem_new] adv by simp
  have s4: "idem_step (idem_new, [(?b, Sequenced None), (?b, Checked)])
      (record_new idem_new ?b, [(?b, Finished New), (?b, Checked)])"
    using store [of 0 "[(?b, Sequenced None), (?b, Checked)]" ?b None idem_new] by simp
  have s5: "idem_step (record_new idem_new ?b, [(?b, Finished New), (?b, Checked)])
      (record_new idem_new ?b, [(?b, Finished New), (?b, Sequenced None)])"
    using sequence [of 1 "[(?b, Finished New), (?b, Checked)]" ?b] adv' by simp
  have s6: "idem_step (record_new idem_new ?b, [(?b, Finished New), (?b, Sequenced None)])
      (record_new (record_new idem_new ?b) ?b, [(?b, Finished New), (?b, Finished New)])"
    using store [of 1 "[(?b, Finished New), (?b, Sequenced None)]" ?b None] by simp
  show ?thesis
    using reach_start [of "idem_start idem_new [?b, ?b]"] s1 s2 s3 s4 s5 s6
    by (meson reach_step)
qed

end
