(* ===== verification/Cardinality_Limits.thy ===== *)
theory Cardinality_Limits
  imports Prelude "HOL-Library.FSet" "HOL-Library.Multiset" "HOL-Library.Sublist"
begin

text \<open>
  The cardinality guardrails (services/limits.rs): per run the tag keys and metric names seen,
  per project the tag pairs seen, and the validation of a batch against the configured
  limits. Slicing a string at an index that is not a character boundary panics in Rust, so
  the validation of a batch is an option: \<^const>\<open>None\<close> is the panic, and \<open>tracker_left\<close> the tracker
  that it leaves.
\<close>

section \<open>Configuration and state\<close>

record LimitsConfig =
  max_tag_keys_per_run :: nat
  max_metric_names_per_run :: nat
  max_tags_per_project :: nat
  max_tag_key_length :: nat
  max_tag_value_length :: nat
  max_metric_name_length :: nat

definition default_limits :: LimitsConfig where
  "default_limits =
     \<lparr>max_tag_keys_per_run = 100, max_metric_names_per_run = 1000, max_tags_per_project = 10000,
      max_tag_key_length = 256, max_tag_value_length = 1024, max_metric_name_length = 256\<rparr>"

text \<open>
  The environment is a map from variable names to values; \<open>parse_usize\<close> is Rust's
  \<open>usize::from_str\<close>: an optional plus sign, at least one decimal digit, no overflow.
\<close>

fun parse_digits :: "nat \<Rightarrow> string \<Rightarrow> nat option" where
  "parse_digits acc [] = Some acc"
| "parse_digits acc (c # cs) =
     (if 48 \<le> byte c \<and> byte c \<le> 57 then parse_digits (10 * acc + (byte c - 48)) cs else None)"

definition parse_unsigned :: "nat \<Rightarrow> string \<Rightarrow> nat option" where
  "parse_unsigned bound s =
     (let ds = (case s of c # cs \<Rightarrow> if c = CHR ''+'' then cs else s | [] \<Rightarrow> []) in
      if ds = [] then None
      else (case parse_digits 0 ds of
              None \<Rightarrow> None
            | Some n \<Rightarrow> if n \<le> bound then Some n else None))"

definition parse_usize :: "string \<Rightarrow> nat option" where
  "parse_usize s = parse_unsigned U64_MAX s"

definition env_usize :: "(string \<rightharpoonup> string) \<Rightarrow> string \<Rightarrow> nat \<Rightarrow> nat" where
  "env_usize env name d =
     (case env name of None \<Rightarrow> d
      | Some v \<Rightarrow> (case parse_usize v of None \<Rightarrow> d | Some n \<Rightarrow> n))"

definition limits_from_env :: "(string \<rightharpoonup> string) \<Rightarrow> LimitsConfig" where
  "limits_from_env env =
     default_limits
       \<lparr>max_tag_keys_per_run :=
          env_usize env ''MLRUNX_MAX_TAG_KEYS_PER_RUN'' (max_tag_keys_per_run default_limits),
        max_metric_names_per_run :=
          env_usize env ''MLRUNX_MAX_METRIC_NAMES_PER_RUN'' (max_metric_names_per_run default_limits),
        max_tags_per_project :=
          env_usize env ''MLRUNX_MAX_TAGS_PER_PROJECT'' (max_tags_per_project default_limits)\<rparr>"

record ValidationResult =
  accepted_tags :: "(string \<times> string) list"
  accepted_metrics :: "string list"
  dropped_tags :: "(string \<times> string) list"
  dropped_metrics :: "string list"
  warnings :: "string list"

definition empty_validation :: ValidationResult where
  "empty_validation =
     \<lparr>accepted_tags = [], accepted_metrics = [], dropped_tags = [], dropped_metrics = [],
      warnings = []\<rparr>"

definition has_drops :: "ValidationResult \<Rightarrow> bool" where
  "has_drops r \<longleftrightarrow> dropped_tags r \<noteq> [] \<or> dropped_metrics r \<noteq> []"

fun join_comma :: "string list \<Rightarrow> string" where
  "join_comma [] = []"
| "join_comma [s] = s"
| "join_comma (s # t # ts) = s @ '', '' @ join_comma (t # ts)"

definition summary_warning :: "ValidationResult \<Rightarrow> string option" where
  "summary_warning r =
     (if \<not> has_drops r then None
      else Some (''Cardinality limits exceeded: '' @ join_comma
        ((if dropped_tags r \<noteq> [] then [show_nat (length (dropped_tags r)) @ '' tags dropped''] else [])
         @ (if dropped_metrics r \<noteq> []
            then [show_nat (length (dropped_metrics r)) @ '' metrics dropped''] else []))))"

record RunCardinality =
  tag_keys :: "string fset"
  metric_names :: "string fset"

record ProjectCardinality =
  tag_pairs :: "(string \<times> string) fset"

record CardinalityTracker =
  ct_config :: LimitsConfig
  ct_runs :: "string \<rightharpoonup> RunCardinality"
  ct_projects :: "string \<rightharpoonup> ProjectCardinality"

definition tracker_new :: "LimitsConfig \<Rightarrow> CardinalityTracker" where
  "tracker_new cfg = \<lparr>ct_config = cfg, ct_runs = Map.empty, ct_projects = Map.empty\<rparr>"

section \<open>Validation of a batch\<close>

text \<open>A slice \<open>&s[..n]\<close>: the byte at a character boundary is not a continuation byte.\<close>

definition is_char_boundary :: "string \<Rightarrow> nat \<Rightarrow> bool" where
  "is_char_boundary s n \<longleftrightarrow>
     n = 0 \<or> n = length s \<or> n < length s \<and> \<not> (128 \<le> byte (s ! n) \<and> byte (s ! n) < 192)"

definition slice_to :: "string \<Rightarrow> nat \<Rightarrow> string option" where
  "slice_to s n = (if is_char_boundary s n then Some (take n s) else None)"

type_synonym tag_state = "RunCardinality \<times> ProjectCardinality \<times> ValidationResult"

definition validate_tag ::
  "LimitsConfig \<Rightarrow> string \<Rightarrow> string \<Rightarrow> string \<times> string \<Rightarrow> tag_state \<Rightarrow> tag_state option" where
  "validate_tag cfg project_id run_id kv s =
     (case (kv, s) of ((key, val), (run, project, result)) \<Rightarrow>
      if max_tag_key_length cfg < length key then
        (case slice_to key (min 32 (length key)) of
           None \<Rightarrow> None
         | Some start \<Rightarrow>
             Some (run, project,
               result\<lparr>warnings := warnings result @
                   [''Tag key '' @ sq (start @ ''...'') @ '' exceeds max length ''
                    @ show_nat (max_tag_key_length cfg)],
                 dropped_tags := dropped_tags result @ [(key, val)]\<rparr>))
      else if max_tag_value_length cfg < length val then
        Some (run, project,
          result\<lparr>warnings := warnings result @
              [''Tag value for '' @ sq key @ '' exceeds max length ''
               @ show_nat (max_tag_value_length cfg)],
            dropped_tags := dropped_tags result @ [(key, val)]\<rparr>)
      else if key |\<notin>| tag_keys run \<and> max_tag_keys_per_run cfg \<le> fcard (tag_keys run) then
        Some (run, project,
          result\<lparr>warnings := warnings result @
              (if dropped_tags result = []
               then [''Run '' @ run_id @ '' has reached max tag keys (''
                     @ show_nat (max_tag_keys_per_run cfg) @ '')''] else []),
            dropped_tags := dropped_tags result @ [(key, val)]\<rparr>)
      else if (key, val) |\<notin>| tag_pairs project \<and> max_tags_per_project cfg \<le> fcard (tag_pairs project)
      then
        Some (run, project,
          result\<lparr>warnings := warnings result @
              (if dropped_tags result = []
               then [''Project '' @ project_id @ '' has reached max tags (''
                     @ show_nat (max_tags_per_project cfg) @ '')''] else []),
            dropped_tags := dropped_tags result @ [(key, val)]\<rparr>)
      else
        Some (run\<lparr>tag_keys := finsert key (tag_keys run)\<rparr>,
          project\<lparr>tag_pairs := finsert (key, val) (tag_pairs project)\<rparr>,
          result\<lparr>accepted_tags := accepted_tags result @ [(key, val)]\<rparr>))"

fun validate_tags ::
  "LimitsConfig \<Rightarrow> string \<Rightarrow> string \<Rightarrow> (string \<times> string) list \<Rightarrow> tag_state \<Rightarrow> tag_state option" where
  "validate_tags cfg project_id run_id [] s = Some s"
| "validate_tags cfg project_id run_id (kv # kvs) s =
     (case validate_tag cfg project_id run_id kv s of
        None \<Rightarrow> None
      | Some s' \<Rightarrow> validate_tags cfg project_id run_id kvs s')"

type_synonym metric_state = "RunCardinality \<times> ValidationResult"

definition validate_metric ::
  "LimitsConfig \<Rightarrow> string \<Rightarrow> string \<Rightarrow> metric_state \<Rightarrow> metric_state option" where
  "validate_metric cfg run_id name s =
     (case s of (run, result) \<Rightarrow>
      if max_metric_name_length cfg < length name then
        (case slice_to name (min 32 (length name)) of
           None \<Rightarrow> None
         | Some start \<Rightarrow>
             Some (run,
               result\<lparr>warnings := warnings result @
                   [''Metric name '' @ sq (start @ ''...'') @ '' exceeds max length ''
                    @ show_nat (max_metric_name_length cfg)],
                 dropped_metrics := dropped_metrics result @ [name]\<rparr>))
      else if name |\<notin>| metric_names run
          \<and> max_metric_names_per_run cfg \<le> fcard (metric_names run) then
        Some (run,
          result\<lparr>warnings := warnings result @
              (if dropped_metrics result = []
               then [''Run '' @ run_id @ '' has reached max metric names (''
                     @ show_nat (max_metric_names_per_run cfg) @ '')''] else []),
            dropped_metrics := dropped_metrics result @ [name]\<rparr>)
      else
        Some (run\<lparr>metric_names := finsert name (metric_names run)\<rparr>,
          result\<lparr>accepted_metrics := accepted_metrics result @ [name]\<rparr>))"

fun validate_metrics ::
  "LimitsConfig \<Rightarrow> string \<Rightarrow> string list \<Rightarrow> metric_state \<Rightarrow> metric_state option" where
  "validate_metrics cfg run_id [] s = Some s"
| "validate_metrics cfg run_id (n # ns) s =
     (case validate_metric cfg run_id n s of
        None \<Rightarrow> None
      | Some s' \<Rightarrow> validate_metrics cfg run_id ns s')"

definition run_entry :: "CardinalityTracker \<Rightarrow> string \<Rightarrow> RunCardinality" where
  "run_entry t run_id =
     (case ct_runs t run_id of None \<Rightarrow> \<lparr>tag_keys = {||}, metric_names = {||}\<rparr> | Some r \<Rightarrow> r)"

definition project_entry :: "CardinalityTracker \<Rightarrow> string \<Rightarrow> ProjectCardinality" where
  "project_entry t project_id =
     (case ct_projects t project_id of None \<Rightarrow> \<lparr>tag_pairs = {||}\<rparr> | Some p \<Rightarrow> p)"

definition validate_batch ::
  "CardinalityTracker \<Rightarrow> string \<Rightarrow> string \<Rightarrow> (string \<times> string) list \<Rightarrow> string list
     \<Rightarrow> (ValidationResult \<times> CardinalityTracker) option" where
  "validate_batch t project_id run_id tags names =
     (case validate_tags (ct_config t) project_id run_id tags
             (run_entry t run_id, project_entry t project_id, empty_validation) of
        None \<Rightarrow> None
      | Some (run, project, result) \<Rightarrow>
          (case validate_metrics (ct_config t) run_id names (run, result) of
             None \<Rightarrow> None
           | Some (run', result') \<Rightarrow>
               Some (result',
                 t\<lparr>ct_runs := (ct_runs t)(run_id \<mapsto> run'),
                   ct_projects := (ct_projects t)(project_id \<mapsto> project)\<rparr>)))"

text \<open>
  The value None is a panic of the slice in a warning. The lock of the tracker is not poisoned by it: what
  was accepted before the item that panics stays in the tracker. \<open>tracker_left\<close> is the tracker that
  a batch leaves behind in either case.
\<close>

fun tags_left :: "LimitsConfig \<Rightarrow> string \<Rightarrow> string \<Rightarrow> (string \<times> string) list \<Rightarrow> tag_state \<Rightarrow> tag_state" where
  "tags_left cfg project_id run_id [] s = s"
| "tags_left cfg project_id run_id (kv # kvs) s =
     (case validate_tag cfg project_id run_id kv s of None \<Rightarrow> s | Some s' \<Rightarrow> tags_left cfg project_id run_id kvs s')"

fun metrics_left :: "LimitsConfig \<Rightarrow> string \<Rightarrow> string list \<Rightarrow> metric_state \<Rightarrow> metric_state" where
  "metrics_left cfg run_id [] s = s"
| "metrics_left cfg run_id (n # ns) s =
     (case validate_metric cfg run_id n s of None \<Rightarrow> s | Some s' \<Rightarrow> metrics_left cfg run_id ns s')"

definition tracker_left ::
  "CardinalityTracker \<Rightarrow> string \<Rightarrow> string \<Rightarrow> (string \<times> string) list \<Rightarrow> string list \<Rightarrow> CardinalityTracker" where
  "tracker_left t project_id run_id tags names =
     (let s = (run_entry t run_id, project_entry t project_id, empty_validation);
          (run, project, result) = tags_left (ct_config t) project_id run_id tags s;
          run' = (if validate_tags (ct_config t) project_id run_id tags s = None then run
                  else fst (metrics_left (ct_config t) run_id names (run, result))) in
      t\<lparr>ct_runs := (ct_runs t)(run_id \<mapsto> run'), ct_projects := (ct_projects t)(project_id \<mapsto> project)\<rparr>)"

definition get_run_stats :: "CardinalityTracker \<Rightarrow> string \<Rightarrow> (nat \<times> nat) option" where
  "get_run_stats t run_id =
     map_option (\<lambda>r. (fcard (tag_keys r), fcard (metric_names r))) (ct_runs t run_id)"

definition get_project_stats :: "CardinalityTracker \<Rightarrow> string \<Rightarrow> nat option" where
  "get_project_stats t project_id =
     map_option (\<lambda>p. fcard (tag_pairs p)) (ct_projects t project_id)"

definition tracker_clear_run :: "CardinalityTracker \<Rightarrow> string \<Rightarrow> CardinalityTracker" where
  "tracker_clear_run t run_id = t\<lparr>ct_runs := (ct_runs t)(run_id := None)\<rparr>"

definition tracker_clear_all :: "CardinalityTracker \<Rightarrow> CardinalityTracker" where
  "tracker_clear_all t = t\<lparr>ct_runs := Map.empty, ct_projects := Map.empty\<rparr>"


section \<open>What one item does\<close>

text \<open>The condition under which a tag or a metric name is accepted.\<close>

definition tag_fits ::
  "LimitsConfig \<Rightarrow> RunCardinality \<Rightarrow> ProjectCardinality \<Rightarrow> string \<times> string \<Rightarrow> bool" where
  "tag_fits cfg run project kv \<longleftrightarrow>
     length (fst kv) \<le> max_tag_key_length cfg \<and> length (snd kv) \<le> max_tag_value_length cfg
   \<and> (fst kv |\<in>| tag_keys run \<or> fcard (tag_keys run) < max_tag_keys_per_run cfg)
   \<and> (kv |\<in>| tag_pairs project \<or> fcard (tag_pairs project) < max_tags_per_project cfg)"

definition name_fits :: "LimitsConfig \<Rightarrow> RunCardinality \<Rightarrow> string \<Rightarrow> bool" where
  "name_fits cfg run name \<longleftrightarrow>
     length name \<le> max_metric_name_length cfg
   \<and> (name |\<in>| metric_names run \<or> fcard (metric_names run) < max_metric_names_per_run cfg)"

definition add_tag :: "string \<times> string \<Rightarrow> RunCardinality \<times> ProjectCardinality
    \<Rightarrow> RunCardinality \<times> ProjectCardinality" where
  "add_tag kv s = ((fst s)\<lparr>tag_keys := finsert (fst kv) (tag_keys (fst s))\<rparr>,
     (snd s)\<lparr>tag_pairs := finsert kv (tag_pairs (snd s))\<rparr>)"

lemma validate_tag_Some:
  assumes "validate_tag cfg p r kv (run, project, result) = Some (run', project', result')"
  shows "accepted_metrics result' = accepted_metrics result
   \<and> dropped_metrics result' = dropped_metrics result
   \<and> (if tag_fits cfg run project kv
      then (run', project') = add_tag kv (run, project)
         \<and> accepted_tags result' = accepted_tags result @ [kv]
         \<and> dropped_tags result' = dropped_tags result
      else (run', project') = (run, project)
         \<and> accepted_tags result' = accepted_tags result
         \<and> dropped_tags result' = dropped_tags result @ [kv])"
  using assms
  by (cases kv) (auto simp: validate_tag_def tag_fits_def add_tag_def split: if_splits option.splits)

lemma validate_metric_Some:
  assumes "validate_metric cfg r name (run, result) = Some (run', result')"
  shows "accepted_tags result' = accepted_tags result \<and> dropped_tags result' = dropped_tags result
   \<and> tag_keys run' = tag_keys run
   \<and> (if name_fits cfg run name
      then metric_names run' = finsert name (metric_names run)
         \<and> accepted_metrics result' = accepted_metrics result @ [name]
         \<and> dropped_metrics result' = dropped_metrics result
      else metric_names run' = metric_names run
         \<and> accepted_metrics result' = accepted_metrics result
         \<and> dropped_metrics result' = dropped_metrics result @ [name])"
  using assms by (auto simp: validate_metric_def name_fits_def split: if_splits option.splits)

section \<open>What a batch does\<close>

definition run_ok :: "LimitsConfig \<Rightarrow> RunCardinality \<Rightarrow> bool" where
  "run_ok cfg run \<longleftrightarrow> fcard (tag_keys run) \<le> max_tag_keys_per_run cfg
     \<and> fcard (metric_names run) \<le> max_metric_names_per_run cfg"

definition project_ok :: "LimitsConfig \<Rightarrow> ProjectCardinality \<Rightarrow> bool" where
  "project_ok cfg project \<longleftrightarrow> fcard (tag_pairs project) \<le> max_tags_per_project cfg"

lemma fcard_finsert_le: "x |\<in>| A \<or> fcard A < n \<Longrightarrow> fcard A \<le> n \<Longrightarrow> fcard (finsert x A) \<le> n"
  by (cases "x |\<in>| A") (simp_all add: finsert_absorb fcard_finsert_disjoint)

lemma validate_tags_spec:
  assumes "validate_tags cfg p r kvs (run, project, result) = Some (run', project', result')"
  shows "\<exists>acc drp. accepted_tags result' = accepted_tags result @ acc
     \<and> dropped_tags result' = dropped_tags result @ drp
     \<and> mset kvs = mset acc + mset drp \<and> subseq acc kvs \<and> subseq drp kvs
     \<and> tag_keys run' = tag_keys run |\<union>| fset_of_list (map fst acc)
     \<and> tag_pairs project' = tag_pairs project |\<union>| fset_of_list acc
     \<and> metric_names run' = metric_names run
     \<and> accepted_metrics result' = accepted_metrics result
     \<and> dropped_metrics result' = dropped_metrics result"
  using assms
proof (induction kvs arbitrary: run project result)
  case Nil
  then show ?case by (intro exI [of _ "[]"]) auto
next
  case (Cons kv kvs)
  then obtain run1 project1 result1 where
    one: "validate_tag cfg p r kv (run, project, result) = Some (run1, project1, result1)"
    and rest: "validate_tags cfg p r kvs (run1, project1, result1) = Some (run', project', result')"
    by (auto split: option.splits)
  from Cons.IH [OF rest] obtain acc drp where
    ih: "accepted_tags result' = accepted_tags result1 @ acc"
      "dropped_tags result' = dropped_tags result1 @ drp"
      "mset kvs = mset acc + mset drp" "subseq acc kvs" "subseq drp kvs"
      "tag_keys run' = tag_keys run1 |\<union>| fset_of_list (map fst acc)"
      "tag_pairs project' = tag_pairs project1 |\<union>| fset_of_list acc"
      "metric_names run' = metric_names run1"
      "accepted_metrics result' = accepted_metrics result1"
      "dropped_metrics result' = dropped_metrics result1" by blast
  note step = validate_tag_Some [OF one]
  show ?case
  proof (cases "tag_fits cfg run project kv")
    case True
    with step ih show ?thesis
      by (intro exI [of _ "kv # acc"] exI [of _ drp]) (auto simp: add_tag_def)
  next
    case False
    with step ih show ?thesis
      by (intro exI [of _ acc] exI [of _ "kv # drp"]) auto
  qed
qed

lemma validate_metrics_spec:
  assumes "validate_metrics cfg r ns (run, result) = Some (run', result')"
  shows "\<exists>acc drp. accepted_metrics result' = accepted_metrics result @ acc
     \<and> dropped_metrics result' = dropped_metrics result @ drp
     \<and> mset ns = mset acc + mset drp \<and> subseq acc ns \<and> subseq drp ns
     \<and> metric_names run' = metric_names run |\<union>| fset_of_list acc
     \<and> tag_keys run' = tag_keys run
     \<and> accepted_tags result' = accepted_tags result
     \<and> dropped_tags result' = dropped_tags result"
  using assms
proof (induction ns arbitrary: run result)
  case Nil
  then show ?case by (intro exI [of _ "[]"]) auto
next
  case (Cons n ns)
  then obtain run1 result1 where
    one: "validate_metric cfg r n (run, result) = Some (run1, result1)"
    and rest: "validate_metrics cfg r ns (run1, result1) = Some (run', result')"
    by (auto split: option.splits)
  from Cons.IH [OF rest] obtain acc drp where
    ih: "accepted_metrics result' = accepted_metrics result1 @ acc"
      "dropped_metrics result' = dropped_metrics result1 @ drp"
      "mset ns = mset acc + mset drp" "subseq acc ns" "subseq drp ns"
      "metric_names run' = metric_names run1 |\<union>| fset_of_list acc"
      "tag_keys run' = tag_keys run1"
      "accepted_tags result' = accepted_tags result1"
      "dropped_tags result' = dropped_tags result1" by blast
  note step = validate_metric_Some [OF one]
  show ?case
  proof (cases "name_fits cfg run n")
    case True
    with step ih show ?thesis by (intro exI [of _ "n # acc"] exI [of _ drp]) auto
  next
    case False
    with step ih show ?thesis by (intro exI [of _ acc] exI [of _ "n # drp"]) auto
  qed
qed

lemma validate_tags_ok:
  "validate_tags cfg p r kvs (run, project, result) = Some (run', project', result') \<Longrightarrow>
   run_ok cfg run \<Longrightarrow> project_ok cfg project \<Longrightarrow> run_ok cfg run' \<and> project_ok cfg project'"
proof (induction kvs arbitrary: run project result)
  case (Cons kv kvs)
  then obtain run1 project1 result1 where
    one: "validate_tag cfg p r kv (run, project, result) = Some (run1, project1, result1)"
    and rest: "validate_tags cfg p r kvs (run1, project1, result1) = Some (run', project', result')"
    by (auto split: option.splits)
  have "run_ok cfg run1 \<and> project_ok cfg project1"
    using validate_tag_Some [OF one] Cons.prems(2,3)
    by (auto simp: run_ok_def project_ok_def add_tag_def tag_fits_def
      intro!: fcard_finsert_le split: if_splits)
  with Cons.IH [OF rest] show ?case by simp
qed auto

lemma validate_metrics_ok:
  "validate_metrics cfg r ns (run, result) = Some (run', result') \<Longrightarrow>
   run_ok cfg run \<Longrightarrow> run_ok cfg run'"
proof (induction ns arbitrary: run result)
  case (Cons n ns)
  then obtain run1 result1 where
    one: "validate_metric cfg r n (run, result) = Some (run1, result1)"
    and rest: "validate_metrics cfg r ns (run1, result1) = Some (run', result')"
    by (auto split: option.splits)
  have "run_ok cfg run1"
    using validate_metric_Some [OF one] Cons.prems(2)
    by (auto simp: run_ok_def name_fits_def intro!: fcard_finsert_le split: if_splits)
  with Cons.IH [OF rest] show ?case by simp
qed auto

lemma validate_batch_cases:
  assumes "validate_batch t p r tags names = Some (result, t')"
  obtains run project result1 run' where
    "validate_tags (ct_config t) p r tags (run_entry t r, project_entry t p, empty_validation)
       = Some (run, project, result1)"
    "validate_metrics (ct_config t) r names (run, result1) = Some (run', result)"
    "t' = t\<lparr>ct_runs := (ct_runs t)(r \<mapsto> run'), ct_projects := (ct_projects t)(p \<mapsto> project)\<rparr>"
  using assms unfolding validate_batch_def by (auto split: option.splits)

section \<open>The tracker's invariant\<close>

definition tracker_ok :: "CardinalityTracker \<Rightarrow> bool" where
  "tracker_ok t \<longleftrightarrow> (\<forall>r run. ct_runs t r = Some run \<longrightarrow> run_ok (ct_config t) run)
     \<and> (\<forall>p project. ct_projects t p = Some project \<longrightarrow> project_ok (ct_config t) project)"

lemma tracker_ok_entries:
  "tracker_ok t \<Longrightarrow> run_ok (ct_config t) (run_entry t r) \<and> project_ok (ct_config t) (project_entry t p)"
  by (auto simp: tracker_ok_def run_entry_def project_entry_def run_ok_def project_ok_def
    fcard_fempty split: option.splits)

lemma tracker_ok_validate_batch:
  assumes "validate_batch t p r tags names = Some (result, t')" and "tracker_ok t"
  shows "tracker_ok t'"
  using assms(1)
proof (rule validate_batch_cases)
  fix run project result1 run'
  assume tags: "validate_tags (ct_config t) p r tags
      (run_entry t r, project_entry t p, empty_validation) = Some (run, project, result1)"
    and names: "validate_metrics (ct_config t) r names (run, result1) = Some (run', result)"
    and t': "t' = t\<lparr>ct_runs := (ct_runs t)(r \<mapsto> run'), ct_projects := (ct_projects t)(p \<mapsto> project)\<rparr>"
  have "run_ok (ct_config t) run \<and> project_ok (ct_config t) project"
    using validate_tags_ok [OF tags] tracker_ok_entries [OF assms(2)] by blast
  with validate_metrics_ok [OF names] assms(2) show ?thesis
    unfolding t' by (auto simp: tracker_ok_def split: if_splits)
qed

lemma tags_left_returned: "validate_tags cfg p r kvs s = Some s' \<Longrightarrow> tags_left cfg p r kvs s = s'"
  by (induction kvs arbitrary: s) (auto split: option.splits)

lemma metrics_left_returned: "validate_metrics cfg r ns s = Some s' \<Longrightarrow> metrics_left cfg r ns s = s'"
  by (induction ns arbitrary: s) (auto split: option.splits)

lemma tracker_left_returned: "validate_batch t p r tags names = Some (result, t') \<Longrightarrow> tracker_left t p r tags names = t'"
  by (erule validate_batch_cases) (simp add: tracker_left_def tags_left_returned metrics_left_returned)

text \<open>A panic is the end of a shorter list of items.\<close>

lemma tags_left_prefix: "\<exists>kvs'. validate_tags cfg p r kvs' s = Some (tags_left cfg p r kvs s)"
proof (induction kvs arbitrary: s)
  case (Cons kv kvs)
  show ?case
  proof (cases "validate_tag cfg p r kv s")
    case None
    then show ?thesis by (auto intro: exI [of _ "[]"])
  next
    case (Some s1)
    from Cons.IH [of s1] obtain kvs' where "validate_tags cfg p r kvs' s1 = Some (tags_left cfg p r kvs s1)" by blast
    with Some show ?thesis by (intro exI [of _ "kv # kvs'"]) simp
  qed
qed (auto intro: exI [of _ "[]"])

lemma metrics_left_prefix: "\<exists>ns'. validate_metrics cfg r ns' s = Some (metrics_left cfg r ns s)"
proof (induction ns arbitrary: s)
  case (Cons n ns)
  show ?case
  proof (cases "validate_metric cfg r n s")
    case None
    then show ?thesis by (auto intro: exI [of _ "[]"])
  next
    case (Some s1)
    from Cons.IH [of s1] obtain ns' where "validate_metrics cfg r ns' s1 = Some (metrics_left cfg r ns s1)" by blast
    with Some show ?thesis by (intro exI [of _ "n # ns'"]) simp
  qed
qed (auto intro: exI [of _ "[]"])

lemma tracker_left_prefix: "\<exists>tags' names' result. validate_batch t p r tags' names' = Some (result, tracker_left t p r tags names)"
proof -
  let ?s = "(run_entry t r, project_entry t p, empty_validation)" and ?cfg = "ct_config t"
  obtain run project result where left: "tags_left ?cfg p r tags ?s = (run, project, result)" by (metis surj_pair)
  from tags_left_prefix [of ?cfg p r ?s tags] obtain tags' where tags': "validate_tags ?cfg p r tags' ?s = Some (run, project, result)"
    by (auto simp: left)
  show ?thesis
  proof (cases "validate_tags ?cfg p r tags ?s")
    case None
    with left tags' show ?thesis
      by (intro exI [of _ tags'] exI [of _ "[]"] exI [of _ result]) (simp add: validate_batch_def tracker_left_def)
  next
    case (Some x)
    obtain names' where "validate_metrics ?cfg r names' (run, result) = Some (metrics_left ?cfg r names (run, result))"
      using metrics_left_prefix by blast
    with Some left tags' show ?thesis
      by (intro exI [of _ tags'] exI [of _ names'] exI [of _ "snd (metrics_left ?cfg r names (run, result))"])
        (auto simp: validate_batch_def tracker_left_def split: prod.splits)
  qed
qed

text \<open>
  The operations that change a tracker, and the trackers they reach, by batches that panic as well.
\<close>

inductive tracker_reach :: "LimitsConfig \<Rightarrow> CardinalityTracker \<Rightarrow> bool" for cfg where
  new: "tracker_reach cfg (tracker_new cfg)"
| validate: "tracker_reach cfg t \<Longrightarrow> validate_batch t p r tags names = Some (result, t') \<Longrightarrow>
     tracker_reach cfg t'"
| panic: "tracker_reach cfg t \<Longrightarrow> validate_batch t p r tags names = None \<Longrightarrow>
     tracker_reach cfg (tracker_left t p r tags names)"
| clear_run: "tracker_reach cfg t \<Longrightarrow> tracker_reach cfg (tracker_clear_run t r)"
| clear_all: "tracker_reach cfg t \<Longrightarrow> tracker_reach cfg (tracker_clear_all t)"

lemma tracker_reach_ok: "tracker_reach cfg t \<Longrightarrow> tracker_ok t \<and> ct_config t = cfg"
proof (induction rule: tracker_reach.induct)
  case (validate t p r tags names result t')
  then have "ct_config t' = cfg" by (auto elim: validate_batch_cases)
  with validate show ?case by (simp add: tracker_ok_validate_batch)
next
  case (panic t p r tags names)
  obtain tags' names' result where v: "validate_batch t p r tags' names' = Some (result, tracker_left t p r tags names)"
    using tracker_left_prefix by blast
  then have "ct_config (tracker_left t p r tags names) = ct_config t" by (auto elim: validate_batch_cases)
  with panic v show ?case by (simp add: tracker_ok_validate_batch)
qed (auto simp: tracker_ok_def tracker_new_def tracker_clear_run_def tracker_clear_all_def)

section \<open>Why an item is dropped\<close>

definition tag_drop_reason :: "LimitsConfig \<Rightarrow> RunCardinality \<times> ProjectCardinality
    \<Rightarrow> RunCardinality \<times> ProjectCardinality \<Rightarrow> string \<times> string \<Rightarrow> bool" where
  "tag_drop_reason cfg before after kv \<longleftrightarrow>
     max_tag_key_length cfg < length (fst kv) \<or> max_tag_value_length cfg < length (snd kv)
   \<or> fst kv |\<notin>| tag_keys (fst before) \<and> max_tag_keys_per_run cfg \<le> fcard (tag_keys (fst after))
   \<or> kv |\<notin>| tag_pairs (snd before) \<and> max_tags_per_project cfg \<le> fcard (tag_pairs (snd after))"

definition name_drop_reason :: "LimitsConfig \<Rightarrow> RunCardinality \<Rightarrow> RunCardinality \<Rightarrow> string \<Rightarrow> bool" where
  "name_drop_reason cfg before after n \<longleftrightarrow>
     max_metric_name_length cfg < length n
   \<or> n |\<notin>| metric_names before \<and> max_metric_names_per_run cfg \<le> fcard (metric_names after)"

lemma tag_drop_reason_mono:
  assumes "tag_drop_reason cfg (run1, project1) after kv"
    and "tag_keys run |\<subseteq>| tag_keys run1" "tag_pairs project |\<subseteq>| tag_pairs project1"
  shows "tag_drop_reason cfg (run, project) after kv"
  using assms by (auto simp: tag_drop_reason_def)

lemma not_tag_fits_reason:
  assumes "\<not> tag_fits cfg run project kv"
    and "tag_keys run |\<subseteq>| tag_keys run'" "tag_pairs project |\<subseteq>| tag_pairs project'"
  shows "tag_drop_reason cfg (run, project) (run', project') kv"
  using assms fcard_mono [OF assms(2)] fcard_mono [OF assms(3)]
  by (auto simp: tag_fits_def tag_drop_reason_def)

lemma validate_tags_grow:
  "validate_tags cfg p r kvs (run, project, result) = Some (run', project', result') \<Longrightarrow>
   tag_keys run |\<subseteq>| tag_keys run' \<and> tag_pairs project |\<subseteq>| tag_pairs project'"
  by (drule validate_tags_spec) auto

lemma validate_metrics_grow:
  "validate_metrics cfg r ns (run, result) = Some (run', result') \<Longrightarrow>
   metric_names run |\<subseteq>| metric_names run'"
  by (drule validate_metrics_spec) auto

lemma validate_tags_dropped:
  "validate_tags cfg p r kvs (run, project, result) = Some (run', project', result') \<Longrightarrow>
   kv \<in> set (dropped_tags result') \<Longrightarrow> kv \<notin> set (dropped_tags result) \<Longrightarrow>
   tag_drop_reason cfg (run, project) (run', project') kv"
proof (induction kvs arbitrary: run project result)
  case (Cons x kvs)
  then obtain run1 project1 result1 where
    one: "validate_tag cfg p r x (run, project, result) = Some (run1, project1, result1)"
    and rest: "validate_tags cfg p r kvs (run1, project1, result1) = Some (run', project', result')"
    by (auto split: option.splits)
  note step = validate_tag_Some [OF one]
  have up: "tag_keys run |\<subseteq>| tag_keys run1" "tag_pairs project |\<subseteq>| tag_pairs project1"
    using step by (auto simp: add_tag_def split: if_splits)
  show ?case
  proof (cases "kv \<in> set (dropped_tags result1)")
    case True
    with step Cons.prems(3) have "\<not> tag_fits cfg run project kv" by (auto split: if_splits)
    moreover have "tag_keys run |\<subseteq>| tag_keys run'" "tag_pairs project |\<subseteq>| tag_pairs project'"
      using validate_tags_grow [OF rest] up by auto
    ultimately show ?thesis by (rule not_tag_fits_reason)
  next
    case False
    with Cons.IH [OF rest Cons.prems(2)] up show ?thesis by (blast intro: tag_drop_reason_mono)
  qed
qed auto

lemma validate_metrics_dropped:
  "validate_metrics cfg r ns (run, result) = Some (run', result') \<Longrightarrow>
   n \<in> set (dropped_metrics result') \<Longrightarrow> n \<notin> set (dropped_metrics result) \<Longrightarrow>
   name_drop_reason cfg run run' n"
proof (induction ns arbitrary: run result)
  case (Cons x ns)
  then obtain run1 result1 where
    one: "validate_metric cfg r x (run, result) = Some (run1, result1)"
    and rest: "validate_metrics cfg r ns (run1, result1) = Some (run', result')"
    by (auto split: option.splits)
  note step = validate_metric_Some [OF one]
  have up: "metric_names run |\<subseteq>| metric_names run1" using step by (auto split: if_splits)
  show ?case
  proof (cases "n \<in> set (dropped_metrics result1)")
    case True
    with step Cons.prems(3) have "\<not> name_fits cfg run n" by (auto split: if_splits)
    moreover have "fcard (metric_names run) \<le> fcard (metric_names run')"
      using validate_metrics_grow [OF rest] up by (auto intro: fcard_mono)
    ultimately show ?thesis by (auto simp: name_fits_def name_drop_reason_def)
  next
    case False
    with Cons.IH [OF rest Cons.prems(2)] up show ?thesis by (auto simp: name_drop_reason_def)
  qed
qed auto

section \<open>Properties\<close>

text \<open>
  C30: The limits hold at all times: whatever batches are validated and whatever is cleared,
  no run ever has more distinct tag keys or metric names, and no project more distinct tag
  pairs, than the configuration allows.
\<close>

theorem tracker_within_limits:
  assumes "tracker_reach cfg t"
  shows "(get_run_stats t r = Some (k, m) \<longrightarrow>
            k \<le> max_tag_keys_per_run cfg \<and> m \<le> max_metric_names_per_run cfg)
       \<and> (get_project_stats t p = Some n \<longrightarrow> n \<le> max_tags_per_project cfg)"
  using tracker_reach_ok [OF assms]
  by (auto simp: get_run_stats_def get_project_stats_def tracker_ok_def run_ok_def project_ok_def)

text \<open>
  Validation loses and invents nothing: the accepted and the dropped tags (metric names)
  together are exactly the ones of the batch, each list in the batch's order, and what the
  tracker now knows of the run and the project is what it knew plus what was accepted.
\<close>

lemma validate_batch_partition:
  assumes "validate_batch t p r tags names = Some (result, t')"
  shows "mset tags = mset (accepted_tags result) + mset (dropped_tags result)
   \<and> mset names = mset (accepted_metrics result) + mset (dropped_metrics result)
   \<and> subseq (accepted_tags result) tags \<and> subseq (dropped_tags result) tags
   \<and> subseq (accepted_metrics result) names \<and> subseq (dropped_metrics result) names
   \<and> tag_keys (run_entry t' r) = tag_keys (run_entry t r) |\<union>| fset_of_list (map fst (accepted_tags result))
   \<and> metric_names (run_entry t' r) = metric_names (run_entry t r) |\<union>| fset_of_list (accepted_metrics result)
   \<and> tag_pairs (project_entry t' p) = tag_pairs (project_entry t p) |\<union>| fset_of_list (accepted_tags result)"
  using assms
proof (rule validate_batch_cases)
  fix run project result1 run'
  assume tags: "validate_tags (ct_config t) p r tags
      (run_entry t r, project_entry t p, empty_validation) = Some (run, project, result1)"
    and names: "validate_metrics (ct_config t) r names (run, result1) = Some (run', result)"
    and t': "t' = t\<lparr>ct_runs := (ct_runs t)(r \<mapsto> run'), ct_projects := (ct_projects t)(p \<mapsto> project)\<rparr>"
  have "run_entry t' r = run'" "project_entry t' p = project"
    unfolding t' by (simp_all add: run_entry_def project_entry_def)
  with validate_tags_spec [OF tags] validate_metrics_spec [OF names] show ?thesis
    by (auto simp: empty_validation_def)
qed


text \<open>
  Nothing is dropped without need. A tag of a batch is dropped only if its key or value
  is too long, or its key is new to the run and the run's key budget is used up, or the pair is
  new to the project and the project's budget is used up; a metric name only if it is too
  long or new with the run's budget used up. In particular what is known is never dropped.
\<close>

theorem dropped_only_at_limit:
  assumes "validate_batch t p r tags names = Some (result, t')"
  shows "(kv \<in> set (dropped_tags result) \<longrightarrow>
           tag_drop_reason (ct_config t) (run_entry t r, project_entry t p)
             (run_entry t' r, project_entry t' p) kv)
       \<and> (n \<in> set (dropped_metrics result) \<longrightarrow>
           name_drop_reason (ct_config t) (run_entry t r) (run_entry t' r) n)"
  using assms
proof (rule validate_batch_cases)
  fix run project result1 run'
  assume tags: "validate_tags (ct_config t) p r tags
      (run_entry t r, project_entry t p, empty_validation) = Some (run, project, result1)"
    and names: "validate_metrics (ct_config t) r names (run, result1) = Some (run', result)"
    and t': "t' = t\<lparr>ct_runs := (ct_runs t)(r \<mapsto> run'), ct_projects := (ct_projects t)(p \<mapsto> project)\<rparr>"
  have e: "run_entry t' r = run'" "project_entry t' p = project"
    unfolding t' by (simp_all add: run_entry_def project_entry_def)
  have same: "dropped_tags result = dropped_tags result1" "tag_keys run' = tag_keys run"
    using validate_metrics_spec [OF names] by auto
  have same': "metric_names run = metric_names (run_entry t r)" "dropped_metrics result1 = []"
    using validate_tags_spec [OF tags] by (auto simp: empty_validation_def)
  show ?thesis
    using validate_tags_dropped [OF tags, of kv] validate_metrics_dropped [OF names, of n]
    unfolding e same same'
    by (auto simp: empty_validation_def tag_drop_reason_def name_drop_reason_def same same')
qed

text \<open>Concrete limits and a batch, for the witnesses.\<close>

definition tiny_limits :: LimitsConfig where
  "tiny_limits = default_limits\<lparr>max_tag_keys_per_run := 1, max_metric_names_per_run := 1\<rparr>"

definition tiny_result :: ValidationResult where
  "tiny_result =
     \<lparr>accepted_tags = [(''a'', ''1'')], accepted_metrics = [''m'', ''m''],
      dropped_tags = [(''b'', ''2'')], dropped_metrics = [''n''],
      warnings = [''Run r has reached max tag keys (1)'', ''Run r has reached max metric names (1)'']\<rparr>"

definition tiny_tracker :: CardinalityTracker where
  "tiny_tracker =
     (tracker_new tiny_limits)\<lparr>ct_runs := [''r'' \<mapsto> \<lparr>tag_keys = {|''a''|}, metric_names = {|''m''|}\<rparr>],
        ct_projects := [''p'' \<mapsto> \<lparr>tag_pairs = {|(''a'', ''1'')|}\<rparr>]\<rparr>"

lemma fcard_singleton: "fcard {|x|} = 1"
  by (simp add: fcard_finsert_disjoint fcard_fempty)

lemma tiny_run:
  "validate_batch (tracker_new tiny_limits) ''p'' ''r'' [(''a'', ''1''), (''b'', ''2'')] [''m'', ''n'', ''m'']
     = Some (tiny_result, tiny_tracker)"
  by (simp add: validate_batch_def validate_tag_def validate_metric_def tracker_new_def
    run_entry_def project_entry_def tiny_limits_def default_limits_def empty_validation_def
    tiny_result_def tiny_tracker_def fcard_singleton fcard_fempty show_nat.simps)

lemma tracker_within_limits_witness:
  "tracker_reach tiny_limits tiny_tracker \<and> get_run_stats tiny_tracker ''r'' = Some (1, 1)
   \<and> get_project_stats tiny_tracker ''p'' = Some 1
   \<and> 1 \<le> max_tag_keys_per_run tiny_limits \<and> 1 \<le> max_tags_per_project tiny_limits"
proof -
  have reach: "tracker_reach tiny_limits tiny_tracker"
    by (rule tracker_reach.validate [OF tracker_reach.new tiny_run])
  have stats: "get_run_stats tiny_tracker ''r'' = Some (1, 1)" "get_project_stats tiny_tracker ''p'' = Some 1"
    by (simp_all add: get_run_stats_def get_project_stats_def tiny_tracker_def fcard_singleton)
  with tracker_within_limits [OF reach, of "''r''" 1 1 "''p''" 1] reach show ?thesis by simp
qed

lemma validate_batch_partition_witness:
  "mset [(''a'', ''1''), (''b'', ''2'')] = mset (accepted_tags tiny_result) + mset (dropped_tags tiny_result)"
  using validate_batch_partition [OF tiny_run] by blast

lemma dropped_only_at_limit_witness:
  "(''b'', ''2'') \<in> set (dropped_tags tiny_result)
   \<and> tag_drop_reason tiny_limits (run_entry (tracker_new tiny_limits) ''r'', project_entry (tracker_new tiny_limits) ''p'')
       (run_entry tiny_tracker ''r'', project_entry tiny_tracker ''p'') (''b'', ''2'')"
proof -
  have d: "(''b'', ''2'') \<in> set (dropped_tags tiny_result)" by (simp add: tiny_result_def)
  with dropped_only_at_limit [OF tiny_run, of "(''b'', ''2'')"] show ?thesis
    by (simp add: tracker_new_def)
qed

section \<open>Panics\<close>

lemma validate_tags_no_panic:
  "\<forall>kv \<in> set kvs. max_tag_key_length cfg < length (fst kv)
      \<longrightarrow> is_char_boundary (fst kv) (min 32 (length (fst kv))) \<Longrightarrow>
   validate_tags cfg p r kvs s \<noteq> None"
proof (induction kvs arbitrary: s)
  case (Cons kv kvs)
  then have "\<exists>s'. validate_tag cfg p r kv s = Some s'"
    by (cases kv; cases s rule: prod_cases3) (auto simp: validate_tag_def slice_to_def)
  with Cons show ?case by auto
qed simp

lemma validate_metrics_no_panic:
  "\<forall>n \<in> set ns. max_metric_name_length cfg < length n \<longrightarrow> is_char_boundary n (min 32 (length n)) \<Longrightarrow>
   validate_metrics cfg r ns s \<noteq> None"
proof (induction ns arbitrary: s)
  case (Cons n ns)
  then have "\<exists>s'. validate_metric cfg r n s = Some s'"
    by (cases s) (auto simp: validate_metric_def slice_to_def)
  with Cons show ?case by auto
qed simp

text \<open>
  C31: Validation returns, unless a too long key or name has a multi-byte character across its
  32nd byte: every batch whose over-long tag keys and metric names have a character boundary
  there gets an answer.
\<close>

theorem validate_batch_returns:
  assumes "\<forall>kv \<in> set tags. max_tag_key_length (ct_config t) < length (fst kv)
      \<longrightarrow> is_char_boundary (fst kv) (min 32 (length (fst kv)))"
    and "\<forall>n \<in> set names. max_metric_name_length (ct_config t) < length n
      \<longrightarrow> is_char_boundary n (min 32 (length n))"
  shows "\<exists>result t'. validate_batch t p r tags names = Some (result, t')"
proof -
  obtain run project result where
    1: "validate_tags (ct_config t) p r tags (run_entry t r, project_entry t p, empty_validation)
      = Some (run, project, result)"
    using validate_tags_no_panic [OF assms(1)] by (metis not_None_eq prod_cases3)
  obtain run' result' where
    "validate_metrics (ct_config t) r names (run, result) = Some (run', result')"
    using validate_metrics_no_panic [OF assms(2)] by (metis not_None_eq surj_pair)
  with 1 show ?thesis by (simp add: validate_batch_def)
qed

lemma validate_batch_returns_witness:
  "\<exists>result t'. validate_batch (tracker_new default_limits) ''p'' ''r'' [(''a'', ''1'')] [replicate 300 CHR ''x'']
     = Some (result, t')"
  by (rule validate_batch_returns)
     (simp_all add: tracker_new_def default_limits_def is_char_boundary_def byte_def)

lemma length_concat_pairs: "length (concat (replicate n [a, b])) = 2 * n"
  by (induction n) simp_all

text \<open>
  A metric name of more than 256 bytes in which a two-byte character covers bytes 32 and
  33 makes the validation panic, because the warning slices the name at byte 32.
\<close>

lemma long_metric_name_panics:
  "validate_batch (tracker_new default_limits) p r []
     [replicate 31 CHR ''a'' @ concat (replicate 120 [CHR 0xC3, CHR 0xA9])] = None"
proof -
  let ?n = "replicate 31 CHR ''a'' @ concat (replicate 120 [CHR 0xC3, CHR 0xA9])"
  have len: "length ?n = 271" by (simp add: length_concat_pairs)
  have "?n ! 32 = CHR 0xA9" by (simp add: nth_append numeral_eq_Suc)
  then have "\<not> is_char_boundary ?n (min 32 (length ?n))"
    by (simp add: is_char_boundary_def byte_def length_concat_pairs)
  then have "slice_to ?n (min 32 (length ?n)) = None" by (simp add: slice_to_def)
  moreover have "max_metric_name_length default_limits < length ?n"
    unfolding len by (simp add: default_limits_def)
  ultimately show ?thesis
    by (simp add: validate_batch_def validate_metric_def tracker_new_def del: length_append)
qed

end
