(* ===== verification/Metadata.thy ===== *)
theory Metadata
  imports Prelude
begin

text \<open>
  Metadata keys and request identifiers (apps/api/src/main.rs): the validation of path ids,
  the canonical form of tag and parameter keys, value limits, and the comma-separated tag and
  parameter filters of the run list.
\<close>

section \<open>Identifiers and keys\<close>

definition ident_char :: "char \<Rightarrow> bool" where
  "ident_char c \<longleftrightarrow> is_ascii_alphanumeric c \<or> c = CHR ''_'' \<or> c = CHR ''-''"

definition validate_path_id :: "string \<Rightarrow> string \<Rightarrow> (unit, http_error) result" where
  "validate_path_id path_id name =
     (if path_id = [] \<or> 128 < length path_id
      then Err (BAD_REQUEST, ''Invalid '' @ name @ '': must be 1-128 characters'')
      else if \<not> list_all ident_char path_id
      then Err (BAD_REQUEST,
        ''Invalid '' @ name @ '': only alphanumeric, dash, and underscore allowed'')
      else Ok ())"

definition ALLOWED_METADATA_NAMESPACES :: "string list" where
  "ALLOWED_METADATA_NAMESPACES =
     [''parameters'', ''tags'', ''system'', ''dataset'', ''model'']"

abbreviation METADATA_MAX_KEY_LEN :: nat where "METADATA_MAX_KEY_LEN \<equiv> 256"
abbreviation METADATA_MAX_DEPTH :: nat where "METADATA_MAX_DEPTH \<equiv> 4"
abbreviation METADATA_MAX_SEGMENT_LEN :: nat where "METADATA_MAX_SEGMENT_LEN \<equiv> 64"
abbreviation PARAM_VALUE_MAX_LEN :: nat where "PARAM_VALUE_MAX_LEN \<equiv> 4096"

text \<open>The loop over the segments of a key: the first bad segment decides the error.\<close>

fun check_segments :: "string \<Rightarrow> string list \<Rightarrow> (unit, string) result" where
  "check_segments canonical [] = Ok ()"
| "check_segments canonical (segment # segments) =
     (if segment = []
      then Err (''metadata key '' @ sq canonical @ '' contains empty path segments'')
      else if METADATA_MAX_SEGMENT_LEN < length segment
      then Err (''metadata key segment '' @ sq segment @ '' exceeds max length ''
        @ show_nat METADATA_MAX_SEGMENT_LEN)
      else if \<not> list_all ident_char segment
      then Err (''metadata key '' @ sq canonical
        @ '' contains invalid characters; allowed: a-z, A-Z, 0-9, _, - and .'')
      else check_segments canonical segments)"

definition canonicalize_metadata_key :: "string \<Rightarrow> string \<Rightarrow> (string, string) result" where
  "canonicalize_metadata_key raw_key default_namespace =
     (let trimmed = trim raw_key in
      if trimmed = [] then Err ''metadata key cannot be empty''
      else
        (let canonical =
               (if CHR ''.'' \<in> set trimmed then trimmed
                else default_namespace @ CHR ''.'' # trimmed) in
         if METADATA_MAX_KEY_LEN < length canonical
         then Err (''metadata key '' @ sq trimmed @ '' exceeds max length ''
           @ show_nat METADATA_MAX_KEY_LEN)
         else
           (let segments = split_on CHR ''.'' canonical in
            if METADATA_MAX_DEPTH < length segments
            then Err (''metadata key '' @ sq canonical @ '' exceeds max depth ''
              @ show_nat METADATA_MAX_DEPTH)
            else if hd segments \<notin> set ALLOWED_METADATA_NAMESPACES
            then Err (''metadata key '' @ sq canonical @ '' uses unsupported namespace ''
              @ sq (hd segments))
            else try_bind (check_segments canonical segments) (\<lambda>_. Ok canonical))))"

definition canonical_and_legacy_metadata_key ::
  "string \<Rightarrow> string \<Rightarrow> (string \<times> string option, string) result" where
  "canonical_and_legacy_metadata_key raw_key default_namespace =
     try_bind (canonicalize_metadata_key raw_key default_namespace) (\<lambda>canonical.
       Ok (canonical, if CHR ''.'' \<in> set (trim raw_key) then None else Some (trim raw_key)))"

definition validate_tag_value :: "string \<Rightarrow> nat \<Rightarrow> (unit, string) result" where
  "validate_tag_value raw_value max_len =
     (if max_len < length raw_value
      then Err (''tag value exceeds max length '' @ show_nat max_len @ '' characters'')
      else Ok ())"

definition validate_param_value :: "string \<Rightarrow> (unit, string) result" where
  "validate_param_value raw_value =
     (if PARAM_VALUE_MAX_LEN < length raw_value
      then Err (''parameter value exceeds max length '' @ show_nat PARAM_VALUE_MAX_LEN
        @ '' characters'')
      else Ok ())"

section \<open>The tag and parameter filters of the run list\<close>

record MetadataFilter =
  mf_key :: string
  mf_legacy_key :: "string option"
  mf_value :: "string option"

definition parse_metadata_filter ::
  "string \<Rightarrow> string \<Rightarrow> string \<Rightarrow> (MetadataFilter, http_error) result" where
  "parse_metadata_filter default_namespace query_name token =
     (let (raw_key, raw_value) =
            (case split_once CHR ''='' token of
               Some (l, r) \<Rightarrow> (trim l, Some (trim r))
             | None \<Rightarrow> (token, None)) in
      if raw_key = []
      then Err (BAD_REQUEST,
        ''Invalid '' @ query_name @ '' filter '' @ sq token @ '': missing key'')
      else
        try_bind
          (map_err (\<lambda>err. (BAD_REQUEST,
             ''Invalid '' @ query_name @ '' filter '' @ sq token @ '': '' @ err))
            (canonical_and_legacy_metadata_key raw_key default_namespace))
          (\<lambda>(canonical_key, legacy_key).
             Ok \<lparr>mf_key = canonical_key, mf_legacy_key = legacy_key, mf_value = raw_value\<rparr>))"

fun collect_filters ::
  "string \<Rightarrow> string \<Rightarrow> string list \<Rightarrow> (MetadataFilter list, http_error) result" where
  "collect_filters ns q [] = Ok []"
| "collect_filters ns q (t # ts) =
     try_bind (parse_metadata_filter ns q t) (\<lambda>f.
     try_bind (collect_filters ns q ts) (\<lambda>fs. Ok (f # fs)))"

definition parse_metadata_filters ::
  "string option \<Rightarrow> string \<Rightarrow> string \<Rightarrow> (MetadataFilter list, http_error) result" where
  "parse_metadata_filters raw default_namespace query_name =
     (case raw of
        None \<Rightarrow> Ok []
      | Some v \<Rightarrow>
          collect_filters default_namespace query_name
            (filter (\<lambda>seg. seg \<noteq> []) (map trim (split_on CHR '','' v))))"

section \<open>Well-formed keys\<close>

text \<open>
  The specification of a canonical key: at most 256 bytes, at most four dot-separated
  segments, the first an allowed namespace, each of 1 to 64 letters, digits, underscores or
  dashes.
\<close>

definition wf_segment :: "string \<Rightarrow> bool" where
  "wf_segment s \<longleftrightarrow> s \<noteq> [] \<and> length s \<le> METADATA_MAX_SEGMENT_LEN \<and> list_all ident_char s"

definition wf_metadata_key :: "string \<Rightarrow> bool" where
  "wf_metadata_key k \<longleftrightarrow>
     length k \<le> METADATA_MAX_KEY_LEN
   \<and> length (split_on CHR ''.'' k) \<le> METADATA_MAX_DEPTH
   \<and> hd (split_on CHR ''.'' k) \<in> set ALLOWED_METADATA_NAMESPACES
   \<and> (\<forall>s \<in> set (split_on CHR ''.'' k). wf_segment s)"

lemma check_segments_Ok: "check_segments c ss = Ok () \<longleftrightarrow> (\<forall>s \<in> set ss. wf_segment s)"
  by (induction ss) (auto simp: wf_segment_def)

lemma canonicalize_Ok_iff:
  "canonicalize_metadata_key raw ns = Ok k \<longleftrightarrow>
     trim raw \<noteq> []
   \<and> k = (if CHR ''.'' \<in> set (trim raw) then trim raw else ns @ CHR ''.'' # trim raw)
   \<and> wf_metadata_key k"
proof -
  define c where "c = (if CHR ''.'' \<in> set (trim raw) then trim raw else ns @ CHR ''.'' # trim raw)"
  have "canonicalize_metadata_key raw ns = Ok k \<longleftrightarrow> trim raw \<noteq> [] \<and> k = c \<and> wf_metadata_key c"
    unfolding canonicalize_metadata_key_def wf_metadata_key_def Let_def c_def [symmetric]
    by (simp add: try_bind_Ok_iff check_segments_Ok) blast
  then show ?thesis unfolding c_def by blast
qed

lemma not_ident_char: "\<not> ident_char CHR ''.''"
  by (simp add: ident_char_def is_ascii_alphanumeric_def byte_def)

lemma plain_ident_char: "ident_char c \<or> c = CHR ''.'' \<Longrightarrow> plain_char c"
  by (auto simp: ident_char_def is_ascii_alphanumeric_def ascii_ws_def byte_def plain_char_def)

lemma set_join_on: "set (join_on c ss) \<subseteq> insert c (\<Union> (set ` set ss))"
  by (induction c ss rule: join_on.induct) auto

lemma wf_metadata_key_chars:
  assumes "wf_metadata_key k"
  shows "\<forall>c \<in> set k. ident_char c \<or> c = CHR ''.''"
proof
  fix c assume "c \<in> set k"
  then have "c \<in> insert CHR ''.'' (\<Union> (set ` set (split_on CHR ''.'' k)))"
    using set_join_on [of "CHR ''.''" "split_on CHR ''.'' k"] by (auto simp: join_split)
  with assms show "ident_char c \<or> c = CHR ''.''"
    by (auto simp: wf_metadata_key_def wf_segment_def list_all_iff)
qed

lemma wf_metadata_key_trim: "wf_metadata_key k \<Longrightarrow> trim k = k"
  by (rule trim_plain) (simp add: list_all_iff plain_ident_char wf_metadata_key_chars)


lemma parse_metadata_filter_wf:
  "parse_metadata_filter ns q t = Ok f \<Longrightarrow>
   wf_metadata_key (mf_key f)
   \<and> (case mf_legacy_key f of None \<Rightarrow> True | Some l \<Rightarrow> mf_key f = ns @ CHR ''.'' # l)"
  by (auto simp: parse_metadata_filter_def canonical_and_legacy_metadata_key_def try_bind_Ok_iff
    canonicalize_Ok_iff Let_def split: option.splits if_splits)

lemma collect_filters_Ok:
  "collect_filters ns q ts = Ok fs \<Longrightarrow>
   length fs = length ts \<and> (\<forall>i < length ts. parse_metadata_filter ns q (ts ! i) = Ok (fs ! i))"
proof (induction ts arbitrary: fs)
  case (Cons t ts)
  then obtain f fs' where "parse_metadata_filter ns q t = Ok f"
    "collect_filters ns q ts = Ok fs'" "fs = f # fs'"
    by (auto simp: try_bind_Ok_iff)
  with Cons.IH show ?case by (auto simp: nth_Cons split: nat.splits)
qed simp

section \<open>Properties\<close>

text \<open>
  What a metadata key becomes. The key is accepted exactly when its trimmed text is not
  empty and its canonical form (the text itself when it has a dot, the default namespace and
  the text otherwise) is a well-formed key, and then the canonical form is the result.
\<close>

lemma canonicalize_metadata_key_spec:
  "canonicalize_metadata_key raw ns = Ok k \<longleftrightarrow>
     trim raw \<noteq> []
   \<and> k = (if CHR ''.'' \<in> set (trim raw) then trim raw else ns @ CHR ''.'' # trim raw)
   \<and> wf_metadata_key k"
  by (rule canonicalize_Ok_iff)

text \<open>
  Canonical keys are fixed points: canonicalizing an accepted key again, with whatever
  default namespace, gives the same key and no legacy spelling.
\<close>

lemma canonicalize_idempotent:
  assumes "canonicalize_metadata_key raw ns = Ok k"
  shows "canonicalize_metadata_key k ns' = Ok k
       \<and> canonical_and_legacy_metadata_key k ns' = Ok (k, None)"
proof -
  from assms have k: "k = (if CHR ''.'' \<in> set (trim raw) then trim raw else ns @ CHR ''.'' # trim raw)"
    and wf: "wf_metadata_key k" unfolding canonicalize_Ok_iff by blast+
  then have dot: "CHR ''.'' \<in> set k" by (auto split: if_splits)
  have "canonicalize_metadata_key k ns' = Ok k"
    using dot wf wf_metadata_key_trim [OF wf] by (auto simp: canonicalize_Ok_iff)
  with dot wf_metadata_key_trim [OF wf] show ?thesis
    by (simp add: canonical_and_legacy_metadata_key_def)
qed

lemma canonicalize_idempotent_witness:
  "canonicalize_metadata_key ''lr'' ''parameters'' = Ok ''parameters.lr''
   \<and> canonicalize_metadata_key ''parameters.lr'' ''tags'' = Ok ''parameters.lr''"
proof -
  have h: "canonicalize_metadata_key ''lr'' ''parameters'' = Ok ''parameters.lr''" by code_simp
  with canonicalize_idempotent [OF h, of "''tags''"] show ?thesis by simp
qed

text \<open>
  The filters of a query: one filter for every non-empty comma-separated token, in
  order, each with a well-formed key whose legacy spelling, if any, is the key without the
  default namespace.
\<close>

lemma parse_metadata_filters_spec:
  assumes "parse_metadata_filters (Some v) ns q = Ok fs"
  shows "length fs = length (filter (\<lambda>seg. seg \<noteq> []) (map trim (split_on CHR '','' v)))
    \<and> (\<forall>f \<in> set fs. wf_metadata_key (mf_key f)
        \<and> (case mf_legacy_key f of None \<Rightarrow> True | Some l \<Rightarrow> mf_key f = ns @ CHR ''.'' # l))"
proof -
  let ?ts = "filter (\<lambda>seg. seg \<noteq> []) (map trim (split_on CHR '','' v))"
  have c: "length fs = length ?ts \<and> (\<forall>i < length ?ts. parse_metadata_filter ns q (?ts ! i) = Ok (fs ! i))"
    using assms by (intro collect_filters_Ok) (simp add: parse_metadata_filters_def)
  have "wf_metadata_key (mf_key f)
      \<and> (case mf_legacy_key f of None \<Rightarrow> True | Some l \<Rightarrow> mf_key f = ns @ CHR ''.'' # l)"
    if "f \<in> set fs" for f
  proof -
    from that obtain i where "i < length fs" "f = fs ! i" by (auto simp: in_set_conv_nth)
    with c have "parse_metadata_filter ns q (?ts ! i) = Ok f" by simp
    then show ?thesis by (rule parse_metadata_filter_wf)
  qed
  with c show ?thesis by blast
qed

lemma parse_metadata_filters_spec_witness:
  "length [\<lparr>mf_key = ''tags.env'', mf_legacy_key = Some ''env'', mf_value = Some ''prod''\<rparr>]
     = length (filter (\<lambda>seg. seg \<noteq> []) (map trim (split_on CHR '','' '' env = prod, '')))"
proof -
  have h: "parse_metadata_filters (Some '' env = prod, '') ''tags'' ''tags''
    = Ok [\<lparr>mf_key = ''tags.env'', mf_legacy_key = Some ''env'', mf_value = Some ''prod''\<rparr>]"
    by code_simp
  show ?thesis using parse_metadata_filters_spec [OF h] by blast
qed

end
