(* ===== verification/Run_Filter.thy ===== *)
theory Run_Filter
  imports Metadata
begin

text \<open>
  The structured filter of the run list (apps/api/src/main.rs): tokenizer, recursive-descent
  parser and the construction of a condition from a field, an operator and a value. The
  parser's cursor into the token vector is the list of the tokens that are left. Its mutual
  recursion carries fuel; \<open>parse_tokens\<close> starts it with three units per token and three
  more, which \<open>parse_fuel_enough\<close> shows is always enough.
\<close>

section \<open>Data\<close>

datatype RunFilterOperator = Eq | NotEq | Gt | Gte | Lt | Lte | Contains

datatype RunFilterTarget =
    Project | Owner | Status | Name | RunId | CreatedAt
  | Tag string "string option"
  | Param string "string option"

record RunFilterCondition =
  rfc_target :: RunFilterTarget
  rfc_op :: RunFilterOperator
  rfc_value :: string

datatype RunFilterExpr =
    Condition RunFilterCondition
  | And RunFilterExpr RunFilterExpr
  | Or RunFilterExpr RunFilterExpr

datatype RunFilterToken =
    TIdentifier string
  | TStringLiteral string
  | TOperator string
  | TAnd | TOr | TLParen | TRParen

abbreviation RUN_FILTER_MAX_LEN :: nat where "RUN_FILTER_MAX_LEN \<equiv> 2048"
abbreviation RUN_FILTER_MAX_TOKENS :: nat where "RUN_FILTER_MAX_TOKENS \<equiv> 256"

section \<open>Tokenizer\<close>

text \<open>The rest of a string literal after its opening quote: value and remaining text.\<close>

fun read_quoted :: "char \<Rightarrow> string \<Rightarrow> (string \<times> string) option" where
  "read_quoted q [] = None"
| "read_quoted q [c] = (if c = q then Some ([], []) else None)"
| "read_quoted q (c # d # s) =
     (if c = CHR 0x5C then map_option (\<lambda>(v, r). (d # v, r)) (read_quoted q s)
      else if c = q then Some ([], d # s)
      else map_option (\<lambda>(v, r). (c # v, r)) (read_quoted q (d # s)))"

definition word_break :: "char \<Rightarrow> bool" where
  "word_break c \<longleftrightarrow> c \<in> set ''()~!><='' \<or> c = CHR 0x22 \<or> c = CHR 0x27"

fun read_word :: "string \<Rightarrow> string \<times> string" where
  "read_word [] = ([], [])"
| "read_word (c # s) =
     (if 0 < ws_len (c # s) \<or> word_break c then ([], c # s)
      else (c # fst (read_word s), snd (read_word s)))"

definition word_token :: "string \<Rightarrow> RunFilterToken" where
  "word_token w =
     (if eq_ignore_ascii_case w ''and'' then TAnd
      else if eq_ignore_ascii_case w ''or'' then TOr
      else TIdentifier w)"

text \<open>
  One turn of the tokenizer's loop at a position that is not whitespace: a token and the
  remaining text.
\<close>

definition next_token :: "string \<Rightarrow> (RunFilterToken \<times> string, string) result" where
  "next_token s =
     (case s of
        [] \<Rightarrow> Err ''unexpected token boundary''
      | ch # cs \<Rightarrow>
          if ch = CHR ''('' then Ok (TLParen, cs)
          else if ch = CHR '')'' then Ok (TRParen, cs)
          else if ch = CHR ''~'' then Ok (TOperator ''~'', cs)
          else if ch = CHR 0x22 \<or> ch = CHR 0x27 then
            (case read_quoted ch cs of
               None \<Rightarrow> Err ''unterminated string literal''
             | Some (v, r) \<Rightarrow> Ok (TStringLiteral v, r))
          else if ch \<in> set ''!><='' then
            (if cs \<noteq> [] \<and> hd cs = CHR ''='' \<and> ch = CHR ''!'' then Ok (TOperator ''!='', tl cs)
             else if cs \<noteq> [] \<and> hd cs = CHR ''='' \<and> ch = CHR ''>'' then Ok (TOperator ''>='', tl cs)
             else if cs \<noteq> [] \<and> hd cs = CHR ''='' \<and> ch = CHR ''<'' then Ok (TOperator ''<='', tl cs)
             else if ch = CHR ''!'' then Err (''expected '' @ sq ''!='' @ '' operator'')
             else Ok (TOperator [ch], cs))
          else
            (case read_word s of
               (w, r) \<Rightarrow>
                 if w = [] then Err ''unexpected token boundary'' else Ok (word_token w, r)))"

lemma read_quoted_length: "read_quoted q s = Some (v, r) \<Longrightarrow> length r < length s"
  by (induction q s arbitrary: v r rule: read_quoted.induct) (fastforce split: if_splits)+

lemma read_word_append: "fst (read_word s) @ snd (read_word s) = s"
  by (induction s) auto

lemma read_word_length: "length (snd (read_word s)) \<le> length s"
  by (metis read_word_append le_add2 length_append)

lemma read_word_progress: "fst (read_word s) \<noteq> [] \<Longrightarrow> length (snd (read_word s)) < length s"
  using read_word_append [of s]
  by (metis length_append length_greater_0_conv less_add_same_cancel2)

lemma next_token_length:
  assumes "next_token s = Ok (t, r)"
  shows "length r < length s"
proof (cases s)
  case Nil
  with assms show ?thesis by (simp add: next_token_def)
next
  case (Cons ch cs)
  note step = assms [unfolded next_token_def Cons list.case]
  show ?thesis
    using step read_word_progress [of s] Cons
    by (auto dest: read_quoted_length split: if_splits option.splits prod.splits)
qed

function tokenize_loop :: "string \<Rightarrow> (RunFilterToken list, string) result" where
  "tokenize_loop s =
     (if s = [] then Ok []
      else if 0 < ws_len s then tokenize_loop (drop (ws_len s) s)
      else
        (case next_token s of
           Err e \<Rightarrow> Err e
         | Ok tr \<Rightarrow> try_bind (tokenize_loop (snd tr)) (\<lambda>ts. Ok (fst tr # ts))))"
  by pat_completeness auto
termination
  by (relation "measure length") (auto dest: next_token_length)

declare tokenize_loop.simps [simp del]

definition tokenize_run_filter :: "string \<Rightarrow> (RunFilterToken list, string) result" where
  "tokenize_run_filter raw =
     try_bind (tokenize_loop raw) (\<lambda>tokens.
       if RUN_FILTER_MAX_TOKENS < length tokens
       then Err (''filter expression exceeds max token count '' @ show_nat RUN_FILTER_MAX_TOKENS)
       else Ok tokens)"

section \<open>Conditions\<close>

text \<open>
  The date formats are parsed and printed by the chrono crate, outside the sources: \<open>Chrono\<close>
  holds its two parsers, each composed with the conversion to UTC and the printing of
  \<open>%Y-%m-%d %H:%M:%S\<close> that the code applies to what they return.
\<close>

record Chrono =
  parse_rfc3339_utc :: "string \<Rightarrow> string option"
  parse_naive :: "string \<Rightarrow> string option"

definition normalize_created_at_filter ::
  "Chrono \<Rightarrow> string \<Rightarrow> string \<Rightarrow> (string, http_error) result" where
  "normalize_created_at_filter ch raw field_name =
     (let trimmed = trim raw in
      if trimmed = [] then Err (BAD_REQUEST, field_name @ '' cannot be empty'')
      else
        (case parse_rfc3339_utc ch trimmed of
           Some s \<Rightarrow> Ok s
         | None \<Rightarrow>
             (case parse_naive ch trimmed of
                Some s \<Rightarrow> Ok s
              | None \<Rightarrow> Err (BAD_REQUEST, ''Invalid '' @ field_name @ '': expected RFC3339 or '' @
                           sq ''YYYY-MM-DD HH:MM:SS'' @ '' format''))))"

definition parse_run_filter_operator :: "string \<Rightarrow> (RunFilterOperator, string) result" where
  "parse_run_filter_operator raw =
     (if raw = ''='' then Ok Eq
      else if raw = ''!='' then Ok NotEq
      else if raw = ''>'' then Ok Gt
      else if raw = ''>='' then Ok Gte
      else if raw = ''<'' then Ok Lt
      else if raw = ''<='' then Ok Lte
      else if raw = ''~'' then Ok Contains
      else Err (''unsupported operator '' @ sq raw))"

definition text_operators :: "RunFilterOperator set" where
  "text_operators = {Eq, NotEq, Contains}"

definition time_operators :: "RunFilterOperator set" where
  "time_operators = {Eq, NotEq, Gt, Gte, Lt, Lte}"

definition text_ops_msg :: "string \<Rightarrow> string" where
  "text_ops_msg what = what @ '' only '' @ sq ''='' @ '', '' @ sq ''!='' @ '', and '' @ sq ''~'' @ '' operators''"

definition text_condition ::
  "RunFilterTarget \<Rightarrow> RunFilterOperator \<Rightarrow> string \<Rightarrow> string \<Rightarrow> (RunFilterCondition, string) result" where
  "text_condition target op value label =
     (if op \<notin> text_operators then Err (text_ops_msg label)
      else Ok \<lparr>rfc_target = target, rfc_op = op, rfc_value = value\<rparr>)"

definition strip_either :: "string \<Rightarrow> string \<Rightarrow> string \<Rightarrow> string option" where
  "strip_either p q s = (case strip_prefix p s of Some k \<Rightarrow> Some k | None \<Rightarrow> strip_prefix q s)"

definition build_run_filter_condition ::
  "Chrono \<Rightarrow> string \<Rightarrow> string \<Rightarrow> string \<Rightarrow> (RunFilterCondition, string) result" where
  "build_run_filter_condition ch field_raw op_raw value_raw =
     try_bind (parse_run_filter_operator op_raw) (\<lambda>op.
     let field = to_ascii_lowercase (trim field_raw);
         value = trim value_raw in
     if value = [] then Err ''comparison value cannot be empty''
     else if field = ''project'' \<or> field = ''project_id''
       then text_condition Project op value ''project supports''
     else if field = ''owner'' \<or> field = ''owner_user_id''
       then text_condition Owner op value ''owner supports''
     else if field = ''status''
       then text_condition Status op (to_ascii_lowercase value) ''status supports''
     else if field = ''name''
       then text_condition Name op value ''name supports''
     else if field = ''id'' \<or> field = ''run_id''
       then text_condition RunId op value ''run_id supports''
     else if field = ''created_at'' then
       (if op \<notin> time_operators
        then Err (''created_at supports only '' @ sq ''='' @ '', '' @ sq ''!='' @ '', '' @ sq ''>'' @
                  '', '' @ sq ''>='' @ '', '' @ sq ''<'' @ '', and '' @ sq ''<='' @ '' operators'')
        else
          try_bind (map_err snd (normalize_created_at_filter ch value ''filter.created_at''))
            (\<lambda>v. Ok \<lparr>rfc_target = CreatedAt, rfc_op = op, rfc_value = v\<rparr>))
     else
       (case strip_either ''tag.'' ''tags.'' field of
          Some raw_key \<Rightarrow>
            if op \<notin> text_operators then Err (text_ops_msg ''tag filters support'')
            else
              try_bind (canonical_and_legacy_metadata_key raw_key ''tags'')
                (\<lambda>(key, legacy). Ok \<lparr>rfc_target = Tag key legacy, rfc_op = op, rfc_value = value\<rparr>)
        | None \<Rightarrow>
            (case strip_either ''param.'' ''params.'' field of
               Some raw_key \<Rightarrow>
                 if op \<notin> text_operators then Err (text_ops_msg ''param filters support'')
                 else
                   try_bind (canonical_and_legacy_metadata_key raw_key ''parameters'')
                     (\<lambda>(key, legacy). Ok \<lparr>rfc_target = Param key legacy, rfc_op = op, rfc_value = value\<rparr>)
             | None \<Rightarrow> Err (''unsupported filter field '' @ sq field_raw))))"

section \<open>Parser\<close>

type_synonym 'a parse = "('a \<times> RunFilterToken list, string) result option"

definition parse_bind :: "'a parse \<Rightarrow> ('a \<Rightarrow> RunFilterToken list \<Rightarrow> 'b parse) \<Rightarrow> 'b parse" where
  "parse_bind p f =
     (case p of
        None \<Rightarrow> None
      | Some (Err e) \<Rightarrow> Some (Err e)
      | Some (Ok (x, r)) \<Rightarrow> f x r)"

text \<open>\<open>matches!(self.peek(), Some(t))\<close>\<close>

definition peek_is :: "RunFilterToken \<Rightarrow> RunFilterToken list \<Rightarrow> bool" where
  "peek_is t ts \<longleftrightarrow> ts \<noteq> [] \<and> hd ts = t"

definition parse_condition_expression ::
  "Chrono \<Rightarrow> RunFilterToken list \<Rightarrow> (RunFilterExpr \<times> RunFilterToken list, string) result" where
  "parse_condition_expression ch ts =
     (case ts of
        TIdentifier field # ts1 \<Rightarrow>
          (case ts1 of
             TOperator op # ts2 \<Rightarrow>
               (case ts2 of
                  TIdentifier value # ts3 \<Rightarrow>
                    try_bind (build_run_filter_condition ch field op value) (\<lambda>c. Ok (Condition c, ts3))
                | TStringLiteral value # ts3 \<Rightarrow>
                    try_bind (build_run_filter_condition ch field op value) (\<lambda>c. Ok (Condition c, ts3))
                | _ \<Rightarrow> Err ''expected comparison value'')
           | _ \<Rightarrow> Err ''expected comparison operator'')
      | _ \<Rightarrow> Err ''expected field identifier'')"

function (sequential) parse_or_expression :: "nat \<Rightarrow> Chrono \<Rightarrow> RunFilterToken list \<Rightarrow> RunFilterExpr parse"
  and parse_or_rest :: "nat \<Rightarrow> Chrono \<Rightarrow> RunFilterExpr \<Rightarrow> RunFilterToken list \<Rightarrow> RunFilterExpr parse"
  and parse_and_expression :: "nat \<Rightarrow> Chrono \<Rightarrow> RunFilterToken list \<Rightarrow> RunFilterExpr parse"
  and parse_and_rest :: "nat \<Rightarrow> Chrono \<Rightarrow> RunFilterExpr \<Rightarrow> RunFilterToken list \<Rightarrow> RunFilterExpr parse"
  and parse_primary_expression :: "nat \<Rightarrow> Chrono \<Rightarrow> RunFilterToken list \<Rightarrow> RunFilterExpr parse"
where
  "parse_or_expression 0 ch ts = None"
| "parse_or_expression (Suc n) ch ts =
     parse_bind (parse_and_expression n ch ts) (\<lambda>e r. parse_or_rest n ch e r)"
| "parse_or_rest 0 ch e ts = None"
| "parse_or_rest (Suc n) ch e ts =
     (if peek_is TOr ts
      then parse_bind (parse_and_expression n ch (tl ts)) (\<lambda>right r. parse_or_rest n ch (Or e right) r)
      else Some (Ok (e, ts)))"
| "parse_and_expression 0 ch ts = None"
| "parse_and_expression (Suc n) ch ts =
     parse_bind (parse_primary_expression n ch ts) (\<lambda>e r. parse_and_rest n ch e r)"
| "parse_and_rest 0 ch e ts = None"
| "parse_and_rest (Suc n) ch e ts =
     (if peek_is TAnd ts
      then parse_bind (parse_primary_expression n ch (tl ts)) (\<lambda>right r. parse_and_rest n ch (And e right) r)
      else Some (Ok (e, ts)))"
| "parse_primary_expression 0 ch ts = None"
| "parse_primary_expression (Suc n) ch ts =
     (if peek_is TLParen ts
      then parse_bind (parse_or_expression n ch (tl ts)) (\<lambda>e r.
             if \<not> peek_is TRParen r then Some (Err (''expected '' @ sq '')'')) else Some (Ok (e, tl r)))
      else Some (parse_condition_expression ch ts))"
  by pat_completeness auto
termination
  by (relation "measure (case_sum (case_sum fst fst) (case_sum fst (case_sum fst fst)))") simp_all

definition parse_fuel :: "RunFilterToken list \<Rightarrow> nat" where
  "parse_fuel ts = 3 * length ts + 3"

definition parse_tokens :: "Chrono \<Rightarrow> RunFilterToken list \<Rightarrow> (RunFilterExpr, string) result option" where
  "parse_tokens ch ts =
     (case parse_or_expression (parse_fuel ts) ch ts of
        None \<Rightarrow> None
      | Some (Err e) \<Rightarrow> Some (Err e)
      | Some (Ok (e, r)) \<Rightarrow> Some (if r \<noteq> [] then Err ''unexpected trailing token'' else Ok e))"

definition parse_run_filter_expr ::
  "Chrono \<Rightarrow> string option \<Rightarrow> (RunFilterExpr option, http_error) result option" where
  "parse_run_filter_expr ch raw =
     (case raw of
        None \<Rightarrow> Some (Ok None)
      | Some raw_filter \<Rightarrow>
          let trimmed = trim raw_filter in
          if trimmed = [] then Some (Ok None)
          else if RUN_FILTER_MAX_LEN < length trimmed then
            Some (Err (BAD_REQUEST, ''filter expression exceeds max length '' @
                       show_nat RUN_FILTER_MAX_LEN @ '' characters''))
          else
            (case tokenize_run_filter trimmed of
               Err e \<Rightarrow> Some (Err (BAD_REQUEST, ''Invalid filter expression: '' @ e))
             | Ok tokens \<Rightarrow>
                 if tokens = [] then Some (Ok None)
                 else
                   map_option
                     (\<lambda>r. try_bind (map_err (\<lambda>e. (BAD_REQUEST, ''Invalid filter expression: '' @ e)) r)
                       (\<lambda>e. Ok (Some e)))
                     (parse_tokens ch tokens)))"

section \<open>Sort parameters\<close>

datatype RunListSortField =
    SortCreatedAt | SortUpdatedAt | SortName | SortStatus | SortDurationSeconds
  | SortMetricsCount | SortParamsCount

datatype RunListSortOrder = Asc | Desc

definition parse_run_list_sort_field :: "string option \<Rightarrow> (RunListSortField, http_error) result" where
  "parse_run_list_sort_field raw =
     (case raw of
        None \<Rightarrow> Ok SortCreatedAt
      | Some value \<Rightarrow>
          let n = to_ascii_lowercase (trim value) in
          if n \<in> {'''', ''created_at'', ''created''} then Ok SortCreatedAt
          else if n \<in> {''updated_at'', ''updated''} then Ok SortUpdatedAt
          else if n = ''name'' then Ok SortName
          else if n = ''status'' then Ok SortStatus
          else if n \<in> {''duration'', ''duration_seconds''} then Ok SortDurationSeconds
          else if n \<in> {''metrics_count'', ''metrics''} then Ok SortMetricsCount
          else if n \<in> {''params_count'', ''params''} then Ok SortParamsCount
          else Err (BAD_REQUEST, ''Invalid sort_by value '' @ sq value))"

definition parse_run_list_sort_order :: "string option \<Rightarrow> (RunListSortOrder, http_error) result" where
  "parse_run_list_sort_order raw =
     (case raw of
        None \<Rightarrow> Ok Desc
      | Some value \<Rightarrow>
          let n = to_ascii_lowercase (trim value) in
          if n \<in> {'''', ''desc'', ''descending''} then Ok Desc
          else if n \<in> {''asc'', ''ascending''} then Ok Asc
          else Err (BAD_REQUEST, ''Invalid sort_order value '' @ sq value))"

section \<open>Parsing terminates with the fuel it is given\<close>

lemma parse_bind_Some_iff:
  "parse_bind p f = Some y \<longleftrightarrow>
   (\<exists>e. p = Some (Err e) \<and> y = Err e) \<or> (\<exists>x r. p = Some (Ok (x, r)) \<and> f x r = Some y)"
  by (auto simp: parse_bind_def split: option.splits result.splits)

lemma parse_bind_simps [simp]:
  "parse_bind None f = None"
  "parse_bind (Some (Err e)) f = Some (Err e)"
  "parse_bind (Some (Ok (x, r))) f = f x r"
  by (simp_all add: parse_bind_def)

lemma peek_is_simps [simp]: "\<not> peek_is t []" "peek_is t (u # us) \<longleftrightarrow> u = t"
  by (simp_all add: peek_is_def)

lemma peek_isE: "peek_is t ts \<Longrightarrow> (\<And>r. ts = t # r \<Longrightarrow> P) \<Longrightarrow> P"
  by (cases ts) auto

lemma parse_condition_length:
  "parse_condition_expression ch ts = Ok (e, r) \<Longrightarrow> length r < length ts"
  by (auto simp: parse_condition_expression_def try_bind_Ok_iff
    split: list.splits RunFilterToken.splits)

text \<open>What a parse consumes: a primary and a chain consume at least one token, the rest of a
  chain may consume none.\<close>

lemma parse_lengths:
  "(\<forall>ts e r. parse_or_expression n ch ts = Some (Ok (e, r)) \<longrightarrow> length r < length ts) \<and>
   (\<forall>x ts e r. parse_or_rest n ch x ts = Some (Ok (e, r)) \<longrightarrow> length r \<le> length ts) \<and>
   (\<forall>ts e r. parse_and_expression n ch ts = Some (Ok (e, r)) \<longrightarrow> length r < length ts) \<and>
   (\<forall>x ts e r. parse_and_rest n ch x ts = Some (Ok (e, r)) \<longrightarrow> length r \<le> length ts) \<and>
   (\<forall>ts e r. parse_primary_expression n ch ts = Some (Ok (e, r)) \<longrightarrow> length r < length ts)"
proof (induction n)
  case (Suc n)
  then have ih:
    "\<And>ts e r. parse_or_expression n ch ts = Some (Ok (e, r)) \<Longrightarrow> length r < length ts"
    "\<And>x ts e r. parse_or_rest n ch x ts = Some (Ok (e, r)) \<Longrightarrow> length r \<le> length ts"
    "\<And>ts e r. parse_and_expression n ch ts = Some (Ok (e, r)) \<Longrightarrow> length r < length ts"
    "\<And>x ts e r. parse_and_rest n ch x ts = Some (Ok (e, r)) \<Longrightarrow> length r \<le> length ts"
    "\<And>ts e r. parse_primary_expression n ch ts = Some (Ok (e, r)) \<Longrightarrow> length r < length ts"
    by blast+
  show ?case
    by (intro conjI allI impI)
       (fastforce simp: parse_bind_Some_iff split: if_splits
         elim!: peek_isE dest!: ih parse_condition_length)+
qed simp


lemmas parse_length = parse_lengths [THEN conjunct1, rule_format]
  parse_lengths [THEN conjunct2, THEN conjunct1, rule_format]
  parse_lengths [THEN conjunct2, THEN conjunct2, THEN conjunct1, rule_format]
  parse_lengths [THEN conjunct2, THEN conjunct2, THEN conjunct2, THEN conjunct1, rule_format]
  parse_lengths [THEN conjunct2, THEN conjunct2, THEN conjunct2, THEN conjunct2, rule_format]

lemma parse_bind_not_None:
  "p \<noteq> None \<Longrightarrow> (\<And>x r. p = Some (Ok (x, r)) \<Longrightarrow> f x r \<noteq> None) \<Longrightarrow> parse_bind p f \<noteq> None"
  by (auto simp: parse_bind_def split: option.splits result.splits)

lemma parse_enough:
  "(\<forall>ts. 3 * length ts + 3 \<le> n \<longrightarrow> parse_or_expression n ch ts \<noteq> None) \<and>
   (\<forall>x ts. 3 * length ts + 1 \<le> n \<longrightarrow> parse_or_rest n ch x ts \<noteq> None) \<and>
   (\<forall>ts. 3 * length ts + 2 \<le> n \<longrightarrow> parse_and_expression n ch ts \<noteq> None) \<and>
   (\<forall>x ts. 3 * length ts + 1 \<le> n \<longrightarrow> parse_and_rest n ch x ts \<noteq> None) \<and>
   (\<forall>ts. 3 * length ts + 1 \<le> n \<longrightarrow> parse_primary_expression n ch ts \<noteq> None)"
proof (induction n)
  case (Suc n)
  then have ih:
    "\<And>ts. 3 * length ts + 3 \<le> n \<Longrightarrow> parse_or_expression n ch ts \<noteq> None"
    "\<And>x ts. 3 * length ts + 1 \<le> n \<Longrightarrow> parse_or_rest n ch x ts \<noteq> None"
    "\<And>ts. 3 * length ts + 2 \<le> n \<Longrightarrow> parse_and_expression n ch ts \<noteq> None"
    "\<And>x ts. 3 * length ts + 1 \<le> n \<Longrightarrow> parse_and_rest n ch x ts \<noteq> None"
    "\<And>ts. 3 * length ts + 1 \<le> n \<Longrightarrow> parse_primary_expression n ch ts \<noteq> None"
    by blast+
  have "parse_or_expression (Suc n) ch ts \<noteq> None" if "3 * length ts + 3 \<le> Suc n" for ts
    unfolding parse_or_expression.simps
    by (intro parse_bind_not_None ih) (use that in \<open>auto dest: parse_length\<close>)
  moreover have "parse_or_rest (Suc n) ch x ts \<noteq> None" if "3 * length ts + 1 \<le> Suc n" for x ts
    unfolding parse_or_rest.simps using that
    by (auto intro!: parse_bind_not_None [unfolded not_None_eq] ih [unfolded not_None_eq]
      elim!: peek_isE dest: parse_length)
  moreover have "parse_and_expression (Suc n) ch ts \<noteq> None" if "3 * length ts + 2 \<le> Suc n" for ts
    unfolding parse_and_expression.simps
    by (intro parse_bind_not_None ih) (use that in \<open>auto dest: parse_length\<close>)
  moreover have "parse_and_rest (Suc n) ch x ts \<noteq> None" if "3 * length ts + 1 \<le> Suc n" for x ts
    unfolding parse_and_rest.simps using that
    by (auto intro!: parse_bind_not_None [unfolded not_None_eq] ih [unfolded not_None_eq]
      elim!: peek_isE dest: parse_length)
  moreover have "parse_primary_expression (Suc n) ch ts \<noteq> None" if "3 * length ts + 1 \<le> Suc n" for ts
    unfolding parse_primary_expression.simps using that
    by (auto intro!: parse_bind_not_None [unfolded not_None_eq] ih [unfolded not_None_eq]
      elim!: peek_isE)
  ultimately show ?case by blast
qed simp

lemma parse_fuel_enough: "parse_fuel ts \<le> n \<Longrightarrow> \<exists>y. parse_or_expression n ch ts = Some y"
  using parse_enough [of n ch] by (auto simp: parse_fuel_def)

lemma parse_bind_mono:
  "parse_bind p f = Some y \<Longrightarrow> (\<And>z. p = Some z \<Longrightarrow> p' = Some z) \<Longrightarrow>
   (\<And>x r z. f x r = Some z \<Longrightarrow> f' x r = Some z) \<Longrightarrow> parse_bind p' f' = Some y"
  by (auto simp: parse_bind_Some_iff)

lemmas parse_Suc = parse_or_expression.simps(2) parse_or_rest.simps(2)
  parse_and_expression.simps(2) parse_and_rest.simps(2) parse_primary_expression.simps(2)

lemma parse_mono:
  "(\<forall>ts y. parse_or_expression n ch ts = Some y \<longrightarrow> parse_or_expression (Suc n) ch ts = Some y) \<and>
   (\<forall>x ts y. parse_or_rest n ch x ts = Some y \<longrightarrow> parse_or_rest (Suc n) ch x ts = Some y) \<and>
   (\<forall>ts y. parse_and_expression n ch ts = Some y \<longrightarrow> parse_and_expression (Suc n) ch ts = Some y) \<and>
   (\<forall>x ts y. parse_and_rest n ch x ts = Some y \<longrightarrow> parse_and_rest (Suc n) ch x ts = Some y) \<and>
   (\<forall>ts y. parse_primary_expression n ch ts = Some y \<longrightarrow> parse_primary_expression (Suc n) ch ts = Some y)"
proof (induction n)
  case (Suc n)
  then have ih:
    "\<And>ts y. parse_or_expression n ch ts = Some y \<Longrightarrow> parse_or_expression (Suc n) ch ts = Some y"
    "\<And>x ts y. parse_or_rest n ch x ts = Some y \<Longrightarrow> parse_or_rest (Suc n) ch x ts = Some y"
    "\<And>ts y. parse_and_expression n ch ts = Some y \<Longrightarrow> parse_and_expression (Suc n) ch ts = Some y"
    "\<And>x ts y. parse_and_rest n ch x ts = Some y \<Longrightarrow> parse_and_rest (Suc n) ch x ts = Some y"
    "\<And>ts y. parse_primary_expression n ch ts = Some y \<Longrightarrow> parse_primary_expression (Suc n) ch ts = Some y"
    by blast+
  have "parse_or_expression (Suc (Suc n)) ch ts = Some y"
    if "parse_or_expression (Suc n) ch ts = Some y" for ts y
    using that unfolding parse_or_expression.simps(2) by (rule parse_bind_mono) (rule ih; assumption)+
  moreover have "parse_or_rest (Suc (Suc n)) ch x ts = Some y"
    if "parse_or_rest (Suc n) ch x ts = Some y" for x ts y
    using that [unfolded parse_or_rest.simps(2) [of n]]
    by (subst parse_or_rest.simps(2)) (auto simp del: parse_Suc intro: ih elim!: parse_bind_mono split: if_splits)
  moreover have "parse_and_expression (Suc (Suc n)) ch ts = Some y"
    if "parse_and_expression (Suc n) ch ts = Some y" for ts y
    using that unfolding parse_and_expression.simps(2) by (rule parse_bind_mono) (rule ih; assumption)+
  moreover have "parse_and_rest (Suc (Suc n)) ch x ts = Some y"
    if "parse_and_rest (Suc n) ch x ts = Some y" for x ts y
    using that [unfolded parse_and_rest.simps(2) [of n]]
    by (subst parse_and_rest.simps(2)) (auto simp del: parse_Suc intro: ih elim!: parse_bind_mono split: if_splits)
  moreover have "parse_primary_expression (Suc (Suc n)) ch ts = Some y"
    if "parse_primary_expression (Suc n) ch ts = Some y" for ts y
    using that [unfolded parse_primary_expression.simps(2) [of n]]
    by (subst parse_primary_expression.simps(2)) (auto simp del: parse_Suc intro: ih elim!: parse_bind_mono split: if_splits)
  ultimately show ?case by blast
qed simp

lemma parse_or_mono:
  assumes "n \<le> m" "parse_or_expression n ch ts = Some y"
  shows "parse_or_expression m ch ts = Some y"
  using assms
proof (induction rule: dec_induct)
  case (step k)
  then show ?case using parse_mono [of k ch] by blast
qed

section \<open>The grammar the parser implements\<close>

text \<open>
  The language of filters as a grammar over token lists, with no cursor and no fuel. AND binds
  tighter than OR and both associate to the left; a condition is three tokens whose field,
  operator and value \<open>build_run_filter_condition\<close> accepts.
\<close>

inductive or_phrase :: "Chrono \<Rightarrow> RunFilterToken list \<Rightarrow> RunFilterExpr \<Rightarrow> bool"
  and and_phrase :: "Chrono \<Rightarrow> RunFilterToken list \<Rightarrow> RunFilterExpr \<Rightarrow> bool"
  and prim_phrase :: "Chrono \<Rightarrow> RunFilterToken list \<Rightarrow> RunFilterExpr \<Rightarrow> bool"
  for ch
where
  or_one: "and_phrase ch ts e \<Longrightarrow> or_phrase ch ts e"
| or_more: "or_phrase ch ts e \<Longrightarrow> and_phrase ch us f \<Longrightarrow> or_phrase ch (ts @ TOr # us) (Or e f)"
| and_one: "prim_phrase ch ts e \<Longrightarrow> and_phrase ch ts e"
| and_more: "and_phrase ch ts e \<Longrightarrow> prim_phrase ch us f \<Longrightarrow> and_phrase ch (ts @ TAnd # us) (And e f)"
| prim_paren: "or_phrase ch ts e \<Longrightarrow> prim_phrase ch (TLParen # ts @ [TRParen]) e"
| prim_word: "build_run_filter_condition ch field op v = Ok c \<Longrightarrow>
    prim_phrase ch [TIdentifier field, TOperator op, TIdentifier v] (Condition c)"
| prim_text: "build_run_filter_condition ch field op v = Ok c \<Longrightarrow>
    prim_phrase ch [TIdentifier field, TOperator op, TStringLiteral v] (Condition c)"

lemma parse_condition_phrase:
  "parse_condition_expression ch ts = Ok (e, r) \<Longrightarrow> \<exists>us. ts = us @ r \<and> prim_phrase ch us e"
  by (auto simp: parse_condition_expression_def try_bind_Ok_iff
    split: list.splits RunFilterToken.splits intro: prim_word prim_text)

lemma parse_sound:
  "(\<forall>ts e r. parse_or_expression n ch ts = Some (Ok (e, r)) \<longrightarrow>
      (\<exists>us. ts = us @ r \<and> or_phrase ch us e)) \<and>
   (\<forall>x ts e r. parse_or_rest n ch x ts = Some (Ok (e, r)) \<longrightarrow>
      (\<exists>us. ts = us @ r \<and> (\<forall>p. or_phrase ch p x \<longrightarrow> or_phrase ch (p @ us) e))) \<and>
   (\<forall>ts e r. parse_and_expression n ch ts = Some (Ok (e, r)) \<longrightarrow>
      (\<exists>us. ts = us @ r \<and> and_phrase ch us e)) \<and>
   (\<forall>x ts e r. parse_and_rest n ch x ts = Some (Ok (e, r)) \<longrightarrow>
      (\<exists>us. ts = us @ r \<and> (\<forall>p. and_phrase ch p x \<longrightarrow> and_phrase ch (p @ us) e))) \<and>
   (\<forall>ts e r. parse_primary_expression n ch ts = Some (Ok (e, r)) \<longrightarrow>
      (\<exists>us. ts = us @ r \<and> prim_phrase ch us e))"
proof (induction n)
  case (Suc n)
  then have ih:
    "\<And>ts e r. parse_or_expression n ch ts = Some (Ok (e, r)) \<Longrightarrow> \<exists>us. ts = us @ r \<and> or_phrase ch us e"
    "\<And>x ts e r. parse_or_rest n ch x ts = Some (Ok (e, r)) \<Longrightarrow>
       \<exists>us. ts = us @ r \<and> (\<forall>p. or_phrase ch p x \<longrightarrow> or_phrase ch (p @ us) e)"
    "\<And>ts e r. parse_and_expression n ch ts = Some (Ok (e, r)) \<Longrightarrow> \<exists>us. ts = us @ r \<and> and_phrase ch us e"
    "\<And>x ts e r. parse_and_rest n ch x ts = Some (Ok (e, r)) \<Longrightarrow>
       \<exists>us. ts = us @ r \<and> (\<forall>p. and_phrase ch p x \<longrightarrow> and_phrase ch (p @ us) e)"
    "\<And>ts e r. parse_primary_expression n ch ts = Some (Ok (e, r)) \<Longrightarrow> \<exists>us. ts = us @ r \<and> prim_phrase ch us e"
    by blast+
  have "\<exists>us. ts = us @ r \<and> or_phrase ch us e"
    if "parse_or_expression (Suc n) ch ts = Some (Ok (e, r))" for ts e r
    using that by (auto simp: parse_bind_Some_iff dest!: ih(2,3) intro: or_one)
  moreover have "\<exists>us. ts = us @ r \<and> (\<forall>p. or_phrase ch p x \<longrightarrow> or_phrase ch (p @ us) e)"
    if run: "parse_or_rest (Suc n) ch x ts = Some (Ok (e, r))" for x ts e r
  proof (cases "peek_is TOr ts")
    case True
    then obtain y s us vs where us: "tl ts = us @ s" "and_phrase ch us y" and vs: "s = vs @ r"
      "\<forall>p. or_phrase ch p (Or x y) \<longrightarrow> or_phrase ch (p @ vs) e"
      using run by (auto simp: parse_bind_Some_iff dest!: ih(2,3))
    have "or_phrase ch (p @ TOr # us @ vs) e" if "or_phrase ch p x" for p
      using vs(2) [rule_format, OF or_more, OF that us(2)] by simp
    with us vs True show ?thesis by (auto elim!: peek_isE intro!: exI [of _ "TOr # us @ vs"])
  qed (use run in auto)
  moreover have "\<exists>us. ts = us @ r \<and> and_phrase ch us e"
    if "parse_and_expression (Suc n) ch ts = Some (Ok (e, r))" for ts e r
    using that by (auto simp: parse_bind_Some_iff dest!: ih(4,5) intro: and_one)
  moreover have "\<exists>us. ts = us @ r \<and> (\<forall>p. and_phrase ch p x \<longrightarrow> and_phrase ch (p @ us) e)"
    if run: "parse_and_rest (Suc n) ch x ts = Some (Ok (e, r))" for x ts e r
  proof (cases "peek_is TAnd ts")
    case True
    then obtain y s us vs where us: "tl ts = us @ s" "prim_phrase ch us y" and vs: "s = vs @ r"
      "\<forall>p. and_phrase ch p (And x y) \<longrightarrow> and_phrase ch (p @ vs) e"
      using run by (auto simp: parse_bind_Some_iff dest!: ih(4,5))
    have "and_phrase ch (p @ TAnd # us @ vs) e" if "and_phrase ch p x" for p
      using vs(2) [rule_format, OF and_more, OF that us(2)] by simp
    with us vs True show ?thesis by (auto elim!: peek_isE intro!: exI [of _ "TAnd # us @ vs"])
  qed (use run in auto)
  moreover have "\<exists>us. ts = us @ r \<and> prim_phrase ch us e"
    if run: "parse_primary_expression (Suc n) ch ts = Some (Ok (e, r))" for ts e r
  proof (cases "peek_is TLParen ts")
    case True
    then obtain s us where s: "tl ts = us @ s" "or_phrase ch us e" "peek_is TRParen s" "r = tl s"
      using run by (auto simp: parse_bind_Some_iff split: if_splits dest!: ih(1))
    from s(2) have "prim_phrase ch (TLParen # us @ [TRParen]) e" by (rule prim_paren)
    with True s show ?thesis
      by (auto elim!: peek_isE intro!: exI [of _ "TLParen # us @ [TRParen]"])
  qed (use run parse_condition_phrase in auto)
  ultimately show ?case by blast
qed simp

text \<open>The result \<open>p\<close> settles on \<open>y\<close> once the fuel is large enough.\<close>

definition settles :: "(nat \<Rightarrow> 'a option) \<Rightarrow> 'a \<Rightarrow> bool" where
  "settles p y \<longleftrightarrow> (\<exists>N. \<forall>n \<ge> N. p n = Some y)"

lemma settles_Suc: "settles p y \<longleftrightarrow> settles (\<lambda>n. p (Suc n)) y"
  unfolding settles_def by (metis Suc_le_D Suc_le_mono le_SucI)

lemma settles_bind:
  assumes "settles p (Ok (x, r))" "settles (\<lambda>n. f n x r) y"
  shows "settles (\<lambda>n. parse_bind (p n) (f n)) y"
proof -
  from assms obtain M N where "\<forall>n \<ge> M. p n = Some (Ok (x, r))" "\<forall>n \<ge> N. f n x r = Some y"
    by (auto simp: settles_def)
  then show ?thesis unfolding settles_def by (intro exI [of _ "max M N"]) simp
qed

lemma settles_const [intro]: "settles (\<lambda>n. Some y) y"
  by (simp add: settles_def)

lemma parse_complete:
  "or_phrase ch us e \<Longrightarrow> \<not> peek_is TAnd r \<Longrightarrow> settles (\<lambda>n. parse_or_rest n ch e r) y \<Longrightarrow>
     settles (\<lambda>n. parse_or_expression n ch (us @ r)) y"
  "and_phrase ch us e \<Longrightarrow> settles (\<lambda>n. parse_and_rest n ch e r') y' \<Longrightarrow>
     settles (\<lambda>n. parse_and_expression n ch (us @ r')) y'"
  "prim_phrase ch us e \<Longrightarrow> settles (\<lambda>n. parse_primary_expression n ch (us @ r'')) (Ok (e, r''))"
proof (induction us e and us e and us e arbitrary: r y and r' y' and r''
    rule: or_phrase_and_phrase_prim_phrase.inducts)
  case (or_one ts e)
  have "settles (\<lambda>n. parse_and_rest n ch e r) (Ok (e, r))"
    using or_one.prems(1) by (subst settles_Suc) auto
  then have "settles (\<lambda>n. parse_and_expression n ch (ts @ r)) (Ok (e, r))" by (rule or_one.IH)
  then show ?case using or_one.prems(2) by (subst settles_Suc) (auto intro: settles_bind)
next
  case (or_more ts e us f)
  have "settles (\<lambda>n. parse_and_rest n ch f r) (Ok (f, r))"
    using or_more.prems(1) by (subst settles_Suc) auto
  then have "settles (\<lambda>n. parse_and_expression n ch (us @ r)) (Ok (f, r))" by (rule or_more.IH)
  then have "settles (\<lambda>n. parse_or_rest n ch e (TOr # us @ r)) y"
    using or_more.prems(2) by (subst settles_Suc) (auto intro: settles_bind)
  from or_more.IH(2) [OF _ this] show ?case by simp
next
  case (and_one ts e)
  from settles_bind [OF and_one.IH(2), where f = "\<lambda>n. parse_and_rest n ch", OF and_one.prems]
  show ?case by (subst settles_Suc) simp
next
  case (and_more ts e us f)
  have "settles (\<lambda>n. parse_and_rest n ch e (TAnd # us @ r')) y'"
    by (subst settles_Suc) (auto intro: settles_bind and_more.IH(4) and_more.prems)
  from and_more.IH(2) [OF this] show ?case by simp
next
  case (prim_paren ts e)
  have "settles (\<lambda>n. parse_or_rest n ch e (TRParen # r'')) (Ok (e, TRParen # r''))"
    by (subst settles_Suc) auto
  then have "settles (\<lambda>n. parse_or_expression n ch (ts @ TRParen # r'')) (Ok (e, TRParen # r''))"
    by (intro prim_paren.IH) simp_all
  then show ?case by (subst settles_Suc) (auto intro!: settles_bind)
next
  case (prim_word field op v c)
  then show ?case by (subst settles_Suc) (auto simp: parse_condition_expression_def)
next
  case (prim_text field op v c)
  then show ?case by (subst settles_Suc) (auto simp: parse_condition_expression_def)
qed

lemma parse_or_phrase:
  assumes "or_phrase ch ts e"
  shows "parse_or_expression (parse_fuel ts) ch ts = Some (Ok (e, []))"
proof -
  have "settles (\<lambda>n. parse_or_rest n ch e []) (Ok (e, []))" by (subst settles_Suc) auto
  from parse_complete(1) [OF assms _ this]
  obtain N where N: "\<And>n. N \<le> n \<Longrightarrow> parse_or_expression n ch ts = Some (Ok (e, []))"
    by (auto simp: settles_def)
  obtain y where y: "parse_or_expression (parse_fuel ts) ch ts = Some y"
    using parse_fuel_enough by blast
  then have "parse_or_expression (max N (parse_fuel ts)) ch ts = Some y"
    by (rule parse_or_mono [rotated]) simp
  with N [of "max N (parse_fuel ts)"] y show ?thesis by simp
qed

text \<open>
  C2: the run filter parser accepts exactly the phrases of the filter grammar and returns the
  tree the grammar assigns to them. In particular the parse always returns (with the fuel
  \<open>parse_tokens\<close> starts it with), AND binds tighter than OR, chains associate to the left, and
  a list of tokens has at most one reading.
\<close>

theorem parse_tokens_grammar:
  "(\<exists>y. parse_tokens ch ts = Some y) \<and> (parse_tokens ch ts = Some (Ok e) \<longleftrightarrow> or_phrase ch ts e)"
proof
  obtain y where y: "parse_or_expression (parse_fuel ts) ch ts = Some y"
    using parse_fuel_enough by blast
  then show "\<exists>y. parse_tokens ch ts = Some y"
    by (auto simp: parse_tokens_def split: result.splits)
  show "parse_tokens ch ts = Some (Ok e) \<longleftrightarrow> or_phrase ch ts e"
  proof
    assume "parse_tokens ch ts = Some (Ok e)"
    then have "parse_or_expression (parse_fuel ts) ch ts = Some (Ok (e, []))"
      by (auto simp: parse_tokens_def split: option.splits result.splits if_splits)
    then show "or_phrase ch ts e" using parse_sound [of "parse_fuel ts" ch] by fastforce
  next
    assume "or_phrase ch ts e"
    then show "parse_tokens ch ts = Some (Ok e)" by (simp add: parse_or_phrase parse_tokens_def)
  qed
qed

section \<open>The conditions that reach the database\<close>

fun conditions :: "RunFilterExpr \<Rightarrow> RunFilterCondition list" where
  "conditions (Condition c) = [c]"
| "conditions (And e f) = conditions e @ conditions f"
| "conditions (Or e f) = conditions e @ conditions f"

definition lowercase_text :: "string \<Rightarrow> bool" where
  "lowercase_text s \<longleftrightarrow> (\<forall>c \<in> set s. ascii_lower c = c)"

definition wf_key_pair :: "string \<Rightarrow> string \<Rightarrow> string option \<Rightarrow> bool" where
  "wf_key_pair ns key legacy \<longleftrightarrow>
     wf_metadata_key key \<and> lowercase_text key
   \<and> (case legacy of None \<Rightarrow> True | Some l \<Rightarrow> key = ns @ CHR ''.'' # l)"

definition wf_condition :: "RunFilterCondition \<Rightarrow> bool" where
  "wf_condition c \<longleftrightarrow>
     (case rfc_target c of
        CreatedAt \<Rightarrow> rfc_op c \<in> time_operators
      | Tag key legacy \<Rightarrow> rfc_op c \<in> text_operators \<and> rfc_value c \<noteq> [] \<and> wf_key_pair ''tags'' key legacy
      | Param key legacy \<Rightarrow>
          rfc_op c \<in> text_operators \<and> rfc_value c \<noteq> [] \<and> wf_key_pair ''parameters'' key legacy
      | _ \<Rightarrow> rfc_op c \<in> text_operators \<and> rfc_value c \<noteq> [])"

lemma lowercase_text_lower: "lowercase_text (to_ascii_lowercase s)"
  by (simp add: lowercase_text_def to_ascii_lowercase_def)

lemma lowercase_text_append [simp]:
  "lowercase_text (s @ t) \<longleftrightarrow> lowercase_text s \<and> lowercase_text t"
  "lowercase_text (c # t) \<longleftrightarrow> ascii_lower c = c \<and> lowercase_text t"
  "lowercase_text []"
  by (auto simp: lowercase_text_def)

lemma lowercase_text_trim: "lowercase_text s \<Longrightarrow> lowercase_text (trim s)"
  using set_trim by (auto simp: lowercase_text_def)

lemma strip_either_lowercase: "strip_either p q s = Some k \<Longrightarrow> lowercase_text s \<Longrightarrow> lowercase_text k"
  by (auto simp: strip_either_def strip_prefix_Some split: option.splits)

lemma canonical_pair_wf:
  assumes "canonical_and_legacy_metadata_key raw ns = Ok (key, legacy)"
    and "lowercase_text raw" "lowercase_text ns"
  shows "wf_key_pair ns key legacy"
proof -
  have "ascii_lower CHR ''.'' = CHR ''.''" by (simp add: char_eval)
  with assms show ?thesis
    by (auto simp: canonical_and_legacy_metadata_key_def try_bind_Ok_iff canonicalize_Ok_iff
      wf_key_pair_def lowercase_text_trim)
qed

lemma build_condition_wf:
  assumes "build_run_filter_condition ch field op v = Ok c"
  shows "wf_condition c"
proof -
  have ns: "lowercase_text ''tags''" "lowercase_text ''parameters''"
    by (simp_all add: char_eval)
  have key: "wf_key_pair ns key legacy"
    if "strip_either p q (to_ascii_lowercase (trim field)) = Some raw"
      "canonical_and_legacy_metadata_key raw ns = Ok (key, legacy)" "lowercase_text ns" for p q raw ns key legacy
    using canonical_pair_wf [OF that(2) strip_either_lowercase [OF that(1) lowercase_text_lower] that(3)] .
  from assms show ?thesis
    unfolding build_run_filter_condition_def Let_def text_condition_def
    by (auto simp: try_bind_Ok_iff wf_condition_def intro: key [OF _ _ ns(1)] key [OF _ _ ns(2)]
      split: if_splits option.splits)
qed

lemma phrase_wf:
  "or_phrase ch ts e \<Longrightarrow> \<forall>c \<in> set (conditions e). wf_condition c"
  "and_phrase ch ts e \<Longrightarrow> \<forall>c \<in> set (conditions e). wf_condition c"
  "prim_phrase ch ts e \<Longrightarrow> \<forall>c \<in> set (conditions e). wf_condition c"
  by (induction rule: or_phrase_and_phrase_prim_phrase.inducts) (auto dest: build_condition_wf)

text \<open>
  what the run list does with its filter parameter. The parse always returns; every
  rejection is a 400; an absent or blank filter is no filter; and an accepted one is a phrase
  of the grammar over the tokens of the trimmed text, all of whose conditions are well formed:
  ordering operators only on the creation time, substring matching never on it, no empty value,
  and canonical metadata keys of the target's namespace.
\<close>

lemma parse_run_filter_expr_spec:
  "\<exists>y. parse_run_filter_expr ch raw = Some y \<and>
     (case y of
        Err (code, msg) \<Rightarrow> code = BAD_REQUEST
      | Ok None \<Rightarrow> raw = None \<or> (\<exists>s. raw = Some s \<and> (trim s = [] \<or> tokenize_run_filter (trim s) = Ok []))
      | Ok (Some e) \<Rightarrow>
          (\<exists>s ts. raw = Some s \<and> length (trim s) \<le> RUN_FILTER_MAX_LEN
             \<and> tokenize_run_filter (trim s) = Ok ts \<and> length ts \<le> RUN_FILTER_MAX_TOKENS
             \<and> or_phrase ch ts e \<and> list_all wf_condition (conditions e)))"
proof (cases raw)
  case None
  then show ?thesis by (simp add: parse_run_filter_expr_def)
next
  case (Some s)
  show ?thesis
  proof (cases "trim s = [] \<or> RUN_FILTER_MAX_LEN < length (trim s)
      \<or> \<not> is_ok (tokenize_run_filter (trim s)) \<or> tokenize_run_filter (trim s) = Ok []")
    case True
    with Some show ?thesis
      by (auto simp: parse_run_filter_expr_def Let_def is_ok_def split: result.splits)
  next
    case False
    then obtain ts where ts: "tokenize_run_filter (trim s) = Ok ts" "ts \<noteq> []"
      by (cases "tokenize_run_filter (trim s)") (auto simp: is_ok_def)
    obtain y where y: "parse_or_expression (parse_fuel ts) ch ts = Some y"
      using parse_fuel_enough by blast
    have phrase: "or_phrase ch ts e" if "y = Ok (e, [])" for e
      using parse_sound [of "parse_fuel ts" ch] y that by fastforce
    then have wf: "list_all wf_condition (conditions e)" if "y = Ok (e, [])" for e
      using phrase_wf(1) that by (auto simp: list_all_iff)
    have "length ts \<le> RUN_FILTER_MAX_TOKENS"
      using ts(1) by (auto simp: tokenize_run_filter_def try_bind_Ok_iff split: if_splits)
    with Some False ts y show ?thesis
      by (auto simp: parse_run_filter_expr_def Let_def parse_tokens_def dest: phrase wf
        split: result.splits)
  qed
qed

text \<open>
  the field of a condition is lowercased as a whole, the metadata key after \<open>tag.\<close> or
  \<open>param.\<close> included, while the key of an ingested tag or parameter keeps its case: the tag
  \<open>Model\<close> is stored as \<open>tags.Model\<close> and the filter \<open>tag.Model = x\<close> looks for \<open>tags.model\<close> or
  \<open>model\<close>.
\<close>

lemma filter_key_loses_case:
  "canonicalize_metadata_key ''Model'' ''tags'' = Ok ''tags.Model'' \<and>
   build_run_filter_condition ch ''tag.Model'' ''='' ''x'' =
     Ok \<lparr>rfc_target = Tag ''tags.model'' (Some ''model''), rfc_op = Eq, rfc_value = ''x''\<rparr>"
  by (rule conjI, code_simp) code_simp

end
