(* ===== verification/Float64.thy ===== *)
theory Float64
  imports Prelude Complex_Main
begin

text \<open>
  The binary64 arithmetic of Rust's \<open>f64\<close>, on bit patterns: classification, the rational value
  of a finite pattern, rounding to nearest with ties to even, and the operations and conversions
  the server uses (addition, subtraction, division, fused multiply-add, minimum and maximum,
  comparison, floor and ceiling, casts, \<open>Duration::as_secs_f64\<close> and \<open>str::parse::<f64>\<close>). An
  operation on finite operands rounds the exact result once. The lemmas give the exactness of
  rounding on integers and the bounds of the rounding error, absolute and relative.
\<close>

section \<open>Values\<close>

type_synonym f64 = "64 word"

abbreviation F64_INF_BITS :: int where "F64_INF_BITS \<equiv> 0x7FF0000000000000"

definition f_bits :: "f64 \<Rightarrow> int" where
  "f_bits w = uint (take_bit 63 w)"

definition f_neg :: "f64 \<Rightarrow> bool" where
  "f_neg w \<longleftrightarrow> 0x8000000000000000 \<le> uint w"

text \<open>A NaN: exponent all ones, mantissa not zero.\<close>

definition is_nan :: "f64 \<Rightarrow> bool" where
  "is_nan w \<longleftrightarrow> F64_INF_BITS < f_bits w"

definition is_infinite :: "f64 \<Rightarrow> bool" where
  "is_infinite w \<longleftrightarrow> f_bits w = F64_INF_BITS"

definition is_finite :: "f64 \<Rightarrow> bool" where
  "is_finite w \<longleftrightarrow> f_bits w < F64_INF_BITS"

definition F64_INFINITY :: f64 where "F64_INFINITY = 0x7FF0000000000000"
definition F64_NEG_INFINITY :: f64 where "F64_NEG_INFINITY = 0xFFF0000000000000"
definition F64_NAN :: f64 where "F64_NAN = 0x7FF8000000000000"

text \<open>The magnitude of a finite pattern: subnormal when the exponent field is zero.\<close>

definition f_mag :: "int \<Rightarrow> rat" where
  "f_mag b =
     (let e = b div 2 ^ 52; m = b mod 2 ^ 52 in
      if e = 0 then of_int m * 2 powi (- 1074) else of_int (2 ^ 52 + m) * 2 powi (e - 1075))"

definition f_val :: "f64 \<Rightarrow> rat" where
  "f_val w = (if f_neg w then - f_mag (f_bits w) else f_mag (f_bits w))"

lemma f_mag_code [code]:
  "f_mag b =
     (if b = 0 then 0
      else
        (let e = b div 2 ^ 52; m = b mod 2 ^ 52 in
         if e = 0 then of_int m * 2 powi (- 1074) else of_int (2 ^ 52 + m) * 2 powi (e - 1075)))"
  by (simp add: f_mag_def)

section \<open>Rounding\<close>

fun ilog2 :: "int \<Rightarrow> int" where
  "ilog2 n = (if n < 2 then 0 else 1 + ilog2 (n div 2))"

declare ilog2.simps [simp del]

definition log2_floor :: "rat \<Rightarrow> int" where
  "log2_floor q =
     (case quotient_of q of (n, d) \<Rightarrow>
        let k = ilog2 n - ilog2 d in if q < 2 powi k then k - 1 else k)"

definition round_even :: "rat \<Rightarrow> int" where
  "round_even q =
     (let n = \<lfloor>q\<rfloor>; r = q - of_int n in
      if r < 1 / 2 \<or> r = 1 / 2 \<and> even n then n else n + 1)"

text \<open>The exponent of the last place of a magnitude: the one of the subnormals at least.\<close>

definition f_exp :: "rat \<Rightarrow> int" where
  "f_exp q = max (- 1022) (log2_floor q)"

definition round_bits :: "rat \<Rightarrow> int" where
  "round_bits q =
     (if q = 0 then 0
      else min F64_INF_BITS ((f_exp q + 1022) * 2 ^ 52 + round_even (q * 2 powi (52 - f_exp q))))"

definition f_pack :: "bool \<Rightarrow> int \<Rightarrow> f64" where
  "f_pack neg b = word_of_int (if neg then b + 2 ^ 63 else b)"

text \<open>The flag is the sign of an exact zero.\<close>

definition f_round :: "bool \<Rightarrow> rat \<Rightarrow> f64" where
  "f_round neg q = f_pack (q < 0 \<or> q = 0 \<and> neg) (round_bits \<bar>q\<bar>)"

section \<open>Operations\<close>

definition f_infinity :: "bool \<Rightarrow> f64" where
  "f_infinity neg = (if neg then F64_NEG_INFINITY else F64_INFINITY)"

definition f_add :: "f64 \<Rightarrow> f64 \<Rightarrow> f64" where
  "f_add a b =
     (if is_nan a \<or> is_nan b \<or> is_infinite a \<and> is_infinite b \<and> f_neg a \<noteq> f_neg b then F64_NAN
      else if is_infinite a then a
      else if is_infinite b then b
      else f_round (f_neg a \<and> f_neg b) (f_val a + f_val b))"

definition f_negate :: "f64 \<Rightarrow> f64" where
  "f_negate a = f_pack (\<not> f_neg a) (f_bits a)"

definition f_sub :: "f64 \<Rightarrow> f64 \<Rightarrow> f64" where
  "f_sub a b = f_add a (f_negate b)"

definition f_mul_add :: "f64 \<Rightarrow> f64 \<Rightarrow> f64 \<Rightarrow> f64" where
  "f_mul_add a b c =
     (let product_neg = (f_neg a \<noteq> f_neg b);
          product_infinite = (is_infinite a \<or> is_infinite b) in
      if is_nan a \<or> is_nan b \<or> is_nan c \<or> product_infinite \<and> (f_bits a = 0 \<or> f_bits b = 0)
         \<or> product_infinite \<and> is_infinite c \<and> product_neg \<noteq> f_neg c
      then F64_NAN
      else if product_infinite then f_infinity product_neg
      else if is_infinite c then c
      else f_round (product_neg \<and> f_neg c) (f_val a * f_val b + f_val c))"

definition f_mul :: "f64 \<Rightarrow> f64 \<Rightarrow> f64" where
  "f_mul a b =
     (let neg = (f_neg a \<noteq> f_neg b) in
      if is_nan a \<or> is_nan b \<or> is_infinite a \<and> f_bits b = 0 \<or> f_bits a = 0 \<and> is_infinite b then F64_NAN
      else if is_infinite a \<or> is_infinite b then f_infinity neg
      else f_round neg (f_val a * f_val b))"

definition f_div :: "f64 \<Rightarrow> f64 \<Rightarrow> f64" where
  "f_div a b =
     (let neg = (f_neg a \<noteq> f_neg b) in
      if is_nan a \<or> is_nan b \<or> f_bits a = 0 \<and> f_bits b = 0 \<or> is_infinite a \<and> is_infinite b then F64_NAN
      else if is_infinite a \<or> f_bits b = 0 then f_infinity neg
      else if is_infinite b then f_pack neg 0
      else f_round neg (f_val a / f_val b))"

definition f_less :: "f64 \<Rightarrow> f64 \<Rightarrow> bool" where
  "f_less a b \<longleftrightarrow>
     \<not> is_nan a \<and> \<not> is_nan b \<and>
     (if is_finite a \<and> is_finite b then f_val a < f_val b
      else is_infinite a \<and> f_neg a \<and> \<not> (is_infinite b \<and> f_neg b)
         \<or> is_infinite b \<and> \<not> f_neg b \<and> \<not> (is_infinite a \<and> \<not> f_neg a))"

definition f_le :: "f64 \<Rightarrow> f64 \<Rightarrow> bool" where
  "f_le a b \<longleftrightarrow> \<not> is_nan a \<and> \<not> is_nan b \<and> \<not> f_less b a"

text \<open>\<open>f64::min\<close> and \<open>f64::max\<close> ignore a NaN; of two zeros either may be returned.\<close>

definition f_min :: "f64 \<Rightarrow> f64 \<Rightarrow> f64" where
  "f_min a b = (if is_nan a then b else if is_nan b then a else if f_less b a then b else a)"

definition f_max :: "f64 \<Rightarrow> f64 \<Rightarrow> f64" where
  "f_max a b = (if is_nan a then b else if is_nan b then a else if f_less a b then b else a)"

definition f_integral :: "(rat \<Rightarrow> int) \<Rightarrow> f64 \<Rightarrow> f64" where
  "f_integral f a = (if is_finite a then f_round (f_neg a) (of_int (f (f_val a))) else a)"

definition f_ceil :: "f64 \<Rightarrow> f64" where "f_ceil = f_integral ceiling"
definition f_floor :: "f64 \<Rightarrow> f64" where "f_floor = f_integral floor"

section \<open>Conversions\<close>

definition f_of_int :: "int \<Rightarrow> f64" where
  "f_of_int n = f_round False (of_int n)"

text \<open>\<open>x as iN\<close>: truncation towards zero, saturating, and zero for a NaN.\<close>

definition f_trunc :: "int \<Rightarrow> int \<Rightarrow> f64 \<Rightarrow> int" where
  "f_trunc lo hi a =
     (if is_nan a then 0
      else if is_infinite a then (if f_neg a then lo else hi)
      else max lo (min hi (if f_val a < 0 then \<lceil>f_val a\<rceil> else \<lfloor>f_val a\<rfloor>)))"

text \<open>\<open>Duration::as_secs_f64\<close> of a number of nanoseconds.\<close>

definition as_secs_f64 :: "nat \<Rightarrow> f64" where
  "as_secs_f64 nanos =
     f_add (f_of_int (int nanos div 1000000000))
       (f_div (f_of_int (int nanos mod 1000000000)) (f_of_int 1000000000))"

text \<open>
  \<open>str::parse::<f64>\<close>: an optional sign, then a word for infinity or NaN in any case, or digits
  with an optional point and an optional exponent; the value is rounded once.
\<close>

definition is_digit :: "char \<Rightarrow> bool" where
  "is_digit c \<longleftrightarrow> CHR ''0'' \<le> c \<and> c \<le> CHR ''9''"

definition digits_val :: "string \<Rightarrow> int" where
  "digits_val = foldl (\<lambda>n c. 10 * n + (of_char c - 48)) 0"

definition take_sign :: "string \<Rightarrow> bool \<times> string" where
  "take_sign s =
     (case s of
        [] \<Rightarrow> (False, [])
      | c # cs \<Rightarrow> if c = CHR ''-'' then (True, cs) else if c = CHR ''+'' then (False, cs) else (False, s))"

definition parse_exponent :: "string \<Rightarrow> int option" where
  "parse_exponent s =
     (case s of
        [] \<Rightarrow> Some 0
      | c # cs \<Rightarrow>
          if c \<noteq> CHR ''e'' \<and> c \<noteq> CHR ''E'' then None
          else (case take_sign cs of (neg, ds) \<Rightarrow>
            if ds = [] \<or> \<not> list_all is_digit ds then None
            else Some (if neg then - digits_val ds else digits_val ds)))"

definition parse_number :: "string \<Rightarrow> rat option" where
  "parse_number s =
     (case (takeWhile is_digit s, dropWhile is_digit s) of (whole, r) \<Rightarrow>
      case (case r of
              c # cs \<Rightarrow> if c = CHR ''.'' then (takeWhile is_digit cs, dropWhile is_digit cs) else ([], r)
            | [] \<Rightarrow> ([], [])) of (fraction, r') \<Rightarrow>
        if whole = [] \<and> fraction = [] then None
        else map_option (\<lambda>e. of_int (digits_val (whole @ fraction)) * 10 powi (e - int (length fraction)))
          (parse_exponent r'))"

definition parse_f64 :: "string \<Rightarrow> f64 option" where
  "parse_f64 s =
     (case take_sign s of (neg, r) \<Rightarrow>
        if to_ascii_lowercase r \<in> {''inf'', ''infinity''} then Some (f_infinity neg)
        else if to_ascii_lowercase r = ''nan'' then Some F64_NAN
        else map_option (\<lambda>q. f_round neg (if neg then - q else q)) (parse_number r))"

section \<open>Powers of two\<close>

lemma powi_less_iff: "(2::rat) powi a < 2 powi b \<longleftrightarrow> a < b"
proof
  assume "(2::rat) powi a < 2 powi b"
  then show "a < b" using power_int_increasing [of b a "2::rat"] by (cases "b \<le> a") auto
qed (simp add: power_int_strict_increasing)

lemma powi_le_iff: "(2::rat) powi a \<le> 2 powi b \<longleftrightarrow> a \<le> b"
  using powi_less_iff [of b a] by (simp add: not_less [symmetric])

lemma powi_pos [simp]: "0 < (2::rat) powi a"
  by simp

lemma powi_split: "(2::rat) powi (a + b) = 2 powi a * 2 powi b"
  by (simp add: power_int_add)

lemma powi_int: "0 \<le> a \<Longrightarrow> (2::rat) powi a = of_int (2 ^ nat a)"
  by (simp add: power_int_def)

lemma powi_cancel [simp]: "(2::rat) powi (a - b) * 2 powi (b - a) = 1" "x * (2::rat) powi (a - b) * 2 powi (b - a) = x"
  by (simp_all add: mult.assoc flip: powi_split)

lemma ilog2_bounds:
  "1 \<le> n \<Longrightarrow> 0 \<le> ilog2 n \<and> (2::rat) powi ilog2 n \<le> of_int n \<and> of_int n < (2::rat) powi (ilog2 n + 1)"
proof (induction n rule: ilog2.induct)
  case (1 n)
  show ?case
  proof (cases "n < 2")
    case True
    with 1 have "n = 1" by simp
    then show ?thesis by (simp add: ilog2.simps)
  next
    case False
    let ?m = "n div 2"
    from False have "1 \<le> ?m" by simp
    with False 1(1) have IH: "0 \<le> ilog2 ?m" "(2::rat) powi ilog2 ?m \<le> of_int ?m" "of_int ?m < (2::rat) powi (ilog2 ?m + 1)"
      by auto
    have n: "ilog2 n = ilog2 ?m + 1" using False by (subst ilog2.simps) simp
    have "2 * ?m \<le> n" "n \<le> 2 * ?m + 1" by simp_all
    then have "(of_int (2 * ?m) :: rat) \<le> of_int n" "(of_int n :: rat) \<le> of_int (2 * ?m + 1)"
      by (simp_all only: of_int_le_iff)
    then have r: "2 * (of_int ?m :: rat) \<le> of_int n" "(of_int n :: rat) \<le> 2 * of_int ?m + 1"
      by simp_all
    have top: "?m + 1 \<le> 2 ^ nat (ilog2 ?m + 1)"
      using IH(1,3) powi_int [of "ilog2 ?m + 1"] by (simp only: of_int_less_iff)
    then have "(of_int ?m :: rat) + 1 \<le> 2 powi (ilog2 ?m + 1)"
      using IH(1) powi_int [of "ilog2 ?m + 1"] of_int_le_iff [of "?m + 1" "2 ^ nat (ilog2 ?m + 1)", where 'a = rat]
      by (simp del: of_int_power)
    then have "(of_int n :: rat) < 2 powi (ilog2 ?m + 1 + 1)"
      using r(2) power_int_add_1 [of "2::rat" "ilog2 ?m + 1"] by simp
    moreover have "(2::rat) powi (ilog2 ?m + 1) \<le> of_int n"
      using IH(2) r(1) by (simp add: power_int_add_1)
    ultimately show ?thesis using IH(1) n by simp
  qed
qed

lemma log2_floor_bounds:
  assumes "0 < q"
  shows "(2::rat) powi log2_floor q \<le> q \<and> q < 2 powi (log2_floor q + 1)"
proof -
  obtain n d where nd: "quotient_of q = (n, d)" by (cases "quotient_of q")
  then have d: "1 \<le> d" using quotient_of_denom_pos [OF nd] by simp
  have q: "q = of_int n / of_int d" using quotient_of_div [OF nd] .
  with assms d have n: "1 \<le> n" by (simp add: zero_less_divide_iff)
  let ?k = "ilog2 n - ilog2 d"
  note bn = ilog2_bounds [OF n] and bd = ilog2_bounds [OF d]
  have "of_int n < (2::rat) powi (ilog2 n + 1)" "(2::rat) powi ilog2 d \<le> of_int d" using bn bd by auto
  then have "q < 2 powi (ilog2 n + 1) / 2 powi ilog2 d"
    unfolding q using d n by (intro frac_less) auto
  then have hi: "q < 2 powi (?k + 1)" by (simp add: power_int_diff [symmetric] algebra_simps)
  have "(2::rat) powi ilog2 n \<le> of_int n" "of_int d < (2::rat) powi (ilog2 d + 1)" using bn bd by auto
  then have "2 powi ilog2 n / 2 powi (ilog2 d + 1) \<le> q"
    unfolding q using d n by (intro frac_le) auto
  then have lo: "2 powi (?k - 1) \<le> q" by (simp add: power_int_diff [symmetric] algebra_simps)
  show ?thesis using hi lo by (auto simp: log2_floor_def nd Let_def)
qed

section \<open>Rounding to an integer\<close>

lemma round_even_error: "\<bar>of_int (round_even x) - x\<bar> \<le> 1 / 2"
proof -
  have "of_int \<lfloor>x\<rfloor> \<le> x" "x < of_int \<lfloor>x\<rfloor> + 1"
    using floor_correct [of x] by auto
  then show ?thesis by (auto simp: round_even_def Let_def abs_le_iff)
qed

lemma round_even_of_int [simp]: "round_even (of_int n) = n"
  by (simp add: round_even_def)

lemma round_even_ge: "of_int n \<le> x \<Longrightarrow> n \<le> round_even x"
proof -
  assume "of_int n \<le> x"
  then have "n \<le> \<lfloor>x\<rfloor>" by (simp add: le_floor_iff)
  then show ?thesis by (auto simp: round_even_def Let_def)
qed

lemma round_even_le: "x \<le> of_int n \<Longrightarrow> round_even x \<le> n"
proof -
  assume x: "x \<le> of_int n"
  show ?thesis
  proof (cases "\<lfloor>x\<rfloor> = n")
    case True
    with x have "x = of_int n" by (metis floor_le_iff le_less not_less of_int_floor_le order_antisym_conv)
    then show ?thesis by simp
  next
    case False
    with x have "\<lfloor>x\<rfloor> < n" by (metis floor_le_iff floor_of_int floor_mono order_le_less)
    then show ?thesis by (auto simp: round_even_def Let_def)
  qed
qed

section \<open>Rounding to a pattern\<close>

lemma div_mod_fields: "0 \<le> r \<Longrightarrow> r < d \<Longrightarrow> (k * d + r) div d = k \<and> (k * d + r) mod d = (r :: int)"
  by simp

lemma f_mag_fields:
  assumes "- 1022 \<le> e" "0 \<le> n" "n \<le> 2 ^ 53" "e = - 1022 \<or> 2 ^ 52 \<le> n"
  shows "f_mag ((e + 1022) * 2 ^ 52 + n) = of_int n * 2 powi (e - 52)"
proof -
  consider (sub) "n < 2 ^ 52" "e = - 1022" | (normal) "2 ^ 52 \<le> n" "n < 2 ^ 53" | (carry) "n = 2 ^ 53"
    using assms by fastforce
  then show ?thesis
  proof cases
    case sub
    then show ?thesis using assms by (simp add: f_mag_def)
  next
    case normal
    have b: "(e + 1022) * 2 ^ 52 + n = (e + 1023) * 2 ^ 52 + (n - 2 ^ 52)" by simp
    have "((e + 1023) * 2 ^ 52 + (n - 2 ^ 52)) div 2 ^ 52 = e + 1023"
      "((e + 1023) * 2 ^ 52 + (n - 2 ^ 52)) mod 2 ^ 52 = n - 2 ^ 52"
      using normal div_mod_fields [of "n - 2 ^ 52" "2 ^ 52" "e + 1023"] by simp_all
    then show ?thesis using assms(1) unfolding b by (simp add: f_mag_def)
  next
    case carry
    have b: "(e + 1022) * 2 ^ 52 + n = (e + 1024) * 2 ^ 52" using carry by simp
    have "(e + 1024) * 2 ^ 52 div 2 ^ 52 = e + 1024" "(e + 1024) * 2 ^ 52 mod 2 ^ 52 = 0" by simp_all
    moreover have "(2::rat) powi (e - 51) = 2 powi (e - 52) * 2"
      using power_int_add_1 [of "2::rat" "e - 52"] by simp
    ultimately show ?thesis using assms(1) unfolding b carry by (simp add: f_mag_def)
  qed
qed

lemma f_exp_bounds:
  assumes "0 < q"
  shows "- 1022 \<le> f_exp q" "q < 2 powi (f_exp q + 1)" "f_exp q = - 1022 \<or> 2 powi f_exp q \<le> q"
proof -
  note b = log2_floor_bounds [OF assms]
  show "- 1022 \<le> f_exp q" by (simp add: f_exp_def)
  have "(2::rat) powi (log2_floor q + 1) \<le> 2 powi (f_exp q + 1)" by (simp add: powi_le_iff f_exp_def)
  with b show "q < 2 powi (f_exp q + 1)" by simp
  from b show "f_exp q = - 1022 \<or> 2 powi f_exp q \<le> q" by (auto simp: f_exp_def max_def)
qed

lemma round_bits_eq:
  assumes "0 < q" "q < 2 powi 1023"
  defines "n \<equiv> round_even (q * 2 powi (52 - f_exp q))"
  shows "round_bits q = (f_exp q + 1022) * 2 ^ 52 + n" "0 \<le> round_bits q" "round_bits q < F64_INF_BITS"
    "f_mag (round_bits q) = of_int n * 2 powi (f_exp q - 52)"
proof -
  note e = f_exp_bounds [OF assms(1)]
  let ?x = "q * 2 powi (52 - f_exp q)"
  have "?x \<le> 2 powi (f_exp q + 1) * 2 powi (52 - f_exp q)"
    using e(2) by (intro mult_right_mono) auto
  also have "\<dots> = of_int (2 ^ 53)" by (simp flip: powi_split)
  finally have hi: "n \<le> 2 ^ 53" unfolding n_def by (rule round_even_le)
  have "0 \<le> ?x" using assms(1) by simp
  then have lo: "0 \<le> n" unfolding n_def by (intro round_even_ge) simp
  have norm: "f_exp q = - 1022 \<or> 2 ^ 52 \<le> n"
  proof (cases "f_exp q = - 1022")
    case False
    with e(3) have "2 powi f_exp q * 2 powi (52 - f_exp q) \<le> ?x" by (intro mult_right_mono) auto
    moreover have "(2::rat) powi f_exp q * 2 powi (52 - f_exp q) = of_int (2 ^ 52)" by (simp flip: powi_split)
    ultimately show ?thesis unfolding n_def by (metis round_even_ge)
  qed simp
  have "f_exp q \<le> 1022"
  proof -
    have "f_exp q = - 1022 \<or> (2::rat) powi f_exp q < 2 powi 1023" using e(3) assms(2) by auto
    then show ?thesis unfolding powi_less_iff by auto
  qed
  then have "(f_exp q + 1022) * 2 ^ 52 + n < F64_INF_BITS" using hi by simp
  then show b: "round_bits q = (f_exp q + 1022) * 2 ^ 52 + n"
    using assms(1) by (simp add: round_bits_def n_def)
  show "round_bits q < F64_INF_BITS" unfolding b by fact
  show "0 \<le> round_bits q" unfolding b using lo e(1) by simp
  show "f_mag (round_bits q) = of_int n * 2 powi (f_exp q - 52)"
    unfolding b by (rule f_mag_fields) (use e(1) lo hi norm in auto)
qed

lemma round_bits_error:
  assumes "0 < q" "q < 2 powi 1023"
  shows "\<bar>f_mag (round_bits q) - q\<bar> \<le> 2 powi (f_exp q - 53)"
proof -
  let ?u = "(2::rat) powi (f_exp q - 52)" and ?x = "q * 2 powi (52 - f_exp q)"
  have "f_mag (round_bits q) - q = (of_int (round_even ?x) - ?x) * ?u"
    unfolding round_bits_eq(4) [OF assms] by (simp add: left_diff_distrib)
  then have "\<bar>f_mag (round_bits q) - q\<bar> = \<bar>of_int (round_even ?x) - ?x\<bar> * ?u"
    by (simp add: abs_mult)
  also have "\<dots> \<le> 1 / 2 * ?u" by (intro mult_right_mono round_even_error) auto
  also have "1 / 2 * ?u = 2 powi (f_exp q - 53)"
    using power_int_add_1 [of "2::rat" "f_exp q - 53"] by simp
  finally show ?thesis .
qed

lemma f_pack_fields:
  assumes "0 \<le> b" "b < 2 ^ 63"
  shows "f_bits (f_pack neg b) = b" "f_neg (f_pack neg b) = neg"
proof -
  let ?v = "if neg then b + 2 ^ 63 else b"
  have v: "uint (f_pack neg b) = ?v"
    unfolding f_pack_def using assms by (simp add: uint_word_of_int)
  then show "f_neg (f_pack neg b) = neg" using assms by (simp add: f_neg_def)
  have "f_bits (f_pack neg b) = ?v mod 2 ^ 63"
    unfolding f_bits_def by (simp only: unsigned_take_bit_eq v take_bit_eq_mod [of 63 ?v])
  also have "\<dots> = b" using assms by simp
  finally show "f_bits (f_pack neg b) = b" .
qed

text \<open>What rounding gives: a finite pattern, half a unit in the last place away at most.\<close>

lemma round_bits_0 [simp]: "round_bits 0 = 0" and f_mag_0 [simp]: "f_mag 0 = 0"
  by (simp_all add: round_bits_def f_mag_def)

lemma round_bits_range:
  assumes "0 \<le> q" "q < 2 powi 1023"
  shows "0 \<le> round_bits q" "round_bits q < F64_INF_BITS"
  using assms round_bits_eq(2,3) [of q] by (cases "q = 0"; simp)+

lemma f_round_fields:
  assumes "\<bar>q\<bar> < 2 powi 1023"
  shows "is_finite (f_round s q)" "f_neg (f_round s q) \<longleftrightarrow> q < 0 \<or> q = 0 \<and> s"
    "f_val (f_round s q) = (if q < 0 then - f_mag (round_bits \<bar>q\<bar>) else f_mag (round_bits \<bar>q\<bar>))"
proof -
  note b = round_bits_range [OF abs_ge_zero assms]
  from b have "round_bits \<bar>q\<bar> < 2 ^ 63" by simp
  note p = f_pack_fields [OF b(1) this]
  show "is_finite (f_round s q)" using b p by (simp add: is_finite_def f_round_def)
  show "f_neg (f_round s q) \<longleftrightarrow> q < 0 \<or> q = 0 \<and> s" using p by (simp add: f_round_def)
  then show "f_val (f_round s q) = (if q < 0 then - f_mag (round_bits \<bar>q\<bar>) else f_mag (round_bits \<bar>q\<bar>))"
    using p by (auto simp: f_val_def f_round_def)
qed

lemma f_round_error:
  assumes "\<bar>q\<bar> < 2 powi 1023" "q \<noteq> 0"
  shows "\<bar>f_val (f_round s q) - q\<bar> \<le> 2 powi (f_exp \<bar>q\<bar> - 53)"
  using round_bits_error [of "\<bar>q\<bar>"] assms by (auto simp: f_round_fields(3) abs_if split: if_splits)

lemma f_round_0 [simp]: "f_val (f_round s 0) = 0"
  using f_round_fields(3) [of 0 s] by simp

lemma f_round_error_rel:
  assumes "\<bar>q\<bar> < 2 powi 1023" "q = 0 \<or> 2 powi (- 1022) \<le> \<bar>q\<bar>"
  shows "\<bar>f_val (f_round s q) - q\<bar> \<le> \<bar>q\<bar> * 2 powi (- 53)"
proof (cases "q = 0")
  case False
  with assms(2) have "2 powi (- 1022) \<le> \<bar>q\<bar>" "0 < \<bar>q\<bar>" by auto
  then have "2 powi f_exp \<bar>q\<bar> \<le> \<bar>q\<bar>" using f_exp_bounds(3) by fastforce
  then have "(2::rat) powi f_exp \<bar>q\<bar> * 2 powi (- 53) \<le> \<bar>q\<bar> * 2 powi (- 53)"
    by (intro mult_right_mono) auto
  moreover have "(2::rat) powi (f_exp \<bar>q\<bar> - 53) = 2 powi f_exp \<bar>q\<bar> * 2 powi (- 53)"
    using powi_split [of "f_exp \<bar>q\<bar>" "- 53"] by simp
  ultimately show ?thesis using f_round_error [OF assms(1) False, of s] by linarith
qed simp

lemma f_round_error_below:
  assumes "\<bar>q\<bar> < 2 powi k" "k \<le> 1023" "- 1022 \<le> k"
  shows "\<bar>f_val (f_round s q) - q\<bar> \<le> 2 powi (k - 53)"
proof (cases "q = 0")
  case False
  have "f_exp \<bar>q\<bar> \<le> k"
  proof -
    have "f_exp \<bar>q\<bar> = - 1022 \<or> (2::rat) powi f_exp \<bar>q\<bar> < 2 powi k"
      using f_exp_bounds(3) [of "\<bar>q\<bar>"] False assms(1) by auto
    then show ?thesis using assms(3) unfolding powi_less_iff by auto
  qed
  then have "(2::rat) powi (f_exp \<bar>q\<bar> - 53) \<le> 2 powi (k - 53)" by (simp add: powi_le_iff)
  moreover have "\<bar>q\<bar> < 2 powi 1023" using assms(1,2) powi_le_iff [of k 1023] by linarith
  ultimately show ?thesis using f_round_error [of q s] False by linarith
qed simp

text \<open>A value with a mantissa of 53 bits is represented exactly.\<close>

lemma f_round_exact:
  assumes q: "\<bar>q\<bar> = of_int k * 2 powi j" and k: "0 \<le> k" "k \<le> 2 ^ 53" and j: "- 1074 \<le> j"
    and "\<bar>q\<bar> < 2 powi 1023"
  shows "f_val (f_round s q) = q"
proof (cases "q = 0")
  case False
  let ?e = "f_exp \<bar>q\<bar>"
  have pos: "0 < \<bar>q\<bar>" using False by simp
  have "\<exists>m. \<bar>q\<bar> * 2 powi (52 - ?e) = of_int m"
  proof (cases "?e \<le> 52 + j")
    case True
    then have "\<bar>q\<bar> * 2 powi (52 - ?e) = of_int (k * 2 ^ nat (j + 52 - ?e))"
      unfolding q by (simp add: mult.assoc powi_int [symmetric] flip: powi_split of_int_power)
        (simp add: algebra_simps)
    then show ?thesis by blast
  next
    case False
    with j f_exp_bounds(3) [OF pos] have "2 powi ?e \<le> of_int k * (2::rat) powi j" unfolding q by auto
    also have "\<dots> \<le> of_int (2 ^ 53) * 2 powi j" using k by (intro mult_right_mono) (simp_all only: of_int_le_iff, simp)
    also have "\<dots> = 2 powi (53 + j)" by (simp add: powi_split)
    finally have "?e = 53 + j" using False unfolding powi_le_iff by simp
    moreover have "(2 ^ 53 :: int) \<le> k"
    proof -
      have "(2::rat) powi 53 * 2 powi j \<le> of_int k * 2 powi j"
        using \<open>2 powi ?e \<le> of_int k * 2 powi j\<close> \<open>?e = 53 + j\<close> by (simp add: powi_split)
      then have "of_int (2 ^ 53) \<le> (of_int k :: rat)" by simp
      then show ?thesis by (simp only: of_int_le_iff)
    qed
    ultimately have "\<bar>q\<bar> * 2 powi (52 - ?e) = of_int (2 ^ 52)"
      using k(2) unfolding q by (simp add: powi_split power_int_diff power_int_minus)
    then show ?thesis by blast
  qed
  then obtain m where m: "\<bar>q\<bar> * 2 powi (52 - ?e) = of_int m" ..
  have "f_mag (round_bits \<bar>q\<bar>) = \<bar>q\<bar>"
    unfolding round_bits_eq(4) [OF pos assms(5)] m round_even_of_int unfolding m [symmetric] by simp
  then show ?thesis unfolding f_round_fields(3) [OF assms(5)] by (cases "q < 0") auto
qed simp

lemma f_of_int_exact:
  assumes "\<bar>n\<bar> \<le> 2 ^ 53"
  shows "f_val (f_of_int n) = of_int n" "is_finite (f_of_int n)" "f_neg (f_of_int n) \<longleftrightarrow> n < 0"
proof -
  have "\<bar>of_int n :: rat\<bar> \<le> of_int (2 ^ 53)" using assms by (simp only: of_int_le_iff flip: of_int_abs)
  moreover have "(of_int (2 ^ 53) :: rat) < 2 powi 1023"
    using powi_less_iff [of 53 1023] by simp
  ultimately have small: "\<bar>of_int n :: rat\<bar> < 2 powi 1023" by linarith
  show "f_val (f_of_int n) = of_int n" unfolding f_of_int_def
    by (rule f_round_exact [of _ "\<bar>n\<bar>" 0]) (use assms small in auto)
  show "is_finite (f_of_int n)" "f_neg (f_of_int n) \<longleftrightarrow> n < 0"
    unfolding f_of_int_def using f_round_fields(1,2) [OF small] by auto
qed

section \<open>Bounds on the operations\<close>

lemma f_mag_nonneg: "0 \<le> b \<Longrightarrow> 0 \<le> f_mag b"
  by (simp add: f_mag_def Let_def)

lemma f_round_nonneg: "0 \<le> q \<Longrightarrow> \<bar>q\<bar> < 2 powi 1023 \<Longrightarrow> 0 \<le> f_val (f_round s q)"
  using f_mag_nonneg [OF round_bits_range(1)] by (simp add: f_round_fields(3))

lemma f_finite_simps [simp]:
  "is_finite a \<Longrightarrow> \<not> is_nan a" "is_finite a \<Longrightarrow> \<not> is_infinite a"
  by (auto simp: is_finite_def is_nan_def is_infinite_def)

lemma f_bits_0: "f_bits a = 0 \<Longrightarrow> f_val a = 0"
  by (simp add: f_val_def)

lemma f_val_neg_le: "f_neg a \<Longrightarrow> f_val a \<le> 0"
  by (simp add: f_val_def f_mag_nonneg f_bits_def)

text \<open>Beyond the range, rounding stays beyond it or gives infinity.\<close>

lemma f_round_huge:
  assumes "2 powi 1023 \<le> q"
  shows "\<not> is_nan (f_round s q)" "\<not> f_neg (f_round s q)" "is_finite (f_round s q) \<Longrightarrow> 2 powi 1023 \<le> f_val (f_round s q)"
proof -
  let ?b = "round_bits q"
  have q: "0 < q" using assms powi_pos [of 1023] by linarith
  have e: "1023 \<le> f_exp q"
  proof -
    have "(2::rat) powi 1023 < 2 powi (f_exp q + 1)" using assms f_exp_bounds(2) [OF q] by linarith
    then show ?thesis unfolding powi_less_iff by simp
  qed
  with f_exp_bounds(3) [OF q] have "2 powi f_exp q \<le> q" by auto
  then have "2 powi f_exp q * 2 powi (52 - f_exp q) \<le> q * 2 powi (52 - f_exp q)" by (intro mult_right_mono) auto
  moreover have "(2::rat) powi f_exp q * 2 powi (52 - f_exp q) = of_int (2 ^ 52)" by (simp flip: powi_split)
  ultimately have n: "2 ^ 52 \<le> round_even (q * 2 powi (52 - f_exp q))" by (metis round_even_ge)
  have "2045 * 2 ^ 52 \<le> (f_exp q + 1022) * 2 ^ 52" using e by (intro mult_right_mono) auto
  with n q have lo: "2046 * 2 ^ 52 \<le> ?b" and hi: "?b \<le> F64_INF_BITS" by (auto simp: round_bits_def)
  then have "0 \<le> ?b" "?b < 2 ^ 63" by auto
  note p = f_pack_fields [OF this]
  have r: "f_round s q = f_pack False ?b" using q by (simp add: f_round_def)
  show "\<not> is_nan (f_round s q)" "\<not> f_neg (f_round s q)" using p hi by (auto simp: r is_nan_def)
  assume "is_finite (f_round s q)"
  then have "?b < F64_INF_BITS" using p by (simp add: r is_finite_def)
  with lo have "?b div 2 ^ 52 = 2046" by simp
  then have "f_mag ?b = of_int (2 ^ 52 + ?b mod 2 ^ 52) * 2 powi 971" by (simp add: f_mag_def)
  also have "\<dots> \<ge> of_int (2 ^ 52) * 2 powi 971"
    by (intro mult_right_mono) (simp_all only: of_int_le_iff, simp_all)
  also have "of_int (2 ^ 52) * 2 powi 971 = (2::rat) powi 1023" by (simp flip: power_add)
  finally show "2 powi 1023 \<le> f_val (f_round s q)" using p by (simp add: r f_val_def)
qed

lemma f_min_cases:
  assumes "\<not> is_nan a" "is_finite b"
  shows "f_min a b = (if f_less b a then b else a)"
  using assms by (simp add: f_min_def)

lemma f_less_finite: "is_finite a \<Longrightarrow> is_finite b \<Longrightarrow> f_less a b \<longleftrightarrow> f_val a < f_val b"
  by (simp add: f_less_def)

lemma f_le_finite: "is_finite a \<Longrightarrow> is_finite b \<Longrightarrow> f_le a b \<longleftrightarrow> f_val a \<le> f_val b"
  by (auto simp: f_le_def f_less_finite)

lemma f_negate_val: "is_finite a \<Longrightarrow> is_finite (f_negate a) \<and> f_val (f_negate a) = - f_val a"
proof -
  assume "is_finite a"
  then have "0 \<le> f_bits a" "f_bits a < 2 ^ 63" by (auto simp: is_finite_def f_bits_def)
  from f_pack_fields [OF this] \<open>is_finite a\<close> show ?thesis
    by (simp add: f_negate_def is_finite_def f_val_def)
qed

lemma f_add_finite: "is_finite a \<Longrightarrow> is_finite b \<Longrightarrow> f_add a b = f_round (f_neg a \<and> f_neg b) (f_val a + f_val b)"
  by (simp add: f_add_def)

lemma f_sub_finite:
  "is_finite a \<Longrightarrow> is_finite b \<Longrightarrow> \<exists>s. f_sub a b = f_round s (f_val a - f_val b)"
  using f_negate_val [of b] by (auto simp: f_sub_def f_add_finite)

lemma f_mul_add_finite:
  "is_finite a \<Longrightarrow> is_finite b \<Longrightarrow> is_finite c \<Longrightarrow>
   \<exists>s. f_mul_add a b c = f_round s (f_val a * f_val b + f_val c)"
  by (auto simp: f_mul_add_def Let_def)

lemma f_div_finite:
  "is_finite a \<Longrightarrow> is_finite b \<Longrightarrow> f_val b \<noteq> 0 \<Longrightarrow> \<exists>s. f_div a b = f_round s (f_val a / f_val b)"
  using f_bits_0 [of b] by (auto simp: f_div_def Let_def)

lemma powi_numeral_less: "x < 2 powi a \<Longrightarrow> a \<le> b \<Longrightarrow> x < (2::rat) powi b"
  using powi_le_iff [of a b] by linarith


lemma f_exp_rel:
  assumes "0 \<le> q" "q < 2 powi 1023" "q = 0 \<or> 2 powi (- 1022) \<le> q"
  shows "is_finite (f_round s q)" "0 \<le> f_val (f_round s q)" "f_val (f_round s q) \<le> q * (1 + 2 powi (- 53))"
    "q * (1 - 2 powi (- 53)) \<le> f_val (f_round s q)"
proof -
  have small: "\<bar>q\<bar> < 2 powi 1023" using assms by simp
  show "is_finite (f_round s q)" by (rule f_round_fields(1) [OF small])
  show "0 \<le> f_val (f_round s q)" using f_round_nonneg [OF assms(1) small] .
  define u :: rat where "u = 2 powi (- 53)"
  have "\<bar>f_val (f_round s q) - q\<bar> \<le> \<bar>q\<bar> * u"
    unfolding u_def by (rule f_round_error_rel [OF small]) (use assms in auto)
  then show "f_val (f_round s q) \<le> q * (1 + 2 powi (- 53))" "q * (1 - 2 powi (- 53)) \<le> f_val (f_round s q)"
    using assms(1) unfolding u_def [symmetric] by (simp_all add: abs_le_iff ring_distribs)
qed

lemma f_of_int_rel:
  assumes "0 \<le> n" "n < 2 ^ 64"
  shows "is_finite (f_of_int n)" "0 \<le> f_val (f_of_int n)"
    "f_val (f_of_int n) \<le> of_int n * (1 + 2 powi (- 53))" "of_int n * (1 - 2 powi (- 53)) \<le> f_val (f_of_int n)"
proof -
  have n: "0 \<le> (of_int n :: rat)" "(of_int n :: rat) < of_int (2 ^ 64)"
    using assms by (simp_all only: of_int_less_iff of_int_0_le_iff)
  then have "(of_int n :: rat) < 2 powi 64" by simp
  then have small: "(of_int n :: rat) < 2 powi 1023" by (rule powi_numeral_less) simp
  have big: "(of_int n :: rat) = 0 \<or> 2 powi (- 1022) \<le> (of_int n :: rat)"
  proof (cases "n = 0")
    case False
    with assms(1) have "1 \<le> (of_int n :: rat)" by simp
    moreover have "(2::rat) powi (- 1022) \<le> 2 powi 0" unfolding powi_le_iff by simp
    ultimately show ?thesis by simp
  qed simp
  show "is_finite (f_of_int n)" "0 \<le> f_val (f_of_int n)"
    "f_val (f_of_int n) \<le> of_int n * (1 + 2 powi (- 53))" "of_int n * (1 - 2 powi (- 53)) \<le> f_val (f_of_int n)"
    unfolding f_of_int_def by (fact f_exp_rel [OF n(1) small big])+
qed

text \<open>
  The seconds of a duration: within a relative error of two to the power of minus 51 for every
  duration Rust can represent.
\<close>

lemma as_secs_f64_bound:
  assumes "n < 2 ^ 64 * 10 ^ 9"
  shows "is_finite (as_secs_f64 n)" "0 \<le> f_val (as_secs_f64 n)"
    "f_val (as_secs_f64 n) \<le> of_nat n / 10 ^ 9 * (1 + 2 powi (- 51))"
proof -
  let ?u = "(2::rat) powi (- 53)"
  let ?s = "int (n div 1000000000)" and ?m = "int (n mod 1000000000)"
  have s: "0 \<le> ?s" "?s < 2 ^ 64"
  proof -
    have "n div 1000000000 < 2 ^ 64" using assms by (simp add: less_mult_imp_div_less)
    then have "int (n div 1000000000) < int (2 ^ 64)" by (simp only: of_nat_less_iff)
    then show "?s < 2 ^ 64" by simp
  qed simp
  note bs = f_of_int_rel [OF s]
  have m: "\<bar>?m\<bar> \<le> 2 ^ 53" by simp
  note bm = f_of_int_exact [OF m]
  have k: "f_val (f_of_int 1000000000) = 1000000000" "is_finite (f_of_int 1000000000)"
    using f_of_int_exact [of 1000000000] by simp_all
  define f :: rat where "f = of_int ?m / 1000000000"
  obtain sg where d: "f_div (f_of_int ?m) (f_of_int 1000000000) = f_round sg f"
    using f_div_finite [OF bm(2) k(2)] by (auto simp: k bm f_def)
  have "?m < 1000000000" by simp
  then have "(of_int ?m :: rat) < of_int 1000000000" by (simp only: of_int_less_iff)
  then have f1: "0 \<le> f" "f < 1" by (simp_all add: f_def)
  have f2: "f = 0 \<or> 2 powi (- 30) \<le> f"
    by (cases "?m = 0") (auto simp: f_def power_int_minus divide_simps)
  have p: "(2::rat) powi (- 1022) \<le> 2 powi (- 30)" "(2::rat) powi (- 1022) \<le> 2 powi (- 31)" "(2::rat) powi 0 < 2 powi 1023"
    unfolding powi_le_iff powi_less_iff by simp_all
  have "f < 2 powi 1023" "f = 0 \<or> 2 powi (- 1022) \<le> f" using f1 f2 p by auto
  note bf = f_exp_rel [OF f1(1) this, of sg]
  define q where "q = f_val (f_of_int ?s) + f_val (f_round sg f)"
  have q0: "0 \<le> q" using bs(2) bf(2) by (simp add: q_def)
  have hi: "q \<le> (of_int ?s + f) * (1 + ?u)"
    using add_mono [OF bs(3) bf(3)] by (simp only: q_def distrib_right)
  have "of_int ?s + f < (2::rat) ^ 65"
  proof -
    have "(of_int ?s :: rat) < of_int (2 ^ 64)" using s(2) by (simp only: of_int_less_iff)
    then show ?thesis using f1(2) by simp
  qed
  moreover have "(1::rat) + ?u \<le> 2" by (simp add: power_int_minus)
  ultimately have "(of_int ?s + f) * (1 + ?u) \<le> 2 ^ 65 * 2" using f1(1) by (intro mult_mono) auto
  with hi have "q < 2 powi 67" by simp
  then have q1: "q < 2 powi 1023" by (rule powi_numeral_less) simp
  have q2: "q = 0 \<or> 2 powi (- 1022) \<le> q"
  proof (cases "f = 0")
    case False
    with f2 have "2 powi (- 30) * (1 - ?u) \<le> f * (1 - ?u)" by (intro mult_right_mono) (auto simp: power_int_minus)
    moreover have "(2::rat) powi (- 31) \<le> 2 powi (- 30) * (1 - ?u)" by (simp add: power_int_minus)
    ultimately have "2 powi (- 1022) \<le> q" using bf(4) bs(2) p(2) unfolding q_def by linarith
    then show ?thesis ..
  next
    case True
    show ?thesis
    proof (cases "?s = 0")
      case False
      then have "1 \<le> (of_int ?s :: rat)" using s(1) by simp
      then have "1 * (1 - ?u) \<le> (of_int ?s :: rat) * (1 - ?u)"
        by (intro mult_right_mono) (auto simp: power_int_minus)
      moreover have "(2::rat) powi (- 31) \<le> 1 * (1 - ?u)" by (simp add: power_int_minus)
      ultimately have "2 powi (- 1022) \<le> f_val (f_of_int ?s)" using p(2) bs(4) by (meson order_trans)
      then have "2 powi (- 1022) \<le> q" unfolding q_def using bf(2) by (rule add_increasing2 [rotated])
      then show ?thesis ..
    qed (use True bs in \<open>simp add: q_def\<close>)
  qed
  note bq = f_exp_rel [OF q0 q1 q2]
  have sum: "\<exists>sg'. as_secs_f64 n = f_round sg' q"
    unfolding as_secs_f64_def using d f_add_finite [OF bs(1) bf(1)] by (auto simp: q_def zdiv_int zmod_int)
  then show "is_finite (as_secs_f64 n)" "0 \<le> f_val (as_secs_f64 n)" using bq by auto
  have total: "of_int ?s + f = of_nat n / 10 ^ 9"
  proof -
    have "(of_nat n :: rat) = of_nat (n div 1000000000 * 1000000000 + n mod 1000000000)" by simp
    also have "\<dots> = of_int ?s * 1000000000 + of_int ?m" by (simp only: of_nat_add of_nat_mult of_int_of_nat_eq of_nat_numeral)
    finally show ?thesis by (simp add: f_def field_simps)
  qed
  have "f_val (as_secs_f64 n) \<le> q * (1 + ?u)" using sum bq(3) by auto
  also have "\<dots> \<le> (of_nat n / 10 ^ 9 * (1 + ?u)) * (1 + ?u)"
    using hi unfolding total by (intro mult_right_mono) auto
  also have "\<dots> = of_nat n / 10 ^ 9 * ((1 + ?u) * (1 + ?u))" by simp
  also have "\<dots> \<le> of_nat n / 10 ^ 9 * (1 + 2 powi (- 51))"
    by (intro mult_left_mono) (simp_all add: power_int_minus)
  finally show "f_val (as_secs_f64 n) \<le> of_nat n / 10 ^ 9 * (1 + 2 powi (- 51))" .
qed

text \<open>
  Below two to the power of 53 the rounded quotient of two integers never reaches the next
  integer, so truncating it gives the integer quotient.
\<close>

lemma f_trunc_quotient:
  assumes "0 \<le> a" "a < 2 ^ 53" "0 < b" "b \<le> 2 ^ 53" "lo \<le> 0" "2 ^ 53 \<le> hi"
  shows "f_trunc lo hi (f_div (f_of_int a) (f_of_int b)) = a div b"
proof -
  let ?u = "(2::rat) powi (- 53)" and ?n = "of_int (a div b) :: rat"
  have ab: "f_val (f_of_int a) = of_int a" "is_finite (f_of_int a)" "f_val (f_of_int b) = of_int b" "is_finite (f_of_int b)"
    using f_of_int_exact [of a] f_of_int_exact [of b] assms by auto
  define q :: rat where "q = of_int a / of_int b"
  obtain s where s: "f_div (f_of_int a) (f_of_int b) = f_round s q"
    using f_div_finite [OF ab(2,4)] assms(3) by (auto simp: ab q_def)
  have quotient: "0 \<le> a div b" "a div b \<le> a"
    using assms zdiv_mono2 [of a 1 b] by (auto simp: pos_imp_zdiv_nonneg_iff)
  have b: "0 < (of_int b :: rat)" "1 \<le> (of_int b :: rat)" using assms(3) by auto
  have nb: "?n * of_int b \<le> of_int a" "of_int a + 1 \<le> (?n + 1) * of_int b"
  proof -
    have "a mod b + 1 \<le> b" using pos_mod_bound [OF assms(3), of a] by linarith
    moreover have "a = a div b * b + a mod b" "0 \<le> a mod b" using assms(3) by simp_all
    ultimately have "a div b * b \<le> a" "a + 1 \<le> (a div b + 1) * b"
      unfolding distrib_right by linarith+
    then have "(of_int (a div b * b) :: rat) \<le> of_int a" "(of_int (a + 1) :: rat) \<le> of_int ((a div b + 1) * b)"
      by (simp_all only: of_int_le_iff)
    then show "?n * of_int b \<le> of_int a" "of_int a + 1 \<le> (?n + 1) * of_int b" by simp_all
  qed
  have q0: "0 \<le> q" using assms(1) b by (simp add: q_def)
  have qu: "q * ?u < 1 / of_int b"
  proof -
    have "(of_int a :: rat) < of_int (2 ^ 53)" using assms(2) by (simp only: of_int_less_iff)
    then have "of_int a * ?u < 1" by (simp add: power_int_minus)
    then have "of_int a * ?u / of_int b < 1 / of_int b" using b(1) by (rule divide_strict_right_mono)
    then show ?thesis unfolding q_def times_divide_eq_left .
  qed
  have top: "q + 1 / of_int b \<le> ?n + 1" using nb(2) b(1) by (simp add: q_def field_simps)
  have low: "q = ?n \<or> ?n + 1 / of_int b \<le> q"
  proof (cases "a = a div b * b")
    case True
    then have "(of_int a :: rat) = ?n * of_int b" by (metis of_int_mult)
    then show ?thesis using b(1) by (simp add: q_def)
  next
    case False
    with nb(1) have "a div b * b + 1 \<le> a" by (metis add1_zle_eq of_int_le_iff of_int_mult order_le_less)
    then have "(of_int (a div b * b + 1) :: rat) \<le> of_int a" by (simp only: of_int_le_iff)
    then have "(?n * of_int b + 1) / of_int b \<le> q"
      unfolding q_def using b(1) by (intro divide_right_mono) auto
    then show ?thesis using b(1) by (simp add: add_divide_distrib)
  qed
  have "(of_int a :: rat) < of_int (2 ^ 53)" using assms(2) by (simp only: of_int_less_iff)
  moreover have "q \<le> of_int a" using assms(1) b mult_left_mono [OF b(2), of "of_int a"] by (simp add: q_def divide_le_eq)
  ultimately have "q < 2 powi 53" by simp
  then have q1: "q < 2 powi 1023" by (rule powi_numeral_less) simp
  have q2: "q = 0 \<or> 2 powi (- 1022) \<le> q"
  proof (cases "a = 0")
    case False
    have "(1::rat) / 2 ^ 53 \<le> 1 / of_int b" using assms(4) b
      by (intro divide_left_mono) (auto simp: of_int_le_iff [of b "2 ^ 53", where 'a = rat, simplified])
    also have "\<dots> \<le> q" using False assms(1) b by (simp add: q_def divide_right_mono)
    finally have "2 powi (- 53) \<le> q" by (simp add: power_int_minus)
    moreover have "(2::rat) powi (- 1022) \<le> 2 powi (- 53)" unfolding powi_le_iff by simp
    ultimately show ?thesis by (meson order_trans)
  qed (simp add: q_def)
  note r = f_exp_rel [OF q0 q1 q2, of s]
  have "f_val (f_round s q) \<le> q + q * ?u" using r(3) by (simp only: distrib_left mult_1_right)
  then have hi: "f_val (f_round s q) < ?n + 1" using top qu by linarith
  have lo: "?n \<le> f_val (f_round s q)"
    using low
  proof
    assume "q = ?n"
    moreover have "\<bar>a div b\<bar> \<le> 2 ^ 53"
      using assms quotient by simp
    ultimately show ?thesis using f_of_int_exact(1) [of "a div b"] f_round_fields(3) [of q] q0 q1
      by (simp add: f_of_int_def)
  next
    assume "?n + 1 / of_int b \<le> q"
    moreover have "q - q * ?u \<le> f_val (f_round s q)" using r(4) by (simp only: right_diff_distrib mult_1_right)
    ultimately show ?thesis using qu by linarith
  qed
  have "\<lfloor>f_val (f_round s q)\<rfloor> = a div b" using lo hi by (simp add: floor_eq_iff)
  moreover have "0 \<le> a div b" "a div b \<le> hi"
    using assms quotient by simp_all
  ultimately show ?thesis
    using r(1,2) assms(5) unfolding s f_trunc_def by (simp add: not_less)
qed

section \<open>The order\<close>

text \<open>Numbers that are not NaN are ordered like their values, between the two infinities.\<close>

definition f_rank :: "f64 \<Rightarrow> int \<times> rat" where
  "f_rank a = (if is_infinite a then (if f_neg a then - 1 else 1, 0) else (0, f_val a))"

definition rank_le :: "int \<times> rat \<Rightarrow> int \<times> rat \<Rightarrow> bool" where
  "rank_le a b \<longleftrightarrow> fst a < fst b \<or> fst a = fst b \<and> snd a \<le> snd b"

lemma f_class: "\<not> is_nan a \<Longrightarrow> is_finite a \<longleftrightarrow> \<not> is_infinite a"
  by (auto simp: is_nan_def is_finite_def is_infinite_def)

lemma f_less_rank: "f_less a b \<longleftrightarrow> \<not> is_nan a \<and> \<not> is_nan b \<and> \<not> rank_le (f_rank b) (f_rank a)"
proof (cases "is_nan a \<or> is_nan b")
  case False
  then have "is_finite a \<longleftrightarrow> \<not> is_infinite a" "is_finite b \<longleftrightarrow> \<not> is_infinite b"
    using f_class by blast+
  with False show ?thesis
    unfolding f_less_def f_rank_def rank_le_def
    by (cases "is_infinite a"; cases "is_infinite b"; cases "f_neg a"; cases "f_neg b"; simp add: not_le)
qed (auto simp: f_less_def)

lemma f_le_rank: "f_le a b \<longleftrightarrow> \<not> is_nan a \<and> \<not> is_nan b \<and> rank_le (f_rank a) (f_rank b)"
  unfolding f_le_def f_less_rank by blast

lemma rank_le_total: "rank_le a b \<or> rank_le b a" and rank_le_refl [simp]: "rank_le a a"
  and rank_le_trans: "rank_le a b \<Longrightarrow> rank_le b c \<Longrightarrow> rank_le a c"
  by (auto simp: rank_le_def)

lemma f_le_trans: "f_le a b \<Longrightarrow> f_le b c \<Longrightarrow> f_le a c"
  by (auto simp: f_le_rank intro: rank_le_trans)

lemma f_le_refl: "\<not> is_nan a \<Longrightarrow> f_le a a"
  by (simp add: f_le_rank)

lemma f_min_le: "\<not> is_nan a \<Longrightarrow> \<not> is_nan b \<Longrightarrow> f_le (f_min a b) a \<and> f_le (f_min a b) b"
  using rank_le_total [of "f_rank a" "f_rank b"] by (auto simp: f_min_def f_le_rank f_less_rank)

lemma f_max_ge: "\<not> is_nan a \<Longrightarrow> \<not> is_nan b \<Longrightarrow> f_le a (f_max a b) \<and> f_le b (f_max a b)"
  using rank_le_total [of "f_rank a" "f_rank b"] by (auto simp: f_max_def f_le_rank f_less_rank)

lemma f_min_nan: "is_nan b \<Longrightarrow> \<not> is_nan a \<Longrightarrow> f_min a b = a" and f_max_nan: "is_nan b \<Longrightarrow> \<not> is_nan a \<Longrightarrow> f_max a b = a"
  by (simp_all add: f_min_def f_max_def)

text \<open>Folding with the minimum or the maximum bounds every element that is not a NaN.\<close>

lemma foldl_f_min:
  "\<not> is_nan a \<Longrightarrow> f_le (foldl f_min a vs) a \<and> (\<forall>v \<in> set vs. \<not> is_nan v \<longrightarrow> f_le (foldl f_min a vs) v)"
proof (induction vs arbitrary: a)
  case (Cons v vs)
  then show ?case
    using f_min_le [of a v] f_min_nan [of v a] by (cases "is_nan v") (auto simp: f_le_rank intro: rank_le_trans)
qed (simp add: f_le_refl)

lemma foldl_f_max:
  "\<not> is_nan a \<Longrightarrow> f_le a (foldl f_max a vs) \<and> (\<forall>v \<in> set vs. \<not> is_nan v \<longrightarrow> f_le v (foldl f_max a vs))"
proof (induction vs arbitrary: a)
  case (Cons v vs)
  then show ?case
    using f_max_ge [of a v] f_max_nan [of v a] by (cases "is_nan v") (auto simp: f_le_rank intro: rank_le_trans)
qed (simp add: f_le_refl)

lemma infinity_not_nan [simp]: "\<not> is_nan F64_INFINITY" "\<not> is_nan F64_NEG_INFINITY"
  by (simp_all add: is_nan_def f_bits_def F64_INFINITY_def F64_NEG_INFINITY_def)

end
