(* ===== verification/Schema.thy ===== *)
theory Schema
  imports Float64
begin

text \<open>
  The tables of the SQLite store (apps/api/src/storage/sqlite.rs, init_schema and the row
  structs) and the constraints the schema declares. A table is the list of its rows in the
  order of their row ids. Columns no statement of the store reads or writes (the row ids of
  tags, params and metrics, the description and metadata of API keys, the successor of a
  session) are left out. Foreign keys are enforced: the SQLite that rusqlite's bundled feature
  compiles has them on by default, and the comments of the delete operations rely on it.

  The clock of SQLite (datetime('now')) and fresh identifiers (UUIDv7) are arguments of the
  operations.
\<close>

section \<open>Rows\<close>

type_synonym timestamp = string

record ProjectRow =
  pj_id :: string
  pj_name :: string
  pj_description :: "string option"
  pj_created_at :: timestamp
  pj_updated_at :: timestamp

record MetricAliasRow =
  al_project_id :: string
  al_metric_name :: string
  al_display_name :: string
  al_unit :: "string option"
  al_description :: "string option"
  al_is_active :: bool
  al_created_at :: timestamp
  al_updated_at :: timestamp

record RunRec =
  rn_id :: string
  rn_project_id :: string
  rn_name :: "string option"
  rn_status :: string
  rn_key_id :: "string option"
  rn_user_id :: "string option"
  rn_created_at :: timestamp
  rn_updated_at :: timestamp
  rn_finished_at :: "timestamp option"
  rn_metrics_count :: int
  rn_params_count :: int

record TagRec =
  tg_run_id :: string
  tg_key :: string
  tg_value :: string

record MetricRec =
  mt_run_id :: string
  mt_name :: string
  mt_step :: int
  mt_value :: f64
  mt_timestamp :: "f64 option"

record RunEventRow =
  ev_id :: int
  ev_run_id :: string
  ev_level :: string
  ev_source :: string
  ev_message :: string
  ev_step :: "int option"
  ev_timestamp :: "f64 option"
  ev_created_at :: timestamp

record ParamRec =
  pm_run_id :: string
  pm_name :: string
  pm_value :: string

record BatchRec =
  ba_id :: string
  ba_run_id :: string
  ba_seq :: int
  ba_payload_hash :: string
  ba_created_at :: timestamp

record UserRec =
  us_id :: string
  us_email :: "string option"
  us_display_name :: "string option"
  us_auth_provider :: string
  us_external_subject :: "string option"
  us_is_service_account :: bool
  us_is_platform_admin :: bool
  us_created_at :: timestamp
  us_updated_at :: timestamp
  us_disabled_at :: "timestamp option"

record MembershipRec =
  mb_id :: string
  mb_project_id :: string
  mb_user_id :: string
  mb_role :: string
  mb_granted_by :: "string option"
  mb_created_at :: timestamp
  mb_updated_at :: timestamp
  mb_revoked_at :: "timestamp option"

record ApiKeyRec =
  ak_id :: string
  ak_key_hash :: string
  ak_fingerprint :: "string option"
  ak_prefix :: string
  ak_project_id :: "string option"
  ak_user_id :: "string option"
  ak_name :: "string option"
  ak_scopes :: string
  ak_created_at :: timestamp
  ak_updated_at :: timestamp
  ak_last_used_at :: "timestamp option"
  ak_revoked_at :: "timestamp option"
  ak_expires_at :: "timestamp option"

record AuditEventRow =
  au_id :: int
  au_occurred_at :: timestamp
  au_user_id :: "string option"
  au_key_id :: "string option"
  au_project_id :: "string option"
  au_run_id :: "string option"
  au_action :: string
  au_resource_type :: string
  au_resource_id :: "string option"
  au_outcome :: string
  au_request_id :: "string option"
  au_client_ip :: "string option"
  au_user_agent :: "string option"
  au_metadata :: string

record SessionRec =
  se_id :: string
  se_user_id :: string
  se_token_hash :: string
  se_csrf_hash :: string
  se_created_at :: timestamp
  se_updated_at :: timestamp
  se_last_seen_at :: "timestamp option"
  se_expires_at :: timestamp
  se_revoked_at :: "timestamp option"
  se_user_agent :: "string option"
  se_client_ip :: "string option"

record ShareTokenRow =
  sh_token :: string
  sh_run_id :: string
  sh_key_prefix :: "string option"
  sh_created_at :: timestamp
  sh_expires_at :: "timestamp option"
  sh_revoked_at :: "timestamp option"

text \<open>The database; the last two fields are the AUTOINCREMENT counters that are observable.\<close>

record Db =
  t_projects :: "ProjectRow list"
  t_aliases :: "MetricAliasRow list"
  t_runs :: "RunRec list"
  t_tags :: "TagRec list"
  t_metrics :: "MetricRec list"
  t_run_events :: "RunEventRow list"
  t_params :: "ParamRec list"
  t_batches :: "BatchRec list"
  t_users :: "UserRec list"
  t_memberships :: "MembershipRec list"
  t_api_keys :: "ApiKeyRec list"
  t_audit_events :: "AuditEventRow list"
  t_sessions :: "SessionRec list"
  t_share_tokens :: "ShareTokenRow list"
  event_seq :: int
  audit_seq :: int

definition init_schema :: Db where
  "init_schema =
     \<lparr>t_projects = [], t_aliases = [], t_runs = [], t_tags = [], t_metrics = [], t_run_events = [],
      t_params = [], t_batches = [], t_users = [], t_memberships = [], t_api_keys = [],
      t_audit_events = [], t_sessions = [], t_share_tokens = [], event_seq = 0, audit_seq = 0\<rparr>"

section \<open>Errors\<close>

datatype SqlFailure =
    UniqueViolation | ForeignKeyViolation | NotNullViolation | CheckViolation | QueryReturnedNoRows
  | InvalidColumnType

datatype SqliteError = Database SqlFailure | NotFound string

type_synonym 'a store = "(Db, 'a, SqliteError) op"

text \<open>Reading never changes the database.\<close>

definition op_read :: "(Db \<Rightarrow> 'a) \<Rightarrow> 'a store" where
  "op_read f = (\<lambda>db. (Ok (f db), db))"

text \<open>A statement: fail on the first violated constraint, or write.\<close>

definition op_stmt :: "(Db \<Rightarrow> SqlFailure option) \<Rightarrow> (Db \<Rightarrow> Db) \<Rightarrow> unit store" where
  "op_stmt check f = (\<lambda>db. case check db of None \<Rightarrow> (Ok (), f db) | Some v \<Rightarrow> (Err (Database v), db))"

lemma op_read_apply [simp]: "op_read f db = (Ok (f db), db)"
  by (simp add: op_read_def)

lemma op_stmt_apply:
  "op_stmt check f db = (case check db of None \<Rightarrow> (Ok (), f db) | Some v \<Rightarrow> (Err (Database v), db))"
  by (simp add: op_stmt_def)

lemma preserves_read [preserves_intros]: "preserves I (op_read f)"
  by (simp add: preserves_def)

lemma preserves_stmt:
  "(\<And>db. I db \<Longrightarrow> check db = None \<Longrightarrow> I (f db)) \<Longrightarrow> preserves I (op_stmt check f)"
  by (auto simp: preserves_def op_stmt_apply split: option.splits)

text \<open>The first violated constraint of a list of constraints, each with its violation.\<close>

fun first_violation :: "(bool \<times> SqlFailure) list \<Rightarrow> SqlFailure option" where
  "first_violation [] = None"
| "first_violation ((ok, v) # cs) = (if ok then first_violation cs else Some v)"

lemma first_violation_None [simp]:
  "first_violation ((ok, v) # cs) = None \<longleftrightarrow> ok \<and> first_violation cs = None"
  by simp

lemma first_violation_const [simp]:
  "first_violation ((True, v) # cs) = first_violation cs" "first_violation ((False, v) # cs) = Some v"
  by simp_all

declare first_violation.simps(2) [simp del]

section \<open>Constraints\<close>

text \<open>A nullable reference: NULL, or a key of the referenced table.\<close>

definition refers :: "'k option \<Rightarrow> 'k list \<Rightarrow> bool" where
  "refers r ks \<longleftrightarrow> (case r of None \<Rightarrow> True | Some k \<Rightarrow> k \<in> set ks)"

lemma refers_simps [simp]: "refers None ks" "refers (Some k) ks \<longleftrightarrow> k \<in> set ks"
  by (simp_all add: refers_def)

text \<open>The values of a nullable column that are not NULL, which are what UNIQUE compares.\<close>

definition present :: "('r \<Rightarrow> 'k option) \<Rightarrow> 'r list \<Rightarrow> 'k list" where
  "present f rs = List.map_filter f rs"

lemma set_present: "set (present f rs) = {k. \<exists>r \<in> set rs. f r = Some k}"
  by (force simp: present_def List.map_filter_def image_iff)

lemma present_simps [simp]:
  "present f [] = []"
  "present f (r # rs) = (case f r of None \<Rightarrow> present f rs | Some k \<Rightarrow> k # present f rs)"
  "present f (rs @ ss) = present f rs @ present f ss"
  by (auto simp: present_def List.map_filter_def split: option.splits)

lemma present_update_where [table_simps]:
  "(\<And>r. g (f r) = g r) \<Longrightarrow> present g (update_where P f rs) = present g rs"
  by (induction rs) (simp_all split: option.splits)

lemma distinct_present_delete [table_simps]:
  "distinct (present g rs) \<Longrightarrow> distinct (present g (delete_where P rs))"
proof (induction rs)
  case (Cons r rs)
  have "set (present g (delete_where P rs)) \<subseteq> set (present g rs)" by (auto simp: set_present)
  with Cons show ?case by (auto split: option.splits)
qed simp

lemma unique_present:
  "distinct (present g rs) \<Longrightarrow> x \<in> set rs \<Longrightarrow> y \<in> set rs \<Longrightarrow> g x = Some k \<Longrightarrow> g y = Some k \<Longrightarrow> x = y"
  by (induction rs) (auto simp: set_present split: option.splits)

text \<open>What a new row has to satisfy.\<close>

lemma present_append_row:
  "distinct (present f (rs @ [r])) \<longleftrightarrow>
     distinct (present f rs) \<and> (case f r of None \<Rightarrow> True | Some k \<Rightarrow> k \<notin> set (present f rs))"
  "set (present f (rs @ [r])) \<subseteq> S \<longleftrightarrow> set (present f rs) \<subseteq> S \<and> (case f r of None \<Rightarrow> True | Some k \<Rightarrow> k \<in> S)"
  by (auto split: option.splits)

lemma map_append_row:
  "distinct (map f (rs @ [r])) \<longleftrightarrow> distinct (map f rs) \<and> f r \<notin> set (map f rs)"
  "set (map f (rs @ [r])) \<subseteq> S \<longleftrightarrow> set (map f rs) \<subseteq> S \<and> f r \<in> S"
  by auto

lemmas append_row = present_append_row map_append_row

abbreviation project_ids :: "Db \<Rightarrow> string list" where "project_ids db \<equiv> map pj_id (t_projects db)"
abbreviation run_ids :: "Db \<Rightarrow> string list" where "run_ids db \<equiv> map rn_id (t_runs db)"
abbreviation user_ids :: "Db \<Rightarrow> string list" where "user_ids db \<equiv> map us_id (t_users db)"
abbreviation api_key_ids :: "Db \<Rightarrow> string list" where "api_key_ids db \<equiv> map ak_id (t_api_keys db)"

definition mb_active_key :: "MembershipRec \<Rightarrow> (string \<times> string) option" where
  "mb_active_key m = (if mb_revoked_at m = None then Some (mb_project_id m, mb_user_id m) else None)"

definition al_active_key :: "MetricAliasRow \<Rightarrow> (string \<times> string) option" where
  "al_active_key a =
     (if al_is_active a then Some (al_project_id a, to_ascii_lowercase (al_display_name a)) else None)"

definition us_identity :: "UserRec \<Rightarrow> (string \<times> string) option" where
  "us_identity u = map_option (\<lambda>s. (us_auth_provider u, s)) (us_external_subject u)"

text \<open>
  The constraints of each table: PRIMARY KEY and UNIQUE (partial unique indexes included), and
  FOREIGN KEY against the sets of keys of the tables referred to.
\<close>

type_synonym ids = "string set"

definition projects_ok :: "ProjectRow list \<Rightarrow> bool" where
  "projects_ok ps \<longleftrightarrow> distinct (map pj_id ps) \<and> distinct (map pj_name ps)"

definition users_ok :: "UserRec list \<Rightarrow> bool" where
  "users_ok us \<longleftrightarrow> distinct (map us_id us) \<and> distinct (present us_identity us)"

definition aliases_ok :: "ids \<Rightarrow> MetricAliasRow list \<Rightarrow> bool" where
  "aliases_ok P as \<longleftrightarrow>
     distinct (map (\<lambda>a. (al_project_id a, al_metric_name a)) as) \<and> distinct (present al_active_key as)
   \<and> set (map al_project_id as) \<subseteq> P"

definition memberships_ok :: "ids \<Rightarrow> ids \<Rightarrow> MembershipRec list \<Rightarrow> bool" where
  "memberships_ok P U ms \<longleftrightarrow>
     distinct (map mb_id ms) \<and> distinct (present mb_active_key ms)
   \<and> set (map mb_project_id ms) \<subseteq> P \<and> set (map mb_user_id ms) \<subseteq> U \<and> set (present mb_granted_by ms) \<subseteq> U"

definition api_keys_ok :: "ids \<Rightarrow> ids \<Rightarrow> ApiKeyRec list \<Rightarrow> bool" where
  "api_keys_ok P U ks \<longleftrightarrow>
     distinct (map ak_id ks) \<and> distinct (map ak_key_hash ks) \<and> distinct (present ak_fingerprint ks)
   \<and> set (present ak_project_id ks) \<subseteq> P \<and> set (present ak_user_id ks) \<subseteq> U"

definition sessions_ok :: "ids \<Rightarrow> SessionRec list \<Rightarrow> bool" where
  "sessions_ok U ss \<longleftrightarrow>
     distinct (map se_id ss) \<and> distinct (map se_token_hash ss) \<and> set (map se_user_id ss) \<subseteq> U"

definition audit_ok :: "ids \<Rightarrow> ids \<Rightarrow> ids \<Rightarrow> ids \<Rightarrow> AuditEventRow list \<Rightarrow> bool" where
  "audit_ok U K P R as \<longleftrightarrow>
     set (present au_user_id as) \<subseteq> U \<and> set (present au_key_id as) \<subseteq> K
   \<and> set (present au_project_id as) \<subseteq> P \<and> set (present au_run_id as) \<subseteq> R"

definition runs_ok :: "ids \<Rightarrow> ids \<Rightarrow> ids \<Rightarrow> RunRec list \<Rightarrow> bool" where
  "runs_ok P K U rs \<longleftrightarrow>
     distinct (map rn_id rs) \<and> set (map rn_project_id rs) \<subseteq> P
   \<and> set (present rn_key_id rs) \<subseteq> K \<and> set (present rn_user_id rs) \<subseteq> U"

definition tags_ok :: "ids \<Rightarrow> TagRec list \<Rightarrow> bool" where
  "tags_ok R ts \<longleftrightarrow> distinct (map (\<lambda>t. (tg_run_id t, tg_key t)) ts) \<and> set (map tg_run_id ts) \<subseteq> R"

definition params_ok :: "ids \<Rightarrow> ParamRec list \<Rightarrow> bool" where
  "params_ok R ps \<longleftrightarrow> distinct (map (\<lambda>p. (pm_run_id p, pm_name p)) ps) \<and> set (map pm_run_id ps) \<subseteq> R"

definition metrics_ok :: "ids \<Rightarrow> MetricRec list \<Rightarrow> bool" where
  "metrics_ok R ms \<longleftrightarrow> set (map mt_run_id ms) \<subseteq> R"

text \<open>The ids of the events are handed out in increasing order and never reused.\<close>

definition events_ok :: "ids \<Rightarrow> int \<Rightarrow> RunEventRow list \<Rightarrow> bool" where
  "events_ok R n es \<longleftrightarrow>
     set (map ev_run_id es) \<subseteq> R \<and> sorted_wrt (<) (map ev_id es) \<and> (\<forall>e \<in> set es. ev_id e \<le> n)"

definition batches_ok :: "ids \<Rightarrow> BatchRec list \<Rightarrow> bool" where
  "batches_ok R bs \<longleftrightarrow> distinct (map ba_id bs) \<and> set (map ba_run_id bs) \<subseteq> R"

definition shares_ok :: "ids \<Rightarrow> ShareTokenRow list \<Rightarrow> bool" where
  "shares_ok R ss \<longleftrightarrow> distinct (map sh_token ss) \<and> set (map sh_run_id ss) \<subseteq> R"

definition db_ok :: "Db \<Rightarrow> bool" where
  "db_ok db \<longleftrightarrow>
     (let P = set (project_ids db); U = set (user_ids db); K = set (api_key_ids db); R = set (run_ids db) in
      projects_ok (t_projects db) \<and> users_ok (t_users db) \<and> aliases_ok P (t_aliases db)
    \<and> memberships_ok P U (t_memberships db) \<and> api_keys_ok P U (t_api_keys db)
    \<and> sessions_ok U (t_sessions db) \<and> audit_ok U K P R (t_audit_events db)
    \<and> runs_ok P K U (t_runs db) \<and> tags_ok R (t_tags db) \<and> params_ok R (t_params db)
    \<and> metrics_ok R (t_metrics db) \<and> events_ok R (event_seq db) (t_run_events db)
    \<and> batches_ok R (t_batches db) \<and> shares_ok R (t_share_tokens db))"

lemmas table_ok_defs = projects_ok_def users_ok_def aliases_ok_def memberships_ok_def api_keys_ok_def
  sessions_ok_def audit_ok_def runs_ok_def tags_ok_def params_ok_def metrics_ok_def events_ok_def
  batches_ok_def shares_ok_def

lemma init_schema_ok: "db_ok init_schema"
  by (simp add: db_ok_def table_ok_defs init_schema_def Let_def)

text \<open>More keys to refer to never break a reference.\<close>

lemma table_ok_mono:
  "aliases_ok P as \<Longrightarrow> P \<subseteq> P' \<Longrightarrow> aliases_ok P' as"
  "memberships_ok P U ms \<Longrightarrow> P \<subseteq> P' \<Longrightarrow> U \<subseteq> U' \<Longrightarrow> memberships_ok P' U' ms"
  "api_keys_ok P U ks \<Longrightarrow> P \<subseteq> P' \<Longrightarrow> U \<subseteq> U' \<Longrightarrow> api_keys_ok P' U' ks"
  "sessions_ok U ss \<Longrightarrow> U \<subseteq> U' \<Longrightarrow> sessions_ok U' ss"
  "audit_ok U K P R es \<Longrightarrow> U \<subseteq> U' \<Longrightarrow> K \<subseteq> K' \<Longrightarrow> P \<subseteq> P' \<Longrightarrow> R \<subseteq> R' \<Longrightarrow> audit_ok U' K' P' R' es"
  "runs_ok P K U rs \<Longrightarrow> P \<subseteq> P' \<Longrightarrow> K \<subseteq> K' \<Longrightarrow> U \<subseteq> U' \<Longrightarrow> runs_ok P' K' U' rs"
  "tags_ok R ts \<Longrightarrow> R \<subseteq> R' \<Longrightarrow> tags_ok R' ts"
  "params_ok R ps \<Longrightarrow> R \<subseteq> R' \<Longrightarrow> params_ok R' ps"
  "metrics_ok R xs \<Longrightarrow> R \<subseteq> R' \<Longrightarrow> metrics_ok R' xs"
  "events_ok R n ys \<Longrightarrow> R \<subseteq> R' \<Longrightarrow> events_ok R' n ys"
  "batches_ok R bs \<Longrightarrow> R \<subseteq> R' \<Longrightarrow> batches_ok R' bs"
  "shares_ok R zs \<Longrightarrow> R \<subseteq> R' \<Longrightarrow> shares_ok R' zs"
  by (simp_all only: table_ok_defs) blast+

text \<open>What has to be shown when one table changes.\<close>

lemma db_ok_projects:
  "db_ok db \<Longrightarrow> projects_ok ps \<Longrightarrow> set (project_ids db) \<subseteq> set (map pj_id ps) \<Longrightarrow> db_ok (db\<lparr>t_projects := ps\<rparr>)"
  unfolding db_ok_def Let_def by (simp, blast intro: table_ok_mono)

lemma db_ok_users:
  "db_ok db \<Longrightarrow> users_ok us \<Longrightarrow> set (user_ids db) \<subseteq> set (map us_id us) \<Longrightarrow> db_ok (db\<lparr>t_users := us\<rparr>)"
  unfolding db_ok_def Let_def by (simp, blast intro: table_ok_mono)

lemma db_ok_api_keys:
  "db_ok db \<Longrightarrow> api_keys_ok (set (project_ids db)) (set (user_ids db)) ks \<Longrightarrow>
   set (api_key_ids db) \<subseteq> set (map ak_id ks) \<Longrightarrow> db_ok (db\<lparr>t_api_keys := ks\<rparr>)"
  unfolding db_ok_def Let_def by (simp, blast intro: table_ok_mono)

lemma db_ok_api_keys_change:
  "db_ok db \<Longrightarrow> api_keys_ok (set (project_ids db)) (set (user_ids db)) ks \<Longrightarrow>
   set (present rn_key_id (t_runs db)) \<subseteq> set (map ak_id ks) \<Longrightarrow>
   set (present au_key_id (t_audit_events db)) \<subseteq> set (map ak_id ks) \<Longrightarrow> db_ok (db\<lparr>t_api_keys := ks\<rparr>)"
  unfolding db_ok_def Let_def by (simp add: runs_ok_def audit_ok_def)

lemma db_ok_runs:
  "db_ok db \<Longrightarrow> runs_ok (set (project_ids db)) (set (api_key_ids db)) (set (user_ids db)) rs \<Longrightarrow>
   set (run_ids db) \<subseteq> set (map rn_id rs) \<Longrightarrow> db_ok (db\<lparr>t_runs := rs\<rparr>)"
  unfolding db_ok_def Let_def by (simp, blast intro: table_ok_mono)

lemma db_ok_leaf:
  "db_ok db \<Longrightarrow> aliases_ok (set (project_ids db)) as \<Longrightarrow> db_ok (db\<lparr>t_aliases := as\<rparr>)"
  "db_ok db \<Longrightarrow> memberships_ok (set (project_ids db)) (set (user_ids db)) ms \<Longrightarrow>
     db_ok (db\<lparr>t_memberships := ms\<rparr>)"
  "db_ok db \<Longrightarrow> sessions_ok (set (user_ids db)) ss \<Longrightarrow> db_ok (db\<lparr>t_sessions := ss\<rparr>)"
  "db_ok db \<Longrightarrow> audit_ok (set (user_ids db)) (set (api_key_ids db)) (set (project_ids db)) (set (run_ids db)) es \<Longrightarrow>
     db_ok (db\<lparr>t_audit_events := es\<rparr>)"
  "db_ok db \<Longrightarrow> tags_ok (set (run_ids db)) ts \<Longrightarrow> db_ok (db\<lparr>t_tags := ts\<rparr>)"
  "db_ok db \<Longrightarrow> params_ok (set (run_ids db)) ps \<Longrightarrow> db_ok (db\<lparr>t_params := ps\<rparr>)"
  "db_ok db \<Longrightarrow> metrics_ok (set (run_ids db)) xs \<Longrightarrow> db_ok (db\<lparr>t_metrics := xs\<rparr>)"
  "db_ok db \<Longrightarrow> events_ok (set (run_ids db)) n ys \<Longrightarrow> db_ok (db\<lparr>t_run_events := ys, event_seq := n\<rparr>)"
  "db_ok db \<Longrightarrow> batches_ok (set (run_ids db)) bs \<Longrightarrow> db_ok (db\<lparr>t_batches := bs\<rparr>)"
  "db_ok db \<Longrightarrow> shares_ok (set (run_ids db)) zs \<Longrightarrow> db_ok (db\<lparr>t_share_tokens := zs\<rparr>)"
  "db_ok db \<Longrightarrow> db_ok (db\<lparr>audit_seq := n\<rparr>)"
  unfolding db_ok_def Let_def by simp_all

lemma db_okD:
  assumes "db_ok db"
  shows "projects_ok (t_projects db)" "users_ok (t_users db)"
    "aliases_ok (set (project_ids db)) (t_aliases db)"
    "memberships_ok (set (project_ids db)) (set (user_ids db)) (t_memberships db)"
    "api_keys_ok (set (project_ids db)) (set (user_ids db)) (t_api_keys db)"
    "sessions_ok (set (user_ids db)) (t_sessions db)"
    "audit_ok (set (user_ids db)) (set (api_key_ids db)) (set (project_ids db)) (set (run_ids db)) (t_audit_events db)"
    "runs_ok (set (project_ids db)) (set (api_key_ids db)) (set (user_ids db)) (t_runs db)"
    "tags_ok (set (run_ids db)) (t_tags db)" "params_ok (set (run_ids db)) (t_params db)"
    "metrics_ok (set (run_ids db)) (t_metrics db)" "events_ok (set (run_ids db)) (event_seq db) (t_run_events db)"
    "batches_ok (set (run_ids db)) (t_batches db)" "shares_ok (set (run_ids db)) (t_share_tokens db)"
  using assms unfolding db_ok_def Let_def by blast+

text \<open>An update that leaves a column alone leaves what the constraints say of it alone.\<close>

lemma present_update_subset:
  "(\<And>r k. P r \<Longrightarrow> g (f r) = Some k \<Longrightarrow> g r = Some k) \<Longrightarrow>
   set (present g (update_where P f rs)) \<subseteq> set (present g rs)"
  by (fastforce simp: set_present set_update_where)

lemma distinct_present_update:
  assumes "\<And>r k. P r \<Longrightarrow> g (f r) = Some k \<Longrightarrow> g r = Some k" and "distinct (present g rs)"
  shows "distinct (present g (update_where P f rs))"
  using assms(2)
proof (induction rs)
  case (Cons r rs)
  have sub: "set (present g (update_where P f rs)) \<subseteq> set (present g rs)"
    using assms(1) by (rule present_update_subset)
  show ?case
  proof (cases "g (if P r then f r else r)")
    case None
    then show ?thesis using Cons by (auto split: option.splits)
  next
    case (Some k)
    with assms(1) have "g r = Some k" by (auto split: if_splits)
    with Cons Some sub show ?thesis by auto
  qed
qed simp

lemma distinct_present_update_one:
  assumes "distinct (present g rs)" and "\<And>x y. x \<in> set rs \<Longrightarrow> y \<in> set rs \<Longrightarrow> P x \<Longrightarrow> P y \<Longrightarrow> x = y"
    and "distinct rs" and "\<And>r. g (f r) = v" and "\<And>r k. r \<in> set rs \<Longrightarrow> v = Some k \<Longrightarrow> g r = Some k \<Longrightarrow> P r"
  shows "distinct (present g (update_where P f rs))"
  using assms(1-3,5)
proof (induction rs)
  case (Cons r rs)
  have ih: "distinct (present g (update_where P f rs))"
  proof (rule Cons.IH)
    show "distinct (present g rs)" using Cons.prems(1) by (cases "g r") simp_all
    show "x = y" if "x \<in> set rs" "y \<in> set rs" "P x" "P y" for x y
      by (rule Cons.prems(2)) (use that in simp_all)
    show "distinct rs" using Cons.prems(3) by simp
    show "P x" if "x \<in> set rs" "v = Some k" "g x = Some k" for x k
      by (rule Cons.prems(4)) (use that in simp_all)
  qed
  show ?case
  proof (cases "P r")
    case True
    have none: "\<not> P x" if "x \<in> set rs" for x
      using Cons.prems(3) Cons.prems(2) [of x r] that True by auto
    then have same: "update_where P f rs = rs" by (rule update_where_none)
    show ?thesis
    proof (cases v)
      case None
      with ih True show ?thesis by (simp add: assms(4))
    next
      case (Some k)
      have "k \<notin> set (present g rs)" using none Cons.prems(4) [OF _ Some] by (fastforce simp: set_present)
      with ih True same Some show ?thesis by (simp add: assms(4))
    qed
  next
    case False
    show ?thesis
    proof (cases "g r")
      case None
      with ih False show ?thesis by simp
    next
      case (Some k)
      have "v \<noteq> Some k" using Cons.prems(4) [of r k] Some False by auto
      moreover have "k \<notin> set (present g rs)" using Cons.prems(1) Some by simp
      ultimately have "g (if P x then f x else x) \<noteq> Some k" if "x \<in> set rs" for x
        using that by (cases "P x") (auto simp: assms(4) set_present)
      then have "k \<notin> set (present g (update_where P f rs))"
        unfolding set_present set_update_where by fastforce
      with ih False Some show ?thesis by simp
    qed
  qed
qed simp

section \<open>Revocation\<close>

text \<open>
  API keys, UI sessions, memberships and share tokens are revoked the same way: an UPDATE
  stamps the rows a condition selects among those not yet revoked, and reports how many. The
  interface is the condition, the column and its update.
\<close>

locale revocable =
  fixes sel :: "'k \<Rightarrow> 'r \<Rightarrow> bool"
    and revoked :: "'r \<Rightarrow> timestamp option"
    and stamp :: "timestamp \<Rightarrow> 'r \<Rightarrow> 'r"
  assumes sel_stamp: "sel k (stamp now r) = sel k r"
    and revoked_stamp: "revoked (stamp now r) \<noteq> None"
begin

definition live :: "'k \<Rightarrow> 'r \<Rightarrow> bool" where
  "live k r \<longleftrightarrow> sel k r \<and> revoked r = None"

definition revoke :: "timestamp \<Rightarrow> 'k \<Rightarrow> 'r list \<Rightarrow> 'r list" where
  "revoke now k rs = update_where (live k) (stamp now) rs"

lemma revoke_kills: "r \<in> set (revoke now k rs) \<Longrightarrow> sel k r \<Longrightarrow> revoked r \<noteq> None"
  using revoked_stamp by (auto simp: revoke_def set_update_where live_def sel_stamp split: if_splits)

lemma revoke_no_live: "count_where (live k) (revoke now k rs) = 0"
  using revoke_kills by (auto simp: count_where_0 live_def)

lemma revoke_frame: "r \<in> set rs \<Longrightarrow> \<not> live k r \<Longrightarrow> r \<in> set (revoke now k rs)"
  by (force simp: revoke_def set_update_where)

lemma revoke_others: "filter (\<lambda>r. \<not> sel k r) (revoke now k rs) = filter (\<lambda>r. \<not> sel k r) rs"
  by (induction rs) (auto simp: revoke_def live_def sel_stamp)

lemma revoke_again: "revoke later k (revoke now k rs) = revoke now k rs"
proof -
  have "\<not> live k r" if "r \<in> set (revoke now k rs)" for r
    using revoke_no_live that by (fastforce simp: count_where_0)
  then show ?thesis by (subst (1) revoke_def) (auto simp: update_where_def intro!: map_idI)
qed

lemma revoke_monotone:
  assumes "r' \<in> set (revoke now k rs)" "revoked r' = None"
  shows "r' \<in> set rs"
proof -
  from assms(1) obtain x where x: "x \<in> set rs" "r' = (if live k x then stamp now x else x)"
    by (auto simp: revoke_def set_update_where)
  with assms(2) revoked_stamp [of now x] show ?thesis by (cases "live k x") auto
qed

end

section \<open>Upserts\<close>

text \<open>
  Tags, parameters and metric aliases are written by key: a new key adds a row, a known key
  changes its row. \<open>merge\<close> says what becomes of the row that was there. The interface is what
  a lookup by key returns after an upsert, and that keys stay unique.
\<close>

locale upsert_table =
  fixes key :: "'r \<Rightarrow> 'k"
    and merge :: "'r option \<Rightarrow> 'r \<Rightarrow> 'r"
    and upsert :: "'r \<Rightarrow> 'r list \<Rightarrow> 'r list"
  assumes upsert_find: "find (\<lambda>x. key x = k) (upsert r rs) =
      (if k = key r then Some (merge (find (\<lambda>x. key x = key r) rs) r) else find (\<lambda>x. key x = k) rs)"
    and upsert_distinct: "distinct (map key rs) \<Longrightarrow> distinct (map key (upsert r rs))"
begin

lemma fold_distinct: "distinct (map key rs) \<Longrightarrow> distinct (map key (fold upsert us rs))"
  by (induction us arbitrary: rs) (simp_all add: upsert_distinct)

lemma fold_other: "k \<notin> key ` set us \<Longrightarrow> find (\<lambda>x. key x = k) (fold upsert us rs) = find (\<lambda>x. key x = k) rs"
  by (induction us arbitrary: rs) (auto simp: upsert_find)

end

text \<open>Where the old row plays no part, the last row of a batch with a given key is the one found.\<close>

locale replace_table = upsert_table +
  assumes merge_new: "merge old r = r"
begin

lemma fold_last:
  "find (\<lambda>x. key x = k) (fold upsert us rs) =
     (case find (\<lambda>x. key x = k) (rev us) of Some r \<Rightarrow> Some r | None \<Rightarrow> find (\<lambda>x. key x = k) rs)"
  by (induction us arbitrary: rs) (auto simp: upsert_find merge_new find_append split: option.splits)

end

text \<open>\<open>INSERT OR REPLACE\<close>: the row with the same key is removed and the new row appended.\<close>

definition insert_or_replace :: "('r \<Rightarrow> 'k) \<Rightarrow> 'r \<Rightarrow> 'r list \<Rightarrow> 'r list" where
  "insert_or_replace key r rs = delete_where (\<lambda>x. key x = key r) rs @ [r]"

lemma find_insert_or_replace:
  "find (\<lambda>x. key x = k) (insert_or_replace key r rs) =
    (if k = key r then Some r else find (\<lambda>x. key x = k) rs)"
proof (cases "k = key r")
  case True
  then have "find (\<lambda>x. key x = k) (delete_where (\<lambda>x. key x = key r) rs) = None"
    by (auto simp: find_None_conv)
  with True show ?thesis by (simp add: insert_or_replace_def find_append)
next
  case False
  then have "find (\<lambda>x. key x = k) (delete_where (\<lambda>x. key x = key r) rs) = find (\<lambda>x. key x = k) rs"
    by (intro find_delete_where) auto
  with False show ?thesis by (simp add: insert_or_replace_def find_append split: option.splits)
qed

lemma replace_table_insert_or_replace: "replace_table key (\<lambda>old r. r) (insert_or_replace key)"
proof unfold_locales
  show "distinct (map key (insert_or_replace key r rs))" if "distinct (map key rs)" for r rs
    using that by (auto simp: insert_or_replace_def distinct_map_delete_where)
qed (simp_all add: find_insert_or_replace)

lemma set_insert_or_replace: "set (insert_or_replace key r rs) = insert r {x \<in> set rs. key x \<noteq> key r}"
  by (auto simp: insert_or_replace_def)

end
