(* ===== verification/Sqlite_Accounts.thy ===== *)
theory Sqlite_Accounts
  imports Schema
begin

text \<open>
  The operations of SqliteStore (apps/api/src/storage/sqlite.rs) on projects, users,
  memberships, audit events, UI sessions and API keys. Each operation holds the connection's
  mutex from its first statement to its last, so an operation is one atomic step with respect
  to the others; only \<open>delete_project\<close> (theory Sqlite_Runs) opens a transaction, so elsewhere
  the statements before a failing one stay executed.
\<close>

section \<open>Projects\<close>

definition insert_project_row ::
  "string \<Rightarrow> timestamp \<Rightarrow> string \<Rightarrow> string option \<Rightarrow> unit store" where
  "insert_project_row pid now name description =
     op_stmt
       (\<lambda>db. first_violation
          [(pid \<notin> set (project_ids db), UniqueViolation),
           (name \<notin> set (map pj_name (t_projects db)), UniqueViolation)])
       (\<lambda>db. db\<lparr>t_projects := t_projects db @
          [\<lparr>pj_id = pid, pj_name = name, pj_description = description,
            pj_created_at = now, pj_updated_at = now\<rparr>]\<rparr>)"

definition get_or_create_project :: "string \<Rightarrow> timestamp \<Rightarrow> string \<Rightarrow> string store" where
  "get_or_create_project fresh now name =
     op_bind (op_read (\<lambda>db. find (\<lambda>p. pj_name p = name) (t_projects db))) (\<lambda>existing.
       case existing of
         Some p \<Rightarrow> op_return (pj_id p)
       | None \<Rightarrow> op_bind (insert_project_row fresh now name None) (\<lambda>_. op_return fresh))"

definition op_row :: "(Db \<Rightarrow> 'a option) \<Rightarrow> 'a store" where
  "op_row f = (\<lambda>db. case f db of Some r \<Rightarrow> (Ok r, db) | None \<Rightarrow> (Err (Database QueryReturnedNoRows), db))"

definition create_project ::
  "string \<Rightarrow> timestamp \<Rightarrow> string \<Rightarrow> string option \<Rightarrow> ProjectRow store" where
  "create_project fresh now name description =
     op_bind (insert_project_row fresh now name description) (\<lambda>_.
       op_row (\<lambda>db. find (\<lambda>p. pj_id p = fresh) (t_projects db)))"

definition get_project_by_id :: "string \<Rightarrow> ProjectRow option store" where
  "get_project_by_id pid = op_read (\<lambda>db. find (\<lambda>p. pj_id p = pid) (t_projects db))"

definition get_project_name_by_id :: "string \<Rightarrow> string option store" where
  "get_project_name_by_id pid = op_bind (get_project_by_id pid) (\<lambda>p. op_return (map_option pj_name p))"

definition list_projects :: "ProjectRow list store" where
  "list_projects = op_read (\<lambda>db. sort_by (desc pj_created_at) (t_projects db))"

fun collect_projects :: "string list \<Rightarrow> ProjectRow list store" where
  "collect_projects [] = op_return []"
| "collect_projects (pid # pids) =
     op_bind (get_project_by_id pid) (\<lambda>p.
     op_bind (collect_projects pids) (\<lambda>ps.
       op_return (case p of Some row \<Rightarrow> row # ps | None \<Rightarrow> ps)))"

definition list_projects_by_ids :: "string list \<Rightarrow> ProjectRow list store" where
  "list_projects_by_ids pids =
     (if pids = [] then op_return []
      else op_bind (collect_projects pids) (\<lambda>ps. op_return (sort_by (asc pj_name) ps)))"

section \<open>Users\<close>

definition coalesce :: "'a option \<Rightarrow> 'a option \<Rightarrow> 'a option" where
  "coalesce x y = (case x of Some v \<Rightarrow> Some v | None \<Rightarrow> y)"

definition insert_user_row :: "UserRec \<Rightarrow> unit store" where
  "insert_user_row u =
     op_stmt
       (\<lambda>db. first_violation
          [(us_id u \<notin> set (user_ids db), UniqueViolation),
           (case us_identity u of None \<Rightarrow> True | Some k \<Rightarrow> k \<notin> set (present us_identity (t_users db)),
              UniqueViolation)])
       (\<lambda>db. db\<lparr>t_users := t_users db @ [u]\<rparr>)"

definition get_or_create_user_identity ::
  "string \<Rightarrow> timestamp \<Rightarrow> string \<Rightarrow> string \<Rightarrow> string option \<Rightarrow> string option \<Rightarrow> string store" where
  "get_or_create_user_identity fresh now provider subject email display =
     op_bind
       (op_read (\<lambda>db. find (\<lambda>u. us_auth_provider u = provider \<and> us_external_subject u = Some subject)
          (t_users db))) (\<lambda>existing.
       case existing of
         Some u \<Rightarrow>
           op_bind
             (op_write (\<lambda>db. db\<lparr>t_users := update_where (\<lambda>x. us_id x = us_id u)
                (\<lambda>x. x\<lparr>us_email := coalesce email (us_email x),
                      us_display_name := coalesce display (us_display_name x),
                      us_updated_at := now\<rparr>) (t_users db)\<rparr>))
             (\<lambda>_. op_return (us_id u))
       | None \<Rightarrow>
           op_bind
             (insert_user_row
                \<lparr>us_id = fresh, us_email = email, us_display_name = display,
                 us_auth_provider = provider, us_external_subject = Some subject,
                 us_is_service_account = False, us_is_platform_admin = False,
                 us_created_at = now, us_updated_at = now, us_disabled_at = None\<rparr>)
             (\<lambda>_. op_return fresh))"

record UserRow =
  ur_user :: UserRec
  ur_active_project_count :: nat
  ur_active_session_count :: nat

definition user_row :: "timestamp \<Rightarrow> Db \<Rightarrow> UserRec \<Rightarrow> UserRow" where
  "user_row now db u =
     \<lparr>ur_user = u,
      ur_active_project_count =
        count_where (\<lambda>m. mb_user_id m = us_id u \<and> mb_revoked_at m = None) (t_memberships db),
      ur_active_session_count =
        count_where (\<lambda>s. se_user_id s = us_id u \<and> se_revoked_at s = None \<and> now < se_expires_at s)
          (t_sessions db)\<rparr>"

definition list_users :: "timestamp \<Rightarrow> UserRow list store" where
  "list_users now =
     op_read (\<lambda>db. map (user_row now db) (sort_by (desc us_created_at) (t_users db)))"

definition get_user_by_id :: "timestamp \<Rightarrow> string \<Rightarrow> UserRow option store" where
  "get_user_by_id now uid =
     op_read (\<lambda>db. map_option (user_row now db) (find (\<lambda>u. us_id u = uid) (t_users db)))"

definition set_user_disabled :: "timestamp \<Rightarrow> string \<Rightarrow> bool \<Rightarrow> bool store" where
  "set_user_disabled now uid disabled = (\<lambda>db.
     let sel = (\<lambda>u. us_id u = uid \<and> (us_disabled_at u = None) = disabled) in
     (Ok (0 < count_where sel (t_users db)),
      db\<lparr>t_users := update_where sel
           (\<lambda>u. u\<lparr>us_disabled_at := (if disabled then Some now else None), us_updated_at := now\<rparr>)
           (t_users db)\<rparr>))"

definition sync_platform_admin_flag :: "string \<Rightarrow> string option \<Rightarrow> bool store" where
  "sync_platform_admin_flag uid admin_email = (\<lambda>db.
     let user_email = Option.bind (find (\<lambda>u. us_id u = uid) (t_users db)) us_email;
         is_admin = (case (user_email, admin_email) of
            (Some ue, Some ae) \<Rightarrow> eq_ignore_ascii_case ue (trim ae) | _ \<Rightarrow> False) in
     (Ok is_admin,
      db\<lparr>t_users := update_where (\<lambda>u. us_id u = uid) (\<lambda>u. u\<lparr>us_is_platform_admin := is_admin\<rparr>)
           (t_users db)\<rparr>))"

definition is_user_platform_admin :: "string \<Rightarrow> bool store" where
  "is_user_platform_admin uid =
     op_read (\<lambda>db. case find (\<lambda>u. us_id u = uid) (t_users db) of
       Some u \<Rightarrow> us_is_platform_admin u | None \<Rightarrow> False)"

section \<open>Memberships\<close>

definition stamp_membership :: "timestamp \<Rightarrow> MembershipRec \<Rightarrow> MembershipRec" where
  "stamp_membership now m = m\<lparr>mb_revoked_at := Some now, mb_updated_at := now\<rparr>"

definition revoke_memberships :: "timestamp \<Rightarrow> string \<Rightarrow> string \<Rightarrow> Db \<Rightarrow> Db" where
  "revoke_memberships now pid uid db =
     db\<lparr>t_memberships := update_where
          (\<lambda>m. mb_project_id m = pid \<and> mb_user_id m = uid \<and> mb_revoked_at m = None)
          (stamp_membership now) (t_memberships db)\<rparr>"

definition insert_membership_row :: "MembershipRec \<Rightarrow> unit store" where
  "insert_membership_row m =
     op_stmt
       (\<lambda>db. first_violation
          [(mb_role m \<in> {''owner'', ''editor'', ''viewer''}, CheckViolation),
           (mb_id m \<notin> set (map mb_id (t_memberships db)), UniqueViolation),
           (case mb_active_key m of None \<Rightarrow> True
              | Some k \<Rightarrow> k \<notin> set (present mb_active_key (t_memberships db)), UniqueViolation),
           (mb_project_id m \<in> set (project_ids db), ForeignKeyViolation),
           (mb_user_id m \<in> set (user_ids db), ForeignKeyViolation),
           (refers (mb_granted_by m) (user_ids db), ForeignKeyViolation)])
       (\<lambda>db. db\<lparr>t_memberships := t_memberships db @ [m]\<rparr>)"

definition grant_project_membership ::
  "string \<Rightarrow> timestamp \<Rightarrow> string \<Rightarrow> string \<Rightarrow> string \<Rightarrow> string option \<Rightarrow> unit store" where
  "grant_project_membership fresh now pid uid role granted_by =
     op_bind (op_write (revoke_memberships now pid uid)) (\<lambda>_.
       insert_membership_row
         \<lparr>mb_id = fresh, mb_project_id = pid, mb_user_id = uid, mb_role = role,
          mb_granted_by = granted_by, mb_created_at = now, mb_updated_at = now,
          mb_revoked_at = None\<rparr>)"

record ProjectMembershipRow =
  pmr_project_id :: string
  pmr_role :: string

definition list_active_project_memberships :: "string \<Rightarrow> ProjectMembershipRow list store" where
  "list_active_project_memberships uid =
     op_read (\<lambda>db. map (\<lambda>m. \<lparr>pmr_project_id = mb_project_id m, pmr_role = mb_role m\<rparr>)
       (sort_by (desc mb_created_at)
          (filter (\<lambda>m. mb_user_id m = uid \<and> mb_revoked_at m = None) (t_memberships db))))"

record UserProjectMembershipRow =
  upm_project_id :: string
  upm_project_name :: string
  upm_role :: string
  upm_granted_by :: "string option"
  upm_created_at :: timestamp
  upm_revoked_at :: "timestamp option"

definition list_user_project_memberships ::
  "string \<Rightarrow> bool \<Rightarrow> UserProjectMembershipRow list store" where
  "list_user_project_memberships uid include_revoked =
     op_read (\<lambda>db.
       map (\<lambda>(m, p). \<lparr>upm_project_id = mb_project_id m, upm_project_name = pj_name p,
              upm_role = mb_role m, upm_granted_by = mb_granted_by m,
              upm_created_at = mb_created_at m, upm_revoked_at = mb_revoked_at m\<rparr>)
         (sort_by (desc (\<lambda>(m, p). mb_created_at m))
            (List.map_filter (\<lambda>m. map_option (\<lambda>p. (m, p))
                 (find (\<lambda>p. pj_id p = mb_project_id m) (t_projects db)))
               (filter (\<lambda>m. mb_user_id m = uid \<and> (include_revoked \<or> mb_revoked_at m = None))
                  (t_memberships db)))))"

section \<open>Audit events\<close>

record AuditInput =
  ai_user_id :: "string option"
  ai_key_id :: "string option"
  ai_project_id :: "string option"
  ai_run_id :: "string option"
  ai_action :: string
  ai_resource_type :: string
  ai_resource_id :: "string option"
  ai_outcome :: string
  ai_request_id :: "string option"
  ai_client_ip :: "string option"
  ai_user_agent :: "string option"
  ai_metadata :: "string option"

definition insert_audit_event :: "timestamp \<Rightarrow> AuditInput \<Rightarrow> unit store" where
  "insert_audit_event now a =
     op_stmt
       (\<lambda>db. first_violation
          [(refers (ai_user_id a) (user_ids db), ForeignKeyViolation),
           (refers (ai_key_id a) (api_key_ids db), ForeignKeyViolation),
           (refers (ai_project_id a) (project_ids db), ForeignKeyViolation),
           (refers (ai_run_id a) (run_ids db), ForeignKeyViolation)])
       (\<lambda>db. db\<lparr>t_audit_events := t_audit_events db @
          [\<lparr>au_id = audit_seq db + 1, au_occurred_at = now, au_user_id = ai_user_id a,
            au_key_id = ai_key_id a, au_project_id = ai_project_id a, au_run_id = ai_run_id a,
            au_action = ai_action a, au_resource_type = ai_resource_type a,
            au_resource_id = ai_resource_id a, au_outcome = ai_outcome a,
            au_request_id = ai_request_id a, au_client_ip = ai_client_ip a,
            au_user_agent = ai_user_agent a,
            au_metadata = (case ai_metadata a of Some m \<Rightarrow> m | None \<Rightarrow> ''{}'')\<rparr>],
          audit_seq := audit_seq db + 1\<rparr>)"

definition matches_opt :: "'k option \<Rightarrow> 'k option \<Rightarrow> bool" where
  "matches_opt wanted v \<longleftrightarrow> (case wanted of None \<Rightarrow> True | Some k \<Rightarrow> v = Some k)"

definition list_audit_events_for_admin ::
  "string option \<Rightarrow> string option \<Rightarrow> string option \<Rightarrow> string option \<Rightarrow> string option \<Rightarrow> nat \<Rightarrow>
   AuditEventRow list store" where
  "list_audit_events_for_admin project_id actor_user_id actor_key_id action outcome limit =
     op_read (\<lambda>db.
       take (min limit (nat I64_MAX))
         (sort_by (then_by (desc au_occurred_at) (desc au_id))
            (filter (\<lambda>e. matches_opt project_id (au_project_id e)
                      \<and> matches_opt actor_user_id (au_user_id e)
                      \<and> matches_opt actor_key_id (au_key_id e)
                      \<and> matches_opt action (Some (au_action e))
                      \<and> matches_opt outcome (Some (au_outcome e)))
               (t_audit_events db))))"

section \<open>UI sessions\<close>

definition insert_auth_session ::
  "timestamp \<Rightarrow> string \<Rightarrow> string \<Rightarrow> string \<Rightarrow> string \<Rightarrow> timestamp \<Rightarrow> string option \<Rightarrow> string option \<Rightarrow>
   unit store" where
  "insert_auth_session now sid uid token_hash csrf_hash expires_at user_agent client_ip =
     op_stmt
       (\<lambda>db. first_violation
          [(sid \<notin> set (map se_id (t_sessions db)), UniqueViolation),
           (token_hash \<notin> set (map se_token_hash (t_sessions db)), UniqueViolation),
           (uid \<in> set (user_ids db), ForeignKeyViolation)])
       (\<lambda>db. db\<lparr>t_sessions := t_sessions db @
          [\<lparr>se_id = sid, se_user_id = uid, se_token_hash = token_hash, se_csrf_hash = csrf_hash,
            se_created_at = now, se_updated_at = now, se_last_seen_at = None,
            se_expires_at = expires_at, se_revoked_at = None, se_user_agent = user_agent,
            se_client_ip = client_ip\<rparr>]\<rparr>)"

definition get_active_auth_session_by_token_hash ::
  "timestamp \<Rightarrow> string \<Rightarrow> SessionRec option store" where
  "get_active_auth_session_by_token_hash now token_hash =
     op_read (\<lambda>db. find (\<lambda>s. se_token_hash s = token_hash \<and> se_revoked_at s = None
       \<and> now < se_expires_at s) (t_sessions db))"

text \<open>\<open>datetime('now', '+n seconds')\<close> is SQLite's: \<open>later\<close> stands for it.\<close>

definition touch_auth_session ::
  "(timestamp \<Rightarrow> nat \<Rightarrow> timestamp) \<Rightarrow> timestamp \<Rightarrow> string \<Rightarrow> nat \<Rightarrow> unit store" where
  "touch_auth_session later now sid ttl_seconds =
     op_write (\<lambda>db. db\<lparr>t_sessions := update_where (\<lambda>s. se_id s = sid)
       (\<lambda>s. s\<lparr>se_last_seen_at := Some now, se_updated_at := now,
             se_expires_at := later now (max ttl_seconds 1)\<rparr>) (t_sessions db)\<rparr>)"

definition stamp_session :: "timestamp \<Rightarrow> SessionRec \<Rightarrow> SessionRec" where
  "stamp_session now s = s\<lparr>se_revoked_at := Some now, se_updated_at := now\<rparr>"

definition revoke_sessions_where :: "timestamp \<Rightarrow> (SessionRec \<Rightarrow> bool) \<Rightarrow> nat store" where
  "revoke_sessions_where now sel = (\<lambda>db.
     (Ok (count_where (\<lambda>s. sel s \<and> se_revoked_at s = None) (t_sessions db)),
      db\<lparr>t_sessions := update_where (\<lambda>s. sel s \<and> se_revoked_at s = None) (stamp_session now)
           (t_sessions db)\<rparr>))"

definition revoke_auth_session_by_token_hash :: "timestamp \<Rightarrow> string \<Rightarrow> bool store" where
  "revoke_auth_session_by_token_hash now token_hash =
     op_bind (revoke_sessions_where now (\<lambda>s. se_token_hash s = token_hash)) (\<lambda>n. op_return (0 < n))"

definition list_auth_sessions_for_admin :: "string option \<Rightarrow> bool \<Rightarrow> SessionRec list store" where
  "list_auth_sessions_for_admin user_id include_revoked =
     op_read (\<lambda>db. sort_by (desc se_created_at)
       (filter (\<lambda>s. matches_opt user_id (Some (se_user_id s)) \<and> (include_revoked \<or> se_revoked_at s = None))
          (t_sessions db)))"

definition revoke_auth_session_by_id :: "timestamp \<Rightarrow> string \<Rightarrow> bool store" where
  "revoke_auth_session_by_id now sid =
     op_bind (revoke_sessions_where now (\<lambda>s. se_id s = sid)) (\<lambda>n. op_return (0 < n))"

definition revoke_all_sessions_for_user :: "timestamp \<Rightarrow> string \<Rightarrow> nat store" where
  "revoke_all_sessions_for_user now uid = revoke_sessions_where now (\<lambda>s. se_user_id s = uid)"

section \<open>API keys\<close>

definition insert_api_key_row :: "ApiKeyRec \<Rightarrow> unit store" where
  "insert_api_key_row k =
     op_stmt
       (\<lambda>db. first_violation
          [(ak_id k \<notin> set (api_key_ids db), UniqueViolation),
           (ak_key_hash k \<notin> set (map ak_key_hash (t_api_keys db)), UniqueViolation),
           (case ak_fingerprint k of None \<Rightarrow> True
              | Some f \<Rightarrow> f \<notin> set (present ak_fingerprint (t_api_keys db)), UniqueViolation),
           (refers (ak_project_id k) (project_ids db), ForeignKeyViolation),
           (refers (ak_user_id k) (user_ids db), ForeignKeyViolation)])
       (\<lambda>db. db\<lparr>t_api_keys := t_api_keys db @ [k]\<rparr>)"

definition insert_api_key ::
  "timestamp \<Rightarrow> string \<Rightarrow> string \<Rightarrow> string option \<Rightarrow> string \<Rightarrow> string option \<Rightarrow> string option \<Rightarrow>
   string option \<Rightarrow> string \<Rightarrow> timestamp option \<Rightarrow> unit store" where
  "insert_api_key now kid key_hash fingerprint prefix project_id user_id name scopes_json expires_at =
     insert_api_key_row
       \<lparr>ak_id = kid, ak_key_hash = key_hash, ak_fingerprint = fingerprint, ak_prefix = prefix,
        ak_project_id = project_id, ak_user_id = user_id, ak_name = name, ak_scopes = scopes_json,
        ak_created_at = now, ak_updated_at = now, ak_last_used_at = None, ak_revoked_at = None,
        ak_expires_at = expires_at\<rparr>"

text \<open>Whether a row of another table refers to an API key.\<close>

definition key_referenced :: "string \<Rightarrow> Db \<Rightarrow> bool" where
  "key_referenced kid db \<longleftrightarrow>
     kid \<in> set (present rn_key_id (t_runs db)) \<or> kid \<in> set (present au_key_id (t_audit_events db))"

definition admin_scopes_json :: string where
  "admin_scopes_json = [CHR ''['', CHR 0x22] @ ''admin'' @ [CHR 0x22, CHR '']'']"

text \<open>
  \<open>ON CONFLICT(key_fingerprint) DO UPDATE\<close>: a row with the same fingerprint is changed in
  place. Every other uniqueness constraint still fails the statement, and so does a change of
  an id that rows of other tables refer to.
\<close>

definition bootstrap_update ::
  "timestamp \<Rightarrow> string \<Rightarrow> string \<Rightarrow> string \<Rightarrow> timestamp option \<Rightarrow> ApiKeyRec \<Rightarrow> ApiKeyRec" where
  "bootstrap_update now kid key_hash prefix expires_at k =
     k\<lparr>ak_id := kid, ak_key_hash := key_hash, ak_prefix := prefix, ak_project_id := None,
       ak_scopes := admin_scopes_json, ak_revoked_at := None, ak_expires_at := expires_at,
       ak_updated_at := now\<rparr>"

definition upsert_bootstrap_api_key ::
  "timestamp \<Rightarrow> string \<Rightarrow> string \<Rightarrow> string option \<Rightarrow> string \<Rightarrow> timestamp option \<Rightarrow> unit store" where
  "upsert_bootstrap_api_key now kid key_hash fingerprint prefix expires_at = (\<lambda>db.
     case (if fingerprint = None then None
           else find (\<lambda>k. ak_fingerprint k = fingerprint) (t_api_keys db)) of
       None \<Rightarrow>
         insert_api_key_row
           \<lparr>ak_id = kid, ak_key_hash = key_hash, ak_fingerprint = fingerprint, ak_prefix = prefix,
            ak_project_id = None, ak_user_id = None, ak_name = Some ''bootstrap'',
            ak_scopes = admin_scopes_json, ak_created_at = now, ak_updated_at = now,
            ak_last_used_at = None, ak_revoked_at = None, ak_expires_at = expires_at\<rparr> db
     | Some old \<Rightarrow>
         op_stmt
           (\<lambda>db. first_violation
              [(\<forall>k \<in> set (t_api_keys db). ak_id k = kid \<longrightarrow> ak_fingerprint k = fingerprint, UniqueViolation),
               (\<forall>k \<in> set (t_api_keys db). ak_key_hash k = key_hash \<longrightarrow> ak_fingerprint k = fingerprint,
                  UniqueViolation),
               (ak_id old = kid \<or> \<not> key_referenced (ak_id old) db, ForeignKeyViolation)])
           (\<lambda>db. db\<lparr>t_api_keys := update_where (\<lambda>k. ak_fingerprint k = fingerprint)
              (bootstrap_update now kid key_hash prefix expires_at) (t_api_keys db)\<rparr>) db)"

definition get_api_key_by_fingerprint :: "string \<Rightarrow> ApiKeyRec option store" where
  "get_api_key_by_fingerprint fingerprint =
     op_read (\<lambda>db. find (\<lambda>k. ak_fingerprint k = Some fingerprint) (t_api_keys db))"

definition get_api_key_by_hash :: "string \<Rightarrow> ApiKeyRec option store" where
  "get_api_key_by_hash key_hash = op_read (\<lambda>db. find (\<lambda>k. ak_key_hash k = key_hash) (t_api_keys db))"

definition touch_api_key_last_used :: "timestamp \<Rightarrow> string \<Rightarrow> unit store" where
  "touch_api_key_last_used now key_hash =
     op_write (\<lambda>db. db\<lparr>t_api_keys := update_where (\<lambda>k. ak_key_hash k = key_hash)
       (\<lambda>k. k\<lparr>ak_last_used_at := Some now, ak_updated_at := now\<rparr>) (t_api_keys db)\<rparr>)"

definition stamp_key :: "timestamp \<Rightarrow> ApiKeyRec \<Rightarrow> ApiKeyRec" where
  "stamp_key now k = k\<lparr>ak_revoked_at := Some now, ak_updated_at := now\<rparr>"

definition revoke_keys_where :: "timestamp \<Rightarrow> (ApiKeyRec \<Rightarrow> bool) \<Rightarrow> bool store" where
  "revoke_keys_where now sel = (\<lambda>db.
     (Ok (0 < count_where (\<lambda>k. sel k \<and> ak_revoked_at k = None) (t_api_keys db)),
      db\<lparr>t_api_keys := update_where (\<lambda>k. sel k \<and> ak_revoked_at k = None) (stamp_key now)
           (t_api_keys db)\<rparr>))"

definition revoke_api_key_by_id :: "timestamp \<Rightarrow> string \<Rightarrow> bool store" where
  "revoke_api_key_by_id now kid = revoke_keys_where now (\<lambda>k. ak_id k = kid)"

definition revoke_api_key_by_hash :: "timestamp \<Rightarrow> string \<Rightarrow> bool store" where
  "revoke_api_key_by_hash now key_hash = revoke_keys_where now (\<lambda>k. ak_key_hash k = key_hash)"

definition list_api_keys :: "string option \<Rightarrow> ApiKeyRec list store" where
  "list_api_keys project_id =
     op_read (\<lambda>db. sort_by (desc ak_created_at)
       (case project_id of
          Some p \<Rightarrow> filter (\<lambda>k. ak_project_id k = Some p) (t_api_keys db)
        | None \<Rightarrow> t_api_keys db))"

section \<open>Every operation keeps the constraints\<close>

lemma preserves_row [preserves_intros]: "preserves I (op_row f)"
  by (auto simp: preserves_def op_row_def split: option.splits)

lemma preserves_update:
  "(\<And>db. I db \<Longrightarrow> I (f db)) \<Longrightarrow> preserves I (\<lambda>db. (r db, f db))"
  by (simp add: preserves_def)

lemma insert_project_ok [preserves_intros]: "preserves db_ok (insert_project_row pid now name d)"
  unfolding insert_project_row_def
  by (intro preserves_stmt db_ok_projects) (auto dest!: db_okD(1) simp: projects_ok_def)

lemma get_or_create_project_ok [preserves_intros]: "preserves db_ok (get_or_create_project fresh now name)"
  unfolding get_or_create_project_def by (intro preserves_intros) (auto split: option.split intro: preserves_intros)

lemma create_project_ok [preserves_intros]: "preserves db_ok (create_project fresh now name d)"
  unfolding create_project_def by (intro preserves_intros)

lemma users_ok_update:
  "users_ok us \<Longrightarrow> (\<And>u. us_id (f u) = us_id u) \<Longrightarrow> (\<And>u. us_identity (f u) = us_identity u) \<Longrightarrow>
   users_ok (update_where P f us)"
  by (simp add: users_ok_def map_update_where present_update_where)

lemma db_ok_users_update:
  "db_ok db \<Longrightarrow> (\<And>u. us_id (f u) = us_id u) \<Longrightarrow> (\<And>u. us_identity (f u) = us_identity u) \<Longrightarrow>
   db_ok (db\<lparr>t_users := update_where P f (t_users db)\<rparr>)"
  by (rule db_ok_users) (simp_all add: db_okD users_ok_update map_update_where)

lemma insert_user_ok [preserves_intros]: "preserves db_ok (insert_user_row u)"
  unfolding insert_user_row_def
  by (intro preserves_stmt db_ok_users) (auto dest!: db_okD(2) simp: users_ok_def split: option.splits)

lemma get_or_create_user_identity_ok [preserves_intros]:
  "preserves db_ok (get_or_create_user_identity fresh now provider subject email display)"
  unfolding get_or_create_user_identity_def
  by (intro preserves_intros)
     (auto split: option.split intro!: preserves_intros preserves_write db_ok_users_update simp: us_identity_def)

lemma set_user_disabled_ok [preserves_intros]: "preserves db_ok (set_user_disabled now uid d)"
  unfolding set_user_disabled_def Let_def
  by (intro preserves_update db_ok_users_update) (simp_all add: us_identity_def)

lemma sync_platform_admin_flag_ok [preserves_intros]: "preserves db_ok (sync_platform_admin_flag uid e)"
  unfolding sync_platform_admin_flag_def Let_def
  by (intro preserves_update db_ok_users_update) (simp_all add: us_identity_def)

lemma insert_membership_ok [preserves_intros]: "preserves db_ok (insert_membership_row m)"
  unfolding insert_membership_row_def
  by (intro preserves_stmt db_ok_leaf(2), assumption)
     (simp only: memberships_ok_def append_row first_violation_None refers_def db_okD(4) [unfolded memberships_ok_def] simp_thms)

lemma revoke_memberships_ok: "db_ok db \<Longrightarrow> db_ok (revoke_memberships now pid uid db)"
  unfolding revoke_memberships_def
proof (rule db_ok_leaf(2))
  assume "db_ok db"
  let ?f = "stamp_membership now"
  let ?P = "\<lambda>m. mb_project_id m = pid \<and> mb_user_id m = uid \<and> mb_revoked_at m = None"
  have "distinct (present mb_active_key (update_where ?P ?f (t_memberships db)))"
    using db_okD(4) [OF \<open>db_ok db\<close>]
    by (intro distinct_present_update) (simp_all add: memberships_ok_def mb_active_key_def stamp_membership_def)
  with db_okD(4) [OF \<open>db_ok db\<close>]
  show "memberships_ok (set (project_ids db)) (set (user_ids db)) (update_where ?P ?f (t_memberships db))"
    by (simp add: memberships_ok_def map_update_where present_update_where stamp_membership_def del: set_map)
qed

lemma grant_project_membership_ok [preserves_intros]:
  "preserves db_ok (grant_project_membership fresh now pid uid role g)"
  unfolding grant_project_membership_def
  by (intro preserves_intros preserves_write revoke_memberships_ok)

lemma insert_audit_event_ok [preserves_intros]: "preserves db_ok (insert_audit_event now a)"
  unfolding insert_audit_event_def
  by (intro preserves_stmt db_ok_leaf(4,11))
     (simp_all add: audit_ok_def append_row refers_def db_okD(7) [unfolded audit_ok_def] del: set_map present_simps)

lemma sessions_ok_update:
  assumes "sessions_ok U ss"
    and "\<And>s. se_id (f s) = se_id s" "\<And>s. se_token_hash (f s) = se_token_hash s" "\<And>s. se_user_id (f s) = se_user_id s"
  shows "sessions_ok U (update_where P f ss)"
  using assms(1) by (simp only: sessions_ok_def map_update_where assms(2-))

lemma db_ok_sessions_update:
  "db_ok db \<Longrightarrow> (\<And>s. se_id (f s) = se_id s) \<Longrightarrow> (\<And>s. se_token_hash (f s) = se_token_hash s) \<Longrightarrow>
   (\<And>s. se_user_id (f s) = se_user_id s) \<Longrightarrow> db_ok (db\<lparr>t_sessions := update_where P f (t_sessions db)\<rparr>)"
  by (intro db_ok_leaf(3) sessions_ok_update db_okD)

lemma insert_auth_session_ok [preserves_intros]:
  "preserves db_ok (insert_auth_session now sid uid th ch ex ua ip)"
  unfolding insert_auth_session_def
  by (intro preserves_stmt db_ok_leaf(3)) (simp_all add: sessions_ok_def append_row db_okD(6) [unfolded sessions_ok_def] del: set_map map_append)

lemma touch_auth_session_ok [preserves_intros]: "preserves db_ok (touch_auth_session later now sid ttl)"
  unfolding touch_auth_session_def by (intro preserves_write db_ok_sessions_update) simp_all

lemma revoke_sessions_where_ok [preserves_intros]: "preserves db_ok (revoke_sessions_where now sel)"
  unfolding revoke_sessions_where_def
  by (intro preserves_update db_ok_sessions_update) (simp_all add: stamp_session_def)

lemma revoke_auth_session_ok [preserves_intros]:
  "preserves db_ok (revoke_auth_session_by_token_hash now th)"
  "preserves db_ok (revoke_auth_session_by_id now sid)"
  "preserves db_ok (revoke_all_sessions_for_user now uid)"
  unfolding revoke_auth_session_by_token_hash_def revoke_auth_session_by_id_def
    revoke_all_sessions_for_user_def
  by (intro preserves_intros)+

lemma insert_api_key_row_ok [preserves_intros]: "preserves db_ok (insert_api_key_row k)"
  unfolding insert_api_key_row_def
proof (intro preserves_stmt db_ok_api_keys)
  fix db assume ok: "db_ok db" and "first_violation
          [(ak_id k \<notin> set (api_key_ids db), UniqueViolation),
           (ak_key_hash k \<notin> set (map ak_key_hash (t_api_keys db)), UniqueViolation),
           (case ak_fingerprint k of None \<Rightarrow> True
              | Some f \<Rightarrow> f \<notin> set (present ak_fingerprint (t_api_keys db)), UniqueViolation),
           (refers (ak_project_id k) (project_ids db), ForeignKeyViolation),
           (refers (ak_user_id k) (user_ids db), ForeignKeyViolation)] = None"
  then show "api_keys_ok (set (project_ids db)) (set (user_ids db)) (t_api_keys db @ [k])"
    by (simp add: api_keys_ok_def append_row refers_def db_okD(5) [unfolded api_keys_ok_def]
      del: set_map map_append present_simps)
qed auto

lemma insert_api_key_ok [preserves_intros]:
  "preserves db_ok (insert_api_key now kid kh fp pf pr us nm sc ex)"
  unfolding insert_api_key_def by (intro preserves_intros)

lemma db_ok_keys_update:
  assumes "db_ok db"
    and "\<And>k. ak_id (f k) = ak_id k" "\<And>k. ak_key_hash (f k) = ak_key_hash k"
    "\<And>k. ak_fingerprint (f k) = ak_fingerprint k" "\<And>k. ak_project_id (f k) = ak_project_id k"
    "\<And>k. ak_user_id (f k) = ak_user_id k"
  shows "db_ok (db\<lparr>t_api_keys := update_where P f (t_api_keys db)\<rparr>)"
proof (rule db_ok_api_keys [OF assms(1)])
  show "api_keys_ok (set (project_ids db)) (set (user_ids db)) (update_where P f (t_api_keys db))"
    using db_okD(5) [OF assms(1)]
    by (simp only: api_keys_ok_def map_update_where present_update_where assms(2-))
qed (simp only: map_update_where assms(2) order_refl)

lemma touch_api_key_ok [preserves_intros]: "preserves db_ok (touch_api_key_last_used now kh)"
  unfolding touch_api_key_last_used_def by (intro preserves_write db_ok_keys_update) simp_all

lemma revoke_keys_ok [preserves_intros]:
  "preserves db_ok (revoke_keys_where now sel)"
  "preserves db_ok (revoke_api_key_by_id now kid)" "preserves db_ok (revoke_api_key_by_hash now kh)"
  unfolding revoke_api_key_by_id_def revoke_api_key_by_hash_def revoke_keys_where_def
  by (intro preserves_update db_ok_keys_update; simp add: stamp_key_def)+

lemma bootstrap_keys_ok:
  assumes ok: "api_keys_ok P U ks" and old: "find (\<lambda>k. ak_fingerprint k = Some f) ks = Some old"
    and ids: "\<forall>k \<in> set ks. ak_id k = kid \<longrightarrow> ak_fingerprint k = Some f"
    and hashes: "\<forall>k \<in> set ks. ak_key_hash k = kh \<longrightarrow> ak_fingerprint k = Some f"
  shows "api_keys_ok P U (update_where (\<lambda>k. ak_fingerprint k = Some f) (bootstrap_update now kid kh pf ex) ks)"
proof -
  let ?g = "bootstrap_update now kid kh pf ex" and ?P = "\<lambda>k. ak_fingerprint k = Some f"
  have only: "x = y" if "x \<in> set ks" "y \<in> set ks" "?P x" "?P y" for x y
    using ok that unique_present [of ak_fingerprint ks x y f] by (simp add: api_keys_ok_def)
  have "distinct (map ak_id (update_where ?P ?g ks))"
    using ok ids only by (intro distinct_update_one [where v = kid]) (simp_all add: api_keys_ok_def bootstrap_update_def)
  moreover have "distinct (map ak_key_hash (update_where ?P ?g ks))"
    using ok hashes only by (intro distinct_update_one [where v = kh]) (simp_all add: api_keys_ok_def bootstrap_update_def)
  moreover have "present ak_fingerprint (update_where ?P ?g ks) = present ak_fingerprint ks"
    "present ak_user_id (update_where ?P ?g ks) = present ak_user_id ks"
    by (simp_all add: present_update_where bootstrap_update_def)
  moreover have "set (present ak_project_id (update_where ?P ?g ks)) \<subseteq> set (present ak_project_id ks)"
    by (rule present_update_subset) (simp add: bootstrap_update_def)
  ultimately show ?thesis using ok by (auto simp: api_keys_ok_def)
qed

lemma upsert_bootstrap_ok [preserves_intros]:
  "preserves db_ok (upsert_bootstrap_api_key now kid kh fp pf ex)"
  unfolding preserves_def
proof (intro allI impI)
  fix db assume ok: "db_ok db"
  show "db_ok (snd (upsert_bootstrap_api_key now kid kh fp pf ex db))"
  proof (cases "if fp = None then None else find (\<lambda>k. ak_fingerprint k = fp) (t_api_keys db)")
    case None
    then show ?thesis
      using insert_api_key_row_ok ok by (simp add: upsert_bootstrap_api_key_def preserves_def)
  next
    case (Some old)
    then obtain f where fp: "fp = Some f" and old: "find (\<lambda>k. ak_fingerprint k = Some f) (t_api_keys db) = Some old"
      by (auto split: if_splits)
    define ks where "ks = update_where (\<lambda>k. ak_fingerprint k = Some f)
      (bootstrap_update now kid kh pf ex) (t_api_keys db)"
    have member: "old \<in> set (t_api_keys db)" "ak_fingerprint old = Some f" using find_SomeD [OF old] by auto
    have new: "kid \<in> set (map ak_id ks)"
      using in_update_where(1) [OF member(1), of "\<lambda>k. ak_fingerprint k = Some f"] member(2)
      by (force simp: ks_def bootstrap_update_def)
    have keep: "x \<in> set (map ak_id ks)" if "x \<in> set (api_key_ids db)" "x \<noteq> ak_id old" for x
    proof -
      from that obtain k where k: "k \<in> set (t_api_keys db)" "x = ak_id k" by auto
      have "ak_fingerprint k \<noteq> Some f"
        using db_okD(5) [OF ok] member k that unique_present [of ak_fingerprint "t_api_keys db" k old f]
        by (auto simp: api_keys_ok_def)
      then have "k \<in> set ks" using k by (simp add: ks_def in_update_where)
      with k show ?thesis by simp
    qed
    have ids: "x \<in> set (map ak_id ks)"
      if "ak_id old = kid \<or> \<not> key_referenced (ak_id old) db"
        "x \<in> set (present rn_key_id (t_runs db)) \<union> set (present au_key_id (t_audit_events db))" for x
      using that new keep db_okD(7,8) [OF ok]
      by (cases "x = ak_id old") (auto simp: key_referenced_def audit_ok_def runs_ok_def)
    have "db_ok (db\<lparr>t_api_keys := ks\<rparr>)"
      if "\<forall>k \<in> set (t_api_keys db). ak_id k = kid \<longrightarrow> ak_fingerprint k = Some f"
        "\<forall>k \<in> set (t_api_keys db). ak_key_hash k = kh \<longrightarrow> ak_fingerprint k = Some f"
        "ak_id old = kid \<or> \<not> key_referenced (ak_id old) db"
      unfolding ks_def
      using ids [OF that(3)] bootstrap_keys_ok [OF db_okD(5) [OF ok] old that(1,2)] ok
      by (intro db_ok_api_keys_change) (auto simp: ks_def)
    then show ?thesis
      using ok by (auto simp: upsert_bootstrap_api_key_def fp old op_stmt_apply ks_def split: option.splits)
  qed
qed

section \<open>Revocation of keys, sessions and memberships\<close>

interpretation key_by_id: revocable "\<lambda>kid k. ak_id k = kid" ak_revoked_at stamp_key
  by unfold_locales (simp_all add: stamp_key_def)

interpretation key_by_hash: revocable "\<lambda>kh k. ak_key_hash k = kh" ak_revoked_at stamp_key
  by unfold_locales (simp_all add: stamp_key_def)

interpretation session_by_token: revocable "\<lambda>th s. se_token_hash s = th" se_revoked_at stamp_session
  by unfold_locales (simp_all add: stamp_session_def)

interpretation session_by_id: revocable "\<lambda>sid s. se_id s = sid" se_revoked_at stamp_session
  by unfold_locales (simp_all add: stamp_session_def)

interpretation session_by_user: revocable "\<lambda>uid s. se_user_id s = uid" se_revoked_at stamp_session
  by unfold_locales (simp_all add: stamp_session_def)

interpretation membership_of: revocable
  "\<lambda>(pid, uid) m. mb_project_id m = pid \<and> mb_user_id m = uid" mb_revoked_at stamp_membership
  by unfold_locales (auto simp: stamp_membership_def)

lemma revoke_memberships_table:
  "t_memberships (revoke_memberships now pid uid db) = membership_of.revoke now (pid, uid) (t_memberships db)"
  by (simp add: revoke_memberships_def membership_of.revoke_def membership_of.live_def [abs_def] conj_assoc)

lemma revoke_api_key_by_id_table:
  "revoke_api_key_by_id now kid db =
     (Ok (0 < count_where (key_by_id.live kid) (t_api_keys db)),
      db\<lparr>t_api_keys := key_by_id.revoke now kid (t_api_keys db)\<rparr>)"
  unfolding revoke_api_key_by_id_def revoke_keys_where_def key_by_id.revoke_def key_by_id.live_def [abs_def] ..

lemma revoke_api_key_by_hash_table:
  "revoke_api_key_by_hash now kh db =
     (Ok (0 < count_where (key_by_hash.live kh) (t_api_keys db)),
      db\<lparr>t_api_keys := key_by_hash.revoke now kh (t_api_keys db)\<rparr>)"
  unfolding revoke_api_key_by_hash_def revoke_keys_where_def key_by_hash.revoke_def key_by_hash.live_def [abs_def] ..

lemma revoke_all_sessions_table:
  "revoke_all_sessions_for_user now uid db =
     (Ok (count_where (session_by_user.live uid) (t_sessions db)),
      db\<lparr>t_sessions := session_by_user.revoke now uid (t_sessions db)\<rparr>)"
  unfolding revoke_all_sessions_for_user_def revoke_sessions_where_def session_by_user.revoke_def
    session_by_user.live_def [abs_def] ..

lemma active_session_unrevoked:
  "get_active_auth_session_by_token_hash t th db = (Ok (Some s), db') \<Longrightarrow>
   s \<in> set (t_sessions db) \<and> se_token_hash s = th \<and> se_revoked_at s = None \<and> t < se_expires_at s"
  by (auto simp: get_active_auth_session_by_token_hash_def dest!: find_SomeD)

text \<open>
  revoking the sessions of a user. The count reported is the number of the user's live
  sessions; afterwards no token, at no time, resolves to a session of that user; the sessions
  of the other users are all still there; and revoking again changes nothing.
\<close>

lemma revoke_all_sessions_spec:
  assumes "revoke_all_sessions_for_user now uid db = (r, db')"
  shows "r = Ok (count_where (\<lambda>s. se_user_id s = uid \<and> se_revoked_at s = None) (t_sessions db))
    \<and> (\<forall>t th s. fst (get_active_auth_session_by_token_hash t th db') = Ok (Some s) \<longrightarrow> se_user_id s \<noteq> uid)
    \<and> filter (\<lambda>s. se_user_id s \<noteq> uid) (t_sessions db') = filter (\<lambda>s. se_user_id s \<noteq> uid) (t_sessions db)
    \<and> snd (revoke_all_sessions_for_user later uid db') = db'"
proof (intro conjI allI impI)
  have db': "db' = db\<lparr>t_sessions := session_by_user.revoke now uid (t_sessions db)\<rparr>"
    and r: "r = Ok (count_where (session_by_user.live uid) (t_sessions db))"
    using assms by (simp_all add: revoke_all_sessions_table)
  show "r = Ok (count_where (\<lambda>s. se_user_id s = uid \<and> se_revoked_at s = None) (t_sessions db))"
    using r by (simp add: session_by_user.live_def [abs_def])
  show "se_user_id s \<noteq> uid" if "fst (get_active_auth_session_by_token_hash t th db') = Ok (Some s)" for t th s
  proof -
    have "s \<in> set (session_by_user.revoke now uid (t_sessions db))" "se_revoked_at s = None"
      using that active_session_unrevoked [of t th db' s] db'
      by (simp_all add: prod_eq_iff get_active_auth_session_by_token_hash_def)
    then show ?thesis using session_by_user.revoke_kills by blast
  qed
  show "filter (\<lambda>s. se_user_id s \<noteq> uid) (t_sessions db') = filter (\<lambda>s. se_user_id s \<noteq> uid) (t_sessions db)"
    unfolding db' by (simp add: session_by_user.revoke_others)
  show "snd (revoke_all_sessions_for_user later uid db') = db'"
    unfolding db' by (simp add: revoke_all_sessions_table session_by_user.revoke_again)
qed

text \<open>A small database, built by the operations, for the concrete instances below.\<close>

definition sample_accounts :: "unit store" where
  "sample_accounts =
     op_bind (get_or_create_user_identity ''u1'' ''2026-01-01 00:00:00'' ''jwt'' ''sub-1'' (Some ''a@b.c'') None) (\<lambda>uid.
     op_bind (get_or_create_project ''p1'' ''2026-01-01 00:00:00'' ''demo'') (\<lambda>pid.
     op_bind (grant_project_membership ''m1'' ''2026-01-01 00:00:00'' pid uid ''owner'' (Some uid)) (\<lambda>_.
     op_bind (insert_api_key ''2026-01-01 00:00:00'' ''k1'' ''hash1'' (Some ''fp1'') ''mlrunx_a'' (Some pid)
                (Some uid) None ''[]'' None) (\<lambda>_.
       insert_auth_session ''2026-01-01 00:00:00'' ''s1'' uid ''th1'' ''ch1'' ''2026-02-01 00:00:00'' None None))))"

definition sample_db :: Db where
  "sample_db = snd (sample_accounts init_schema)"

lemma revoke_all_sessions_spec_witness:
  "fst (revoke_all_sessions_for_user ''2026-01-02 00:00:00'' ''u1'' sample_db) = Ok 1
   \<and> fst (get_active_auth_session_by_token_hash ''2026-01-01 12:00:00'' ''th1'' sample_db) \<noteq> Ok None
   \<and> fst (get_active_auth_session_by_token_hash ''2026-01-01 12:00:00'' ''th1''
        (snd (revoke_all_sessions_for_user ''2026-01-02 00:00:00'' ''u1'' sample_db))) = Ok None"
proof (intro conjI)
  let ?r = "revoke_all_sessions_for_user ''2026-01-02 00:00:00'' ''u1'' sample_db"
  have spec: "\<forall>t th s. fst (get_active_auth_session_by_token_hash t th (snd ?r)) = Ok (Some s) \<longrightarrow> se_user_id s \<noteq> ''u1''"
    using revoke_all_sessions_spec [of _ _ _ "fst ?r" "snd ?r"] by simp
  show "fst ?r = Ok 1" by code_simp
  show "fst (get_active_auth_session_by_token_hash ''2026-01-01 12:00:00'' ''th1'' sample_db) \<noteq> Ok None"
    by code_simp
  have users: "list_all (\<lambda>s. se_user_id s = ''u1'') (t_sessions (snd ?r))" by code_simp
  show "fst (get_active_auth_session_by_token_hash ''2026-01-01 12:00:00'' ''th1'' (snd ?r)) = Ok None"
  proof (rule ccontr)
    assume "\<not> ?thesis"
    then obtain s where s: "fst (get_active_auth_session_by_token_hash ''2026-01-01 12:00:00'' ''th1'' (snd ?r)) = Ok (Some s)"
      by (auto simp: get_active_auth_session_by_token_hash_def)
    then have "s \<in> set (t_sessions (snd ?r))"
      by (auto simp: get_active_auth_session_by_token_hash_def dest!: find_SomeD)
    with users spec s show False by (auto simp: list_all_iff)
  qed
qed

text \<open>
  granting a membership. A grant that succeeds leaves exactly one active membership of the
  user in the project, with the granted role, and leaves the memberships of every other pair
  alone; a grant that fails on a constraint (an unknown role, project or user) has already
  revoked the membership the user had.
\<close>

lemma grant_project_membership_spec:
  assumes "grant_project_membership fresh now pid uid role granted_by db = (r, db')"
  shows "filter (\<lambda>m. mb_project_id m = pid \<and> mb_user_id m = uid \<and> mb_revoked_at m = None) (t_memberships db') =
      (case r of
         Ok _ \<Rightarrow> [\<lparr>mb_id = fresh, mb_project_id = pid, mb_user_id = uid, mb_role = role,
                   mb_granted_by = granted_by, mb_created_at = now, mb_updated_at = now, mb_revoked_at = None\<rparr>]
       | Err _ \<Rightarrow> [])
    \<and> filter (\<lambda>m. \<not> (mb_project_id m = pid \<and> mb_user_id m = uid)) (t_memberships db') =
      filter (\<lambda>m. \<not> (mb_project_id m = pid \<and> mb_user_id m = uid)) (t_memberships db)
    \<and> (role \<notin> {''owner'', ''editor'', ''viewer''} \<longrightarrow> r = Err (Database CheckViolation))"
proof -
  let ?ms = "t_memberships (revoke_memberships now pid uid db)"
  have gone: "filter (\<lambda>m. mb_project_id m = pid \<and> mb_user_id m = uid \<and> mb_revoked_at m = None) ?ms = []"
    using membership_of.revoke_no_live [of "(pid, uid)" now "t_memberships db"]
    by (simp add: revoke_memberships_table count_where_def membership_of.live_def [abs_def] conj_assoc)
  have frame: "filter (\<lambda>m. \<not> (mb_project_id m = pid \<and> mb_user_id m = uid)) ?ms =
    filter (\<lambda>m. \<not> (mb_project_id m = pid \<and> mb_user_id m = uid)) (t_memberships db)"
    using membership_of.revoke_others [of "(pid, uid)" now "t_memberships db"]
    by (simp add: revoke_memberships_table)
  show ?thesis
    using assms gone frame
    by (auto simp: grant_project_membership_def op_bind_apply insert_membership_row_def op_stmt_apply
      first_violation.simps split: option.splits)
qed

lemma grant_project_membership_spec_witness:
  "fst (grant_project_membership ''m2'' ''2026-01-03 00:00:00'' ''p1'' ''u1'' ''manager'' None sample_db) =
     Err (Database CheckViolation)
   \<and> filter (\<lambda>m. mb_project_id m = ''p1'' \<and> mb_user_id m = ''u1'' \<and> mb_revoked_at m = None)
       (t_memberships (snd (grant_project_membership ''m2'' ''2026-01-03 00:00:00'' ''p1'' ''u1'' ''manager'' None sample_db))) = []
   \<and> length (filter (\<lambda>m. mb_project_id m = ''p1'' \<and> mb_user_id m = ''u1'' \<and> mb_revoked_at m = None)
       (t_memberships sample_db)) = 1"
proof -
  let ?g = "grant_project_membership ''m2'' ''2026-01-03 00:00:00'' ''p1'' ''u1'' ''manager'' None sample_db"
  have "fst ?g = Err (Database CheckViolation)" by code_simp
  moreover have "length (filter (\<lambda>m. mb_project_id m = ''p1'' \<and> mb_user_id m = ''u1'' \<and> mb_revoked_at m = None)
       (t_memberships sample_db)) = 1" by code_simp
  ultimately show ?thesis
    using grant_project_membership_spec [of "''m2''" "''2026-01-03 00:00:00''" "''p1''" "''u1''" "''manager''"
      None sample_db "fst ?g" "snd ?g"] by simp
qed

end
