(* ===== verification/Sqlite_Runs.thy ===== *)
theory Sqlite_Runs
  imports Sqlite_Accounts
begin

text \<open>
  The operations of SqliteStore (apps/api/src/storage/sqlite.rs) on runs and on what hangs off
  a run: tags, metrics, events, parameters, batches and share tokens; the metric aliases of a
  project; and the deletion of runs and projects. The listing of runs with filters is in
  theory Run_Sql.
\<close>

section \<open>Runs\<close>

definition insert_run_row :: "RunRec \<Rightarrow> unit store" where
  "insert_run_row r =
     op_stmt
       (\<lambda>db. first_violation
          [(rn_id r \<notin> set (run_ids db), UniqueViolation),
           (rn_project_id r \<in> set (project_ids db), ForeignKeyViolation),
           (refers (rn_key_id r) (api_key_ids db), ForeignKeyViolation),
           (refers (rn_user_id r) (user_ids db), ForeignKeyViolation)])
       (\<lambda>db. db\<lparr>t_runs := t_runs db @ [r]\<rparr>)"

definition create_run ::
  "timestamp \<Rightarrow> string \<Rightarrow> string \<Rightarrow> string option \<Rightarrow> string option \<Rightarrow> string option \<Rightarrow> unit store" where
  "create_run now run_id project_id name key_id user_id =
     insert_run_row
       \<lparr>rn_id = run_id, rn_project_id = project_id, rn_name = name, rn_status = ''running'',
        rn_key_id = key_id, rn_user_id = user_id, rn_created_at = now, rn_updated_at = now,
        rn_finished_at = None, rn_metrics_count = 0, rn_params_count = 0\<rparr>"

definition run_not_found :: "string \<Rightarrow> SqliteError" where
  "run_not_found run_id = NotFound (''Run not found: '' @ run_id)"

definition find_run :: "string \<Rightarrow> Db \<Rightarrow> RunRec option" where
  "find_run run_id db = find (\<lambda>r. rn_id r = run_id) (t_runs db)"

definition get_run_project_id :: "string \<Rightarrow> string store" where
  "get_run_project_id run_id = (\<lambda>db.
     case find_run run_id db of
       Some r \<Rightarrow> (Ok (rn_project_id r), db)
     | None \<Rightarrow> (Err (run_not_found run_id), db))"

definition run_exists :: "string \<Rightarrow> bool store" where
  "run_exists run_id = op_read (\<lambda>db. 0 < count_where (\<lambda>r. rn_id r = run_id) (t_runs db))"

text \<open>
  A run as it is reported, with the duration SQLite's julianday arithmetic computes from its
  creation to its end, or to its last update while it runs (NULL where a time does not parse):
  \<open>duration\<close> stands for that arithmetic.
\<close>

record 'd RunRow =
  rr_run :: RunRec
  rr_duration :: "'d option"

definition run_row :: "(timestamp \<Rightarrow> timestamp \<Rightarrow> 'd option) \<Rightarrow> RunRec \<Rightarrow> 'd RunRow" where
  "run_row duration r =
     \<lparr>rr_run = r,
      rr_duration = duration (case rn_finished_at r of Some t \<Rightarrow> t | None \<Rightarrow> rn_updated_at r) (rn_created_at r)\<rparr>"

definition get_run :: "(timestamp \<Rightarrow> timestamp \<Rightarrow> 'd option) \<Rightarrow> string \<Rightarrow> 'd RunRow store" where
  "get_run duration run_id = (\<lambda>db.
     case find_run run_id db of
       Some r \<Rightarrow> (Ok (run_row duration r), db)
     | None \<Rightarrow> (Err (run_not_found run_id), db))"

definition update_run :: "string \<Rightarrow> (RunRec \<Rightarrow> RunRec) \<Rightarrow> unit store" where
  "update_run run_id f =
     op_write (\<lambda>db. db\<lparr>t_runs := update_where (\<lambda>r. rn_id r = run_id) f (t_runs db)\<rparr>)"

definition finish_run :: "timestamp \<Rightarrow> string \<Rightarrow> string \<Rightarrow> unit store" where
  "finish_run now run_id status =
     update_run run_id
       (\<lambda>r. r\<lparr>rn_status := status, rn_finished_at := Some now, rn_updated_at := now\<rparr>)"

definition increment_metrics_count :: "timestamp \<Rightarrow> string \<Rightarrow> int \<Rightarrow> unit store" where
  "increment_metrics_count now run_id n =
     update_run run_id (\<lambda>r. r\<lparr>rn_metrics_count := rn_metrics_count r + n, rn_updated_at := now\<rparr>)"

section \<open>Tags, metrics, parameters, events, batches\<close>

definition get_tags :: "string \<Rightarrow> (string \<times> string) list store" where
  "get_tags run_id =
     op_read (\<lambda>db. map (\<lambda>t. (tg_key t, tg_value t)) (filter (\<lambda>t. tg_run_id t = run_id) (t_tags db)))"

definition tag_pk :: "TagRec \<Rightarrow> string \<times> string" where
  "tag_pk t = (tg_run_id t, tg_key t)"

definition upsert_tag :: "TagRec \<Rightarrow> TagRec list \<Rightarrow> TagRec list" where
  "upsert_tag = insert_or_replace tag_pk"

definition set_tags :: "string \<Rightarrow> (string \<times> string) list \<Rightarrow> unit store" where
  "set_tags run_id tags =
     op_for (\<lambda>(key, value).
       op_stmt (\<lambda>db. first_violation [(run_id \<in> set (run_ids db), ForeignKeyViolation)])
         (\<lambda>db. db\<lparr>t_tags := upsert_tag \<lparr>tg_run_id = run_id, tg_key = key, tg_value = value\<rparr> (t_tags db)\<rparr>)) tags"

record MetricRow =
  mr_name :: string
  mr_step :: int
  mr_value :: f64
  mr_timestamp :: "f64 option"

text \<open>SQLite binds a NaN as NULL.\<close>

definition bind_real :: "f64 \<Rightarrow> f64 option" where
  "bind_real w = (if is_nan w then None else Some w)"

definition insert_metric_row :: "string \<Rightarrow> MetricRow \<Rightarrow> unit store" where
  "insert_metric_row run_id m =
     op_stmt
       (\<lambda>db. first_violation
          [(bind_real (mr_value m) \<noteq> None, NotNullViolation),
           (run_id \<in> set (run_ids db), ForeignKeyViolation)])
       (\<lambda>db. db\<lparr>t_metrics := t_metrics db @
          [\<lparr>mt_run_id = run_id, mt_name = mr_name m, mt_step = mr_step m, mt_value = mr_value m,
            mt_timestamp = Option.bind (mr_timestamp m) bind_real\<rparr>]\<rparr>)"

definition insert_metrics :: "string \<Rightarrow> MetricRow list \<Rightarrow> nat store" where
  "insert_metrics run_id metrics =
     op_bind (op_for (insert_metric_row run_id) metrics) (\<lambda>_. op_return (length metrics))"

definition get_metric_names :: "string \<Rightarrow> string list store" where
  "get_metric_names run_id =
     op_read (\<lambda>db. sort (remdups (map mt_name (filter (\<lambda>m. mt_run_id m = run_id) (t_metrics db)))))"

definition param_pk :: "ParamRec \<Rightarrow> string \<times> string" where
  "param_pk p = (pm_run_id p, pm_name p)"

definition upsert_param :: "ParamRec \<Rightarrow> ParamRec list \<Rightarrow> ParamRec list" where
  "upsert_param = insert_or_replace param_pk"

definition insert_params :: "timestamp \<Rightarrow> string \<Rightarrow> (string \<times> string) list \<Rightarrow> nat store" where
  "insert_params now run_id params =
     op_bind
       (op_for (\<lambda>(name, value).
          op_stmt (\<lambda>db. first_violation [(run_id \<in> set (run_ids db), ForeignKeyViolation)])
            (\<lambda>db. db\<lparr>t_params :=
               upsert_param \<lparr>pm_run_id = run_id, pm_name = name, pm_value = value\<rparr> (t_params db)\<rparr>)) params) (\<lambda>_.
     op_bind
       (op_write (\<lambda>db. db\<lparr>t_runs := update_where (\<lambda>r. rn_id r = run_id)
          (\<lambda>r. r\<lparr>rn_params_count := int (count_where (\<lambda>p. pm_run_id p = run_id) (t_params db)),
                rn_updated_at := now\<rparr>) (t_runs db)\<rparr>)) (\<lambda>_.
       op_return (length params)))"

record RunEventInput =
  ei_level :: string
  ei_source :: string
  ei_message :: string
  ei_step :: "int option"
  ei_timestamp :: "f64 option"

definition insert_event_row :: "timestamp \<Rightarrow> string \<Rightarrow> RunEventInput \<Rightarrow> unit store" where
  "insert_event_row now run_id e =
     op_stmt (\<lambda>db. first_violation [(run_id \<in> set (run_ids db), ForeignKeyViolation)])
       (\<lambda>db. db\<lparr>t_run_events := t_run_events db @
          [\<lparr>ev_id = event_seq db + 1, ev_run_id = run_id, ev_level = ei_level e,
            ev_source = ei_source e, ev_message = ei_message e, ev_step = ei_step e,
            ev_timestamp = Option.bind (ei_timestamp e) bind_real, ev_created_at = now\<rparr>],
          event_seq := event_seq db + 1\<rparr>)"

definition insert_run_events :: "timestamp \<Rightarrow> string \<Rightarrow> RunEventInput list \<Rightarrow> nat store" where
  "insert_run_events now run_id events =
     op_bind (op_for (insert_event_row now run_id) events) (\<lambda>_.
     op_bind (if events \<noteq> [] then update_run run_id (\<lambda>r. r\<lparr>rn_updated_at := now\<rparr>) else op_return ()) (\<lambda>_.
       op_return (length events)))"

definition list_run_events :: "string \<Rightarrow> int option \<Rightarrow> nat \<Rightarrow> RunEventRow list store" where
  "list_run_events run_id after_id limit =
     op_read (\<lambda>db.
       take (min (max limit 1) 1000)
         (sort_by (asc ev_id)
            (filter (\<lambda>e. ev_run_id e = run_id \<and> (case after_id of Some n \<Rightarrow> n < ev_id e | None \<Rightarrow> True))
               (t_run_events db))))"

definition batch_exists :: "string \<Rightarrow> bool store" where
  "batch_exists batch_id = op_read (\<lambda>db. 0 < count_where (\<lambda>b. ba_id b = batch_id) (t_batches db))"

definition record_batch :: "timestamp \<Rightarrow> string \<Rightarrow> string \<Rightarrow> int \<Rightarrow> string \<Rightarrow> unit store" where
  "record_batch now batch_id run_id seq payload_hash =
     op_stmt
       (\<lambda>db. first_violation
          [(batch_id \<notin> set (map ba_id (t_batches db)), UniqueViolation),
           (run_id \<in> set (run_ids db), ForeignKeyViolation)])
       (\<lambda>db. db\<lparr>t_batches := t_batches db @
          [\<lparr>ba_id = batch_id, ba_run_id = run_id, ba_seq = seq, ba_payload_hash = payload_hash,
            ba_created_at = now\<rparr>]\<rparr>)"

section \<open>Metric aliases\<close>

definition list_metric_aliases :: "string \<Rightarrow> MetricAliasRow list store" where
  "list_metric_aliases project_id =
     op_read (\<lambda>db. sort_by (asc al_metric_name) (filter (\<lambda>a. al_project_id a = project_id) (t_aliases db)))"

definition get_metric_alias_map :: "string \<Rightarrow> (string \<rightharpoonup> string) store" where
  "get_metric_alias_map project_id =
     op_bind (list_metric_aliases project_id) (\<lambda>as.
       op_return (map_of (rev (map (\<lambda>a. (al_metric_name a, al_display_name a)) (filter al_is_active as)))))"

definition alias_pk :: "MetricAliasRow \<Rightarrow> string \<times> string" where
  "alias_pk a = (al_project_id a, al_metric_name a)"

text \<open>\<open>ON CONFLICT(project_id, metric_name) DO UPDATE\<close> keeps the creation time of the row.\<close>

definition merge_alias :: "MetricAliasRow option \<Rightarrow> MetricAliasRow \<Rightarrow> MetricAliasRow" where
  "merge_alias old new = (case old of None \<Rightarrow> new | Some a \<Rightarrow> new\<lparr>al_created_at := al_created_at a\<rparr>)"

definition upsert_alias_row :: "MetricAliasRow \<Rightarrow> MetricAliasRow list \<Rightarrow> MetricAliasRow list" where
  "upsert_alias_row new as =
     (if alias_pk new \<in> set (map alias_pk as)
      then update_where (\<lambda>a. alias_pk a = alias_pk new) (\<lambda>a. merge_alias (Some a) new) as
      else as @ [new])"

definition upsert_metric_alias ::
  "timestamp \<Rightarrow> string \<Rightarrow> string \<Rightarrow> string \<Rightarrow> string option \<Rightarrow> string option \<Rightarrow> bool \<Rightarrow> MetricAliasRow store" where
  "upsert_metric_alias now project_id metric_name display_name unit description is_active =
     (let new = \<lparr>al_project_id = project_id, al_metric_name = metric_name, al_display_name = display_name,
                 al_unit = unit, al_description = description, al_is_active = is_active,
                 al_created_at = now, al_updated_at = now\<rparr> in
      op_bind
        (op_stmt
           (\<lambda>db. first_violation
              [(case al_active_key new of None \<Rightarrow> True
                  | Some k \<Rightarrow> \<forall>a \<in> set (t_aliases db). al_active_key a = Some k \<longrightarrow> alias_pk a = alias_pk new,
                  UniqueViolation),
               (project_id \<in> set (project_ids db), ForeignKeyViolation)])
           (\<lambda>db. db\<lparr>t_aliases := upsert_alias_row new (t_aliases db)\<rparr>)) (\<lambda>_.
        op_row (\<lambda>db. find (\<lambda>a. alias_pk a = (project_id, metric_name)) (t_aliases db))))"

definition delete_metric_alias :: "string \<Rightarrow> string \<Rightarrow> bool store" where
  "delete_metric_alias project_id metric_name = (\<lambda>db.
     let sel = (\<lambda>a. al_project_id a = project_id \<and> al_metric_name a = metric_name) in
     (Ok (0 < count_where sel (t_aliases db)), db\<lparr>t_aliases := delete_where sel (t_aliases db)\<rparr>))"

section \<open>Share tokens\<close>

definition create_share_token ::
  "timestamp \<Rightarrow> string \<Rightarrow> string \<Rightarrow> string option \<Rightarrow> timestamp option \<Rightarrow> unit store" where
  "create_share_token now token_hash run_id key_prefix expires_at =
     op_stmt
       (\<lambda>db. first_violation
          [(token_hash \<notin> set (map sh_token (t_share_tokens db)), UniqueViolation),
           (run_id \<in> set (run_ids db), ForeignKeyViolation)])
       (\<lambda>db. db\<lparr>t_share_tokens := t_share_tokens db @
          [\<lparr>sh_token = token_hash, sh_run_id = run_id, sh_key_prefix = key_prefix, sh_created_at = now,
            sh_expires_at = expires_at, sh_revoked_at = None\<rparr>]\<rparr>)"

definition share_selected :: "string \<times> string option \<Rightarrow> ShareTokenRow \<Rightarrow> bool" where
  "share_selected = (\<lambda>(token_hash, legacy) s. sh_token s = token_hash \<or> legacy = Some (sh_token s))"

definition validate_share_token ::
  "timestamp \<Rightarrow> string \<Rightarrow> string option \<Rightarrow> ShareTokenRow store" where
  "validate_share_token now token_hash legacy_raw_token = (\<lambda>db.
     case find (share_selected (token_hash, legacy_raw_token)) (t_share_tokens db) of
       None \<Rightarrow> (Err (NotFound ''Invalid or expired share link.''), db)
     | Some row \<Rightarrow>
         if sh_revoked_at row \<noteq> None then (Err (NotFound ''This share link has been revoked.''), db)
         else
           (case sh_expires_at row of
              Some expires \<Rightarrow>
                if expires < now then (Err (NotFound ''This share link has expired.''), db)
                else (Ok row, db)
            | None \<Rightarrow> (Ok row, db)))"

definition list_share_tokens :: "string \<Rightarrow> ShareTokenRow list store" where
  "list_share_tokens run_id =
     op_read (\<lambda>db. sort_by (desc sh_created_at) (filter (\<lambda>s. sh_run_id s = run_id) (t_share_tokens db)))"

definition stamp_share :: "timestamp \<Rightarrow> ShareTokenRow \<Rightarrow> ShareTokenRow" where
  "stamp_share now s = s\<lparr>sh_revoked_at := Some now\<rparr>"

definition revoke_share_token :: "timestamp \<Rightarrow> string \<Rightarrow> string option \<Rightarrow> unit store" where
  "revoke_share_token now token_hash legacy_raw_token = (\<lambda>db.
     let sel = (\<lambda>s. share_selected (token_hash, legacy_raw_token) s \<and> sh_revoked_at s = None) in
     (if count_where sel (t_share_tokens db) = 0
      then Err (NotFound ''Share token not found or already revoked.'') else Ok (),
      db\<lparr>t_share_tokens := update_where sel (stamp_share now) (t_share_tokens db)\<rparr>))"

section \<open>Deletion\<close>

text \<open>A row that others refer to cannot be deleted.\<close>

definition run_referenced :: "string \<Rightarrow> Db \<Rightarrow> bool" where
  "run_referenced run_id db \<longleftrightarrow>
     run_id \<in> set (map tg_run_id (t_tags db)) \<or> run_id \<in> set (map mt_run_id (t_metrics db))
   \<or> run_id \<in> set (map ev_run_id (t_run_events db)) \<or> run_id \<in> set (map pm_run_id (t_params db))
   \<or> run_id \<in> set (map ba_run_id (t_batches db)) \<or> run_id \<in> set (map sh_run_id (t_share_tokens db))
   \<or> run_id \<in> set (present au_run_id (t_audit_events db))"

definition project_referenced :: "string \<Rightarrow> Db \<Rightarrow> bool" where
  "project_referenced pid db \<longleftrightarrow>
     pid \<in> set (map rn_project_id (t_runs db)) \<or> pid \<in> set (map al_project_id (t_aliases db))
   \<or> pid \<in> set (map mb_project_id (t_memberships db)) \<or> pid \<in> set (present ak_project_id (t_api_keys db))
   \<or> pid \<in> set (present au_project_id (t_audit_events db))"

text \<open>The statements that clear everything that hangs off a run, then the run.\<close>

definition clear_run :: "string \<Rightarrow> Db \<Rightarrow> Db" where
  "clear_run run_id db =
     db\<lparr>t_audit_events := update_where (\<lambda>e. au_run_id e = Some run_id) (\<lambda>e. e\<lparr>au_run_id := None\<rparr>)
          (t_audit_events db),
        t_share_tokens := delete_where (\<lambda>s. sh_run_id s = run_id) (t_share_tokens db),
        t_metrics := delete_where (\<lambda>m. mt_run_id m = run_id) (t_metrics db),
        t_run_events := delete_where (\<lambda>e. ev_run_id e = run_id) (t_run_events db),
        t_tags := delete_where (\<lambda>t. tg_run_id t = run_id) (t_tags db),
        t_params := delete_where (\<lambda>p. pm_run_id p = run_id) (t_params db),
        t_batches := delete_where (\<lambda>b. ba_run_id b = run_id) (t_batches db)\<rparr>"

definition delete_run_row :: "string \<Rightarrow> unit store" where
  "delete_run_row run_id =
     op_stmt (\<lambda>db. first_violation [(run_id \<in> set (run_ids db) \<longrightarrow> \<not> run_referenced run_id db, ForeignKeyViolation)])
       (\<lambda>db. db\<lparr>t_runs := delete_where (\<lambda>r. rn_id r = run_id) (t_runs db)\<rparr>)"

definition delete_run :: "string \<Rightarrow> unit store" where
  "delete_run run_id =
     op_bind (op_write (clear_run run_id)) (\<lambda>_.
     op_bind (run_exists run_id) (\<lambda>found.
     op_bind (delete_run_row run_id) (\<lambda>_.
       if found then op_return () else op_fail (run_not_found run_id))))"

definition clear_and_delete_run :: "string \<Rightarrow> unit store" where
  "clear_and_delete_run run_id = op_bind (op_write (clear_run run_id)) (\<lambda>_. delete_run_row run_id)"

text \<open>The statements of \<open>delete_project\<close> after its runs are gone.\<close>

definition clear_project_audit :: "string \<Rightarrow> Db \<Rightarrow> Db" where
  "clear_project_audit pid db =
     (let keys = map ak_id (filter (\<lambda>k. ak_project_id k = Some pid) (t_api_keys db)) in
      db\<lparr>t_audit_events :=
           update_where (\<lambda>e. au_project_id e = Some pid) (\<lambda>e. e\<lparr>au_project_id := None\<rparr>)
             (update_where (\<lambda>e. case au_key_id e of Some k \<Rightarrow> k \<in> set keys | None \<Rightarrow> False)
                (\<lambda>e. e\<lparr>au_key_id := None\<rparr>) (t_audit_events db))\<rparr>)"

definition delete_project_keys :: "string \<Rightarrow> unit store" where
  "delete_project_keys pid =
     op_stmt
       (\<lambda>db. first_violation
          [(\<forall>k \<in> set (t_api_keys db). ak_project_id k = Some pid \<longrightarrow> \<not> key_referenced (ak_id k) db,
             ForeignKeyViolation)])
       (\<lambda>db. db\<lparr>t_api_keys := delete_where (\<lambda>k. ak_project_id k = Some pid) (t_api_keys db)\<rparr>)"

definition delete_project_row :: "string \<Rightarrow> unit store" where
  "delete_project_row pid =
     op_stmt (\<lambda>db. first_violation [(\<not> project_referenced pid db, ForeignKeyViolation)])
       (\<lambda>db. db\<lparr>t_projects := delete_where (\<lambda>p. pj_id p = pid) (t_projects db)\<rparr>)"

definition delete_project :: "string \<Rightarrow> unit store" where
  "delete_project pid =
     op_atomic
       (op_bind (op_read (\<lambda>db. find (\<lambda>p. pj_id p = pid) (t_projects db))) (\<lambda>found.
        if found = None then op_fail (NotFound (''Project not found: '' @ sq pid))
        else
          op_bind (op_read (\<lambda>db. map rn_id (filter (\<lambda>r. rn_project_id r = pid) (t_runs db)))) (\<lambda>rids.
          op_bind (op_for clear_and_delete_run rids) (\<lambda>_.
          op_bind (op_write (clear_project_audit pid)) (\<lambda>_.
          op_bind (delete_project_keys pid) (\<lambda>_.
          op_bind
            (op_write (\<lambda>db.
               db\<lparr>t_memberships := delete_where (\<lambda>m. mb_project_id m = pid) (t_memberships db),
                  t_aliases := delete_where (\<lambda>a. al_project_id a = pid) (t_aliases db)\<rparr>)) (\<lambda>_.
            delete_project_row pid)))))))"

section \<open>Every operation keeps the constraints\<close>

lemma db_ok_runs_update:
  assumes "db_ok db"
    and "\<And>r. rn_id (f r) = rn_id r" "\<And>r. rn_project_id (f r) = rn_project_id r"
    "\<And>r. rn_key_id (f r) = rn_key_id r" "\<And>r. rn_user_id (f r) = rn_user_id r"
  shows "db_ok (db\<lparr>t_runs := update_where P f (t_runs db)\<rparr>)"
proof (rule db_ok_runs [OF assms(1)])
  show "runs_ok (set (project_ids db)) (set (api_key_ids db)) (set (user_ids db)) (update_where P f (t_runs db))"
    using db_okD(8) [OF assms(1)]
    by (simp only: runs_ok_def map_update_where present_update_where assms(2-))
qed (simp only: map_update_where assms(2) order_refl)

lemma insert_run_row_ok [preserves_intros]: "preserves db_ok (insert_run_row r)"
  unfolding insert_run_row_def
proof (intro preserves_stmt db_ok_runs)
  fix db assume "db_ok db" "first_violation
          [(rn_id r \<notin> set (run_ids db), UniqueViolation),
           (rn_project_id r \<in> set (project_ids db), ForeignKeyViolation),
           (refers (rn_key_id r) (api_key_ids db), ForeignKeyViolation),
           (refers (rn_user_id r) (user_ids db), ForeignKeyViolation)] = None"
  then show "runs_ok (set (project_ids db)) (set (api_key_ids db)) (set (user_ids db)) (t_runs db @ [r])"
    by (simp add: runs_ok_def append_row refers_def db_okD(8) [unfolded runs_ok_def]
      del: set_map map_append present_simps)
qed auto

lemma create_run_ok [preserves_intros]: "preserves db_ok (create_run now rid pid name kid uid)"
  unfolding create_run_def by (intro preserves_intros)

lemma run_updates_ok [preserves_intros]:
  "preserves db_ok (finish_run now rid st)" "preserves db_ok (increment_metrics_count now rid n)"
  unfolding finish_run_def increment_metrics_count_def update_run_def
  by (intro preserves_write db_ok_runs_update; simp)+

interpretation tag_table: replace_table tag_pk "\<lambda>old r. r" upsert_tag
  unfolding upsert_tag_def by (rule replace_table_insert_or_replace)

interpretation param_table: replace_table param_pk "\<lambda>old r. r" upsert_param
  unfolding upsert_param_def by (rule replace_table_insert_or_replace)

lemma set_tags_ok [preserves_intros]: "preserves db_ok (set_tags rid tags)"
  unfolding set_tags_def
proof (intro preserves_for, clarify, intro preserves_stmt db_ok_leaf(5))
  fix key v db assume ok: "db_ok db"
    and "first_violation [(rid \<in> set (run_ids db), ForeignKeyViolation)] = None"
  then have "rid \<in> set (run_ids db)" by simp
  with db_okD(9) [OF ok] tag_table.upsert_distinct [of "t_tags db"]
  show "tags_ok (set (run_ids db)) (upsert_tag \<lparr>tg_run_id = rid, tg_key = key, tg_value = v\<rparr> (t_tags db))"
    by (auto simp: tags_ok_def tag_pk_def [abs_def] upsert_tag_def set_insert_or_replace)
qed

lemma insert_params_ok [preserves_intros]: "preserves db_ok (insert_params now rid ps)"
  unfolding insert_params_def
proof (intro preserves_bind preserves_for, clarify, intro preserves_stmt db_ok_leaf(6))
  fix name v db assume ok: "db_ok db"
    and "first_violation [(rid \<in> set (run_ids db), ForeignKeyViolation)] = None"
  then have "rid \<in> set (run_ids db)" by simp
  with db_okD(10) [OF ok] param_table.upsert_distinct [of "t_params db"]
  show "params_ok (set (run_ids db)) (upsert_param \<lparr>pm_run_id = rid, pm_name = name, pm_value = v\<rparr> (t_params db))"
    by (auto simp: params_ok_def param_pk_def [abs_def] upsert_param_def set_insert_or_replace)
qed (auto intro!: preserves_intros preserves_write db_ok_runs_update)

lemma insert_metric_row_ok [preserves_intros]: "preserves db_ok (insert_metric_row rid m)"
  unfolding insert_metric_row_def
  by (intro preserves_stmt db_ok_leaf(7))
     (simp_all add: metrics_ok_def append_row db_okD(11) [unfolded metrics_ok_def] del: set_map map_append)

lemma insert_metrics_ok [preserves_intros]: "preserves db_ok (insert_metrics rid ms)"
  unfolding insert_metrics_def by (intro preserves_intros)

lemma insert_event_row_ok [preserves_intros]: "preserves db_ok (insert_event_row now rid e)"
  unfolding insert_event_row_def
proof (intro preserves_stmt db_ok_leaf(8))
  fix db assume ok: "db_ok db" and "first_violation [(rid \<in> set (run_ids db), ForeignKeyViolation)] = None"
  then have "rid \<in> set (run_ids db)" by simp
  with db_okD(12) [OF ok]
  show "events_ok (set (run_ids db)) (event_seq db + 1) (t_run_events db @
          [\<lparr>ev_id = event_seq db + 1, ev_run_id = rid, ev_level = ei_level e,
            ev_source = ei_source e, ev_message = ei_message e, ev_step = ei_step e,
            ev_timestamp = Option.bind (ei_timestamp e) bind_real, ev_created_at = now\<rparr>])"
    by (fastforce simp: events_ok_def sorted_wrt_append)
qed

lemma insert_run_events_ok [preserves_intros]: "preserves db_ok (insert_run_events now rid es)"
  unfolding insert_run_events_def update_run_def
  by (intro preserves_intros) (auto intro!: preserves_intros preserves_write db_ok_runs_update)

lemma record_batch_ok [preserves_intros]: "preserves db_ok (record_batch now bid rid seq h)"
  unfolding record_batch_def
  by (intro preserves_stmt db_ok_leaf(9))
     (simp_all add: batches_ok_def append_row db_okD(13) [unfolded batches_ok_def] del: set_map map_append)

lemma create_share_token_ok [preserves_intros]: "preserves db_ok (create_share_token now th rid kp ex)"
  unfolding create_share_token_def
  by (intro preserves_stmt db_ok_leaf(10))
     (simp_all add: shares_ok_def append_row db_okD(14) [unfolded shares_ok_def] del: set_map map_append)

lemma revoke_share_token_ok [preserves_intros]: "preserves db_ok (revoke_share_token now th legacy)"
  unfolding revoke_share_token_def Let_def
  by (intro preserves_update db_ok_leaf(10))
     (simp_all add: shares_ok_def map_update_where stamp_share_def db_okD(14) [unfolded shares_ok_def] del: set_map)

lemma validate_share_token_ok [preserves_intros]: "preserves I (validate_share_token now th legacy)"
  by (auto simp: preserves_def validate_share_token_def split: option.splits)

lemma alias_pk_merge [simp]: "alias_pk (merge_alias old new) = alias_pk new"
  by (simp add: alias_pk_def merge_alias_def split: option.splits)

lemma al_active_key_merge [simp]: "al_active_key (merge_alias old new) = al_active_key new"
  by (simp add: al_active_key_def merge_alias_def split: option.splits)

lemma map_alias_pk_upsert:
  "map alias_pk (upsert_alias_row new as) =
     (if alias_pk new \<in> set (map alias_pk as) then map alias_pk as else map alias_pk as @ [alias_pk new])"
  by (auto simp: upsert_alias_row_def update_where_def comp_def)

interpretation alias_table: upsert_table alias_pk merge_alias upsert_alias_row
proof unfold_locales
  fix k new as
  show "find (\<lambda>x. alias_pk x = k) (upsert_alias_row new as) =
      (if k = alias_pk new then Some (merge_alias (find (\<lambda>x. alias_pk x = alias_pk new) as) new)
       else find (\<lambda>x. alias_pk x = k) as)"
  proof (cases "alias_pk new \<in> set (map alias_pk as)")
    case True
    then obtain old where old: "find (\<lambda>x. alias_pk x = alias_pk new) as = Some old"
      by (cases "find (\<lambda>x. alias_pk x = alias_pk new) as") (auto simp: find_None_conv)
    have "find (\<lambda>x. alias_pk x = k) (update_where (\<lambda>a. alias_pk a = alias_pk new) (\<lambda>a. merge_alias (Some a) new) as) =
      map_option (\<lambda>a. if alias_pk a = alias_pk new then merge_alias (Some a) new else a) (find (\<lambda>x. alias_pk x = k) as)"
      by (rule find_update_sel) simp
    with True old find_SomeD [OF old] show ?thesis
      by (cases "find (\<lambda>x. alias_pk x = k) as") (auto simp: upsert_alias_row_def dest: find_SomeD)
  next
    case False
    then have "find (\<lambda>x. alias_pk x = alias_pk new) as = None"
      unfolding find_None_conv not_in_map .
    with False show ?thesis by (auto simp: upsert_alias_row_def find_append merge_alias_def split: option.splits)
  qed
qed (auto simp: map_alias_pk_upsert)

lemma upsert_alias_ok:
  assumes ok: "aliases_ok P as" and p: "al_project_id new \<in> P"
    and u: "case al_active_key new of None \<Rightarrow> True
       | Some k \<Rightarrow> \<forall>a \<in> set as. al_active_key a = Some k \<longrightarrow> alias_pk a = alias_pk new"
  shows "aliases_ok P (upsert_alias_row new as)"
proof -
  have "distinct (map alias_pk (upsert_alias_row new as))"
    using ok by (intro alias_table.upsert_distinct) (simp add: aliases_ok_def alias_pk_def [abs_def])
  moreover have "set (map al_project_id (upsert_alias_row new as)) \<subseteq> P"
    using arg_cong [OF map_alias_pk_upsert [of new as], of "\<lambda>xs. fst ` set xs"] ok p
    by (auto simp: aliases_ok_def alias_pk_def [abs_def] image_image)
  moreover have "distinct (present al_active_key (upsert_alias_row new as))"
  proof (cases "alias_pk new \<in> set (map alias_pk as)")
    case False
    then have "\<forall>a \<in> set as. alias_pk a \<noteq> alias_pk new" unfolding not_in_map .
    with False ok u show ?thesis
      by (auto simp: aliases_ok_def upsert_alias_row_def set_present split: option.splits)
  next
    case True
    have distinct_rows: "distinct as" using ok by (simp add: aliases_ok_def distinct_map)
    have one: "x = y" if "x \<in> set as" "y \<in> set as" "alias_pk x = alias_pk y" for x y
      using ok that by (auto simp: aliases_ok_def distinct_map inj_on_def alias_pk_def)
    show ?thesis
      unfolding upsert_alias_row_def using True ok u one distinct_rows
      by (auto simp: aliases_ok_def intro!: distinct_present_update_one [where v = "al_active_key new"])
  qed
  ultimately show ?thesis by (simp add: aliases_ok_def alias_pk_def [abs_def])
qed

lemma upsert_metric_alias_ok [preserves_intros]:
  "preserves db_ok (upsert_metric_alias now pid mn dn un de ac)"
  unfolding upsert_metric_alias_def Let_def
  by (intro preserves_bind preserves_row preserves_stmt db_ok_leaf(1) upsert_alias_ok)
     (auto simp: db_okD simp del: set_map)

lemma delete_metric_alias_ok [preserves_intros]: "preserves db_ok (delete_metric_alias pid mn)"
  unfolding delete_metric_alias_def Let_def
  by (intro preserves_update db_ok_leaf(1))
     (fastforce dest!: db_okD(3) simp: aliases_ok_def distinct_map_delete_where distinct_present_delete)+

section \<open>Deletion\<close>

lemma table_ok_delete:
  "tags_ok R ts \<Longrightarrow> tags_ok R (delete_where f1 ts)"
  "params_ok R ps \<Longrightarrow> params_ok R (delete_where f2 ps)"
  "metrics_ok R ms \<Longrightarrow> metrics_ok R (delete_where f3 ms)"
  "events_ok R n es \<Longrightarrow> events_ok R n (delete_where f4 es)"
  "batches_ok R bs \<Longrightarrow> batches_ok R (delete_where f5 bs)"
  "shares_ok R ss \<Longrightarrow> shares_ok R (delete_where f6 ss)"
  "memberships_ok P U xs \<Longrightarrow> memberships_ok P U (delete_where f7 xs)"
  "aliases_ok P as \<Longrightarrow> aliases_ok P (delete_where f8 as)"
  "runs_ok P K U rs \<Longrightarrow> runs_ok P K U (delete_where f9 rs)"
  "api_keys_ok P U ks \<Longrightarrow> api_keys_ok P U (delete_where f10 ks)"
  "projects_ok qs \<Longrightarrow> projects_ok (delete_where f11 qs)"
  unfolding table_ok_defs
  by (auto simp: distinct_map_delete_where distinct_present_delete set_present
    sorted_map_delete_where)

lemma audit_ok_null:
  assumes "audit_ok U K P R es" and "\<And>e k. au_user_id (f e) = Some k \<Longrightarrow> au_user_id e = Some k"
    "\<And>e k. au_key_id (f e) = Some k \<Longrightarrow> au_key_id e = Some k"
    "\<And>e k. au_project_id (f e) = Some k \<Longrightarrow> au_project_id e = Some k"
    "\<And>e k. au_run_id (f e) = Some k \<Longrightarrow> au_run_id e = Some k"
  shows "audit_ok U K P R (update_where sel f es)"
  using assms(1) present_update_subset [of sel au_user_id f es] present_update_subset [of sel au_key_id f es]
    present_update_subset [of sel au_project_id f es] present_update_subset [of sel au_run_id f es] assms(2-)
  unfolding audit_ok_def by blast

lemma clear_run_ok: "db_ok db \<Longrightarrow> db_ok (clear_run rid db)"
  unfolding clear_run_def db_ok_def Let_def
  by (simp add: table_ok_delete, intro audit_ok_null) simp_all

lemma clear_run_frame [simp]:
  "t_runs (clear_run rid db) = t_runs db" "t_projects (clear_run rid db) = t_projects db"
  "t_api_keys (clear_run rid db) = t_api_keys db" "t_users (clear_run rid db) = t_users db"
  "t_memberships (clear_run rid db) = t_memberships db" "t_aliases (clear_run rid db) = t_aliases db"
  "t_sessions (clear_run rid db) = t_sessions db"
  by (simp_all add: clear_run_def)

lemma clear_run_unreferenced: "\<not> run_referenced rid (clear_run rid db)"
  by (auto simp: run_referenced_def clear_run_def set_present set_update_where split: if_splits)

text \<open>Without references, the keys of a parent table may shrink.\<close>

lemma delete_run_row_ok [preserves_intros]: "preserves db_ok (delete_run_row rid)"
  unfolding delete_run_row_def
proof (rule preserves_stmt)
  fix db assume ok: "db_ok db"
    and fv: "first_violation [(rid \<in> set (run_ids db) \<longrightarrow> \<not> run_referenced rid db, ForeignKeyViolation)] = None"
  let ?R = "set (map rn_id (delete_where (\<lambda>r. rn_id r = rid) (t_runs db)))"
  have R: "?R = set (run_ids db) - {rid}" by auto
  have "\<not> run_referenced rid db"
    using fv db_okD(7,9-14) [OF ok] by (auto simp: run_referenced_def table_ok_defs)
  with ok show "db_ok (db\<lparr>t_runs := delete_where (\<lambda>r. rn_id r = rid) (t_runs db)\<rparr>)"
    unfolding db_ok_def Let_def
    by (simp add: R table_ok_delete del: set_map) (auto simp: table_ok_defs run_referenced_def)
qed

lemma clear_and_delete_run_ok [preserves_intros]: "preserves db_ok (clear_and_delete_run rid)"
  unfolding clear_and_delete_run_def by (intro preserves_intros preserves_write clear_run_ok)

lemma delete_run_ok [preserves_intros]: "preserves db_ok (delete_run rid)"
  unfolding delete_run_def run_exists_def
  by (intro preserves_intros preserves_write clear_run_ok) (auto intro: preserves_intros)

lemma delete_project_keys_ok [preserves_intros]: "preserves db_ok (delete_project_keys pid)"
  unfolding delete_project_keys_def
proof (rule preserves_stmt, rule db_ok_api_keys_change)
  fix db assume ok: "db_ok db" and fv: "first_violation
      [(\<forall>k \<in> set (t_api_keys db). ak_project_id k = Some pid \<longrightarrow> \<not> key_referenced (ak_id k) db,
        ForeignKeyViolation)] = None"
  show "api_keys_ok (set (project_ids db)) (set (user_ids db)) (delete_where (\<lambda>k. ak_project_id k = Some pid) (t_api_keys db))"
    using db_okD(5) [OF ok] by (rule table_ok_delete)
  have keep: "x \<in> set (map ak_id (delete_where (\<lambda>k. ak_project_id k = Some pid) (t_api_keys db)))"
    if "x \<in> set (api_key_ids db)" "key_referenced x db" for x
    using that fv by auto
  then show "set (present rn_key_id (t_runs db)) \<subseteq> set (map ak_id (delete_where (\<lambda>k. ak_project_id k = Some pid) (t_api_keys db)))"
    "set (present au_key_id (t_audit_events db)) \<subseteq> set (map ak_id (delete_where (\<lambda>k. ak_project_id k = Some pid) (t_api_keys db)))"
    using db_okD(7,8) [OF ok] unfolding audit_ok_def runs_ok_def key_referenced_def by blast+
qed

lemma delete_project_row_ok [preserves_intros]: "preserves db_ok (delete_project_row pid)"
  unfolding delete_project_row_def
proof (rule preserves_stmt)
  fix db assume ok: "db_ok db" and fv: "first_violation [(\<not> project_referenced pid db, ForeignKeyViolation)] = None"
  let ?P = "set (map pj_id (delete_where (\<lambda>p. pj_id p = pid) (t_projects db)))"
  have P: "?P = set (project_ids db) - {pid}" by auto
  show "db_ok (db\<lparr>t_projects := delete_where (\<lambda>p. pj_id p = pid) (t_projects db)\<rparr>)"
    using ok fv unfolding db_ok_def Let_def
    by (simp add: P table_ok_delete del: set_map) (auto simp: table_ok_defs project_referenced_def)
qed

lemma clear_project_audit_ok: "db_ok db \<Longrightarrow> db_ok (clear_project_audit pid db)"
  unfolding clear_project_audit_def Let_def
  by (intro db_ok_leaf(4) audit_ok_null) (auto dest: db_okD)

lemma delete_project_ok [preserves_intros]: "preserves db_ok (delete_project pid)"
proof -
  have mem: "preserves db_ok (op_write (\<lambda>db.
       db\<lparr>t_memberships := delete_where (\<lambda>m. mb_project_id m = pid) (t_memberships db),
          t_aliases := delete_where (\<lambda>a. al_project_id a = pid) (t_aliases db)\<rparr>))"
    by (rule preserves_write) (simp add: db_ok_def Let_def table_ok_delete)
  show ?thesis
    unfolding delete_project_def
    by (intro preserves_atomic preserves_bind preserves_read)
       (auto intro!: preserves_intros preserves_write clear_run_ok clear_project_audit_ok mem)
qed

end
