(* ===== verification/Run_Sql.thy ===== *)
theory Run_Sql
  imports Run_Filter Sqlite_Runs
begin

text \<open>
  The run list query (apps/api/src/storage/sqlite.rs, list_runs and its helpers). The store
  builds the text of a WHERE clause and, beside it, the values for its positional placeholders.
  The fragment of SQL it uses has an abstract syntax here, with its text and its evaluation in
  SQL's three-valued logic; the lemmas show that the text the code builds is the text of the
  intended condition, that text and values line up, and what the condition selects.
\<close>

section \<open>SQLite expressions\<close>

text \<open>
  \<open>LIKE\<close> as SQLite defines it: percent matches any sequence, underscore one character (a
  leading byte with its continuation bytes), and ASCII letters match in either case.
\<close>

definition continuation_byte :: "char \<Rightarrow> bool" where
  "continuation_byte c \<longleftrightarrow> 128 \<le> byte c \<and> byte c < 192"

function sql_like :: "string \<Rightarrow> string \<Rightarrow> bool" where
  "sql_like [] s \<longleftrightarrow> s = []"
| "sql_like (p # ps) s \<longleftrightarrow>
     (if p = CHR ''%'' then sql_like ps s \<or> (if s = [] then False else sql_like (p # ps) (tl s))
      else if s = [] then False
      else if p = CHR ''_'' then sql_like ps (dropWhile continuation_byte (tl s))
      else ascii_lower p = ascii_lower (hd s) \<and> sql_like ps (tl s))"
  by pat_completeness auto
termination
  by (relation "measure (\<lambda>(p, s). length p + length s)")
     (auto simp: neq_Nil_conv less_Suc_eq_le le_SucI length_dropWhile_le)

declare sql_like.simps(2) [simp del]

datatype RunColumn = ColProjectId | ColProjectName | ColOwner | ColStatus | ColName | ColRunId | ColCreatedAt

datatype SqlCmp = CmpEq | CmpNe | CmpGt | CmpGe | CmpLt | CmpLe | CmpLike

datatype MetaTable = TagsTable | ParamsTable

text \<open>
  \<open>SExists neg table two_keys cmp\<close> is the (negated) EXISTS subquery on tags or params, with
  one or two alternative keys and an optional comparison of the value. Every comparison takes
  its right-hand side from the next placeholder.
\<close>

datatype SqlCond =
    SFalse
  | SCmp RunColumn SqlCmp
  | SIsNull RunColumn
  | SAnd SqlCond SqlCond
  | SOr SqlCond SqlCond
  | SExists bool MetaTable bool "SqlCmp option"

fun column_text :: "RunColumn \<Rightarrow> string" where
  "column_text ColProjectId = ''r.project_id''"
| "column_text ColProjectName = ''p.name''"
| "column_text ColOwner = ''r.created_by_user_id''"
| "column_text ColStatus = ''r.status''"
| "column_text ColName = ''r.name''"
| "column_text ColRunId = ''r.id''"
| "column_text ColCreatedAt = ''r.created_at''"

fun cmp_text :: "SqlCmp \<Rightarrow> string" where
  "cmp_text CmpEq = '' = ?''"
| "cmp_text CmpNe = '' != ?''"
| "cmp_text CmpGt = '' > ?''"
| "cmp_text CmpGe = '' >= ?''"
| "cmp_text CmpLt = '' < ?''"
| "cmp_text CmpLe = '' <= ?''"
| "cmp_text CmpLike = '' LIKE ?''"

fun meta_from :: "MetaTable \<Rightarrow> string" where
  "meta_from TagsTable = ''tags t WHERE t.run_id = r.id AND ''"
| "meta_from ParamsTable = ''params p2 WHERE p2.run_id = r.id AND ''"

fun meta_key :: "MetaTable \<Rightarrow> string" where
  "meta_key TagsTable = ''t.key''"
| "meta_key ParamsTable = ''p2.name''"

fun meta_value :: "MetaTable \<Rightarrow> string" where
  "meta_value TagsTable = ''t.value''"
| "meta_value ParamsTable = ''p2.value''"

fun sql_text :: "SqlCond \<Rightarrow> string" where
  "sql_text SFalse = ''1=0''"
| "sql_text (SCmp c op) = column_text c @ cmp_text op"
| "sql_text (SIsNull c) = column_text c @ '' IS NULL''"
| "sql_text (SAnd a b) = ''('' @ sql_text a @ '' AND '' @ sql_text b @ '')''"
| "sql_text (SOr a b) = ''('' @ sql_text a @ '' OR '' @ sql_text b @ '')''"
| "sql_text (SExists neg t two cmp) =
     (if neg then ''NOT EXISTS (SELECT 1 FROM '' else ''EXISTS (SELECT 1 FROM '') @ meta_from t @
     (if two then ''('' @ meta_key t @ '' = ? OR '' @ meta_key t @ '' = ?)'' else meta_key t @ '' = ?'') @
     (case cmp of None \<Rightarrow> '''' | Some op \<Rightarrow> '' AND '' @ meta_value t @ cmp_text op) @ '')''"

text \<open>The joined row a condition is evaluated on.\<close>

record RunView =
  rv_run :: RunRec
  rv_project_name :: "string option"
  rv_tags :: "(string \<times> string) list"
  rv_params :: "(string \<times> string) list"

definition run_view :: "Db \<Rightarrow> RunRec \<Rightarrow> RunView" where
  "run_view db r =
     \<lparr>rv_run = r,
      rv_project_name = map_option pj_name (find (\<lambda>p. pj_id p = rn_project_id r) (t_projects db)),
      rv_tags = map (\<lambda>t. (tg_key t, tg_value t)) (filter (\<lambda>t. tg_run_id t = rn_id r) (t_tags db)),
      rv_params = map (\<lambda>p. (pm_name p, pm_value p)) (filter (\<lambda>p. pm_run_id p = rn_id r) (t_params db))\<rparr>"

fun column_value :: "RunView \<Rightarrow> RunColumn \<Rightarrow> string option" where
  "column_value v ColProjectId = Some (rn_project_id (rv_run v))"
| "column_value v ColProjectName = rv_project_name v"
| "column_value v ColOwner = rn_user_id (rv_run v)"
| "column_value v ColStatus = Some (rn_status (rv_run v))"
| "column_value v ColName = rn_name (rv_run v)"
| "column_value v ColRunId = Some (rn_id (rv_run v))"
| "column_value v ColCreatedAt = Some (rn_created_at (rv_run v))"

fun cmp_holds :: "SqlCmp \<Rightarrow> string \<Rightarrow> string \<Rightarrow> bool" where
  "cmp_holds CmpEq x y \<longleftrightarrow> x = y"
| "cmp_holds CmpNe x y \<longleftrightarrow> x \<noteq> y"
| "cmp_holds CmpGt x y \<longleftrightarrow> y < x"
| "cmp_holds CmpGe x y \<longleftrightarrow> y \<le> x"
| "cmp_holds CmpLt x y \<longleftrightarrow> x < y"
| "cmp_holds CmpLe x y \<longleftrightarrow> x \<le> y"
| "cmp_holds CmpLike x y \<longleftrightarrow> sql_like y x"

fun meta_rows :: "RunView \<Rightarrow> MetaTable \<Rightarrow> (string \<times> string) list" where
  "meta_rows v TagsTable = rv_tags v"
| "meta_rows v ParamsTable = rv_params v"

text \<open>Three-valued AND and OR; NULL is \<open>None\<close>.\<close>

definition and3 :: "bool option \<Rightarrow> bool option \<Rightarrow> bool option" where
  "and3 a b = (if a = Some False \<or> b = Some False then Some False
     else if a = Some True \<and> b = Some True then Some True else None)"

definition or3 :: "bool option \<Rightarrow> bool option \<Rightarrow> bool option" where
  "or3 a b = (if a = Some True \<or> b = Some True then Some True
     else if a = Some False \<and> b = Some False then Some False else None)"

text \<open>
  The value of a condition and the placeholder values it leaves unused. A missing value reads
  as NULL, as an unbound parameter does.
\<close>

fun next_param :: "string list \<Rightarrow> string option \<times> string list" where
  "next_param [] = (None, [])"
| "next_param (p # ps) = (Some p, ps)"

fun sql_eval :: "RunView \<Rightarrow> SqlCond \<Rightarrow> string list \<Rightarrow> bool option \<times> string list" where
  "sql_eval v SFalse ps = (Some False, ps)"
| "sql_eval v (SCmp c op) ps =
     (case next_param ps of (p, ps') \<Rightarrow>
        (case (column_value v c, p) of (Some x, Some y) \<Rightarrow> Some (cmp_holds op x y) | _ \<Rightarrow> None, ps'))"
| "sql_eval v (SIsNull c) ps = (Some (column_value v c = None), ps)"
| "sql_eval v (SAnd a b) ps =
     (case sql_eval v a ps of (x, ps') \<Rightarrow> case sql_eval v b ps' of (y, ps'') \<Rightarrow> (and3 x y, ps''))"
| "sql_eval v (SOr a b) ps =
     (case sql_eval v a ps of (x, ps') \<Rightarrow> case sql_eval v b ps' of (y, ps'') \<Rightarrow> (or3 x y, ps''))"
| "sql_eval v (SExists neg t two cmp) ps =
     (case next_param ps of (k1, ps1) \<Rightarrow>
      case (if two then next_param ps1 else (None, ps1)) of (k2, ps2) \<Rightarrow>
      case (case cmp of None \<Rightarrow> (None, ps2) | Some _ \<Rightarrow> next_param ps2) of (y, ps3) \<Rightarrow>
        (Some (neg \<noteq> (\<exists>(k, x) \<in> set (meta_rows v t).
             (k1 = Some k \<or> k2 = Some k)
           \<and> (case cmp of None \<Rightarrow> True | Some op \<Rightarrow> (case y of Some w \<Rightarrow> cmp_holds op x w | None \<Rightarrow> False)))), ps3))"

section \<open>The text and the values the code builds\<close>

definition pattern_param :: "string \<Rightarrow> string" where
  "pattern_param s = ''%'' @ s @ ''%''"

text \<open>The one-column targets share their text up to the column.\<close>

definition text_column_sql :: "string \<Rightarrow> RunFilterOperator \<Rightarrow> string \<Rightarrow> string \<times> string list" where
  "text_column_sql col op v =
     (case op of
        Eq \<Rightarrow> (col @ '' = ?'', [v])
      | NotEq \<Rightarrow> (col @ '' != ?'', [v])
      | Contains \<Rightarrow> (col @ '' LIKE ?'', [pattern_param v])
      | _ \<Rightarrow> (''1=0'', []))"

definition meta_sql ::
  "string \<Rightarrow> string \<Rightarrow> string \<Rightarrow> string \<Rightarrow> string option \<Rightarrow> RunFilterOperator \<Rightarrow> string \<Rightarrow> string \<times> string list" where
  "meta_sql from key_col value_col key legacy op v =
     (let (key_sql, keys) =
        (case legacy of
           Some l \<Rightarrow> (''('' @ key_col @ '' = ? OR '' @ key_col @ '' = ?)'', [key, l])
         | None \<Rightarrow> (key_col @ '' = ?'', [key])) in
      case op of
        Eq \<Rightarrow> (''EXISTS (SELECT 1 FROM '' @ from @ key_sql @ '' AND '' @ value_col @ '' = ?)'', keys @ [v])
      | NotEq \<Rightarrow> (''NOT EXISTS (SELECT 1 FROM '' @ from @ key_sql @ '' AND '' @ value_col @ '' = ?)'', keys @ [v])
      | Contains \<Rightarrow> (''EXISTS (SELECT 1 FROM '' @ from @ key_sql @ '' AND '' @ value_col @ '' LIKE ?)'',
          keys @ [pattern_param v])
      | _ \<Rightarrow> (''1=0'', keys))"

definition append_run_filter_condition_sql :: "RunFilterCondition \<Rightarrow> string \<times> string list" where
  "append_run_filter_condition_sql c =
     (let op = rfc_op c; v = rfc_value c in
      case rfc_target c of
        Project \<Rightarrow>
          (case op of
             Eq \<Rightarrow> (''(r.project_id = ? OR p.name = ?)'', [v, v])
           | NotEq \<Rightarrow> (''(r.project_id != ? AND (p.name IS NULL OR p.name != ?))'', [v, v])
           | Contains \<Rightarrow> (''(r.project_id LIKE ? OR p.name LIKE ?)'', [pattern_param v, pattern_param v])
           | _ \<Rightarrow> (''1=0'', []))
      | Owner \<Rightarrow> text_column_sql ''r.created_by_user_id'' op v
      | Status \<Rightarrow> text_column_sql ''r.status'' op v
      | Name \<Rightarrow> text_column_sql ''r.name'' op v
      | RunId \<Rightarrow> text_column_sql ''r.id'' op v
      | CreatedAt \<Rightarrow>
          (case op of
             Eq \<Rightarrow> (''r.created_at = ?'', [v])
           | NotEq \<Rightarrow> (''r.created_at != ?'', [v])
           | Gt \<Rightarrow> (''r.created_at > ?'', [v])
           | Gte \<Rightarrow> (''r.created_at >= ?'', [v])
           | Lt \<Rightarrow> (''r.created_at < ?'', [v])
           | Lte \<Rightarrow> (''r.created_at <= ?'', [v])
           | Contains \<Rightarrow> (''r.created_at LIKE ?'', [pattern_param v]))
      | Tag key legacy \<Rightarrow>
          meta_sql ''tags t WHERE t.run_id = r.id AND '' ''t.key'' ''t.value'' key legacy op v
      | Param key legacy \<Rightarrow>
          meta_sql ''params p2 WHERE p2.run_id = r.id AND '' ''p2.name'' ''p2.value'' key legacy op v)"

fun append_run_filter_expr_sql :: "RunFilterExpr \<Rightarrow> string \<times> string list" where
  "append_run_filter_expr_sql (Condition c) = append_run_filter_condition_sql c"
| "append_run_filter_expr_sql (And l r) =
     (''('' @ fst (append_run_filter_expr_sql l) @ '' AND '' @ fst (append_run_filter_expr_sql r) @ '')'',
      snd (append_run_filter_expr_sql l) @ snd (append_run_filter_expr_sql r))"
| "append_run_filter_expr_sql (Or l r) =
     (''('' @ fst (append_run_filter_expr_sql l) @ '' OR '' @ fst (append_run_filter_expr_sql r) @ '')'',
      snd (append_run_filter_expr_sql l) @ snd (append_run_filter_expr_sql r))"

section \<open>What a filter means\<close>

definition contains_text :: "string \<Rightarrow> string \<Rightarrow> bool" where
  "contains_text v s \<longleftrightarrow> sql_like (pattern_param v) s"

fun text_matches :: "RunFilterOperator \<Rightarrow> string \<Rightarrow> string \<Rightarrow> bool" where
  "text_matches Eq v x \<longleftrightarrow> x = v"
| "text_matches NotEq v x \<longleftrightarrow> x \<noteq> v"
| "text_matches Gt v x \<longleftrightarrow> v < x"
| "text_matches Gte v x \<longleftrightarrow> v \<le> x"
| "text_matches Lt v x \<longleftrightarrow> x < v"
| "text_matches Lte v x \<longleftrightarrow> x \<le> v"
| "text_matches Contains v x \<longleftrightarrow> contains_text v x"

definition some_matches :: "RunFilterOperator \<Rightarrow> string \<Rightarrow> string option \<Rightarrow> bool" where
  "some_matches op v x \<longleftrightarrow> (case x of None \<Rightarrow> False | Some y \<Rightarrow> text_matches op v y)"

definition meta_matches ::
  "string \<Rightarrow> string option \<Rightarrow> RunFilterOperator \<Rightarrow> string \<Rightarrow> (string \<times> string) list \<Rightarrow> bool" where
  "meta_matches key legacy op v rows \<longleftrightarrow>
     (if op = NotEq then \<not> (\<exists>(k, x) \<in> set rows. (key = k \<or> legacy = Some k) \<and> x = v)
      else (\<exists>(k, x) \<in> set rows. (key = k \<or> legacy = Some k) \<and> text_matches op v x))"

fun target_matches :: "RunView \<Rightarrow> RunFilterTarget \<Rightarrow> RunFilterOperator \<Rightarrow> string \<Rightarrow> bool" where
  "target_matches w Project op v \<longleftrightarrow>
     (if op = NotEq then rn_project_id (rv_run w) \<noteq> v \<and> rv_project_name w \<noteq> Some v
      else text_matches op v (rn_project_id (rv_run w)) \<or> some_matches op v (rv_project_name w))"
| "target_matches w Owner op v \<longleftrightarrow> some_matches op v (rn_user_id (rv_run w))"
| "target_matches w Status op v \<longleftrightarrow> text_matches op v (rn_status (rv_run w))"
| "target_matches w Name op v \<longleftrightarrow> some_matches op v (rn_name (rv_run w))"
| "target_matches w RunId op v \<longleftrightarrow> text_matches op v (rn_id (rv_run w))"
| "target_matches w CreatedAt op v \<longleftrightarrow> text_matches op v (rn_created_at (rv_run w))"
| "target_matches w (Tag key legacy) op v \<longleftrightarrow> meta_matches key legacy op v (rv_tags w)"
| "target_matches w (Param key legacy) op v \<longleftrightarrow> meta_matches key legacy op v (rv_params w)"

fun expr_matches :: "RunView \<Rightarrow> RunFilterExpr \<Rightarrow> bool" where
  "expr_matches w (Condition c) \<longleftrightarrow> target_matches w (rfc_target c) (rfc_op c) (rfc_value c)"
| "expr_matches w (And a b) \<longleftrightarrow> expr_matches w a \<and> expr_matches w b"
| "expr_matches w (Or a b) \<longleftrightarrow> expr_matches w a \<or> expr_matches w b"

section \<open>The text is the text of the condition, the values are its values\<close>

fun op_cmp :: "RunFilterOperator \<Rightarrow> SqlCmp" where
  "op_cmp Eq = CmpEq" | "op_cmp NotEq = CmpNe" | "op_cmp Gt = CmpGt" | "op_cmp Gte = CmpGe"
| "op_cmp Lt = CmpLt" | "op_cmp Lte = CmpLe" | "op_cmp Contains = CmpLike"

definition meta_cond :: "MetaTable \<Rightarrow> string option \<Rightarrow> RunFilterOperator \<Rightarrow> SqlCond" where
  "meta_cond t legacy op =
     (if op = NotEq then SExists True t (legacy \<noteq> None) (Some CmpEq)
      else SExists False t (legacy \<noteq> None) (Some (op_cmp op)))"

fun target_cond :: "RunFilterTarget \<Rightarrow> RunFilterOperator \<Rightarrow> SqlCond" where
  "target_cond Project op =
     (if op = NotEq then SAnd (SCmp ColProjectId CmpNe) (SOr (SIsNull ColProjectName) (SCmp ColProjectName CmpNe))
      else SOr (SCmp ColProjectId (op_cmp op)) (SCmp ColProjectName (op_cmp op)))"
| "target_cond Owner op = SCmp ColOwner (op_cmp op)"
| "target_cond Status op = SCmp ColStatus (op_cmp op)"
| "target_cond Name op = SCmp ColName (op_cmp op)"
| "target_cond RunId op = SCmp ColRunId (op_cmp op)"
| "target_cond CreatedAt op = SCmp ColCreatedAt (op_cmp op)"
| "target_cond (Tag key legacy) op = meta_cond TagsTable legacy op"
| "target_cond (Param key legacy) op = meta_cond ParamsTable legacy op"

fun expr_cond :: "RunFilterExpr \<Rightarrow> SqlCond" where
  "expr_cond (Condition c) = target_cond (rfc_target c) (rfc_op c)"
| "expr_cond (And a b) = SAnd (expr_cond a) (expr_cond b)"
| "expr_cond (Or a b) = SOr (expr_cond a) (expr_cond b)"

lemma and3_True [simp]: "and3 a b = Some True \<longleftrightarrow> a = Some True \<and> b = Some True"
  by (auto simp: and3_def)

lemma or3_True [simp]: "or3 a b = Some True \<longleftrightarrow> a = Some True \<or> b = Some True"
  by (auto simp: or3_def)

lemma text_column_sql_text:
  "op \<in> text_operators \<Longrightarrow> fst (text_column_sql col op v) = col @ cmp_text (op_cmp op)"
  by (auto simp: text_operators_def text_column_sql_def)

lemma meta_sql_text:
  "op \<in> text_operators \<Longrightarrow>
   fst (meta_sql (meta_from t) (meta_key t) (meta_value t) key legacy op v) = sql_text (meta_cond t legacy op)"
  by (auto simp: text_operators_def meta_sql_def meta_cond_def split: option.splits)

lemma condition_text:
  assumes "wf_condition c"
  shows "fst (append_run_filter_condition_sql c) = sql_text (target_cond (rfc_target c) (rfc_op c))"
proof (cases "rfc_target c")
  case (Tag key legacy)
  then show ?thesis
    using assms meta_sql_text [of "rfc_op c" TagsTable key legacy "rfc_value c"]
    by (simp add: append_run_filter_condition_sql_def wf_condition_def Let_def)
next
  case (Param key legacy)
  then show ?thesis
    using assms meta_sql_text [of "rfc_op c" ParamsTable key legacy "rfc_value c"]
    by (simp add: append_run_filter_condition_sql_def wf_condition_def Let_def)
next
  case Project
  then show ?thesis
    using assms by (auto simp: append_run_filter_condition_sql_def wf_condition_def text_operators_def Let_def)
next
  case CreatedAt
  then show ?thesis
    using assms by (auto simp: append_run_filter_condition_sql_def wf_condition_def time_operators_def Let_def)
qed (use assms in \<open>simp_all add: append_run_filter_condition_sql_def wf_condition_def text_column_sql_text Let_def\<close>)

text \<open>The values a well-formed condition is evaluated with, whatever follows them.\<close>

lemma text_column_eval:
  "op \<in> text_operators \<Longrightarrow>
   sql_eval w (SCmp col (op_cmp op)) (snd (text_column_sql tx op v) @ ps) =
     (map_option (text_matches op v) (column_value w col), ps)"
  by (auto simp: text_operators_def text_column_sql_def contains_text_def split: option.splits)

lemma meta_eval:
  "op \<in> text_operators \<Longrightarrow>
   sql_eval w (meta_cond t legacy op) (snd (meta_sql fr kc vc key legacy op v) @ ps) =
     (Some (meta_matches key legacy op v (meta_rows w t)), ps)"
  by (cases legacy)
     (auto simp: text_operators_def meta_sql_def meta_cond_def meta_matches_def contains_text_def)

lemma condition_eval:
  assumes "wf_condition c"
  shows "\<exists>t. sql_eval w (target_cond (rfc_target c) (rfc_op c)) (snd (append_run_filter_condition_sql c) @ ps) = (t, ps)
    \<and> (t = Some True \<longleftrightarrow> target_matches w (rfc_target c) (rfc_op c) (rfc_value c))"
proof (cases "rfc_target c")
  case (Tag key legacy)
  then show ?thesis
    using assms meta_eval [of "rfc_op c" w TagsTable legacy]
    by (simp add: append_run_filter_condition_sql_def wf_condition_def Let_def)
next
  case (Param key legacy)
  then show ?thesis
    using assms meta_eval [of "rfc_op c" w ParamsTable legacy]
    by (simp add: append_run_filter_condition_sql_def wf_condition_def Let_def)
next
  case Project
  then show ?thesis
    using assms
    by (auto simp: append_run_filter_condition_sql_def wf_condition_def text_operators_def Let_def
      some_matches_def contains_text_def split: option.splits)
next
  case CreatedAt
  then show ?thesis
    using assms by (auto simp: append_run_filter_condition_sql_def wf_condition_def time_operators_def Let_def)
qed (use assms in \<open>auto simp: append_run_filter_condition_sql_def wf_condition_def text_column_eval Let_def
    some_matches_def simp del: sql_eval.simps(2) split: option.splits\<close>)

lemma expr_eval:
  "list_all wf_condition (conditions e) \<Longrightarrow>
   \<exists>t. sql_eval w (expr_cond e) (snd (append_run_filter_expr_sql e) @ ps) = (t, ps)
     \<and> (t = Some True \<longleftrightarrow> expr_matches w e)"
proof (induction e arbitrary: ps)
  case (Condition c)
  then show ?case using condition_eval [of c w ps] by simp
next
  case (And a b)
  obtain t where t: "sql_eval w (expr_cond a) (snd (append_run_filter_expr_sql a) @ snd (append_run_filter_expr_sql b) @ ps) =
      (t, snd (append_run_filter_expr_sql b) @ ps)" "t = Some True \<longleftrightarrow> expr_matches w a"
    using And.IH(1) And.prems by fastforce
  with And.IH(2) [of ps] And.prems show ?case by auto
next
  case (Or a b)
  obtain t where t: "sql_eval w (expr_cond a) (snd (append_run_filter_expr_sql a) @ snd (append_run_filter_expr_sql b) @ ps) =
      (t, snd (append_run_filter_expr_sql b) @ ps)" "t = Some True \<longleftrightarrow> expr_matches w a"
    using Or.IH(1) Or.prems by fastforce
  with Or.IH(2) [of ps] Or.prems show ?case by auto
qed

lemma expr_text:
  "list_all wf_condition (conditions e) \<Longrightarrow> fst (append_run_filter_expr_sql e) = sql_text (expr_cond e)"
  by (induction e) (simp_all add: condition_text)

text \<open>
  C4: the SQL of a filter. For every filter the parser accepts, the text the store appends to
  the query is the text of the intended condition; its placeholders consume exactly the values
  pushed beside it, in order, leaving those that follow for the rest of the query; and a row
  satisfies the condition in SQL's three-valued logic exactly when the run matches the filter
  in the plain reading: NULL columns match nothing, \<open>!=\<close> on a tag or parameter holds when no
  row has that value, and AND and OR are conjunction and disjunction.
\<close>

theorem filter_sql_correct:
  assumes "list_all wf_condition (conditions e)"
  shows "fst (append_run_filter_expr_sql e) = sql_text (expr_cond e)
    \<and> snd (sql_eval w (expr_cond e) (snd (append_run_filter_expr_sql e) @ rest)) = rest
    \<and> (fst (sql_eval w (expr_cond e) (snd (append_run_filter_expr_sql e) @ rest)) = Some True \<longleftrightarrow> expr_matches w e)"
  using expr_text [OF assms] expr_eval [OF assms, of w rest] by auto

lemma filter_sql_correct_witness:
  "let e = And (Condition \<lparr>rfc_target = Status, rfc_op = Eq, rfc_value = ''running''\<rparr>)
               (Condition \<lparr>rfc_target = Tag ''tags.a'' (Some ''a''), rfc_op = NotEq, rfc_value = ''1''\<rparr>) in
   list_all wf_condition (conditions e)
   \<and> fst (append_run_filter_expr_sql e) = sql_text (expr_cond e)
   \<and> append_run_filter_expr_sql e =
      (''(r.status = ? AND NOT EXISTS (SELECT 1 FROM tags t WHERE t.run_id = r.id AND '' @
       ''(t.key = ? OR t.key = ?) AND t.value = ?))'', [''running'', ''tags.a'', ''a'', ''1''])"
proof -
  let ?e = "And (Condition \<lparr>rfc_target = Status, rfc_op = Eq, rfc_value = ''running''\<rparr>)
               (Condition \<lparr>rfc_target = Tag ''tags.a'' (Some ''a''), rfc_op = NotEq, rfc_value = ''1''\<rparr>)"
  have wf: "list_all wf_condition (conditions ?e)" by code_simp
  have "append_run_filter_expr_sql ?e =
      (''(r.status = ? AND NOT EXISTS (SELECT 1 FROM tags t WHERE t.run_id = r.id AND '' @
       ''(t.key = ? OR t.key = ?) AND t.value = ?))'', [''running'', ''tags.a'', ''a'', ''1''])" by code_simp
  with wf filter_sql_correct [OF wf] show ?thesis by (simp only: Let_def)
qed

section \<open>No value reaches the text\<close>

fun erase_target :: "RunFilterTarget \<Rightarrow> RunFilterTarget" where
  "erase_target (Tag key legacy) = Tag [] (map_option (\<lambda>_. []) legacy)"
| "erase_target (Param key legacy) = Param [] (map_option (\<lambda>_. []) legacy)"
| "erase_target t = t"

fun erase :: "RunFilterExpr \<Rightarrow> RunFilterExpr" where
  "erase (Condition c) =
     Condition \<lparr>rfc_target = erase_target (rfc_target c), rfc_op = rfc_op c, rfc_value = []\<rparr>"
| "erase (And a b) = And (erase a) (erase b)"
| "erase (Or a b) = Or (erase a) (erase b)"

text \<open>
  no injection. The SQL text of a filter is the text of the same filter with every value and
  every metadata key replaced by the empty string: nothing the client writes becomes part of
  the statement, whether or not the filter is one the parser would accept.
\<close>

lemma filter_sql_no_injection:
  "fst (append_run_filter_expr_sql (erase e)) = fst (append_run_filter_expr_sql e)"
proof (induction e)
  case (Condition c)
  show ?case
    by (cases "rfc_target c"; cases "rfc_op c")
       (auto simp: append_run_filter_condition_sql_def text_column_sql_def meta_sql_def Let_def
         split: option.splits)
qed simp_all

section \<open>Substring matching\<close>

definition wildcard_free :: "string \<Rightarrow> bool" where
  "wildcard_free v \<longleftrightarrow> CHR ''%'' \<notin> set v \<and> CHR ''_'' \<notin> set v"

lemma like_percent: "sql_like (CHR ''%'' # ps) s \<longleftrightarrow> (\<exists>a b. s = a @ b \<and> sql_like ps b)"
proof (induction s)
  case Nil
  then show ?case by (simp add: sql_like.simps(2))
next
  case (Cons c s)
  have "sql_like (CHR ''%'' # ps) (c # s) \<longleftrightarrow> sql_like ps (c # s) \<or> sql_like (CHR ''%'' # ps) s"
    by (subst sql_like.simps(2)) simp
  with Cons show ?case by (metis append_Cons append_Nil list.sel(3) tl_append2)
qed

lemma like_literal:
  "wildcard_free v \<Longrightarrow>
   sql_like (v @ ps) s \<longleftrightarrow> (\<exists>t u. s = t @ u \<and> to_ascii_lowercase t = to_ascii_lowercase v \<and> sql_like ps u)"
proof (induction v arbitrary: s)
  case Nil
  then show ?case by (simp add: to_ascii_lowercase_def)
next
  case (Cons c v)
  then have c: "c \<noteq> CHR ''%''" "c \<noteq> CHR ''_''" and v: "wildcard_free v" by (auto simp: wildcard_free_def)
  note ih = Cons.IH [OF v]
  show ?case
  proof (cases s)
    case Nil
    with c show ?thesis by (simp add: sql_like.simps(2) to_ascii_lowercase_def)
  next
    case (Cons d s')
    have "sql_like ((c # v) @ ps) s \<longleftrightarrow> ascii_lower c = ascii_lower d \<and> sql_like (v @ ps) s'"
      using c Cons by (simp add: sql_like.simps(2) del: sql_like.simps(1))
    also have "\<dots> \<longleftrightarrow> ascii_lower c = ascii_lower d \<and>
      (\<exists>t u. s' = t @ u \<and> to_ascii_lowercase t = to_ascii_lowercase v \<and> sql_like ps u)"
      by (simp add: ih)
    also have "\<dots> \<longleftrightarrow> (\<exists>t u. s = t @ u \<and> to_ascii_lowercase t = to_ascii_lowercase (c # v) \<and> sql_like ps u)"
    proof (intro iffI; elim exE conjE)
      fix t u assume "ascii_lower c = ascii_lower d" "s' = t @ u" "to_ascii_lowercase t = to_ascii_lowercase v" "sql_like ps u"
      then have "s = (d # t) @ u \<and> to_ascii_lowercase (d # t) = to_ascii_lowercase (c # v) \<and> sql_like ps u"
        by (simp add: Cons to_ascii_lowercase_def)
      then show "\<exists>t u. s = t @ u \<and> to_ascii_lowercase t = to_ascii_lowercase (c # v) \<and> sql_like ps u" by blast
    next
      fix t u assume "s = t @ u" "to_ascii_lowercase t = to_ascii_lowercase (c # v)" "sql_like ps u"
      moreover from this obtain t' where "t = d # t'" by (cases t) (auto simp: Cons to_ascii_lowercase_def)
      ultimately show "ascii_lower c = ascii_lower d \<and>
        (\<exists>t u. s' = t @ u \<and> to_ascii_lowercase t = to_ascii_lowercase v \<and> sql_like ps u)"
        by (auto simp: Cons to_ascii_lowercase_def)
    qed
    finally show ?thesis .
  qed
qed

text \<open>
  the substring operator. For a value without percent signs and underscores, \<open>~\<close> selects
  exactly the texts that contain the value up to the case of ASCII letters.
\<close>

lemma contains_is_substring:
  assumes "wildcard_free v"
  shows "contains_text v s \<longleftrightarrow> (\<exists>a b. to_ascii_lowercase s = a @ to_ascii_lowercase v @ b)"
proof -
  have all: "sql_like ''%'' u" for u by (simp add: like_percent)
  have "contains_text v s \<longleftrightarrow> (\<exists>a t u. s = a @ t @ u \<and> to_ascii_lowercase t = to_ascii_lowercase v)"
    unfolding contains_text_def pattern_param_def
    by (auto simp: like_percent like_literal [OF assms] all)
  also have "\<dots> \<longleftrightarrow> (\<exists>a b. to_ascii_lowercase s = a @ to_ascii_lowercase v @ b)"
  proof (intro iffI; elim exE conjE)
    fix a t u assume "s = a @ t @ u" "to_ascii_lowercase t = to_ascii_lowercase v"
    then have "to_ascii_lowercase s = to_ascii_lowercase a @ to_ascii_lowercase v @ to_ascii_lowercase u" by simp
    then show "\<exists>a b. to_ascii_lowercase s = a @ to_ascii_lowercase v @ b" by blast
  next
    fix a b assume "to_ascii_lowercase s = a @ to_ascii_lowercase v @ b"
    then obtain s1 s2 where "s = s1 @ s2" "map ascii_lower s2 = to_ascii_lowercase v @ b"
      unfolding to_ascii_lowercase_def by (metis map_eq_append_conv)
    moreover from this(2) obtain t u where "s2 = t @ u" "map ascii_lower t = to_ascii_lowercase v"
      by (metis map_eq_append_conv)
    ultimately show "\<exists>a t u. s = a @ t @ u \<and> to_ascii_lowercase t = to_ascii_lowercase v"
      unfolding to_ascii_lowercase_def by blast
  qed
  finally show ?thesis .
qed

lemma contains_is_substring_witness: "contains_text ''Net'' ''resnet50'' \<and> \<not> contains_text ''vit'' ''resnet50''"
proof
  have free: "wildcard_free ''Net''" "wildcard_free ''vit''" by code_simp+
  have "to_ascii_lowercase ''resnet50'' = ''res'' @ to_ascii_lowercase ''Net'' @ ''50''" by code_simp
  then show "contains_text ''Net'' ''resnet50''" using contains_is_substring [OF free(1)] by blast
  show "\<not> contains_text ''vit'' ''resnet50''" by code_simp
qed

text \<open>
  percent signs and underscores of the value are not escaped, so they act as wildcards: a
  run named \<open>lr0x1\<close> is found by \<open>name ~ lr_x\<close>, which it does not contain.
\<close>

lemma contains_wildcards_unescaped:
  "contains_text ''lr_x'' ''lr0x1'' \<and> (\<nexists>a b. ''lr0x1'' = a @ ''lr_x'' @ b)"
proof
  show "contains_text ''lr_x'' ''lr0x1''" by code_simp
  have "CHR ''_'' \<notin> set ''lr0x1''" by simp
  then show "\<nexists>a b. ''lr0x1'' = a @ ''lr_x'' @ b" by (metis Un_iff list.set_intros set_append)
qed

section \<open>The listing\<close>

record RunListQuery =
  q_project :: "string option"
  q_owner :: "string option"
  q_status :: "string option"
  q_query :: "string option"
  q_name :: "string option"
  q_created_after :: "string option"
  q_created_before :: "string option"
  q_tags :: "MetadataFilter list"
  q_params :: "MetadataFilter list"
  q_filter :: "RunFilterExpr option"
  q_sort_field :: RunListSortField
  q_sort_order :: RunListSortOrder
  q_limit :: nat
  q_offset :: nat

definition opt_clause :: "'a option \<Rightarrow> ('a \<Rightarrow> SqlCond \<times> string list) \<Rightarrow> (SqlCond \<times> string list) list" where
  "opt_clause x f = (case x of None \<Rightarrow> [] | Some v \<Rightarrow> [f v])"

definition meta_clause :: "MetaTable \<Rightarrow> MetadataFilter \<Rightarrow> SqlCond \<times> string list" where
  "meta_clause t f =
     (SExists False t (mf_legacy_key f \<noteq> None) (map_option (\<lambda>_. CmpEq) (mf_value f)),
      [mf_key f] @ (case mf_legacy_key f of None \<Rightarrow> [] | Some l \<Rightarrow> [l]) @
      (case mf_value f of None \<Rightarrow> [] | Some v \<Rightarrow> [v]))"

text \<open>The clauses \<open>list_runs\<close> appends to \<open>WHERE 1=1\<close>, with the values it pushes for each.\<close>

definition where_clauses :: "RunListQuery \<Rightarrow> (SqlCond \<times> string list) list" where
  "where_clauses q =
     opt_clause (q_project q) (\<lambda>p. (SOr (SCmp ColProjectId CmpEq) (SCmp ColProjectName CmpEq), [p, p])) @
     opt_clause (q_owner q) (\<lambda>u. (SCmp ColOwner CmpEq, [u])) @
     opt_clause (q_status q) (\<lambda>s. (SCmp ColStatus CmpEq, [s])) @
     opt_clause (q_query q) (\<lambda>s. (SOr (SCmp ColName CmpLike) (SCmp ColRunId CmpLike), [pattern_param s, pattern_param s])) @
     opt_clause (q_name q) (\<lambda>n. (SCmp ColName CmpEq, [n])) @
     opt_clause (q_created_after q) (\<lambda>t. (SCmp ColCreatedAt CmpGe, [t])) @
     opt_clause (q_created_before q) (\<lambda>t. (SCmp ColCreatedAt CmpLe, [t])) @
     map (meta_clause TagsTable) (q_tags q) @
     map (meta_clause ParamsTable) (q_params q) @
     opt_clause (q_filter q) (\<lambda>e. (expr_cond e, snd (append_run_filter_expr_sql e)))"

definition where_text :: "RunListQuery \<Rightarrow> string" where
  "where_text q = '' WHERE 1=1'' @ concat (map (\<lambda>(c, ps). '' AND '' @ sql_text c) (where_clauses q))"

definition where_params :: "RunListQuery \<Rightarrow> string list" where
  "where_params q = concat (map snd (where_clauses q))"

text \<open>Evaluate the conjunction left to right over the shared list of values.\<close>

fun eval_clauses :: "RunView \<Rightarrow> SqlCond list \<Rightarrow> string list \<Rightarrow> bool" where
  "eval_clauses w [] ps = True"
| "eval_clauses w (c # cs) ps =
     (fst (sql_eval w c ps) = Some True \<and> eval_clauses w cs (snd (sql_eval w c ps)))"

definition by_dir :: "RunListSortOrder \<Rightarrow> ('r \<Rightarrow> 'k::linorder) \<Rightarrow> 'r \<Rightarrow> 'r \<Rightarrow> bool" where
  "by_dir d f = (case d of Asc \<Rightarrow> asc f | Desc \<Rightarrow> desc f)"

text \<open>\<open>ORDER BY\<close>: NULL durations come before all others, as NULLs do in SQLite.\<close>

definition run_order ::
  "(timestamp \<Rightarrow> timestamp \<Rightarrow> 'd::linorder option) \<Rightarrow> RunListSortField \<Rightarrow> RunListSortOrder \<Rightarrow>
   RunRec \<Rightarrow> RunRec \<Rightarrow> bool" where
  "run_order duration field d =
     then_by
       (case field of
          SortCreatedAt \<Rightarrow> by_dir d rn_created_at
        | SortUpdatedAt \<Rightarrow> by_dir d rn_updated_at
        | SortName \<Rightarrow> by_dir d (\<lambda>r. case rn_name r of Some n \<Rightarrow> n | None \<Rightarrow> [])
        | SortStatus \<Rightarrow> by_dir d rn_status
        | SortDurationSeconds \<Rightarrow> by_dir d (\<lambda>r. rr_duration (run_row duration r))
        | SortMetricsCount \<Rightarrow> by_dir d rn_metrics_count
        | SortParamsCount \<Rightarrow> by_dir d rn_params_count)
       (if field = SortCreatedAt then by_dir d rn_id
        else then_by (desc rn_created_at) (by_dir d rn_id))"

definition list_runs ::
  "(timestamp \<Rightarrow> timestamp \<Rightarrow> 'd::linorder option) \<Rightarrow> RunListQuery \<Rightarrow> ('d RunRow list \<times> nat) store" where
  "list_runs duration q =
     op_read (\<lambda>db.
       let found = filter (\<lambda>r. eval_clauses (run_view db r) (map fst (where_clauses q)) (where_params q)) (t_runs db) in
       (map (run_row duration)
          (take (min (q_limit q) (nat I64_MAX)) (drop (min (q_offset q) (nat I64_MAX))
             (sort_by (run_order duration (q_sort_field q) (q_sort_order q)) found))),
        length found))"

section \<open>What the listing returns\<close>

definition meta_filter_matches :: "MetadataFilter \<Rightarrow> (string \<times> string) list \<Rightarrow> bool" where
  "meta_filter_matches f rows \<longleftrightarrow>
     (\<exists>(k, x) \<in> set rows. (mf_key f = k \<or> mf_legacy_key f = Some k)
        \<and> (case mf_value f of None \<Rightarrow> True | Some v \<Rightarrow> x = v))"

definition opt_holds :: "'a option \<Rightarrow> ('a \<Rightarrow> bool) \<Rightarrow> bool" where
  "opt_holds x P \<longleftrightarrow> (case x of None \<Rightarrow> True | Some v \<Rightarrow> P v)"

definition query_matches :: "RunListQuery \<Rightarrow> RunView \<Rightarrow> bool" where
  "query_matches q w \<longleftrightarrow>
     opt_holds (q_project q) (\<lambda>p. rn_project_id (rv_run w) = p \<or> rv_project_name w = Some p)
   \<and> opt_holds (q_owner q) (\<lambda>u. rn_user_id (rv_run w) = Some u)
   \<and> opt_holds (q_status q) (\<lambda>s. rn_status (rv_run w) = s)
   \<and> opt_holds (q_query q) (\<lambda>s. some_matches Contains s (rn_name (rv_run w)) \<or> contains_text s (rn_id (rv_run w)))
   \<and> opt_holds (q_name q) (\<lambda>n. rn_name (rv_run w) = Some n)
   \<and> opt_holds (q_created_after q) (\<lambda>t. t \<le> rn_created_at (rv_run w))
   \<and> opt_holds (q_created_before q) (\<lambda>t. rn_created_at (rv_run w) \<le> t)
   \<and> (\<forall>f \<in> set (q_tags q). meta_filter_matches f (rv_tags w))
   \<and> (\<forall>f \<in> set (q_params q). meta_filter_matches f (rv_params w))
   \<and> opt_holds (q_filter q) (\<lambda>e. expr_matches w e)"

text \<open>A clause with its values: it uses them up and holds exactly when the property does.\<close>

definition clause_means :: "RunView \<Rightarrow> SqlCond \<times> string list \<Rightarrow> bool \<Rightarrow> bool" where
  "clause_means w c b \<longleftrightarrow>
     (\<forall>ps. snd (sql_eval w (fst c) (snd c @ ps)) = ps \<and> (fst (sql_eval w (fst c) (snd c @ ps)) = Some True \<longleftrightarrow> b))"

definition clauses_mean :: "RunView \<Rightarrow> (SqlCond \<times> string list) list \<Rightarrow> bool \<Rightarrow> bool" where
  "clauses_mean w cs b \<longleftrightarrow>
     (\<forall>ds ps. eval_clauses w (map fst cs @ ds) (concat (map snd cs) @ ps) \<longleftrightarrow> b \<and> eval_clauses w ds ps)"

lemma clauses_append:
  "clauses_mean w cs b \<Longrightarrow> clauses_mean w ds c \<Longrightarrow> clauses_mean w (cs @ ds) (b \<and> c)"
  by (simp add: clauses_mean_def)

lemma clauses_map:
  "(\<And>f. f \<in> set fs \<Longrightarrow> clause_means w (g f) (P f)) \<Longrightarrow> clauses_mean w (map g fs) (\<forall>f \<in> set fs. P f)"
  by (induction fs) (auto simp: clauses_mean_def clause_means_def)

lemma clauses_opt:
  "(\<And>v. x = Some v \<Longrightarrow> clause_means w (f v) (P v)) \<Longrightarrow> clauses_mean w (opt_clause x f) (opt_holds x P)"
  by (auto simp: clauses_mean_def clause_means_def opt_clause_def opt_holds_def split: option.splits)

lemma clause_means_cong: "clause_means w c b \<Longrightarrow> b = b' \<Longrightarrow> clause_means w c b'"
  by simp

lemma means_cmp:
  "clause_means w (SCmp c op, [p]) (case column_value w c of None \<Rightarrow> False | Some x \<Rightarrow> cmp_holds op x p)"
  by (auto simp: clause_means_def split: option.splits)

lemma means_or:
  "clause_means w (SOr (SCmp c op) (SCmp c' op'), [p, p'])
     ((case column_value w c of None \<Rightarrow> False | Some x \<Rightarrow> cmp_holds op x p)
    \<or> (case column_value w c' of None \<Rightarrow> False | Some x \<Rightarrow> cmp_holds op' x p'))"
  by (auto simp: clause_means_def split: option.splits)

lemma means_meta: "clause_means w (meta_clause t f) (meta_filter_matches f (meta_rows w t))"
  by (auto simp: clause_means_def meta_clause_def meta_filter_matches_def split: option.splits)

lemma means_expr:
  "list_all wf_condition (conditions e) \<Longrightarrow>
   clause_means w (expr_cond e, snd (append_run_filter_expr_sql e)) (expr_matches w e)"
  unfolding clause_means_def using expr_eval [of e w] by (metis fst_conv snd_conv)

lemma where_clauses_mean:
  assumes "opt_holds (q_filter q) (\<lambda>e. list_all wf_condition (conditions e))"
  shows "clauses_mean w (where_clauses q) (query_matches q w)"
  unfolding where_clauses_def query_matches_def
  by (intro clauses_append clauses_map clauses_opt clause_means_cong [OF means_or] clause_means_cong [OF means_cmp]
        clause_means_cong [OF means_meta] means_expr)
     (use assms in \<open>auto simp: opt_holds_def some_matches_def contains_text_def split: option.splits\<close>)

lemma row_order_run: "row_order (run_order duration field d)"
proof -
  have dir: "row_order (by_dir d f)" for f :: "'r \<Rightarrow> 'k::linorder" by (cases d) (simp_all add: by_dir_def)
  show ?thesis unfolding run_order_def by (cases field) (auto intro!: row_order_then dir)
qed

lemma list_runs_apply:
  assumes "opt_holds (q_filter q) (\<lambda>e. list_all wf_condition (conditions e))"
  shows "list_runs duration q db =
    (let S = sort_by (run_order duration (q_sort_field q) (q_sort_order q))
               (filter (\<lambda>r. query_matches q (run_view db r)) (t_runs db)) in
     (Ok (map (run_row duration) (take (min (q_limit q) (nat I64_MAX)) (drop (min (q_offset q) (nat I64_MAX)) S)), length S), db))"
proof -
  have "eval_clauses w (map fst (where_clauses q)) (where_params q) \<longleftrightarrow> query_matches q w" for w
    using where_clauses_mean [OF assms, of w] unfolding clauses_mean_def where_params_def
    by (metis append_Nil2 eval_clauses.simps(1))
  then show ?thesis by (simp add: list_runs_def Let_def where_params_def)
qed

text \<open>
  C5: the run list. For a query whose filter the parser accepted, the total is the number of runs
  that satisfy every given condition in its plain reading, and the page is the requested slice
  of exactly those runs, sorted by the requested column and direction with ties broken by
  creation time and id; pages are slices of one sequence, so consecutive pages neither overlap
  nor leave a gap.
\<close>

theorem list_runs_spec:
  assumes "opt_holds (q_filter q) (\<lambda>e. list_all wf_condition (conditions e))"
  shows "\<exists>S. mset S = mset (filter (\<lambda>r. query_matches q (run_view db r)) (t_runs db))
    \<and> sorted_wrt (run_order duration (q_sort_field q) (q_sort_order q)) S
    \<and> (\<forall>lim off. list_runs duration (q\<lparr>q_limit := lim, q_offset := off\<rparr>) db =
         (Ok (map (run_row duration) (take (min lim (nat I64_MAX)) (drop (min off (nat I64_MAX)) S)), length S), db))"
proof -
  let ?S = "sort_by (run_order duration (q_sort_field q) (q_sort_order q)) (filter (\<lambda>r. query_matches q (run_view db r)) (t_runs db))"
  have "query_matches (q\<lparr>q_limit := lim, q_offset := off\<rparr>) w = query_matches q w" for lim off w
    by (simp add: query_matches_def)
  then have "list_runs duration (q\<lparr>q_limit := lim, q_offset := off\<rparr>) db =
      (Ok (map (run_row duration) (take (min lim (nat I64_MAX)) (drop (min off (nat I64_MAX)) ?S)), length ?S), db)" for lim off
    using assms by (simp add: list_runs_apply)
  then show ?thesis
    by (intro exI [of _ ?S]) (simp add: sorted_sort_by [OF row_order_run])
qed

definition sample_query :: RunListQuery where
  "sample_query =
     \<lparr>q_project = Some ''demo'', q_owner = None, q_status = Some ''running'', q_query = None, q_name = None,
      q_created_after = None, q_created_before = None,
      q_tags = [\<lparr>mf_key = ''tags.a'', mf_legacy_key = Some ''a'', mf_value = Some ''3''\<rparr>], q_params = [],
      q_filter = Some (Condition \<lparr>rfc_target = Name, rfc_op = Contains, rfc_value = ''IRS''\<rparr>),
      q_sort_field = SortName, q_sort_order = Asc, q_limit = 10, q_offset = 0\<rparr>"

lemma list_runs_spec_witness:
  "where_text sample_query =
     '' WHERE 1=1 AND (r.project_id = ? OR p.name = ?) AND r.status = ?'' @
     '' AND EXISTS (SELECT 1 FROM tags t WHERE t.run_id = r.id AND (t.key = ? OR t.key = ?) AND t.value = ?)'' @
     '' AND r.name LIKE ?''
   \<and> where_params sample_query = [''demo'', ''demo'', ''running'', ''tags.a'', ''a'', ''3'', ''%IRS%'']
   \<and> (\<exists>S. mset S = mset (filter (\<lambda>r. query_matches sample_query (run_view sample_db r)) (t_runs sample_db))
       \<and> (\<forall>lim off. fst (list_runs (\<lambda>_ _. None :: nat option) (sample_query\<lparr>q_limit := lim, q_offset := off\<rparr>) sample_db) =
           Ok (map (run_row (\<lambda>_ _. None)) (take (min lim (nat I64_MAX)) (drop (min off (nat I64_MAX)) S)), length S)))"
proof -
  have wf: "opt_holds (q_filter sample_query) (\<lambda>e. list_all wf_condition (conditions e))" by code_simp
  have "where_text sample_query =
     '' WHERE 1=1 AND (r.project_id = ? OR p.name = ?) AND r.status = ?'' @
     '' AND EXISTS (SELECT 1 FROM tags t WHERE t.run_id = r.id AND (t.key = ? OR t.key = ?) AND t.value = ?)'' @
     '' AND r.name LIKE ?''" by code_simp
  moreover have "where_params sample_query = [''demo'', ''demo'', ''running'', ''tags.a'', ''a'', ''3'', ''%IRS%'']"
    by code_simp
  ultimately show ?thesis
    using list_runs_spec [OF wf, of sample_db "\<lambda>_ _. None :: nat option"] by auto
qed

end
