(* ===== verification/Store_Props.thy ===== *)
theory Store_Props
  imports Sqlite_Runs
begin

text \<open>
  What the operations of the SQLite store promise: the constraints hold in every state its
  operations can reach, whether they succeed or fail; deletions leave no reference behind;
  upserts are last-writer-wins; revoked and expired share links do not validate; polling for
  events misses none.
\<close>

section \<open>Reachable states\<close>

text \<open>One step of the store: any of its writing operations, with any outcome.\<close>

inductive store_step :: "Db \<Rightarrow> Db \<Rightarrow> bool" where
  step_get_or_create_project: "store_step db (snd (get_or_create_project fresh now name db))"
| step_create_project: "store_step db (snd (create_project fresh now name d db))"
| step_delete_project: "store_step db (snd (delete_project pid db))"
| step_user: "store_step db (snd (get_or_create_user_identity fresh now prov sub em dn db))"
| step_set_user_disabled: "store_step db (snd (set_user_disabled now uid dis db))"
| step_sync_admin: "store_step db (snd (sync_platform_admin_flag uid ae db))"
| step_grant: "store_step db (snd (grant_project_membership fresh now pid uid role g db))"
| step_audit: "store_step db (snd (insert_audit_event now a db))"
| step_insert_session: "store_step db (snd (insert_auth_session now sid uid th ch ex ua ip db))"
| step_touch_session: "store_step db (snd (touch_auth_session later now sid ttl db))"
| step_revoke_session_token: "store_step db (snd (revoke_auth_session_by_token_hash now th db))"
| step_revoke_session_id: "store_step db (snd (revoke_auth_session_by_id now sid db))"
| step_revoke_sessions: "store_step db (snd (revoke_all_sessions_for_user now uid db))"
| step_insert_key: "store_step db (snd (insert_api_key now kid kh fp pf pr us nm sc ex' db))"
| step_bootstrap: "store_step db (snd (upsert_bootstrap_api_key now kid kh fp pf ex' db))"
| step_touch_key: "store_step db (snd (touch_api_key_last_used now kh db))"
| step_revoke_key_id: "store_step db (snd (revoke_api_key_by_id now kid db))"
| step_revoke_key_hash: "store_step db (snd (revoke_api_key_by_hash now kh db))"
| step_create_run: "store_step db (snd (create_run now rid pid nm' kid' uid' db))"
| step_delete_run: "store_step db (snd (delete_run rid db))"
| step_finish_run: "store_step db (snd (finish_run now rid st db))"
| step_increment: "store_step db (snd (increment_metrics_count now rid n db))"
| step_set_tags: "store_step db (snd (set_tags rid kvs db))"
| step_insert_metrics: "store_step db (snd (insert_metrics rid ms db))"
| step_insert_params: "store_step db (snd (insert_params now rid kvs db))"
| step_insert_events: "store_step db (snd (insert_run_events now rid es db))"
| step_record_batch: "store_step db (snd (record_batch now bid rid seq h db))"
| step_upsert_alias: "store_step db (snd (upsert_metric_alias now pid mn dn' un de ac db))"
| step_delete_alias: "store_step db (snd (delete_metric_alias pid mn db))"
| step_create_share: "store_step db (snd (create_share_token now th rid kp ex' db))"
| step_revoke_share: "store_step db (snd (revoke_share_token now th lg db))"

inductive store_reach :: "Db \<Rightarrow> bool" where
  reach_init: "store_reach init_schema"
| reach_step: "store_reach db \<Longrightarrow> store_step db db' \<Longrightarrow> store_reach db'"

lemma preserves_snd: "preserves I m \<Longrightarrow> I db \<Longrightarrow> I (snd (m db))"
  by (simp add: preserves_def)

lemma store_step_ok: "store_step db db' \<Longrightarrow> db_ok db \<Longrightarrow> db_ok db'"
  by (induction rule: store_step.induct) (rule preserves_snd; (rule preserves_intros | assumption))+

lemma store_reach_ok: "store_reach db \<Longrightarrow> db_ok db"
  by (induction rule: store_reach.induct) (auto simp: init_schema_ok intro: store_step_ok)

text \<open>A sample history: the accounts of the sample database, a run and its first data.\<close>

definition sample_run_db :: Db where
  "sample_run_db =
     snd (insert_run_events ''2026-01-02 00:00:00'' ''r1''
       [\<lparr>ei_level = ''info'', ei_source = ''sdk'', ei_message = ''hi'', ei_step = None, ei_timestamp = None\<rparr>,
        \<lparr>ei_level = ''info'', ei_source = ''sdk'', ei_message = ''bye'', ei_step = None, ei_timestamp = None\<rparr>]
     (snd (create_share_token ''2026-01-02 00:00:00'' ''sh1'' ''r1'' None (Some ''2026-03-01 00:00:00'')
     (snd (insert_params ''2026-01-02 00:00:00'' ''r1'' [(''parameters.lr'', ''0.1'')]
     (snd (set_tags ''r1'' [(''tags.a'', ''1''), (''tags.b'', ''2''), (''tags.a'', ''3'')]
     (snd (create_run ''2026-01-02 00:00:00'' ''r1'' ''p1'' (Some ''first'') (Some ''k1'') (Some ''u1'') sample_db)))))))))"

lemma sample_db_steps: "store_reach sample_db"
proof -
  let ?now = "''2026-01-01 00:00:00''"
  let ?d1 = "snd (get_or_create_user_identity ''u1'' ?now ''jwt'' ''sub-1'' (Some ''a@b.c'') None init_schema)"
  let ?d2 = "snd (get_or_create_project ''p1'' ?now ''demo'' ?d1)"
  let ?d3 = "snd (grant_project_membership ''m1'' ?now ''p1'' ''u1'' ''owner'' (Some ''u1'') ?d2)"
  let ?d4 = "snd (insert_api_key ?now ''k1'' ''hash1'' (Some ''fp1'') ''mlrunx_a'' (Some ''p1'') (Some ''u1'') None ''[]'' None ?d3)"
  let ?d5 = "snd (insert_auth_session ?now ''s1'' ''u1'' ''th1'' ''ch1'' ''2026-02-01 00:00:00'' None None ?d4)"
  have "store_reach ?d1" by (rule reach_step [OF reach_init step_user])
  then have "store_reach ?d2" by (rule reach_step [OF _ step_get_or_create_project])
  then have "store_reach ?d3" by (rule reach_step [OF _ step_grant])
  then have "store_reach ?d4" by (rule reach_step [OF _ step_insert_key])
  then have "store_reach ?d5" by (rule reach_step [OF _ step_insert_session])
  moreover have "sample_db = ?d5" by code_simp
  ultimately show ?thesis by simp
qed

lemma sample_run_db_steps: "store_reach sample_run_db"
  unfolding sample_run_db_def
  by (intro reach_step [OF _ step_insert_events] reach_step [OF _ step_create_share]
    reach_step [OF _ step_insert_params] reach_step [OF _ step_set_tags] reach_step [OF _ step_create_run]
    sample_db_steps)

section \<open>Deleting a run\<close>

lemma clear_run_only:
  "filter (\<lambda>t. tg_run_id t \<noteq> rid) (t_tags (clear_run rid db)) = filter (\<lambda>t. tg_run_id t \<noteq> rid) (t_tags db)"
  "filter (\<lambda>m. mt_run_id m \<noteq> rid) (t_metrics (clear_run rid db)) = filter (\<lambda>m. mt_run_id m \<noteq> rid) (t_metrics db)"
  "filter (\<lambda>p. pm_run_id p \<noteq> rid) (t_params (clear_run rid db)) = filter (\<lambda>p. pm_run_id p \<noteq> rid) (t_params db)"
  by (simp_all add: clear_run_def delete_where_def)

lemma clear_run_noop:
  assumes "\<not> run_referenced rid db"
  shows "clear_run rid db = db"
proof -
  have "delete_where P xs = xs" if "\<And>x. x \<in> set xs \<Longrightarrow> \<not> P x" for P :: "'r \<Rightarrow> bool" and xs
    using that by (induction xs) auto
  then show ?thesis
    using assms unfolding clear_run_def run_referenced_def
    by (intro Db.equality) (auto simp: delete_where_def set_present intro!: update_where_none filter_True)
qed

lemma delete_run_result:
  "delete_run rid db =
     (if rid \<in> set (run_ids db)
      then (Ok (), (clear_run rid db)\<lparr>t_runs := delete_where (\<lambda>r. rn_id r = rid) (t_runs db)\<rparr>)
      else (Err (run_not_found rid), (clear_run rid db)\<lparr>t_runs := delete_where (\<lambda>r. rn_id r = rid) (t_runs db)\<rparr>))"
  using clear_run_unreferenced [of rid db]
  by (auto simp: delete_run_def op_bind_apply run_exists_def delete_run_row_def op_stmt_apply count_where_pos
    split: option.splits)

text \<open>
  deleting a run. The deletion of a run that exists succeeds: no foreign key can stop it,
  the run and every row that referred to it are gone, the audit trail keeps all its events
  with the reference cleared, and the rows of every other run are as they were. The deletion
  of a run that does not exist reports NotFound and changes nothing.
\<close>

lemma delete_run_spec:
  assumes "db_ok db" and "delete_run rid db = (r, db')"
  shows "(if rid \<in> set (run_ids db)
          then r = Ok () \<and> rid \<notin> set (run_ids db') \<and> \<not> run_referenced rid db'
             \<and> t_runs db' = filter (\<lambda>x. rn_id x \<noteq> rid) (t_runs db)
             \<and> t_tags db' = filter (\<lambda>x. tg_run_id x \<noteq> rid) (t_tags db)
             \<and> t_metrics db' = filter (\<lambda>x. mt_run_id x \<noteq> rid) (t_metrics db)
             \<and> t_params db' = filter (\<lambda>x. pm_run_id x \<noteq> rid) (t_params db)
             \<and> map au_id (t_audit_events db') = map au_id (t_audit_events db)
          else r = Err (run_not_found rid) \<and> db' = db)"
proof (cases "rid \<in> set (run_ids db)")
  case True
  have "\<not> run_referenced rid db'"
    using assms(2) clear_run_unreferenced [of rid db] True by (auto simp: delete_run_result run_referenced_def)
  with True assms(2) show ?thesis
    by (auto simp: delete_run_result clear_run_def delete_where_def map_update_where)
next
  case False
  then have "\<not> run_referenced rid db"
    using db_okD(7,9-14) [OF assms(1)] by (auto simp: run_referenced_def table_ok_defs)
  moreover have "delete_where (\<lambda>r. rn_id r = rid) (t_runs db) = t_runs db"
    using False by (auto simp: delete_where_def intro!: filter_True)
  ultimately show ?thesis using False assms(2) by (simp add: delete_run_result clear_run_noop)
qed

section \<open>Deleting a project\<close>

definition drop_run :: "string \<Rightarrow> Db \<Rightarrow> Db" where
  "drop_run rid db = (clear_run rid db)\<lparr>t_runs := delete_where (\<lambda>r. rn_id r = rid) (t_runs db)\<rparr>"

lemma drop_run_op: "clear_and_delete_run rid db = (Ok (), drop_run rid db)"
  using clear_run_unreferenced [of rid db]
  by (simp add: clear_and_delete_run_def op_bind_apply delete_run_row_def op_stmt_apply drop_run_def)

lemma drop_runs_op:
  "op_for clear_and_delete_run rids db = (Ok (), fold drop_run rids db)"
  by (induction rids arbitrary: db) (simp_all add: drop_run_op op_bind_apply)

lemma drop_runs_frame:
  "t_projects (fold drop_run rids db) = t_projects db"
  "t_api_keys (fold drop_run rids db) = t_api_keys db"
  "t_memberships (fold drop_run rids db) = t_memberships db"
  "t_aliases (fold drop_run rids db) = t_aliases db"
  "t_runs (fold drop_run rids db) = filter (\<lambda>r. rn_id r \<notin> set rids) (t_runs db)"
  by (induction rids arbitrary: db)
     (simp_all add: drop_run_def delete_where_def conj_commute)

text \<open>A run of another project that one of the project's keys created.\<close>

definition foreign_run :: "string \<Rightarrow> Db \<Rightarrow> bool" where
  "foreign_run pid db \<longleftrightarrow>
     (\<exists>r \<in> set (t_runs db). rn_project_id r \<noteq> pid \<and>
        (\<exists>k \<in> set (t_api_keys db). ak_project_id k = Some pid \<and> rn_key_id r = Some (ak_id k)))"

lemma project_runs_gone:
  assumes "distinct (run_ids db)"
  shows "t_runs (fold drop_run (map rn_id (filter (\<lambda>r. rn_project_id r = pid) (t_runs db))) db) =
    filter (\<lambda>r. rn_project_id r \<noteq> pid) (t_runs db)"
proof -
  have "rn_id r \<in> rn_id ` {x \<in> set (t_runs db). rn_project_id x = pid} \<longleftrightarrow> rn_project_id r = pid"
    if "r \<in> set (t_runs db)" for r
    using assms that by (auto simp: distinct_map inj_on_def)
  then show ?thesis by (auto simp: drop_runs_frame intro!: filter_cong)
qed

lemma clear_project_audit_frame [simp]:
  "t_runs (clear_project_audit pid db) = t_runs db" "t_api_keys (clear_project_audit pid db) = t_api_keys db"
  "t_projects (clear_project_audit pid db) = t_projects db"
  "t_memberships (clear_project_audit pid db) = t_memberships db"
  "t_aliases (clear_project_audit pid db) = t_aliases db"
  by (simp_all add: clear_project_audit_def Let_def)

lemma clear_project_audit_refs:
  "pid \<notin> set (present au_project_id (t_audit_events (clear_project_audit pid db)))"
  "k \<in> set (t_api_keys db) \<Longrightarrow> ak_project_id k = Some pid \<Longrightarrow>
   ak_id k \<notin> set (present au_key_id (t_audit_events (clear_project_audit pid db)))"
  by (force simp: clear_project_audit_def Let_def set_present set_update_where split: if_splits option.splits)+

text \<open>
  deleting a project. An unknown project is NotFound. Otherwise either the transaction
  removes the project with its runs, keys, memberships and aliases, leaving no reference to it
  in any table and the runs and keys of the other projects untouched; or, exactly when a key of
  the project created a run of another project, the foreign key stops it and the database is
  left as it was.
\<close>

lemma delete_project_spec:
  assumes "db_ok db" and "delete_project pid db = (r, db')"
  shows "(if pid \<notin> set (project_ids db) then r = Err (NotFound (''Project not found: '' @ sq pid)) \<and> db' = db
          else if foreign_run pid db then r = Err (Database ForeignKeyViolation) \<and> db' = db
          else r = Ok () \<and> pid \<notin> set (project_ids db') \<and> \<not> project_referenced pid db'
             \<and> t_runs db' = filter (\<lambda>x. rn_project_id x \<noteq> pid) (t_runs db)
             \<and> t_api_keys db' = filter (\<lambda>k. ak_project_id k \<noteq> Some pid) (t_api_keys db)
             \<and> t_projects db' = filter (\<lambda>p. pj_id p \<noteq> pid) (t_projects db))"
proof (cases "pid \<in> set (project_ids db)")
  case False
  then have "find (\<lambda>p. pj_id p = pid) (t_projects db) = None" by (auto simp: find_None_conv)
  with False assms(2) show ?thesis
    by (auto simp: delete_project_def op_atomic_def op_bind_apply)
next
  case True
  then have found: "find (\<lambda>p. pj_id p = pid) (t_projects db) \<noteq> None" by (auto simp: find_None_conv)
  define rids where "rids = map rn_id (filter (\<lambda>r. rn_project_id r = pid) (t_runs db))"
  define db2 where "db2 = clear_project_audit pid (fold drop_run rids db)"
  have runs: "t_runs db2 = filter (\<lambda>r. rn_project_id r \<noteq> pid) (t_runs db)"
    using project_runs_gone db_okD(8) [OF assms(1)] by (simp add: db2_def rids_def runs_ok_def)
  have tables: "t_api_keys db2 = t_api_keys db" "t_projects db2 = t_projects db"
    by (simp_all add: db2_def drop_runs_frame)
  have refs: "pid \<notin> set (present au_project_id (t_audit_events db2))"
    "k \<in> set (t_api_keys db) \<Longrightarrow> ak_project_id k = Some pid \<Longrightarrow>
       ak_id k \<notin> set (present au_key_id (t_audit_events db2))" for k
    unfolding db2_def using clear_project_audit_refs [of _ "fold drop_run rids db"]
    by (simp_all add: drop_runs_frame)
  have check: "(\<forall>k \<in> set (t_api_keys db2). ak_project_id k = Some pid \<longrightarrow> \<not> key_referenced (ak_id k) db2)
    \<longleftrightarrow> \<not> foreign_run pid db"
    using refs(2) by (auto simp: key_referenced_def tables runs foreign_run_def set_present)
  let ?db3 = "db2\<lparr>t_api_keys := delete_where (\<lambda>k. ak_project_id k = Some pid) (t_api_keys db2)\<rparr>"
  let ?db4 = "?db3\<lparr>t_memberships := delete_where (\<lambda>m. mb_project_id m = pid) (t_memberships ?db3),
                  t_aliases := delete_where (\<lambda>a. al_project_id a = pid) (t_aliases ?db3)\<rparr>"
  have free: "\<not> project_referenced pid ?db4"
    using refs(1) by (auto simp: project_referenced_def runs set_present)
  have "delete_project pid db =
    (if foreign_run pid db then (Err (Database ForeignKeyViolation), db)
     else (Ok (), ?db4\<lparr>t_projects := delete_where (\<lambda>p. pj_id p = pid) (t_projects ?db4)\<rparr>))"
  proof -
    have keys: "delete_project_keys pid db2 =
      (if foreign_run pid db then (Err (Database ForeignKeyViolation), db2) else (Ok (), ?db3))"
      using check by (simp add: delete_project_keys_def op_stmt_apply)
    have row: "delete_project_row pid ?db4 =
      (Ok (), ?db4\<lparr>t_projects := delete_where (\<lambda>p. pj_id p = pid) (t_projects ?db4)\<rparr>)"
      using free by (simp add: delete_project_row_def op_stmt_apply)
    show ?thesis
      using found unfolding delete_project_def op_atomic_def
      by (simp add: op_bind_apply drop_runs_op rids_def [symmetric] db2_def [symmetric] keys row [simplified])
  qed
  with assms(2) True free show ?thesis
    by (auto simp: project_referenced_def delete_where_def runs tables)
qed

lemma sample_run_db_ok: "db_ok sample_run_db"
  using sample_run_db_steps by (rule store_reach_ok)

text \<open>
  C3: the store keeps its integrity, and integrity never blocks a deletion. In every state the
  store's operations can reach, in any order and whether they succeed or fail half-way, every
  uniqueness constraint and every foreign key of the schema holds and the ids of run events
  increase. In such a state the deletion of a run that exists succeeds: exactly the run and its
  tags, metrics, events, parameters, batches and share links go, the audit trail loses the reference
  and no row, and everything else is as it was. The deletion of a project that exists removes it
  with its runs and keys and leaves no reference to it, unless one of its keys created a run of
  another project: exactly then the foreign key stops it and nothing changes. What does not exist
  is reported as not found, and nothing changes.
\<close>

theorem store_integrity:
  assumes "store_reach db"
  shows "db_ok db
    \<and> delete_run rid db =
        (if rid \<in> set (run_ids db)
         then (Ok (), db\<lparr>
           t_runs := filter (\<lambda>r. rn_id r \<noteq> rid) (t_runs db),
           t_tags := filter (\<lambda>r. tg_run_id r \<noteq> rid) (t_tags db),
           t_metrics := filter (\<lambda>r. mt_run_id r \<noteq> rid) (t_metrics db),
           t_run_events := filter (\<lambda>r. ev_run_id r \<noteq> rid) (t_run_events db),
           t_params := filter (\<lambda>r. pm_run_id r \<noteq> rid) (t_params db),
           t_batches := filter (\<lambda>r. ba_run_id r \<noteq> rid) (t_batches db),
           t_share_tokens := filter (\<lambda>r. sh_run_id r \<noteq> rid) (t_share_tokens db),
           t_audit_events := map (\<lambda>e. if au_run_id e = Some rid then e\<lparr>au_run_id := None\<rparr> else e) (t_audit_events db)\<rparr>)
         else (Err (run_not_found rid), db))
    \<and> (if pid \<notin> set (project_ids db) then delete_project pid db = (Err (NotFound (''Project not found: '' @ sq pid)), db)
       else if foreign_run pid db then delete_project pid db = (Err (Database ForeignKeyViolation), db)
       else \<exists>db'. delete_project pid db = (Ok (), db') \<and> \<not> project_referenced pid db'
          \<and> t_projects db' = filter (\<lambda>p. pj_id p \<noteq> pid) (t_projects db)
          \<and> t_runs db' = filter (\<lambda>x. rn_project_id x \<noteq> pid) (t_runs db)
          \<and> t_api_keys db' = filter (\<lambda>k. ak_project_id k \<noteq> Some pid) (t_api_keys db))"
proof (intro conjI)
  show ok: "db_ok db" using assms by (rule store_reach_ok)
  show "delete_run rid db =
        (if rid \<in> set (run_ids db)
         then (Ok (), db\<lparr>
           t_runs := filter (\<lambda>r. rn_id r \<noteq> rid) (t_runs db),
           t_tags := filter (\<lambda>r. tg_run_id r \<noteq> rid) (t_tags db),
           t_metrics := filter (\<lambda>r. mt_run_id r \<noteq> rid) (t_metrics db),
           t_run_events := filter (\<lambda>r. ev_run_id r \<noteq> rid) (t_run_events db),
           t_params := filter (\<lambda>r. pm_run_id r \<noteq> rid) (t_params db),
           t_batches := filter (\<lambda>r. ba_run_id r \<noteq> rid) (t_batches db),
           t_share_tokens := filter (\<lambda>r. sh_run_id r \<noteq> rid) (t_share_tokens db),
           t_audit_events := map (\<lambda>e. if au_run_id e = Some rid then e\<lparr>au_run_id := None\<rparr> else e) (t_audit_events db)\<rparr>)
         else (Err (run_not_found rid), db))"
  proof (cases "rid \<in> set (run_ids db)")
    case True
    then show ?thesis by (simp add: delete_run_result clear_run_def delete_where_def update_where_def)
  next
    case False
    with delete_run_spec [OF ok, of rid "fst (delete_run rid db)" "snd (delete_run rid db)"] show ?thesis
      by (simp add: prod_eq_iff)
  qed
  show "if pid \<notin> set (project_ids db) then delete_project pid db = (Err (NotFound (''Project not found: '' @ sq pid)), db)
       else if foreign_run pid db then delete_project pid db = (Err (Database ForeignKeyViolation), db)
       else \<exists>db'. delete_project pid db = (Ok (), db') \<and> \<not> project_referenced pid db'
          \<and> t_projects db' = filter (\<lambda>p. pj_id p \<noteq> pid) (t_projects db)
          \<and> t_runs db' = filter (\<lambda>x. rn_project_id x \<noteq> pid) (t_runs db)
          \<and> t_api_keys db' = filter (\<lambda>k. ak_project_id k \<noteq> Some pid) (t_api_keys db)"
    using delete_project_spec [OF ok, of pid "fst (delete_project pid db)" "snd (delete_project pid db)"]
    by (auto simp: prod_eq_iff split: if_splits)
qed

lemma store_integrity_witness:
  "db_ok sample_run_db \<and> fst (delete_run ''r1'' sample_run_db) = Ok () \<and> t_run_events (snd (delete_run ''r1'' sample_run_db)) = []
   \<and> delete_run ''r9'' sample_run_db = (Err (run_not_found ''r9''), sample_run_db)
   \<and> fst (delete_project ''p1'' sample_run_db) = Ok ()"
proof -
  have facts: "run_ids sample_run_db = [''r1'']" "project_ids sample_run_db = [''p1'']" "\<not> foreign_run ''p1'' sample_run_db"
    "filter (\<lambda>r. ev_run_id r \<noteq> ''r1'') (t_run_events sample_run_db) = []"
    by code_simp+
  show ?thesis
    using store_integrity [OF sample_run_db_steps, of "''r1''" "''p1''"] store_integrity [OF sample_run_db_steps, of "''r9''" "''p1''"]
    by (auto simp: facts simp del: set_map)
qed

section \<open>Upserts\<close>

lemma set_tags_table:
  assumes "rid \<in> set (run_ids db)"
  shows "set_tags rid kvs db = (Ok (), db\<lparr>t_tags :=
    fold upsert_tag (map (\<lambda>(k, v). \<lparr>tg_run_id = rid, tg_key = k, tg_value = v\<rparr>) kvs) (t_tags db)\<rparr>)"
  using assms
proof (induction kvs arbitrary: db)
  case (Cons kv kvs)
  then show ?case by (cases kv) (simp add: set_tags_def op_bind_apply op_stmt_apply)
qed (simp add: set_tags_def)

text \<open>
  Setting tags. On a run that exists the whole batch is stored; afterwards each key has at
  most one row, its value is the last one the batch gives it, and a key the batch does not
  mention keeps the value it had. On a run that does not exist a non-empty batch fails on the
  foreign key and stores nothing.
\<close>

theorem set_tags_last_wins:
  assumes "db_ok db" and "set_tags rid kvs db = (r, db')"
  shows "if rid \<in> set (run_ids db)
    then r = Ok () \<and> distinct (map tag_pk (t_tags db'))
      \<and> map_option tg_value (find (\<lambda>t. tag_pk t = (rid, key)) (t_tags db')) =
        (case map_of (rev kvs) key of
           Some v \<Rightarrow> Some v
         | None \<Rightarrow> map_option tg_value (find (\<lambda>t. tag_pk t = (rid, key)) (t_tags db)))
    else db' = db \<and> (kvs \<noteq> [] \<longrightarrow> r = Err (Database ForeignKeyViolation))"
proof (cases "rid \<in> set (run_ids db)")
  case False
  with assms(2) show ?thesis by (cases kvs) (auto simp: set_tags_def op_bind_apply op_stmt_apply split_def)
next
  case True
  let ?rows = "map (\<lambda>(k, v). \<lparr>tg_run_id = rid, tg_key = k, tg_value = v\<rparr>) kvs"
  have db': "t_tags db' = fold upsert_tag ?rows (t_tags db)" and r: "r = Ok ()"
    using set_tags_table [OF True, of kvs] assms(2) by auto
  have "distinct (map tag_pk (t_tags db))"
    using db_okD(9) [OF assms(1)] by (simp add: tags_ok_def tag_pk_def [abs_def])
  then have "distinct (map tag_pk (t_tags db'))" unfolding db' by (rule tag_table.fold_distinct)
  moreover have "find (\<lambda>t. tag_pk t = (rid, key)) (map (\<lambda>(k, v). \<lparr>tg_run_id = rid, tg_key = k, tg_value = v\<rparr>) xs) =
    map_option (\<lambda>v. \<lparr>tg_run_id = rid, tg_key = key, tg_value = v\<rparr>) (map_of xs key)" for xs
    by (induction xs) (auto simp: tag_pk_def)
  ultimately show ?thesis
    using True r tag_table.fold_last [of "(rid, key)" ?rows "t_tags db"] unfolding db'
    by (auto simp: rev_map split: option.splits)
qed

lemma set_tags_last_wins_witness:
  "let d = set_tags ''r1'' [(''tags.a'', ''4''), (''tags.c'', ''5'')] sample_run_db in
   map_option tg_value (find (\<lambda>t. tag_pk t = (''r1'', ''tags.a'')) (t_tags (snd d))) = Some ''4''
   \<and> map_option tg_value (find (\<lambda>t. tag_pk t = (''r1'', ''tags.b'')) (t_tags (snd d))) = Some ''2''"
proof -
  let ?kvs = "[(''tags.a'', ''4''), (''tags.c'', ''5'')]"
  let ?d = "set_tags ''r1'' ?kvs sample_run_db"
  have "run_ids sample_run_db = [''r1'']" by code_simp
  moreover have "map_option tg_value (find (\<lambda>t. tag_pk t = (''r1'', ''tags.b'')) (t_tags sample_run_db)) = Some ''2''"
    by code_simp
  ultimately show ?thesis
    using set_tags_last_wins [OF sample_run_db_ok, of "''r1''" ?kvs "fst ?d" "snd ?d" "''tags.a''"]
      set_tags_last_wins [OF sample_run_db_ok, of "''r1''" ?kvs "fst ?d" "snd ?d" "''tags.b''"]
    by (simp add: Let_def del: map_option_eq_Some)
qed

section \<open>Share links\<close>

interpretation share_of: revocable share_selected sh_revoked_at stamp_share
  by unfold_locales (auto simp: stamp_share_def share_selected_def)

lemma validate_share_token_Ok:
  "validate_share_token now th lg db = (Ok row, db') \<Longrightarrow>
     row \<in> set (t_share_tokens db) \<and> share_selected (th, lg) row \<and> sh_revoked_at row = None
   \<and> (\<forall>ex. sh_expires_at row = Some ex \<longrightarrow> now \<le> ex)"
  by (auto simp: validate_share_token_def not_less dest!: find_SomeD split: option.splits if_splits)

text \<open>
  share links. A link validates only for a stored token that is neither revoked nor past
  its expiry, and reports that token's run; once the token has been revoked it never validates
  again, at no time, whatever was stored; revoking it a second time reports NotFound.
\<close>

lemma share_token_revocation:
  assumes "revoke_share_token now th lg db = (r, db')"
  shows "(validate_share_token t th lg db = (Ok row, db'') \<longrightarrow>
       row \<in> set (t_share_tokens db) \<and> sh_revoked_at row = None
       \<and> (\<forall>ex. sh_expires_at row = Some ex \<longrightarrow> t \<le> ex) \<and> r = Ok ())
    \<and> \<not> is_ok (fst (validate_share_token t th lg db'))
    \<and> fst (revoke_share_token t th lg db') = Err (NotFound ''Share token not found or already revoked.'')"
proof (intro conjI impI)
  have db': "t_share_tokens db' = share_of.revoke now (th, lg) (t_share_tokens db)"
    and r: "r = (if count_where (share_of.live (th, lg)) (t_share_tokens db) = 0
      then Err (NotFound ''Share token not found or already revoked.'') else Ok ())"
    using assms by (auto simp: revoke_share_token_def Let_def share_of.revoke_def share_of.live_def [abs_def])
  show "\<not> is_ok (fst (validate_share_token t th lg db'))"
  proof
    assume "is_ok (fst (validate_share_token t th lg db'))"
    then obtain x where "validate_share_token t th lg db' = (Ok x, snd (validate_share_token t th lg db'))"
      by (auto simp: is_ok_iff prod_eq_iff)
    from validate_share_token_Ok [OF this] show False using share_of.revoke_kills db' by fastforce
  qed
  show "fst (revoke_share_token t th lg db') = Err (NotFound ''Share token not found or already revoked.'')"
    using share_of.revoke_no_live [of "(th, lg)" now "t_share_tokens db"]
    by (simp add: revoke_share_token_def Let_def db' share_of.live_def [abs_def])
  assume "validate_share_token t th lg db = (Ok row, db'')"
  note v = validate_share_token_Ok [OF this]
  then show "row \<in> set (t_share_tokens db)" "sh_revoked_at row = None"
    "\<forall>ex. sh_expires_at row = Some ex \<longrightarrow> t \<le> ex" by auto
  show "r = Ok ()" using v by (auto simp: r count_where_0 share_of.live_def)
qed

lemma share_token_revocation_witness:
  "is_ok (fst (validate_share_token ''2026-02-01 00:00:00'' ''sh1'' None sample_run_db))
   \<and> \<not> is_ok (fst (validate_share_token ''2026-02-01 00:00:00'' ''sh1'' None
         (snd (revoke_share_token ''2026-01-05 00:00:00'' ''sh1'' None sample_run_db))))
   \<and> \<not> is_ok (fst (validate_share_token ''2026-04-01 00:00:00'' ''sh1'' None sample_run_db))"
proof -
  let ?r = "revoke_share_token ''2026-01-05 00:00:00'' ''sh1'' None sample_run_db"
  have "is_ok (fst (validate_share_token ''2026-02-01 00:00:00'' ''sh1'' None sample_run_db))"
    "\<not> is_ok (fst (validate_share_token ''2026-04-01 00:00:00'' ''sh1'' None sample_run_db))"
    by code_simp+
  then show ?thesis
    using share_token_revocation [of "''2026-01-05 00:00:00''" "''sh1''" None sample_run_db "fst ?r" "snd ?r"
      "''2026-02-01 00:00:00''"] by simp
qed

section \<open>Polling for events\<close>

definition events_after :: "string \<Rightarrow> int option \<Rightarrow> Db \<Rightarrow> RunEventRow list" where
  "events_after rid after db =
     filter (\<lambda>e. ev_run_id e = rid \<and> (case after of Some n \<Rightarrow> n < ev_id e | None \<Rightarrow> True)) (t_run_events db)"

lemma insert_by_first: "(\<And>y. y \<in> set ys \<Longrightarrow> le x y) \<Longrightarrow> insert_by le x ys = x # ys"
  by (cases ys) auto

lemma sort_by_sorted: "sorted_wrt le xs \<Longrightarrow> sort_by le xs = xs"
  by (induction xs) (auto simp: sort_by_def insert_by_first)

lemma list_run_events_page:
  assumes "db_ok db"
  shows "list_run_events rid after lmt db = (Ok (take (min (max lmt 1) 1000) (events_after rid after db)), db)"
proof -
  have "sorted_wrt (<) (map ev_id (t_run_events db))" using db_okD(12) [OF assms] by (simp add: events_ok_def)
  then have "sorted_wrt (asc ev_id) (events_after rid after db)"
    unfolding events_after_def sorted_wrt_map
    by (intro sorted_wrt_filter) (auto simp: asc_def elim: sorted_wrt_mono_rel [rotated])
  then show ?thesis by (simp add: list_run_events_def events_after_def sort_by_sorted)
qed

lemma sorted_split_after:
  assumes "sorted_wrt (\<lambda>x y. ev_id x < ev_id y) (us @ z # ys)"
  shows "filter (\<lambda>e. ev_id z < ev_id e) (us @ z # ys) = ys"
  using assms by (fastforce simp: sorted_wrt_append filter_empty_conv intro: filter_True)

text \<open>
  polling for events. A page holds at most a thousand events, oldest first; it is empty only
  when nothing is left; and the page followed by everything a client gets by asking again after
  the id of its last event is exactly what there was to read: no event is skipped or repeated.
\<close>

lemma event_polling_complete:
  assumes "db_ok db" and "list_run_events rid after lmt db = (Ok es, db')"
  shows "length es \<le> 1000 \<and> db' = db \<and>
    (if es = [] then events_after rid after db = []
     else events_after rid after db = es @ events_after rid (Some (ev_id (last es))) db)"
proof -
  let ?all = "events_after rid after db"
  have es: "es = take (min (max lmt 1) 1000) ?all" and db': "db' = db"
    using assms(2) unfolding list_run_events_page [OF assms(1)] by auto
  have "sorted_wrt (<) (map ev_id (t_run_events db))" using db_okD(12) [OF assms(1)] by (simp add: events_ok_def)
  then have sorted: "sorted_wrt (\<lambda>x y. ev_id x < ev_id y) ?all"
    unfolding events_after_def sorted_wrt_map by (rule sorted_wrt_filter)
  show ?thesis
  proof (cases es rule: rev_cases)
    case Nil
    then have "?all = []" by (simp add: es min_def max_def split: if_splits)
    with Nil es db' show ?thesis by simp
  next
    case (snoc us z)
    define ys where "ys = drop (min (max lmt 1) 1000) ?all"
    have all: "?all = us @ z # ys" using snoc es by (simp add: ys_def) (metis append_take_drop_id append_Cons append_Nil append_assoc)
    have "z \<in> set ?all" using all by simp
    then have "events_after rid (Some (ev_id z)) db = filter (\<lambda>e. ev_id z < ev_id e) ?all"
      by (auto simp: events_after_def intro!: filter_cong split: option.splits)
    also have "\<dots> = ys" using sorted unfolding all by (rule sorted_split_after)
    finally have "?all = es @ events_after rid (Some (ev_id (last es))) db" using snoc all by simp
    moreover have "length es \<le> 1000" by (simp add: es)
    ultimately show ?thesis using snoc db' by simp
  qed
qed

lemma event_polling_complete_witness:
  "\<exists>e1 e2. fst (list_run_events ''r1'' None 1 sample_run_db) = Ok [e1]
     \<and> events_after ''r1'' None sample_run_db = [e1, e2]
     \<and> events_after ''r1'' (Some (ev_id e1)) sample_run_db = [e2]"
proof -
  let ?p = "list_run_events ''r1'' None 1 sample_run_db"
  obtain e1 e2 where all: "events_after ''r1'' None sample_run_db = [e1, e2]"
  proof -
    have "length (events_after ''r1'' None sample_run_db) = 2" by code_simp
    then show ?thesis using that by (auto simp: numeral_2_eq_2 length_Suc_conv)
  qed
  have "?p = (Ok [e1], sample_run_db)" by (simp add: list_run_events_page [OF sample_run_db_ok] all)
  moreover from event_polling_complete [OF sample_run_db_ok this]
  have "events_after ''r1'' (Some (ev_id e1)) sample_run_db = [e2]" by (simp add: all)
  ultimately show ?thesis using all by (intro exI [of _ e1] exI [of _ e2]) simp
qed

end
