(* ===== verification/Structured.thy ===== *)
theory Structured
  imports Metadata Schema
begin

text \<open>
  Structured run events (apps/api/src/main.rs): charts and images arrive as JSON in the message
  of an event and are checked, trimmed and re-encoded before they are stored, and decoded again
  when they are listed. JSON values are \<open>serde_json::Value\<close>: an object is its list of members in
  the order of iteration (serde_json keeps them sorted by key). Encoding and decoding belong to
  serde_json and are parameters; the decoding of a JSON value into the envelope struct is the
  derived one (an object with a string member \<open>kind\<close> and optional members \<open>payload\<close> and
  \<open>truncated\<close>, or the array of the fields in order).
\<close>

section \<open>JSON values\<close>

datatype JsonNumber = PosInt nat | NegInt int | Float f64

datatype Json =
    JNull | JBool bool | JNumber JsonNumber | JString string
  | JArray "Json list" | JObject "(string \<times> Json) list"

text \<open>serde_json: \<open>to_string\<close> or its error, \<open>from_str\<close>, and \<open>from_str\<close> straight into the envelope.\<close>

record StructuredEnvelope =
  en_kind :: string
  en_payload :: Json
  en_truncated :: bool

record Serde =
  json_to_string :: "Json \<Rightarrow> (string, string) result"
  json_from_str :: "string \<Rightarrow> Json option"
  envelope_from_str :: "string \<Rightarrow> StructuredEnvelope option"

fun as_str :: "Json \<Rightarrow> string option" where
  "as_str (JString s) = Some s"
| "as_str _ = None"

fun as_object :: "Json \<Rightarrow> (string \<times> Json) list option" where
  "as_object (JObject ms) = Some ms"
| "as_object _ = None"

definition empty_object :: Json where
  "empty_object = JObject []"

fun json_value_depth :: "Json \<Rightarrow> nat" where
  "json_value_depth (JArray items) = 1 + fold max (map json_value_depth items) 0"
| "json_value_depth (JObject ms) = 1 + fold max (map (json_value_depth \<circ> snd) ms) 0"
| "json_value_depth _ = 1"

definition stringify_config_param_value :: "Serde \<Rightarrow> Json \<Rightarrow> (string, string) result" where
  "stringify_config_param_value sd v =
     (if METADATA_MAX_DEPTH < json_value_depth v
      then Err (''config value exceeds max depth '' @ show_nat METADATA_MAX_DEPTH)
      else
        try_bind
          (case v of
             JString text \<Rightarrow> Ok text
           | _ \<Rightarrow> map_err (\<lambda>err. ''failed to encode config value: '' @ err) (json_to_string sd v))
          (\<lambda>encoded. try_bind (validate_param_value encoded) (\<lambda>_. Ok encoded)))"

section \<open>Plain events\<close>

text \<open>\<open>chars().take(n)\<close> on UTF-8: stop in front of the byte that starts character \<open>n\<close>.\<close>

fun take_chars :: "nat \<Rightarrow> string \<Rightarrow> string" where
  "take_chars n [] = []"
| "take_chars n (c # cs) =
     (if 128 \<le> byte c \<and> byte c < 192 then c # take_chars n cs
      else if n = 0 then [] else c # take_chars (n - 1) cs)"

text \<open>\<open>map(str::trim).filter(|v| !v.is_empty())\<close>\<close>

definition trimmed_nonempty :: "string option \<Rightarrow> string option" where
  "trimmed_nonempty v =
     (case v of None \<Rightarrow> None | Some s \<Rightarrow> if trim s = [] then None else Some (trim s))"

abbreviation RUN_EVENT_MAX_LEN :: nat where "RUN_EVENT_MAX_LEN \<equiv> 16000"

definition normalize_run_event_level :: "string option \<Rightarrow> string" where
  "normalize_run_event_level raw =
     (let level = to_ascii_lowercase
        (case trimmed_nonempty raw of Some v \<Rightarrow> v | None \<Rightarrow> ''info'') in
      if level = ''debug'' then ''debug''
      else if level = ''warn'' \<or> level = ''warning'' then ''warn''
      else if level = ''error'' then ''error''
      else ''info'')"

definition normalize_run_event_source :: "string option \<Rightarrow> string" where
  "normalize_run_event_source raw =
     (let normalized = (case trimmed_nonempty raw of Some v \<Rightarrow> v | None \<Rightarrow> ''sdk'') in
      if length normalized \<le> 64 then normalized else take_chars 64 normalized)"

definition sanitize_run_event_message :: "string \<Rightarrow> string option" where
  "sanitize_run_event_message raw =
     (let trimmed = trim raw in
      if trimmed = [] then None
      else if length trimmed \<le> RUN_EVENT_MAX_LEN then Some trimmed
      else Some (take_chars RUN_EVENT_MAX_LEN trimmed))"

section \<open>Checks of a JSON tree\<close>

fun str_contains :: "string \<Rightarrow> string \<Rightarrow> bool" where
  "str_contains pat [] \<longleftrightarrow> pat = []"
| "str_contains pat (c # s) \<longleftrightarrow> take (length pat) (c # s) = pat \<or> str_contains pat s"

abbreviation STRUCTURED_JSON_MAX_DEPTH :: nat where "STRUCTURED_JSON_MAX_DEPTH \<equiv> 8"
abbreviation STRUCTURED_JSON_MAX_STRING_LEN :: nat where "STRUCTURED_JSON_MAX_STRING_LEN \<equiv> 2048"
abbreviation CHART_DATA_MAX_BYTES :: nat where "CHART_DATA_MAX_BYTES \<equiv> 32000"
abbreviation CHART_LAYOUT_MAX_BYTES :: nat where "CHART_LAYOUT_MAX_BYTES \<equiv> 12000"
abbreviation CHART_OPTIONS_MAX_BYTES :: nat where "CHART_OPTIONS_MAX_BYTES \<equiv> 12000"
abbreviation CHART_METADATA_MAX_BYTES :: nat where "CHART_METADATA_MAX_BYTES \<equiv> 8000"
abbreviation IMAGE_METADATA_MAX_BYTES :: nat where "IMAGE_METADATA_MAX_BYTES \<equiv> 8000"

text \<open>A loop that stops at the first error.\<close>

fun for_each :: "('a \<Rightarrow> (unit, 'e) result) \<Rightarrow> 'a list \<Rightarrow> (unit, 'e) result" where
  "for_each f [] = Ok ()"
| "for_each f (x # xs) = try_bind (f x) (\<lambda>_. for_each f xs)"

lemma for_each_cong [fundef_cong]:
  "xs = ys \<Longrightarrow> (\<And>x. x \<in> set ys \<Longrightarrow> f x = g x) \<Longrightarrow> for_each f xs = for_each g ys"
  by (induction ys arbitrary: xs) auto

definition check_object_key :: "string \<Rightarrow> (unit, string) result" where
  "check_object_key key =
     (if to_ascii_lowercase key \<in> {''__proto__'', ''constructor'', ''prototype''}
      then Err ''structured payload contains forbidden object key''
      else if METADATA_MAX_SEGMENT_LEN < length key
      then Err (''structured payload key '' @ sq key @ '' exceeds max length ''
        @ show_nat METADATA_MAX_SEGMENT_LEN)
      else Ok ())"

definition check_json_text :: "string \<Rightarrow> (unit, string) result" where
  "check_json_text text =
     (if STRUCTURED_JSON_MAX_STRING_LEN < length text
      then Err (''structured payload string exceeds max length ''
        @ show_nat STRUCTURED_JSON_MAX_STRING_LEN)
      else
        (let lowered = to_ascii_lowercase text in
         if str_contains ''<script'' lowered \<or> str_contains ''javascript:'' lowered
         then Err ''structured payload contains unsafe script-like content''
         else Ok ()))"

lemma size_member: "m \<in> set ms \<Longrightarrow> size (snd m) < Suc (size_list (size_prod (\<lambda>_. 0) size) ms)"
  by (induction ms) (auto simp: less_Suc_eq_le)

function (sequential) validate_structured_json_tree :: "Json \<Rightarrow> nat \<Rightarrow> (unit, string) result" where
  "validate_structured_json_tree v depth =
     (if STRUCTURED_JSON_MAX_DEPTH < depth
      then Err (''structured payload exceeds max depth '' @ show_nat STRUCTURED_JSON_MAX_DEPTH)
      else
        (case v of
           JObject ms \<Rightarrow>
             for_each (\<lambda>m. try_bind (check_object_key (fst m)) (\<lambda>_.
               validate_structured_json_tree (snd m) (depth + 1))) ms
         | JArray items \<Rightarrow> for_each (\<lambda>child. validate_structured_json_tree child (depth + 1)) items
         | JString text \<Rightarrow> check_json_text text
         | _ \<Rightarrow> Ok ()))"
  by pat_completeness auto

termination
  by (relation "measure (size \<circ> fst)") (auto simp: less_Suc_eq_le size_list_estimation' dest!: size_member)

declare validate_structured_json_tree.simps [simp del]

section \<open>Images and charts\<close>

definition json_serialized_size :: "Serde \<Rightarrow> Json \<Rightarrow> (nat, string) result" where
  "json_serialized_size sd v =
     try_bind (map_err (\<lambda>err. ''failed to serialize JSON payload: '' @ err) (json_to_string sd v))
       (\<lambda>bytes. Ok (length bytes))"

definition check_size :: "Serde \<Rightarrow> string \<Rightarrow> nat \<Rightarrow> Json \<Rightarrow> (unit, string) result" where
  "check_size sd what bound v =
     try_bind (json_serialized_size sd v) (\<lambda>size.
       if bound < size
       then Err (what @ '' exceeds max size '' @ show_nat bound @ '' bytes'')
       else Ok ())"

definition check_len :: "string \<Rightarrow> nat \<Rightarrow> string \<Rightarrow> (unit, string) result" where
  "check_len what bound s =
     (if bound < length s then Err (what @ '' exceeds max length '' @ show_nat bound) else Ok ())"

text \<open>\<open>object.get(key).and_then(as_str).map(trim).filter(non-empty)\<close>\<close>

definition text_member :: "(string \<times> Json) list \<Rightarrow> string \<Rightarrow> string option" where
  "text_member ms key = trimmed_nonempty (Option.bind (map_of ms key) as_str)"

definition json_member :: "(string \<times> Json) list \<Rightarrow> string \<Rightarrow> Json" where
  "json_member ms key = (case map_of ms key of Some v \<Rightarrow> v | None \<Rightarrow> empty_object)"

definition path_member :: "(string \<times> Json) list \<Rightarrow> Json option" where
  "path_member ms =
     (case map_of ms ''path'' of Some v \<Rightarrow> Some v | None \<Rightarrow> map_of ms ''uri'')"

definition json_of_text :: "string option \<Rightarrow> Json" where
  "json_of_text v = (case v of Some s \<Rightarrow> JString s | None \<Rightarrow> JNull)"

definition sanitize_structured_image_payload :: "Serde \<Rightarrow> Json \<Rightarrow> (Json, string) result" where
  "sanitize_structured_image_payload sd payload =
     try_bind (ok_or (as_object payload) ''image payload must be a JSON object'') (\<lambda>ob.
     try_bind (ok_or (text_member ob ''name'') ''image payload.name is required'') (\<lambda>name.
     try_bind (check_len ''image payload.name'' 256 name) (\<lambda>_.
     try_bind (ok_or (trimmed_nonempty (Option.bind (path_member ob) as_str))
                 ''image payload.path is required'') (\<lambda>path.
     try_bind (check_len ''image payload.path'' 4096 path) (\<lambda>_.
     let caption = text_member ob ''caption'' in
     try_bind (case caption of Some text \<Rightarrow> check_len ''image payload.caption'' 1024 text
               | None \<Rightarrow> Ok ()) (\<lambda>_.
     let metadata = json_member ob ''metadata'' in
     try_bind (validate_structured_json_tree metadata 1) (\<lambda>_.
     try_bind (check_size sd ''image payload.metadata'' IMAGE_METADATA_MAX_BYTES metadata) (\<lambda>_.
       Ok (JObject [(''caption'', json_of_text caption), (''metadata'', metadata),
                    (''name'', JString name), (''path'', JString path)])))))))))"

definition sanitize_structured_chart_payload :: "Serde \<Rightarrow> Json \<Rightarrow> (Json, string) result" where
  "sanitize_structured_chart_payload sd payload =
     try_bind (ok_or (as_object payload) ''chart payload must be a JSON object'') (\<lambda>ob.
     try_bind (ok_or (text_member ob ''name'') ''chart payload.name is required'') (\<lambda>name.
     try_bind (check_len ''chart payload.name'' 256 name) (\<lambda>_.
     let chart_type = (case text_member ob ''chart_type'' of Some v \<Rightarrow> v | None \<Rightarrow> ''custom'') in
     try_bind (check_len ''chart payload.chart_type'' 64 chart_type) (\<lambda>_.
     let renderer_hint = (case text_member ob ''renderer_hint'' of Some v \<Rightarrow> v | None \<Rightarrow> ''auto'') in
     try_bind (check_len ''chart payload.renderer_hint'' 64 renderer_hint) (\<lambda>_.
     let data = json_member ob ''data''; layout = json_member ob ''layout'';
         options = json_member ob ''options''; metadata = json_member ob ''metadata'' in
     try_bind (validate_structured_json_tree data 1) (\<lambda>_.
     try_bind (validate_structured_json_tree layout 1) (\<lambda>_.
     try_bind (validate_structured_json_tree options 1) (\<lambda>_.
     try_bind (validate_structured_json_tree metadata 1) (\<lambda>_.
     try_bind (check_size sd ''chart payload.data'' CHART_DATA_MAX_BYTES data) (\<lambda>_.
     try_bind (check_size sd ''chart payload.layout'' CHART_LAYOUT_MAX_BYTES layout) (\<lambda>_.
     try_bind (check_size sd ''chart payload.options'' CHART_OPTIONS_MAX_BYTES options) (\<lambda>_.
     try_bind (check_size sd ''chart payload.metadata'' CHART_METADATA_MAX_BYTES metadata) (\<lambda>_.
       Ok (JObject [(''chart_type'', JString chart_type), (''data'', data), (''layout'', layout),
                    (''metadata'', metadata), (''name'', JString name), (''options'', options),
                    (''renderer_hint'', JString renderer_hint)]))))))))))))))"

section \<open>The envelope\<close>

text \<open>\<open>serde_json::from_value\<close> at the envelope: a missing or ill-typed member is an error.\<close>

definition envelope_from_value :: "Json \<Rightarrow> StructuredEnvelope option" where
  "envelope_from_value v =
     (case v of
        JObject ms \<Rightarrow>
          (case (map_of ms ''kind'', map_of ms ''truncated'') of
             (Some (JString kind), None) \<Rightarrow>
               Some \<lparr>en_kind = kind, en_payload = (case map_of ms ''payload'' of Some p \<Rightarrow> p | None \<Rightarrow> JNull),
                     en_truncated = False\<rparr>
           | (Some (JString kind), Some (JBool t)) \<Rightarrow>
               Some \<lparr>en_kind = kind, en_payload = (case map_of ms ''payload'' of Some p \<Rightarrow> p | None \<Rightarrow> JNull),
                     en_truncated = t\<rparr>
           | _ \<Rightarrow> None)
      | JArray [JString kind] \<Rightarrow> Some \<lparr>en_kind = kind, en_payload = JNull, en_truncated = False\<rparr>
      | JArray [JString kind, p] \<Rightarrow> Some \<lparr>en_kind = kind, en_payload = p, en_truncated = False\<rparr>
      | JArray [JString kind, p, JBool t] \<Rightarrow> Some \<lparr>en_kind = kind, en_payload = p, en_truncated = t\<rparr>
      | _ \<Rightarrow> None)"

definition envelope_json :: "string \<Rightarrow> Json \<Rightarrow> Json" where
  "envelope_json kind payload = JObject [(''kind'', JString kind), (''payload'', payload)]"

definition encode_structured ::
  "Serde \<Rightarrow> string \<Rightarrow> (Serde \<Rightarrow> Json \<Rightarrow> (Json, string) result) \<Rightarrow> StructuredEnvelope \<Rightarrow>
   (string option, string) result" where
  "encode_structured sd kind sanitize envelope =
     (if en_truncated envelope
      then Err (kind @ '' payload was truncated and cannot be ingested'')
      else
        try_bind (sanitize sd (en_payload envelope)) (\<lambda>sanitized_payload.
        try_bind
          (map_err (\<lambda>err. ''failed to encode '' @ kind @ '' payload: '' @ err)
             (json_to_string sd (envelope_json kind sanitized_payload))) (\<lambda>encoded.
          if RUN_EVENT_MAX_LEN < length encoded
          then Err (kind @ '' structured message exceeds max length '' @ show_nat RUN_EVENT_MAX_LEN)
          else Ok (Some encoded))))"

definition sanitize_structured_event_message :: "Serde \<Rightarrow> string \<Rightarrow> (string option, string) result" where
  "sanitize_structured_event_message sd raw_message =
     (case Option.bind (json_from_str sd raw_message) envelope_from_value of
        None \<Rightarrow> Ok None
      | Some envelope \<Rightarrow>
          if en_kind envelope = ''image''
          then encode_structured sd ''image'' sanitize_structured_image_payload envelope
          else if en_kind envelope = ''chart''
          then encode_structured sd ''chart'' sanitize_structured_chart_payload envelope
          else Ok None)"

definition parse_structured_payload_for_kind :: "Serde \<Rightarrow> string \<Rightarrow> string \<Rightarrow> Json option" where
  "parse_structured_payload_for_kind sd message expected_kind =
     Option.bind (envelope_from_str sd message) (\<lambda>envelope.
       if en_kind envelope = expected_kind \<and> \<not> en_truncated envelope
       then Some (en_payload envelope) else None)"

section \<open>Reading structured events back\<close>

record RunChartLogResponse =
  cl_event :: RunEventRow
  cl_name :: string
  cl_chart_type :: string
  cl_renderer_hint :: "string option"
  cl_data :: Json
  cl_layout :: Json
  cl_options :: Json
  cl_metadata :: Json

definition chart_log_from_event_row :: "Serde \<Rightarrow> RunEventRow \<Rightarrow> RunChartLogResponse option" where
  "chart_log_from_event_row sd row =
     Option.bind (parse_structured_payload_for_kind sd (ev_message row) ''chart'') (\<lambda>payload.
     Option.bind (as_object payload) (\<lambda>ob.
     Option.bind (Option.bind (map_of ob ''name'') as_str) (\<lambda>name.
       Some \<lparr>cl_event = row, cl_name = name,
             cl_chart_type = (case Option.bind (map_of ob ''chart_type'') as_str of
                                Some v \<Rightarrow> v | None \<Rightarrow> ''custom''),
             cl_renderer_hint = Option.bind (map_of ob ''renderer_hint'') as_str,
             cl_data = json_member ob ''data'', cl_layout = json_member ob ''layout'',
             cl_options = json_member ob ''options'', cl_metadata = json_member ob ''metadata''\<rparr>)))"

record RunImageLogResponse =
  im_event :: RunEventRow
  im_name :: string
  im_path :: string
  im_caption :: "string option"
  im_metadata :: Json

definition image_log_from_event_row :: "Serde \<Rightarrow> RunEventRow \<Rightarrow> RunImageLogResponse option" where
  "image_log_from_event_row sd row =
     Option.bind (parse_structured_payload_for_kind sd (ev_message row) ''image'') (\<lambda>payload.
     Option.bind (as_object payload) (\<lambda>ob.
     Option.bind (Option.bind (map_of ob ''name'') as_str) (\<lambda>name.
     Option.bind (Option.bind (path_member ob) as_str) (\<lambda>path.
       Some \<lparr>im_event = row, im_name = name, im_path = path,
             im_caption = Option.bind (map_of ob ''caption'') as_str,
             im_metadata = json_member ob ''metadata''\<rparr>))))"

definition parse_name_filter :: "string option \<Rightarrow> string set" where
  "parse_name_filter raw =
     (case raw of None \<Rightarrow> {}
      | Some v \<Rightarrow> set (filter (\<lambda>e. e \<noteq> []) (map trim (split_on CHR '','' v))))"

section \<open>What the checks of a tree accept\<close>

fun json_texts :: "Json \<Rightarrow> string list" where
  "json_texts (JString s) = [s]"
| "json_texts (JArray items) = concat (map json_texts items)"
| "json_texts (JObject ms) = concat (map (json_texts \<circ> snd) ms)"
| "json_texts _ = []"

fun json_keys :: "Json \<Rightarrow> string list" where
  "json_keys (JArray items) = concat (map json_keys items)"
| "json_keys (JObject ms) = map fst ms @ concat (map (json_keys \<circ> snd) ms)"
| "json_keys _ = []"

definition safe_text :: "string \<Rightarrow> bool" where
  "safe_text s \<longleftrightarrow> length s \<le> STRUCTURED_JSON_MAX_STRING_LEN
     \<and> \<not> str_contains ''<script'' (to_ascii_lowercase s)
     \<and> \<not> str_contains ''javascript:'' (to_ascii_lowercase s)"

definition safe_key :: "string \<Rightarrow> bool" where
  "safe_key k \<longleftrightarrow> length k \<le> METADATA_MAX_SEGMENT_LEN
     \<and> to_ascii_lowercase k \<notin> {''__proto__'', ''constructor'', ''prototype''}"

definition safe_json :: "nat \<Rightarrow> Json \<Rightarrow> bool" where
  "safe_json d v \<longleftrightarrow> json_value_depth v \<le> d \<and> list_all safe_text (json_texts v) \<and> list_all safe_key (json_keys v)"

lemma for_each_Ok: "for_each f xs = Ok () \<longleftrightarrow> (\<forall>x \<in> set xs. f x = Ok ())"
  by (induction xs) (auto simp: try_bind_Ok_iff)

lemma fold_max_le: "fold max ns m \<le> n \<longleftrightarrow> m \<le> n \<and> (\<forall>k \<in> set ns. k \<le> (n::nat))"
  by (induction ns arbitrary: m) auto

lemma Suc_fold_max_le: "0 < d \<Longrightarrow> Suc (fold max ns 0) \<le> d \<longleftrightarrow> (\<forall>k \<in> set ns. Suc k \<le> d)"
  using fold_max_le [of ns 0 "d - 1"] by (cases d) auto

lemma check_json_text_Ok: "check_json_text s = Ok () \<longleftrightarrow> safe_text s"
  by (auto simp: check_json_text_def safe_text_def Let_def)

lemma check_object_key_Ok: "check_object_key k = Ok () \<longleftrightarrow> safe_key k"
  by (auto simp: check_object_key_def safe_key_def)

lemma json_value_depth_pos: "1 \<le> json_value_depth v"
  by (cases v) simp_all

lemma try_bind_unit_Ok: "try_bind r f = Ok y \<longleftrightarrow> r = Ok () \<and> f () = Ok y"
  by (cases r) auto

lemma safe_json_JArray:
  "0 < d \<Longrightarrow> safe_json d (JArray items) \<longleftrightarrow> (\<forall>v \<in> set items. safe_json (d - 1) v)"
  by (auto simp: safe_json_def list_all_iff Suc_fold_max_le le_diff_conv2)

lemma safe_json_JObject:
  "0 < d \<Longrightarrow> safe_json d (JObject ms) \<longleftrightarrow> (\<forall>m \<in> set ms. safe_key (fst m) \<and> safe_json (d - 1) (snd m))"
  by (auto simp: safe_json_def list_all_iff Suc_fold_max_le le_diff_conv2)

lemma validate_tree_depth:
  "0 < depth \<Longrightarrow>
   validate_structured_json_tree v depth = Ok () \<longleftrightarrow> safe_json (STRUCTURED_JSON_MAX_DEPTH + 1 - depth) v"
proof (induction v depth rule: validate_structured_json_tree.induct)
  case (1 v depth)
  show ?case
  proof (cases "STRUCTURED_JSON_MAX_DEPTH < depth")
    case True
    then show ?thesis
      using json_value_depth_pos [of v] by (simp add: validate_structured_json_tree.simps safe_json_def)
  next
    case False
    note unfold = validate_structured_json_tree.simps [where depth = depth]
    show ?thesis
    proof (cases v)
      case (JArray items)
      with False 1 show ?thesis by (simp add: unfold for_each_Ok safe_json_JArray)
    next
      case (JObject ms)
      have "validate_structured_json_tree (snd m) (depth + 1) = Ok () \<longleftrightarrow>
          safe_json (STRUCTURED_JSON_MAX_DEPTH - depth) (snd m)" if "m \<in> set ms" "safe_key (fst m)" for m
        using 1(2) [OF False JObject that(1)]
        by simp
      with False JObject 1(3) show ?thesis
        by (auto simp: unfold for_each_Ok safe_json_JObject try_bind_unit_Ok check_object_key_Ok)
    qed (use False in \<open>auto simp: unfold safe_json_def check_json_text_Ok\<close>)
  qed
qed

text \<open>
  C27: what a structured payload may contain. The recursive check accepts a JSON value exactly
  when it is nested at most eight levels deep, every string in it has at most 2048 bytes and no
  script-like text, and every object key in it has at most 64 bytes and is not one of the keys
  that reach a JavaScript prototype.
\<close>

theorem validate_structured_json_tree_spec:
  "validate_structured_json_tree v 1 = Ok () \<longleftrightarrow>
     json_value_depth v \<le> STRUCTURED_JSON_MAX_DEPTH
   \<and> list_all safe_text (json_texts v) \<and> list_all safe_key (json_keys v)"
  using validate_tree_depth [of 1 v] by (simp add: safe_json_def)

section \<open>Sanitising is idempotent, and what it stores can be read\<close>

lemma trimmed_nonempty_Some: "trimmed_nonempty v = Some t \<Longrightarrow> trim t = t \<and> t \<noteq> []"
  by (auto simp: trimmed_nonempty_def split: option.splits if_splits)

lemma trimmed_nonempty_fixed: "trim t = t \<Longrightarrow> t \<noteq> [] \<Longrightarrow> trimmed_nonempty (Some t) = Some t"
  by (simp add: trimmed_nonempty_def)

text \<open>What comes out of the sanitisers: the members in the order of their keys, texts trimmed.\<close>

definition clean_text :: "nat \<Rightarrow> string \<Rightarrow> bool" where
  "clean_text bound t \<longleftrightarrow> trim t = t \<and> t \<noteq> [] \<and> length t \<le> bound"

definition within_size :: "Serde \<Rightarrow> nat \<Rightarrow> Json \<Rightarrow> bool" where
  "within_size sd bound v \<longleftrightarrow> validate_structured_json_tree v 1 = Ok ()
     \<and> (\<exists>s. json_to_string sd v = Ok s \<and> length s \<le> bound)"

definition clean_image :: "Serde \<Rightarrow> string \<Rightarrow> string \<Rightarrow> string option \<Rightarrow> Json \<Rightarrow> bool" where
  "clean_image sd name path caption metadata \<longleftrightarrow>
     clean_text 256 name \<and> clean_text 4096 path
   \<and> (case caption of Some t \<Rightarrow> clean_text 1024 t | None \<Rightarrow> True)
   \<and> within_size sd IMAGE_METADATA_MAX_BYTES metadata"

definition image_json :: "string \<Rightarrow> string \<Rightarrow> string option \<Rightarrow> Json \<Rightarrow> Json" where
  "image_json name path caption metadata =
     JObject [(''caption'', json_of_text caption), (''metadata'', metadata),
              (''name'', JString name), (''path'', JString path)]"

definition clean_chart ::
  "Serde \<Rightarrow> string \<Rightarrow> string \<Rightarrow> string \<Rightarrow> Json \<Rightarrow> Json \<Rightarrow> Json \<Rightarrow> Json \<Rightarrow> bool" where
  "clean_chart sd name chart_type hint data layout options metadata \<longleftrightarrow>
     clean_text 256 name \<and> clean_text 64 chart_type \<and> clean_text 64 hint
   \<and> within_size sd CHART_DATA_MAX_BYTES data \<and> within_size sd CHART_LAYOUT_MAX_BYTES layout
   \<and> within_size sd CHART_OPTIONS_MAX_BYTES options \<and> within_size sd CHART_METADATA_MAX_BYTES metadata"

definition chart_json :: "string \<Rightarrow> string \<Rightarrow> string \<Rightarrow> Json \<Rightarrow> Json \<Rightarrow> Json \<Rightarrow> Json \<Rightarrow> Json" where
  "chart_json name chart_type hint data layout options metadata =
     JObject [(''chart_type'', JString chart_type), (''data'', data), (''layout'', layout),
              (''metadata'', metadata), (''name'', JString name), (''options'', options),
              (''renderer_hint'', JString hint)]"

lemma check_len_Ok: "check_len what bound s = Ok () \<longleftrightarrow> length s \<le> bound"
  by (auto simp: check_len_def)

lemma check_size_Ok: "check_size sd what bound v = Ok () \<longleftrightarrow> (\<exists>s. json_to_string sd v = Ok s \<and> length s \<le> bound)"
  by (cases "json_to_string sd v") (auto simp: check_size_def json_serialized_size_def)

lemmas sanitize_Ok_simps = try_bind_unit_Ok try_bind_Ok_iff [where r = "ok_or v e" for v e]
  check_len_Ok check_size_Ok Let_def

lemma text_member_clean: "text_member ms k = Some t \<Longrightarrow> length t \<le> n \<Longrightarrow> clean_text n t"
  by (auto simp: text_member_def clean_text_def dest: trimmed_nonempty_Some)

lemma image_sanitized:
  assumes "sanitize_structured_image_payload sd payload = Ok v"
  shows "\<exists>name path caption metadata.
    v = image_json name path caption metadata \<and> clean_image sd name path caption metadata"
proof -
  from assms obtain ob name path where
    ob: "text_member ob ''name'' = Some name" "length name \<le> 256"
      "trimmed_nonempty (Option.bind (path_member ob) as_str) = Some path" "length path \<le> 4096"
      "\<And>t. text_member ob ''caption'' = Some t \<Longrightarrow> length t \<le> 1024"
      "within_size sd IMAGE_METADATA_MAX_BYTES (json_member ob ''metadata'')"
      "v = image_json name path (text_member ob ''caption'') (json_member ob ''metadata'')"
    by (force simp: sanitize_structured_image_payload_def sanitize_Ok_simps within_size_def image_json_def
      split: option.splits)
  then have "clean_image sd name path (text_member ob ''caption'') (json_member ob ''metadata'')"
    using trimmed_nonempty_Some [OF ob(3)]
    by (auto simp: clean_image_def text_member_clean clean_text_def [of 4096] split: option.splits)
  with ob(7) show ?thesis by blast
qed

lemma clean_image_sanitized:
  assumes "clean_image sd name path caption metadata"
  shows "sanitize_structured_image_payload sd (image_json name path caption metadata)
    = Ok (image_json name path caption metadata)"
proof -
  have "text_member [(''caption'', json_of_text caption)] ''caption'' = caption"
    using assms by (cases caption)
      (auto simp: text_member_def json_of_text_def clean_image_def clean_text_def trimmed_nonempty_def)
  then show ?thesis
    using assms
    by (auto simp: sanitize_structured_image_payload_def image_json_def clean_image_def clean_text_def
      within_size_def text_member_def path_member_def json_member_def trimmed_nonempty_fixed
      sanitize_Ok_simps split: option.splits)
qed

lemma text_default_clean:
  assumes "length (case text_member ms k of Some v \<Rightarrow> v | None \<Rightarrow> d) \<le> n" "clean_text n d"
  shows "clean_text n (case text_member ms k of Some v \<Rightarrow> v | None \<Rightarrow> d)"
  using assms by (auto simp: text_member_clean split: option.splits)

lemma trim_words: "trim ''custom'' = ''custom''" "trim ''auto'' = ''auto''"
  by (intro trim_plain; simp add: plain_char_def byte_def ascii_ws_def)+

lemma chart_sanitized:
  assumes "sanitize_structured_chart_payload sd payload = Ok v"
  shows "\<exists>name chart_type hint data layout options metadata.
    v = chart_json name chart_type hint data layout options metadata
    \<and> clean_chart sd name chart_type hint data layout options metadata"
proof -
  let ?type = "\<lambda>ob. case text_member ob ''chart_type'' of Some v \<Rightarrow> v | None \<Rightarrow> ''custom''"
  let ?hint = "\<lambda>ob. case text_member ob ''renderer_hint'' of Some v \<Rightarrow> v | None \<Rightarrow> ''auto''"
  from assms obtain ob name where
    ob: "text_member ob ''name'' = Some name" "length name \<le> 256"
      "length (?type ob) \<le> 64" "length (?hint ob) \<le> 64"
      "within_size sd CHART_DATA_MAX_BYTES (json_member ob ''data'')"
      "within_size sd CHART_LAYOUT_MAX_BYTES (json_member ob ''layout'')"
      "within_size sd CHART_OPTIONS_MAX_BYTES (json_member ob ''options'')"
      "within_size sd CHART_METADATA_MAX_BYTES (json_member ob ''metadata'')"
      "v = chart_json name (?type ob) (?hint ob) (json_member ob ''data'') (json_member ob ''layout'')
        (json_member ob ''options'') (json_member ob ''metadata'')"
    by (auto simp: sanitize_structured_chart_payload_def sanitize_Ok_simps within_size_def chart_json_def)
  have "clean_text 64 (?type ob)" "clean_text 64 (?hint ob)"
    by (intro text_default_clean ob; simp add: clean_text_def trim_words)+
  with ob text_member_clean [OF ob(1,2)]
  have "clean_chart sd name (?type ob) (?hint ob) (json_member ob ''data'') (json_member ob ''layout'')
      (json_member ob ''options'') (json_member ob ''metadata'')"
    by (simp add: clean_chart_def)
  with ob(9) show ?thesis by blast
qed

lemma clean_chart_sanitized:
  "clean_chart sd name chart_type hint data layout options metadata \<Longrightarrow>
   sanitize_structured_chart_payload sd (chart_json name chart_type hint data layout options metadata)
    = Ok (chart_json name chart_type hint data layout options metadata)"
  by (auto simp: sanitize_structured_chart_payload_def chart_json_def clean_chart_def clean_text_def
    within_size_def text_member_def json_member_def trimmed_nonempty_fixed sanitize_Ok_simps)

lemma envelope_roundtrip:
  "envelope_from_value (envelope_json kind p) = Some \<lparr>en_kind = kind, en_payload = p, en_truncated = False\<rparr>"
  by (simp add: envelope_from_value_def envelope_json_def)

lemma encode_structured_Some:
  "encode_structured sd kind f en = Ok (Some enc) \<longleftrightarrow>
    \<not> en_truncated en \<and> (\<exists>p. f sd (en_payload en) = Ok p
      \<and> json_to_string sd (envelope_json kind p) = Ok enc \<and> length enc \<le> RUN_EVENT_MAX_LEN)"
  by (force simp: encode_structured_def try_bind_Ok_iff)

text \<open>The two shapes of a stored structured message.\<close>

lemma structured_message_cases:
  assumes "sanitize_structured_event_message sd raw = Ok (Some enc)"
  obtains (image) name path caption metadata where
    "clean_image sd name path caption metadata"
    "json_to_string sd (envelope_json ''image'' (image_json name path caption metadata)) = Ok enc"
    "length enc \<le> RUN_EVENT_MAX_LEN"
  | (chart) name chart_type hint data layout options metadata where
    "clean_chart sd name chart_type hint data layout options metadata"
    "json_to_string sd (envelope_json ''chart''
       (chart_json name chart_type hint data layout options metadata)) = Ok enc"
    "length enc \<le> RUN_EVENT_MAX_LEN"
  using assms
  by (auto simp: sanitize_structured_event_message_def encode_structured_Some
    split: option.splits if_splits dest!: image_sanitized chart_sanitized)

lemma stored_message_sanitized:
  assumes "sanitize_structured_event_message sd raw = Ok (Some enc)"
    and decode: "\<And>v. json_to_string sd v = Ok enc \<Longrightarrow> json_from_str sd enc = Some v"
  shows "sanitize_structured_event_message sd enc = Ok (Some enc)"
  using assms(1)
proof (cases rule: structured_message_cases)
  case (image name path caption metadata)
  with decode [OF image(2)] show ?thesis
    by (simp add: sanitize_structured_event_message_def envelope_roundtrip encode_structured_Some
      clean_image_sanitized)
next
  case (chart name chart_type hint data layout options metadata)
  with decode [OF chart(2)] show ?thesis
    by (simp add: sanitize_structured_event_message_def envelope_roundtrip encode_structured_Some
      clean_chart_sanitized)
qed

lemma image_readable:
  assumes "envelope_from_str sd (ev_message row)
    = Some \<lparr>en_kind = ''image'', en_payload = image_json name path caption metadata, en_truncated = False\<rparr>"
  shows "image_log_from_event_row sd row
    = Some \<lparr>im_event = row, im_name = name, im_path = path, im_caption = caption, im_metadata = metadata\<rparr>"
  using assms
  by (cases caption) (simp_all add: image_log_from_event_row_def parse_structured_payload_for_kind_def
    image_json_def path_member_def json_member_def json_of_text_def)

lemma chart_readable:
  assumes "envelope_from_str sd (ev_message row) = Some \<lparr>en_kind = ''chart'',
    en_payload = chart_json name chart_type hint data layout options metadata, en_truncated = False\<rparr>"
  shows "chart_log_from_event_row sd row
    = Some \<lparr>cl_event = row, cl_name = name, cl_chart_type = chart_type, cl_renderer_hint = Some hint,
            cl_data = data, cl_layout = layout, cl_options = options, cl_metadata = metadata\<rparr>"
  using assms by (simp add: chart_log_from_event_row_def parse_structured_payload_for_kind_def
    chart_json_def json_member_def)

text \<open>
  structured events survive storage. When serde_json decodes the encoded message to the value
  that was encoded, a message the sanitiser has accepted is a fixed point of the sanitiser, has at
  most 16000 bytes, and is listed again either as an image or as a chart: with a non-empty name,
  and with metadata, data, layout and options that pass the checks of the tree.
\<close>

lemma structured_event_roundtrip:
  assumes "sanitize_structured_event_message sd raw = Ok (Some enc)" "ev_message row = enc"
    and decode: "\<And>v. json_to_string sd v = Ok enc \<Longrightarrow>
      json_from_str sd enc = Some v \<and> envelope_from_str sd enc = envelope_from_value v"
  shows "sanitize_structured_event_message sd enc = Ok (Some enc) \<and> length enc \<le> RUN_EVENT_MAX_LEN
    \<and> ((\<exists>im. image_log_from_event_row sd row = Some im \<and> im_name im \<noteq> [] \<and> im_path im \<noteq> []
            \<and> safe_json STRUCTURED_JSON_MAX_DEPTH (im_metadata im))
       \<or> (\<exists>ch. chart_log_from_event_row sd row = Some ch \<and> cl_name ch \<noteq> []
            \<and> safe_json STRUCTURED_JSON_MAX_DEPTH (cl_data ch)
            \<and> safe_json STRUCTURED_JSON_MAX_DEPTH (cl_layout ch)
            \<and> safe_json STRUCTURED_JSON_MAX_DEPTH (cl_options ch)
            \<and> safe_json STRUCTURED_JSON_MAX_DEPTH (cl_metadata ch)))"
proof (intro conjI)
  show "sanitize_structured_event_message sd enc = Ok (Some enc)"
    using assms(1) decode by (intro stored_message_sanitized) auto
  show "length enc \<le> RUN_EVENT_MAX_LEN"
    using assms(1) by (cases rule: structured_message_cases)
  have safe: "within_size sd n v \<Longrightarrow> safe_json STRUCTURED_JSON_MAX_DEPTH v" for n v
    using validate_tree_depth [of 1 v] by (simp add: within_size_def)
  show "(\<exists>im. image_log_from_event_row sd row = Some im \<and> im_name im \<noteq> [] \<and> im_path im \<noteq> []
            \<and> safe_json STRUCTURED_JSON_MAX_DEPTH (im_metadata im))
       \<or> (\<exists>ch. chart_log_from_event_row sd row = Some ch \<and> cl_name ch \<noteq> []
            \<and> safe_json STRUCTURED_JSON_MAX_DEPTH (cl_data ch)
            \<and> safe_json STRUCTURED_JSON_MAX_DEPTH (cl_layout ch)
            \<and> safe_json STRUCTURED_JSON_MAX_DEPTH (cl_options ch)
            \<and> safe_json STRUCTURED_JSON_MAX_DEPTH (cl_metadata ch))"
    using assms(1)
  proof (cases rule: structured_message_cases)
    case (image name path caption metadata)
    with decode [OF image(2)] image_readable [of sd row] assms(2) show ?thesis
      by (auto simp: envelope_roundtrip clean_image_def clean_text_def intro: safe)
  next
    case (chart name chart_type hint data layout options metadata)
    with decode [OF chart(2)] chart_readable [of sd row] assms(2) show ?thesis
      by (auto simp: envelope_roundtrip clean_chart_def clean_text_def intro: safe)
  qed
qed

text \<open>A serde_json that knows two texts: an image payload as it arrives and as it is stored.\<close>

definition sample_image_in :: Json where
  "sample_image_in = envelope_json ''image''
     (JObject [(''name'', JString '' cat ''), (''uri'', JString ''a.png'')])"

definition sample_image_out :: Json where
  "sample_image_out = envelope_json ''image'' (image_json ''cat'' ''a.png'' None empty_object)"

definition sample_serde :: Serde where
  "sample_serde =
     \<lparr>json_to_string = (\<lambda>v. if v = sample_image_out then Ok ''out'' else if v = empty_object then Ok ''{}''
        else Err ''unknown''),
      json_from_str = (\<lambda>s. if s = ''in'' then Some sample_image_in else if s = ''out'' then Some sample_image_out
        else if s = ''{}'' then Some empty_object else None),
      envelope_from_str = (\<lambda>s. if s = ''in'' then envelope_from_value sample_image_in
        else if s = ''out'' then envelope_from_value sample_image_out else None)\<rparr>"

lemma sample_image_accepted: "sanitize_structured_event_message sample_serde ''in'' = Ok (Some ''out'')"
  by code_simp

lemma structured_event_roundtrip_witness:
  "sanitize_structured_event_message sample_serde ''out'' = Ok (Some ''out'')"
proof -
  define row :: RunEventRow where
    "row = \<lparr>ev_id = 1, ev_run_id = ''r'', ev_level = ''info'', ev_source = ''sdk'', ev_message = ''out'',
            ev_step = None, ev_timestamp = None, ev_created_at = ''t''\<rparr>"
  have "json_from_str sample_serde ''out'' = Some v
      \<and> envelope_from_str sample_serde ''out'' = envelope_from_value v"
    if "json_to_string sample_serde v = Ok ''out''" for v
    using that by (simp add: sample_serde_def split: if_splits)
  then show ?thesis
    using structured_event_roundtrip [OF sample_image_accepted, of row] by (simp add: row_def)
qed

text \<open>
  the path of an image is not checked for script content: a payload whose path is a
  \<open>javascript:\<close> URL is accepted and stored unchanged, although the same text anywhere in the
  metadata is refused as unsafe.
\<close>

lemma image_path_unchecked:
  "sanitize_structured_image_payload sample_serde
     (JObject [(''name'', JString ''x''), (''path'', JString ''javascript:alert(1)'')])
   = Ok (image_json ''x'' ''javascript:alert(1)'' None empty_object)
   \<and> validate_structured_json_tree (JString ''javascript:alert(1)'') 1
   = Err ''structured payload contains unsafe script-like content''"
  by code_simp

end
