(* ===== verification/Access.thy ===== *)
theory Access
  imports Sqlite_Accounts Structured
begin

text \<open>
  Who may do what: API keys and the request context (apps/api/src/auth/mod.rs), the ownership
  policy (crates/api-policy/src/lib.rs) and the checks the HTTP handlers call before they touch
  anything (apps/api/src/main.rs, require_*). A denial is recorded in the audit log. The
  environment, the clock of SQLite and the encoder of serde_json are arguments.
\<close>

section \<open>API keys and the request context\<close>

text \<open>Times of the process clock, in nanoseconds since the Unix epoch.\<close>

type_synonym SystemTime = int

record ApiKey =
  k_id :: string
  k_key_hash :: string
  k_key_prefix :: string
  k_project_id :: "string option"
  k_created_by_user_id :: "string option"
  k_name :: "string option"
  k_scopes :: "string list"
  k_created_at :: SystemTime
  k_last_used_at :: "SystemTime option"
  k_revoked_at :: "SystemTime option"
  k_expires_at :: "SystemTime option"

definition is_valid :: "SystemTime \<Rightarrow> ApiKey \<Rightarrow> bool" where
  "is_valid now k \<longleftrightarrow>
     (if k_revoked_at k \<noteq> None then False
      else (case k_expires_at k of Some expires_at \<Rightarrow> \<not> expires_at \<le> now | None \<Rightarrow> True))"

definition has_scope :: "ApiKey \<Rightarrow> string \<Rightarrow> bool" where
  "has_scope k scope \<longleftrightarrow> (if ''admin'' \<in> set (k_scopes k) then True else scope \<in> set (k_scopes k))"

definition can_access_project :: "ApiKey \<Rightarrow> string \<Rightarrow> bool" where
  "can_access_project k project_id \<longleftrightarrow>
     (if k_project_id k = None then True else k_project_id k = Some project_id)"

datatype AuthMode = ApiKeyMode | UiJwt

record AuthContext =
  api_key :: ApiKey
  is_dev_mode :: bool
  is_platform_admin :: bool
  allowed_project_ids :: "string set option"
  auth_mode :: AuthMode
  request_id :: string
  client_ip :: "string option"
  user_agent :: "string option"

definition dev_mode :: "SystemTime \<Rightarrow> string \<Rightarrow> AuthContext" where
  "dev_mode now fresh =
     \<lparr>api_key =
        \<lparr>k_id = ''dev'', k_key_hash = ''dev'', k_key_prefix = ''dev'', k_project_id = None,
         k_created_by_user_id = None, k_name = Some ''Dev Mode'', k_scopes = [''admin''],
         k_created_at = now, k_last_used_at = None, k_revoked_at = None, k_expires_at = None\<rparr>,
      is_dev_mode = True, is_platform_admin = True, allowed_project_ids = None,
      auth_mode = ApiKeyMode, request_id = fresh, client_ip = None, user_agent = None\<rparr>"

definition context_project_id :: "AuthContext \<Rightarrow> string option" where
  "context_project_id auth =
     (case allowed_project_ids auth of
        Some allowed \<Rightarrow> if card allowed = 1 then Some (the_elem allowed) else None
      | None \<Rightarrow> k_project_id (api_key auth))"

definition is_global :: "AuthContext \<Rightarrow> bool" where
  "is_global auth \<longleftrightarrow>
     is_dev_mode auth \<or> is_platform_admin auth
   \<or> (allowed_project_ids auth = None \<and> k_project_id (api_key auth) = None)"

definition is_ui_jwt :: "AuthContext \<Rightarrow> bool" where
  "is_ui_jwt auth \<longleftrightarrow> auth_mode auth = UiJwt"

definition require_project_access :: "AuthContext \<Rightarrow> string \<Rightarrow> (unit, http_error) result" where
  "require_project_access auth run_project_id =
     (if is_global auth then Ok ()
      else
        (case allowed_project_ids auth of
           Some allowed \<Rightarrow>
             if run_project_id \<in> allowed then Ok ()
             else Err (FORBIDDEN, ''Access denied: this user cannot access runs in this project.'')
         | None \<Rightarrow>
             if can_access_project (api_key auth) run_project_id then Ok ()
             else Err (FORBIDDEN,
               ''Access denied: this API key cannot access runs in this project.'')))"

definition require_scope :: "AuthContext \<Rightarrow> string \<Rightarrow> (unit, http_error) result" where
  "require_scope auth scope =
     (if is_dev_mode auth then Ok ()
      else if has_scope (api_key auth) scope then Ok ()
      else Err (FORBIDDEN, ''Insufficient permissions: this API key requires the ''
        @ sq scope @ '' scope.''))"

definition require_access :: "AuthContext \<Rightarrow> string \<Rightarrow> string \<Rightarrow> (unit, http_error) result" where
  "require_access auth run_project_id scope =
     try_bind (require_scope auth scope) (\<lambda>_.
     try_bind (require_project_access auth run_project_id) (\<lambda>_. Ok ()))"

datatype AuthError = MissingKey | InvalidKey | InsufficientScope | ProjectAccessDenied

fun auth_status_code :: "AuthError \<Rightarrow> nat" where
  "auth_status_code MissingKey = UNAUTHORIZED"
| "auth_status_code InvalidKey = UNAUTHORIZED"
| "auth_status_code InsufficientScope = FORBIDDEN"
| "auth_status_code ProjectAccessDenied = FORBIDDEN"

fun auth_error_message :: "AuthError \<Rightarrow> string" where
  "auth_error_message MissingKey =
     ''Authentication required. Use X-API-Key, Authorization: Bearer <token>, or a valid UI session cookie.''"
| "auth_error_message InvalidKey = ''Invalid API key, JWT token, or UI session.''"
| "auth_error_message InsufficientScope = ''Insufficient permissions.''"
| "auth_error_message ProjectAccessDenied = ''Access to project denied.''"

section \<open>The ownership policy\<close>

datatype UiRunOwnerPolicyError = MissingUserIdentity | OwnerMismatch

definition enforce_ui_run_owner ::
  "bool \<Rightarrow> bool \<Rightarrow> bool \<Rightarrow> string option \<Rightarrow> string option \<Rightarrow> (unit, UiRunOwnerPolicyError) result" where
  "enforce_ui_run_owner dev admin ui requester_user_id run_owner_user_id =
     (if dev \<or> admin \<or> \<not> ui then Ok ()
      else
        try_bind (ok_or requester_user_id MissingUserIdentity) (\<lambda>requester.
          case run_owner_user_id of
            Some owner \<Rightarrow> if owner \<noteq> requester then Err OwnerMismatch else Ok ()
          | None \<Rightarrow> Ok ()))"

section \<open>Endpoint checks\<close>

datatype EndpointRbacTier = Read | Write | Admin

fun tier_scope :: "EndpointRbacTier \<Rightarrow> string" where
  "tier_scope Read = ''read''"
| "tier_scope Write = ''write''"
| "tier_scope Admin = ''admin''"

fun tier_env_flag_name :: "EndpointRbacTier \<Rightarrow> string" where
  "tier_env_flag_name Read = ''MLRUNX_RBAC_READ_ENFORCEMENT_ENABLED''"
| "tier_env_flag_name Write = ''MLRUNX_RBAC_WRITE_ENFORCEMENT_ENABLED''"
| "tier_env_flag_name Admin = ''MLRUNX_RBAC_ADMIN_ENFORCEMENT_ENABLED''"

text \<open>What a request sees of its surroundings.\<close>

record Runtime =
  rt_env :: "string \<Rightarrow> string option"
  rt_now :: timestamp
  rt_serde :: Serde

definition env_flag_value :: "string \<Rightarrow> bool" where
  "env_flag_value v \<longleftrightarrow> v = ''1'' \<or> eq_ignore_ascii_case v ''true'' \<or> eq_ignore_ascii_case v ''yes''"

definition env_flag_default :: "(string \<Rightarrow> string option) \<Rightarrow> string \<Rightarrow> bool \<Rightarrow> bool" where
  "env_flag_default env name default_value =
     (case env name of None \<Rightarrow> default_value | Some v \<Rightarrow> env_flag_value v)"

definition auth_mode_label :: "AuthContext \<Rightarrow> string" where
  "auth_mode_label auth = (case auth_mode auth of ApiKeyMode \<Rightarrow> ''api_key'' | UiJwt \<Rightarrow> ''ui_jwt'')"

definition auth_user_id :: "AuthContext \<Rightarrow> string option" where
  "auth_user_id auth =
     (if is_dev_mode auth \<or> \<not> is_ui_jwt auth then None
      else map_option snd (split_once CHR '':'' (k_id (api_key auth))))"

definition scoped_write_rate_limit_key :: "AuthContext \<Rightarrow> string option \<Rightarrow> string" where
  "scoped_write_rate_limit_key auth project_id =
     (let scope = (case project_id of Some p \<Rightarrow> p | None \<Rightarrow> ''*'') in
      case auth_user_id auth of
        Some user_id \<Rightarrow> ''user:'' @ user_id @ '':'' @ scope
      | None \<Rightarrow>
          if is_dev_mode auth then ''dev:'' @ scope
          else ''key:'' @ k_id (api_key auth) @ '':'' @ scope)"

definition rate_limit_error :: "nat \<Rightarrow> http_error" where
  "rate_limit_error retry_after =
     (TOO_MANY_REQUESTS, ''Rate limit exceeded. Retry after '' @ show_nat retry_after @ ''s.'')"

definition audit_actor_ids :: "AuthContext \<Rightarrow> string option \<times> string option" where
  "audit_actor_ids auth =
     (if is_dev_mode auth then (None, None)
      else if is_ui_jwt auth then (auth_user_id auth, None)
      else (None, Some (k_id (api_key auth))))"

definition should_enforce_scope :: "Runtime \<Rightarrow> AuthContext \<Rightarrow> EndpointRbacTier \<Rightarrow> bool" where
  "should_enforce_scope rt auth tier =
     (if is_dev_mode auth then False
      else if \<not> is_ui_jwt auth then True
      else env_flag_default (rt_env rt) (tier_env_flag_name tier) True)"

text \<open>Handlers run on the store and fail with a status and a message.\<close>

type_synonym 'a http = "(Db, 'a, http_error) op"

definition internal_error :: "'e \<Rightarrow> http_error" where
  "internal_error e = (INTERNAL_SERVER_ERROR, ''Internal server error'')"

text \<open>\<open>store_op.await.map_err(f)?\<close>\<close>

definition with_err :: "('e \<Rightarrow> 'f) \<Rightarrow> ('s, 'a, 'e) op \<Rightarrow> ('s, 'a, 'f) op" where
  "with_err f m = (\<lambda>s. let (r, s') = m s in (map_err f r, s'))"

definition lift_result :: "('a, 'e) result \<Rightarrow> ('s, 'a, 'e) op" where
  "lift_result r = (\<lambda>s. (r, s))"

lemma with_err_Ok_iff: "with_err f m s = (Ok y, s') \<longleftrightarrow> m s = (Ok y, s')"
  by (auto simp: with_err_def Let_def split: prod.splits)

lemma lift_result_Ok_iff: "lift_result r s = (Ok y, s') \<longleftrightarrow> r = Ok y \<and> s' = s"
  by (auto simp: lift_result_def)

text \<open>
  The audit log is best effort: a failed insertion is only logged. \<open>emit_audit_event\<close> takes the
  optional request context, what happened to which resource, and the outcome.
\<close>

definition emit_audit_event ::
  "Runtime \<Rightarrow> AuthContext option \<Rightarrow> string option \<Rightarrow> string option \<Rightarrow> string \<Rightarrow> string \<Rightarrow> string option \<Rightarrow>
   string \<Rightarrow> Json \<Rightarrow> (Db, unit, 'e) op" where
  "emit_audit_event rt auth project_id run_id action resource_type resource_id outcome metadata = (\<lambda>db.
     (Ok (),
      snd (insert_audit_event (rt_now rt)
        \<lparr>ai_user_id = Option.bind auth (fst \<circ> audit_actor_ids),
         ai_key_id = Option.bind auth (snd \<circ> audit_actor_ids),
         ai_project_id = project_id, ai_run_id = run_id, ai_action = action,
         ai_resource_type = resource_type, ai_resource_id = resource_id, ai_outcome = outcome,
         ai_request_id = map_option request_id auth, ai_client_ip = Option.bind auth client_ip,
         ai_user_agent = Option.bind auth user_agent,
         ai_metadata = (case json_to_string (rt_serde rt) metadata of Ok s \<Rightarrow> Some s | Err _ \<Rightarrow> None)\<rparr> db)))"

definition require_endpoint_access ::
  "Runtime \<Rightarrow> AuthContext \<Rightarrow> EndpointRbacTier \<Rightarrow> string option \<Rightarrow> string option \<Rightarrow> string \<Rightarrow> string \<Rightarrow>
   string option \<Rightarrow> unit http" where
  "require_endpoint_access rt auth tier project_id run_id action resource_type resource_id =
     (let scope = tier_scope tier;
          scope_enforced = should_enforce_scope rt auth tier;
          denied = (\<lambda>error metadata.
            op_bind
              (emit_audit_event rt (Some auth) project_id run_id action resource_type resource_id
                 ''denied'' (JObject metadata))
              (\<lambda>_. op_fail error)) in
      op_bind
        (case (if scope_enforced then require_scope auth scope else Ok ()) of
           Err error \<Rightarrow> denied error
             [(''auth_mode'', JString (auth_mode_label auth)), (''reason'', JString ''scope_denied''),
              (''required_scope'', JString scope)]
         | Ok _ \<Rightarrow> op_return ())
        (\<lambda>_. case project_id of
           None \<Rightarrow> op_return ()
         | Some pid \<Rightarrow>
             (case require_project_access auth pid of
                Err error \<Rightarrow> denied error
                  [(''auth_mode'', JString (auth_mode_label auth)),
                   (''reason'', JString ''project_access_denied''),
                   (''required_scope'', JString scope), (''scope_enforced'', JBool scope_enforced)]
              | Ok _ \<Rightarrow> op_return ())))"

definition require_platform_admin_access ::
  "Runtime \<Rightarrow> AuthContext \<Rightarrow> string \<Rightarrow> string \<Rightarrow> string option \<Rightarrow> unit http" where
  "require_platform_admin_access rt auth action resource_type resource_id =
     op_bind (require_endpoint_access rt auth Admin None None action resource_type resource_id) (\<lambda>_.
       if is_global auth then op_return ()
       else
         op_bind
           (emit_audit_event rt (Some auth) None None action resource_type resource_id ''denied''
              (JObject [(''auth_mode'', JString (auth_mode_label auth)),
                        (''reason'', JString ''platform_admin_required'')]))
           (\<lambda>_. op_fail (FORBIDDEN, ''Platform admin access required.'')))"

definition require_ui_run_owner :: "AuthContext \<Rightarrow> RunRec \<Rightarrow> (unit, http_error) result" where
  "require_ui_run_owner auth run =
     (case enforce_ui_run_owner (is_dev_mode auth) (is_platform_admin auth) (is_ui_jwt auth)
             (auth_user_id auth) (rn_user_id run) of
        Ok _ \<Rightarrow> Ok ()
      | Err MissingUserIdentity \<Rightarrow>
          Err (FORBIDDEN, ''Unable to resolve user identity for run authorization.'')
      | Err OwnerMismatch \<Rightarrow>
          Err (FORBIDDEN, ''Access denied: this user cannot access that run.''))"

definition require_ui_project_role ::
  "(string \<Rightarrow> bool) \<Rightarrow> string \<Rightarrow> AuthContext \<Rightarrow> string \<Rightarrow> unit http" where
  "require_ui_project_role role_ok denial auth project_id =
     (if is_dev_mode auth \<or> \<not> is_ui_jwt auth then op_return ()
      else
        op_bind
          (lift_result (ok_or (auth_user_id auth)
             (FORBIDDEN, ''Unable to resolve user identity for project authorization.''))) (\<lambda>user_id.
        op_bind (with_err internal_error (list_active_project_memberships user_id)) (\<lambda>memberships.
          if \<not> list_ex (\<lambda>m. pmr_project_id m = project_id \<and> role_ok (pmr_role m)) memberships
          then op_fail (FORBIDDEN, denial)
          else op_return ())))"

definition require_ui_project_owner :: "AuthContext \<Rightarrow> string \<Rightarrow> unit http" where
  "require_ui_project_owner =
     require_ui_project_role (\<lambda>role. role = ''owner'')
       ''Access denied: only project owners can delete this project.''"

definition require_ui_project_editor_or_owner :: "AuthContext \<Rightarrow> string \<Rightarrow> unit http" where
  "require_ui_project_editor_or_owner =
     require_ui_project_role (\<lambda>role. role = ''owner'' \<or> role = ''editor'')
       ''Access denied: only project owners or editors can update metric aliases.''"

definition require_api_key_run_owner_for_mutation ::
  "AuthContext \<Rightarrow> RunRec \<Rightarrow> string \<Rightarrow> (unit, http_error) result" where
  "require_api_key_run_owner_for_mutation auth run action =
     (if is_dev_mode auth \<or> is_ui_jwt auth \<or> is_ok (require_scope auth ''admin'') then Ok ()
      else
        (case rn_key_id run of
           Some owner_key_id \<Rightarrow>
             if owner_key_id \<noteq> k_id (api_key auth)
             then Err (FORBIDDEN, ''Access denied: this API key can only '' @ action
               @ '' runs it created.'')
             else Ok ()
         | None \<Rightarrow> Ok ()))"

text \<open>The scopes a user's memberships give: the union over all projects, as a set in Rust.\<close>

definition role_scopes :: "string \<Rightarrow> string list" where
  "role_scopes role =
     (if role = ''owner'' then [''read'', ''write'', ''admin'']
      else if role = ''editor'' then [''read'', ''write'']
      else if role = ''viewer'' then [''read''] else [])"

fun derive_scopes_and_projects :: "ProjectMembershipRow list \<Rightarrow> string set \<times> string set" where
  "derive_scopes_and_projects [] = ({}, {})"
| "derive_scopes_and_projects (m # ms) =
     (let (scopes, allowed) = derive_scopes_and_projects ms in
      (set (role_scopes (pmr_role m)) \<union> scopes, insert (pmr_project_id m) allowed))"

section \<open>Guards\<close>

text \<open>Nothing but rows at the end of the audit log.\<close>

definition audit_extends :: "Db \<Rightarrow> Db \<Rightarrow> bool" where
  "audit_extends db db' \<longleftrightarrow>
     (\<exists>rows. db' = db\<lparr>t_audit_events := t_audit_events db @ rows, audit_seq := audit_seq db + int (length rows)\<rparr>)"

lemma audit_extends_refl [simp, intro]: "audit_extends db db"
  unfolding audit_extends_def by (rule exI [of _ "[]"]) simp

lemma audit_extends_trans:
  assumes "audit_extends a b" "audit_extends b c"
  shows "audit_extends a c"
proof -
  from assms obtain rs rs' where
    "b = a\<lparr>t_audit_events := t_audit_events a @ rs, audit_seq := audit_seq a + int (length rs)\<rparr>"
    "c = b\<lparr>t_audit_events := t_audit_events b @ rs', audit_seq := audit_seq b + int (length rs')\<rparr>"
    by (auto simp: audit_extends_def)
  then show ?thesis unfolding audit_extends_def by (intro exI [of _ "rs @ rs'"]) simp
qed

lemma audit_extends_append [simp, intro]:
  "audit_extends db (db\<lparr>t_audit_events := t_audit_events db @ [row], audit_seq := audit_seq db + 1\<rparr>)"
  unfolding audit_extends_def by (rule exI [of _ "[row]"]) simp

lemma audit_extends_tables:
  assumes "audit_extends db db'"
  shows "t_projects db' = t_projects db" "t_aliases db' = t_aliases db" "t_runs db' = t_runs db"
    "t_tags db' = t_tags db" "t_metrics db' = t_metrics db" "t_run_events db' = t_run_events db"
    "t_params db' = t_params db" "t_batches db' = t_batches db" "t_users db' = t_users db"
    "t_memberships db' = t_memberships db" "t_api_keys db' = t_api_keys db"
    "t_sessions db' = t_sessions db" "t_share_tokens db' = t_share_tokens db"
  using assms by (auto simp: audit_extends_def)

lemma insert_audit_event_extends: "audit_extends db (snd (insert_audit_event now a db))"
  by (cases "snd (insert_audit_event now a db) = db")
    (auto simp: insert_audit_event_def op_stmt_apply simp del: first_violation.simps split: option.splits)

lemma emit_audit_event_apply:
  obtains db' where "emit_audit_event rt auth p r a t i out md db = (Ok (), db')" "audit_extends db db'"
  unfolding emit_audit_event_def using insert_audit_event_extends by blast

text \<open>
  A guard decides from the request and the store whether the handler goes on. When it lets the
  request pass it changes nothing; when it refuses, the answer is 403 and at most the audit log
  has grown. Handlers put guards in front of their work; what follows from the contract is
  proved here once.
\<close>

locale guard =
  fixes check :: "'c \<Rightarrow> unit http"
    and allowed :: "'c \<Rightarrow> Db \<Rightarrow> bool"
  assumes pass: "allowed c db \<Longrightarrow> check c db = (Ok (), db)"
    and refuse: "\<not> allowed c db \<Longrightarrow> \<exists>msg db'. check c db = (Err (FORBIDDEN, msg), db') \<and> audit_extends db db'"
begin

lemma verdict: "is_ok (fst (check c db)) \<longleftrightarrow> allowed c db"
  using pass [of c db] refuse [of c db] by (cases "allowed c db") auto

lemma frame: "audit_extends db (snd (check c db))"
  using pass [of c db] refuse [of c db] by (cases "allowed c db") auto

lemma guarded_pass: "allowed c db \<Longrightarrow> op_bind (check c) (\<lambda>_. m) db = m db"
  by (simp add: op_bind_apply pass)

lemma guarded_refuse:
  assumes "\<not> allowed c db"
  obtains msg db' where "op_bind (check c) (\<lambda>_. m) db = (Err (FORBIDDEN, msg), db')" "audit_extends db db'"
  using refuse [OF assms] by (auto simp: op_bind_apply)

lemma guarded_Ok:
  "op_bind (check c) (\<lambda>_. m) db = (Ok x, db') \<longleftrightarrow> allowed c db \<and> m db = (Ok x, db')"
  using pass [of c db] refuse [of c db] by (cases "allowed c db") (auto simp: op_bind_apply)

end

section \<open>What the guards allow\<close>

definition scope_granted :: "Runtime \<Rightarrow> AuthContext \<Rightarrow> EndpointRbacTier \<Rightarrow> bool" where
  "scope_granted rt auth tier \<longleftrightarrow>
     is_dev_mode auth
   \<or> (is_ui_jwt auth \<and> \<not> env_flag_default (rt_env rt) (tier_env_flag_name tier) True)
   \<or> ''admin'' \<in> set (k_scopes (api_key auth)) \<or> tier_scope tier \<in> set (k_scopes (api_key auth))"

definition project_granted :: "AuthContext \<Rightarrow> string \<Rightarrow> bool" where
  "project_granted auth pid \<longleftrightarrow>
     is_dev_mode auth \<or> is_platform_admin auth
   \<or> (case allowed_project_ids auth of
        Some ps \<Rightarrow> pid \<in> ps
      | None \<Rightarrow> k_project_id (api_key auth) = None \<or> k_project_id (api_key auth) = Some pid)"

definition endpoint_granted :: "Runtime \<Rightarrow> AuthContext \<Rightarrow> EndpointRbacTier \<Rightarrow> string option \<Rightarrow> bool" where
  "endpoint_granted rt auth tier project_id \<longleftrightarrow>
     scope_granted rt auth tier \<and> (case project_id of Some p \<Rightarrow> project_granted auth p | None \<Rightarrow> True)"

lemma require_project_access_Ok: "require_project_access auth p = Ok () \<longleftrightarrow> project_granted auth p"
  by (auto simp: require_project_access_def project_granted_def is_global_def can_access_project_def
    split: option.splits)

lemma require_project_access_Err: "require_project_access auth p = Err e \<Longrightarrow> fst e = FORBIDDEN"
  by (auto simp: require_project_access_def split: option.splits if_splits)

lemma require_scope_Ok:
  "(if should_enforce_scope rt auth tier then require_scope auth (tier_scope tier) else Ok ()) = Ok ()
    \<longleftrightarrow> scope_granted rt auth tier"
  by (auto simp: require_scope_def should_enforce_scope_def scope_granted_def has_scope_def)

lemma require_scope_Err: "require_scope auth s = Err e \<Longrightarrow> fst e = FORBIDDEN"
  by (auto simp: require_scope_def split: if_splits)

lemma require_access_Ok:
  "require_access auth p s = Ok () \<longleftrightarrow>
     (is_dev_mode auth \<or> has_scope (api_key auth) s) \<and> project_granted auth p"
  by (auto simp: require_access_def try_bind_unit_Ok require_project_access_Ok require_scope_def)

text \<open>When the rows an audit event refers to exist, the event is there afterwards.\<close>

definition audit_recordable :: "AuthContext \<Rightarrow> string option \<Rightarrow> string option \<Rightarrow> Db \<Rightarrow> bool" where
  "audit_recordable auth project_id run_id db \<longleftrightarrow>
     refers (fst (audit_actor_ids auth)) (user_ids db) \<and> refers (snd (audit_actor_ids auth)) (api_key_ids db)
   \<and> refers project_id (project_ids db) \<and> refers run_id (run_ids db)"

definition audited ::
  "AuthContext \<Rightarrow> string option \<Rightarrow> string option \<Rightarrow> string \<Rightarrow> string \<Rightarrow> Db \<Rightarrow> Db \<Rightarrow> bool" where
  "audited auth project_id run_id action outcome db db' \<longleftrightarrow>
     (\<exists>row. t_audit_events db' = t_audit_events db @ [row] \<and> au_action row = action
        \<and> au_outcome row = outcome \<and> au_project_id row = project_id \<and> au_run_id row = run_id
        \<and> (au_user_id row, au_key_id row) = audit_actor_ids auth)"

lemma emit_audit_event_audited:
  assumes "audit_recordable auth p r db"
  obtains db' where "emit_audit_event rt (Some auth) p r a t i out md db = (Ok (), db')"
    "audit_extends db db'" "audited auth p r a out db db'"
  using assms that
  by (auto simp: emit_audit_event_def insert_audit_event_def op_stmt_apply audit_recordable_def audited_def)

text \<open>A refusal of a guard: 403, and an audit row when the log can hold it.\<close>

definition refusal ::
  "AuthContext \<Rightarrow> string option \<Rightarrow> string option \<Rightarrow> string \<Rightarrow> Db \<Rightarrow> (unit, http_error) result \<times> Db \<Rightarrow> bool" where
  "refusal auth p r a db out \<longleftrightarrow>
     (\<exists>msg db'. out = (Err (FORBIDDEN, msg), db') \<and> audit_extends db db'
        \<and> (audit_recordable auth p r db \<longrightarrow> audited auth p r a ''denied'' db db'))"

lemma refusal_intro:
  "fst e = FORBIDDEN \<Longrightarrow>
   refusal auth p r a db (op_bind (emit_audit_event rt (Some auth) p r a t i ''denied'' md) (\<lambda>_. op_fail e) db)"
proof (cases "audit_recordable auth p r db")
  case True
  assume "fst e = FORBIDDEN"
  obtain db' where "emit_audit_event rt (Some auth) p r a t i ''denied'' md db = (Ok () :: (unit, http_error) result, db')"
      "audit_extends db db'" "audited auth p r a ''denied'' db db'"
    using True by (rule emit_audit_event_audited)
  with \<open>fst e = FORBIDDEN\<close> show ?thesis by (cases e) (simp add: refusal_def op_bind_apply)
next
  case False
  assume "fst e = FORBIDDEN"
  obtain db' where "emit_audit_event rt (Some auth) p r a t i ''denied'' md db = (Ok () :: (unit, http_error) result, db')"
      "audit_extends db db'"
    by (rule emit_audit_event_apply)
  with False \<open>fst e = FORBIDDEN\<close> show ?thesis by (cases e) (simp add: refusal_def op_bind_apply)
qed

lemma refusal_bind: "refusal auth p r a db (m db) \<Longrightarrow> refusal auth p r a db (op_bind m f db)"
  by (auto simp: refusal_def op_bind_apply)

lemma require_endpoint_access_cases:
  "(endpoint_granted rt auth tier p \<and> require_endpoint_access rt auth tier p r a t i db = (Ok (), db))
   \<or> (\<not> endpoint_granted rt auth tier p \<and> refusal auth p r a db (require_endpoint_access rt auth tier p r a t i db))"
proof -
  let ?scope = "if should_enforce_scope rt auth tier then require_scope auth (tier_scope tier) else Ok ()"
  show ?thesis
  proof (cases ?scope)
    case (Err e)
    then have "\<not> endpoint_granted rt auth tier p" "fst e = FORBIDDEN"
      using require_scope_Ok [of rt auth tier] require_scope_Err [of auth "tier_scope tier" e]
      by (auto simp: endpoint_granted_def split: if_splits)
    then show ?thesis
      by (simp add: require_endpoint_access_def Let_def Err refusal_bind refusal_intro)
  next
    case (Ok u)
    then have scope: "scope_granted rt auth tier" using require_scope_Ok by auto
    show ?thesis
    proof (cases p)
      case None
      with Ok scope show ?thesis
        by (simp add: require_endpoint_access_def Let_def op_bind_apply endpoint_granted_def)
    next
      case (Some pid)
      show ?thesis
      proof (cases "require_project_access auth pid")
        case (Err e)
        then have "\<not> project_granted auth pid" "fst e = FORBIDDEN"
          using require_project_access_Ok [of auth pid] require_project_access_Err by auto
        then show ?thesis
          using refusal_intro [of e auth p r a db rt t i] Ok Some Err
          by (simp add: require_endpoint_access_def Let_def op_bind_apply endpoint_granted_def)
      next
        case Ok': (Ok v)
        then have "project_granted auth pid" using require_project_access_Ok by auto
        with Ok Ok' Some scope show ?thesis
          by (simp add: require_endpoint_access_def Let_def op_bind_apply endpoint_granted_def)
      qed
    qed
  qed
qed

lemma refusal_refuse: "refusal auth p r a db out \<Longrightarrow> \<exists>msg db'. out = (Err (FORBIDDEN, msg), db') \<and> audit_extends db db'"
  by (auto simp: refusal_def)

lemma require_endpoint_access_pass:
  "endpoint_granted rt auth tier p \<Longrightarrow> require_endpoint_access rt auth tier p r a t i db = (Ok (), db)"
  using require_endpoint_access_cases [of rt auth tier p r a t i db] by simp

lemma require_endpoint_access_refuse:
  "\<not> endpoint_granted rt auth tier p \<Longrightarrow>
   \<exists>msg db'. require_endpoint_access rt auth tier p r a t i db = (Err (FORBIDDEN, msg), db') \<and> audit_extends db db'"
  using require_endpoint_access_cases [of rt auth tier p r a t i db] by (auto intro: refusal_refuse)

interpretation endpoint_guard: guard
  "\<lambda>(rt, auth, tier, p, r, a, t, i). require_endpoint_access rt auth tier p r a t i"
  "\<lambda>(rt, auth, tier, p, r, a, t, i) db. endpoint_granted rt auth tier p"
  by unfold_locales
    (auto simp: require_endpoint_access_pass require_endpoint_access_refuse split: prod.splits)

definition role_granted :: "(string \<Rightarrow> bool) \<Rightarrow> AuthContext \<Rightarrow> string \<Rightarrow> Db \<Rightarrow> bool" where
  "role_granted role_ok auth pid db \<longleftrightarrow>
     is_dev_mode auth \<or> \<not> is_ui_jwt auth
   \<or> (\<exists>m \<in> set (t_memberships db). auth_user_id auth = Some (mb_user_id m) \<and> mb_project_id m = pid
        \<and> mb_revoked_at m = None \<and> role_ok (mb_role m))"

lemma require_ui_project_role_apply:
  "require_ui_project_role ok msg auth pid db =
    (if role_granted ok auth pid db then (Ok (), db)
     else (Err (FORBIDDEN, if auth_user_id auth = None
       then ''Unable to resolve user identity for project authorization.'' else msg), db))"
  by (cases "auth_user_id auth")
    (auto simp: require_ui_project_role_def role_granted_def lift_result_def with_err_def op_bind_apply
      list_active_project_memberships_def list_ex_iff)

interpretation role_guard: guard
  "\<lambda>(role_ok, msg, auth, pid). require_ui_project_role role_ok msg auth pid"
  "\<lambda>(role_ok, msg, auth, pid) db. role_granted role_ok auth pid db"
  by unfold_locales (auto simp: require_ui_project_role_apply split: prod.splits)

definition platform_granted :: "Runtime \<Rightarrow> AuthContext \<Rightarrow> bool" where
  "platform_granted rt auth \<longleftrightarrow> scope_granted rt auth Admin \<and> is_global auth"

lemma require_platform_admin_access_cases:
  "(platform_granted rt auth \<and> require_platform_admin_access rt auth a t i db = (Ok (), db))
   \<or> (\<not> platform_granted rt auth \<and> refusal auth None None a db (require_platform_admin_access rt auth a t i db))"
proof (cases "scope_granted rt auth Admin")
  case True
  then have "require_endpoint_access rt auth Admin None None a t i db = (Ok (), db)"
    using require_endpoint_access_cases [of rt auth Admin None None a t i db]
    by (simp add: endpoint_granted_def)
  with True show ?thesis
    by (simp add: require_platform_admin_access_def op_bind_apply [of "require_endpoint_access rt auth Admin None None a t i"]
      platform_granted_def refusal_intro)
next
  case False
  then have "refusal auth None None a db (require_endpoint_access rt auth Admin None None a t i db)"
    using require_endpoint_access_cases [of rt auth Admin None None a t i db]
    by (simp add: endpoint_granted_def)
  with False show ?thesis by (simp add: require_platform_admin_access_def platform_granted_def refusal_bind)
qed

lemma require_platform_admin_access_pass:
  "platform_granted rt auth \<Longrightarrow> require_platform_admin_access rt auth a t i db = (Ok (), db)"
  using require_platform_admin_access_cases [of rt auth a t i db] by simp

lemma require_platform_admin_access_refuse:
  "\<not> platform_granted rt auth \<Longrightarrow>
   \<exists>msg db'. require_platform_admin_access rt auth a t i db = (Err (FORBIDDEN, msg), db') \<and> audit_extends db db'"
  using require_platform_admin_access_cases [of rt auth a t i db] by (auto intro: refusal_refuse)

interpretation platform_guard: guard
  "\<lambda>(rt, auth, a, t, i). require_platform_admin_access rt auth a t i"
  "\<lambda>(rt, auth, a, t, i) db. platform_granted rt auth"
  by unfold_locales
    (auto simp: require_platform_admin_access_pass require_platform_admin_access_refuse split: prod.splits)

definition run_owner_granted :: "AuthContext \<Rightarrow> RunRec \<Rightarrow> bool" where
  "run_owner_granted auth run \<longleftrightarrow>
     is_dev_mode auth \<or> is_platform_admin auth \<or> \<not> is_ui_jwt auth
   \<or> (\<exists>u. auth_user_id auth = Some u \<and> (rn_user_id run = None \<or> rn_user_id run = Some u))"

definition key_owner_granted :: "AuthContext \<Rightarrow> RunRec \<Rightarrow> bool" where
  "key_owner_granted auth run \<longleftrightarrow>
     is_dev_mode auth \<or> is_ui_jwt auth \<or> ''admin'' \<in> set (k_scopes (api_key auth))
   \<or> rn_key_id run = None \<or> rn_key_id run = Some (k_id (api_key auth))"

interpretation run_owner_guard: guard
  "\<lambda>(auth, run). lift_result (require_ui_run_owner auth run)" "\<lambda>(auth, run) db. run_owner_granted auth run"
  by unfold_locales
    (auto simp: lift_result_def require_ui_run_owner_def enforce_ui_run_owner_def run_owner_granted_def
      ok_or_def split: option.splits if_splits)

interpretation key_owner_guard: guard
  "\<lambda>(auth, run, action). lift_result (require_api_key_run_owner_for_mutation auth run action)"
  "\<lambda>(auth, run, action) db. key_owner_granted auth run"
  by unfold_locales
    (auto simp: lift_result_def require_api_key_run_owner_for_mutation_def key_owner_granted_def
      require_scope_def has_scope_def split: option.splits if_splits)

section \<open>The endpoint check\<close>

text \<open>
  C22: the check in front of every endpoint. A request passes exactly when its scopes cover the
  tier (an \<open>admin\<close> scope covers all; the scopes of UI users may be switched off per tier) and,
  for an endpoint of a project, the caller may see that project. A request that passes leaves the
  store as it was. A request that is refused is answered 403, changes nothing but the audit log,
  and, when the rows it refers to exist, leaves exactly one new row there that names the actor,
  the action and the denial.
\<close>

theorem endpoint_access_spec:
  assumes "require_endpoint_access rt auth tier p r a t i db = (res, db')"
  shows "(is_ok res \<longleftrightarrow> endpoint_granted rt auth tier p)
    \<and> (is_ok res \<longrightarrow> db' = db)
    \<and> (\<not> is_ok res \<longrightarrow> (\<exists>msg. res = Err (FORBIDDEN, msg)) \<and> audit_extends db db'
         \<and> (audit_recordable auth p r db \<longrightarrow> audited auth p r a ''denied'' db db'))"
  using require_endpoint_access_cases [of rt auth tier p r a t i db] assms
  by (auto simp: refusal_def)

definition sample_runtime :: Runtime where
  "sample_runtime = \<lparr>rt_env = (\<lambda>_. None), rt_now = ''2026-01-02 00:00:00'', rt_serde = sample_serde\<rparr>"

definition sample_key_auth :: AuthContext where
  "sample_key_auth =
     \<lparr>api_key =
        \<lparr>k_id = ''k1'', k_key_hash = ''hash1'', k_key_prefix = ''mlrunx_a'', k_project_id = Some ''p1'',
         k_created_by_user_id = Some ''u1'', k_name = None, k_scopes = [''read''], k_created_at = 0,
         k_last_used_at = None, k_revoked_at = None, k_expires_at = None\<rparr>,
      is_dev_mode = False, is_platform_admin = False, allowed_project_ids = None,
      auth_mode = ApiKeyMode, request_id = ''q1'', client_ip = None, user_agent = None\<rparr>"

lemma endpoint_access_spec_witness:
  "\<not> is_ok (fst (require_endpoint_access sample_runtime sample_key_auth Write (Some ''p1'') None ''run.delete''
        ''run'' None sample_db))
   \<and> audited sample_key_auth (Some ''p1'') None ''run.delete'' ''denied'' sample_db
       (snd (require_endpoint_access sample_runtime sample_key_auth Write (Some ''p1'') None ''run.delete''
          ''run'' None sample_db))"
proof -
  have "\<not> endpoint_granted sample_runtime sample_key_auth Write (Some ''p1'')" by code_simp
  moreover have "audit_recordable sample_key_auth (Some ''p1'') None sample_db" by code_simp
  ultimately show ?thesis
    using endpoint_access_spec [OF prod.collapse [symmetric], of sample_runtime sample_key_auth Write
      "Some ''p1''" None "''run.delete''" "''run''" None sample_db] by blast
qed

end
