(* ===== verification/Client_Ip.thy ===== *)
theory Client_Ip
  imports Access Cardinality_Limits
begin

text \<open>
  Which address a request is attributed to (apps/api/src/auth/mod.rs): the forwarded headers are
  believed only when the peer of the connection is a configured proxy. Addresses are machine
  words, rules are CIDR prefixes. The textual forms of addresses are those of Rust's
  \<open>std::net\<close>: decimal octets without leading zeros, and for IPv6 up to eight groups of at most
  four hexadecimal digits, one \<open>::\<close>, and an embedded IPv4 address at the end.
\<close>

unbundle bit_operations_syntax

section \<open>Addresses\<close>

datatype IpAddr = IpV4 "32 word" | IpV6 "128 word"

fun digit_of :: "nat \<Rightarrow> char \<Rightarrow> nat option" where
  "digit_of radix c =
     (let b = byte c;
          d = (if 48 \<le> b \<and> b \<le> 57 then Some (b - 48)
               else if 97 \<le> b \<and> b \<le> 102 then Some (b - 87)
               else if 65 \<le> b \<and> b \<le> 70 then Some (b - 55) else None) in
      case d of Some n \<Rightarrow> if n < radix then Some n else None | None \<Rightarrow> None)"

text \<open>The digits at the front of the input, their number and their value.\<close>

fun scan_digits :: "nat \<Rightarrow> string \<Rightarrow> nat \<times> nat \<times> string" where
  "scan_digits radix [] = (0, 0, [])"
| "scan_digits radix (c # cs) =
     (case digit_of radix c of
        None \<Rightarrow> (0, 0, c # cs)
      | Some d \<Rightarrow>
          (let (n, v, rest) = scan_digits radix cs in (n + 1, d * radix ^ n + v, rest)))"

text \<open>Four hexadecimal digits fit into a group, so only decimal numbers can overflow.\<close>

definition read_number :: "nat \<Rightarrow> nat \<Rightarrow> nat option \<Rightarrow> bool \<Rightarrow> string \<Rightarrow> (nat \<times> string) option" where
  "read_number radix max_digits bound allow_zero_prefix s =
     (let (n, v, rest) = scan_digits radix s in
      if n = 0 \<or> max_digits < n \<or> (case bound of Some b \<Rightarrow> b < v | None \<Rightarrow> False)
         \<or> (\<not> allow_zero_prefix \<and> hd s = CHR ''0'' \<and> 1 < n)
      then None else Some (v, rest))"

definition read_char :: "char \<Rightarrow> string \<Rightarrow> string option" where
  "read_char c s = (case s of x # xs \<Rightarrow> if x = c then Some xs else None | [] \<Rightarrow> None)"

definition read_separator ::
  "char \<Rightarrow> bool \<Rightarrow> (string \<Rightarrow> ('a \<times> string) option) \<Rightarrow> string \<Rightarrow> ('a \<times> string) option" where
  "read_separator sep first inner s =
     (if first then inner s else Option.bind (read_char sep s) inner)"

fun read_octets :: "nat \<Rightarrow> bool \<Rightarrow> 32 word \<Rightarrow> string \<Rightarrow> (32 word \<times> string) option" where
  "read_octets 0 first acc s = Some (acc, s)"
| "read_octets (Suc k) first acc s =
     (case read_separator CHR ''.'' first (read_number 10 3 (Some 255) False) s of
        None \<Rightarrow> None
      | Some (v, rest) \<Rightarrow> read_octets k False (push_bit 8 acc OR of_nat v) rest)"

definition read_ipv4_addr :: "string \<Rightarrow> (32 word \<times> string) option" where
  "read_ipv4_addr s = read_octets 4 True 0 s"

text \<open>Groups of an IPv6 address: those read, and whether they end in an IPv4 address.\<close>

fun read_groups :: "nat \<Rightarrow> bool \<Rightarrow> string \<Rightarrow> nat list \<times> bool \<times> string" where
  "read_groups 0 first s = ([], False, s)"
| "read_groups (Suc k) first s =
     (case (if k = 0 then None else read_separator CHR '':'' first read_ipv4_addr s) of
        Some (v4, rest) \<Rightarrow> ([unat (drop_bit 16 v4), unat (take_bit 16 v4)], True, rest)
      | None \<Rightarrow>
          (case read_separator CHR '':'' first (read_number 16 4 None True) s of
             None \<Rightarrow> ([], False, s)
           | Some (g, rest) \<Rightarrow>
               (let (gs, v4, rest') = read_groups k False rest in (g # gs, v4, rest'))))"

definition groups_word :: "nat list \<Rightarrow> 128 word" where
  "groups_word gs = fold (\<lambda>g acc. push_bit 16 acc OR of_nat g) gs 0"

definition read_ipv6_addr :: "string \<Rightarrow> (128 word \<times> string) option" where
  "read_ipv6_addr s =
     (let (head, head_v4, rest) = read_groups 8 True s in
      if length head = 8 then Some (groups_word head, rest)
      else if head_v4 then None
      else
        (case Option.bind (read_char CHR '':'' rest) (read_char CHR '':'') of
           None \<Rightarrow> None
         | Some rest' \<Rightarrow>
             (let (tail, _, rest'') = read_groups (8 - (length head + 1)) True rest' in
              Some (groups_word (head @ replicate (8 - length head - length tail) 0 @ tail), rest''))))"

definition parse_ip_addr :: "string \<Rightarrow> IpAddr option" where
  "parse_ip_addr s =
     (case read_ipv4_addr s of
        Some (v4, rest) \<Rightarrow> if rest = [] then Some (IpV4 v4) else None
      | None \<Rightarrow>
          (case read_ipv6_addr s of
             Some (v6, rest) \<Rightarrow> if rest = [] then Some (IpV6 v6) else None
           | None \<Rightarrow> None))"

section \<open>Rules\<close>

text \<open>Prefix lengths are bytes.\<close>

datatype TrustedProxyRule = RuleV4 "32 word" nat | RuleV6 "128 word" nat

text \<open>\<open>MAX << (width - prefix_len)\<close>, and no bit at all for the empty prefix.\<close>

definition prefix_mask :: "nat \<Rightarrow> 'w::len word" where
  "prefix_mask prefix_len = (if prefix_len = 0 then 0 else push_bit (LENGTH('w) - prefix_len) (- 1))"

definition rule_of :: "IpAddr \<Rightarrow> nat \<Rightarrow> (TrustedProxyRule, string) result" where
  "rule_of ip prefix_len =
     (case ip of
        IpV4 v4 \<Rightarrow>
          if 32 < prefix_len then Err (''invalid IPv4 prefix length '' @ sq (show_nat prefix_len))
          else Ok (RuleV4 (v4 AND prefix_mask prefix_len) prefix_len)
      | IpV6 v6 \<Rightarrow>
          if 128 < prefix_len then Err (''invalid IPv6 prefix length '' @ sq (show_nat prefix_len))
          else Ok (RuleV6 (v6 AND prefix_mask prefix_len) prefix_len))"

definition rule_parse :: "string \<Rightarrow> (TrustedProxyRule, string) result" where
  "rule_parse raw =
     (let value = trim raw in
      if value = [] then Err ''empty trusted proxy entry''
      else
        (case split_once CHR ''/'' value of
           Some (ip_raw, prefix_raw) \<Rightarrow>
             try_bind (ok_or (parse_ip_addr (trim ip_raw)) (''invalid IP '' @ sq ip_raw)) (\<lambda>ip.
             try_bind (ok_or (parse_unsigned 255 (trim prefix_raw))
                         (''invalid prefix length '' @ sq prefix_raw)) (\<lambda>prefix_len.
               rule_of ip prefix_len))
         | None \<Rightarrow>
             try_bind (ok_or (parse_ip_addr value) (''invalid IP '' @ sq value)) (\<lambda>ip.
               rule_of ip (case ip of IpV4 _ \<Rightarrow> 32 | IpV6 _ \<Rightarrow> 128))))"

fun rule_matches :: "TrustedProxyRule \<Rightarrow> IpAddr \<Rightarrow> bool" where
  "rule_matches (RuleV4 network prefix_len) (IpV4 v) \<longleftrightarrow> v AND prefix_mask prefix_len = network"
| "rule_matches (RuleV6 network prefix_len) (IpV6 v) \<longleftrightarrow> v AND prefix_mask prefix_len = network"
| "rule_matches _ _ \<longleftrightarrow> False"

fun parse_rules :: "string list \<Rightarrow> (TrustedProxyRule list, string) result" where
  "parse_rules [] = Ok []"
| "parse_rules (entry # entries) =
     try_bind
       (map_err (\<lambda>err. ''Invalid MLRUNX_TRUSTED_PROXY_CIDRS entry '' @ sq entry @ '': '' @ err)
          (rule_parse entry)) (\<lambda>rule.
     try_bind (parse_rules entries) (\<lambda>rules. Ok (rule # rules)))"

type_synonym env = "string \<Rightarrow> string option"

definition trusted_proxy_rules_from_env :: "env \<Rightarrow> (TrustedProxyRule list, string) result" where
  "trusted_proxy_rules_from_env env =
     (let raw = (case env ''MLRUNX_TRUSTED_PROXY_CIDRS'' of Some v \<Rightarrow> v | None \<Rightarrow> []) in
      parse_rules (filter (\<lambda>v. v \<noteq> []) (map trim (split_on CHR '','' raw))))"

section \<open>Requests\<close>

text \<open>
  What the authentication code reads of a request. \<open>rq_header\<close> is the http crate's lookup of a
  header followed by its conversion to text; \<open>rq_connect_info\<close> and \<open>rq_socket_addr\<close> are the two
  extensions that may carry the address of the peer.
\<close>

record Request =
  rq_method :: string
  rq_path :: string
  rq_header :: "string \<Rightarrow> string option"
  rq_connect_info :: "IpAddr option"
  rq_socket_addr :: "IpAddr option"

definition env_flag :: "env \<Rightarrow> string \<Rightarrow> bool" where
  "env_flag env name = (case env name of Some v \<Rightarrow> env_flag_value v | None \<Rightarrow> False)"

definition trust_proxy_headers :: "env \<Rightarrow> bool" where
  "trust_proxy_headers env = env_flag env ''MLRUNX_TRUST_PROXY_HEADERS''"

definition extract_forwarded_client_ip :: "Request \<Rightarrow> string option" where
  "extract_forwarded_client_ip rq =
     (let first = (case trimmed_nonempty (rq_header rq ''x-forwarded-for'') of
                     Some forwarded \<Rightarrow> trim (hd (split_on CHR '','' forwarded)) | None \<Rightarrow> []) in
      if first \<noteq> [] then Some first else trimmed_nonempty (rq_header rq ''x-real-ip''))"

definition extract_socket_client_ip_addr :: "Request \<Rightarrow> IpAddr option" where
  "extract_socket_client_ip_addr rq =
     (case rq_connect_info rq of Some ip \<Rightarrow> Some ip | None \<Rightarrow> rq_socket_addr rq)"

definition should_trust_forwarded_headers :: "env \<Rightarrow> Request \<Rightarrow> bool" where
  "should_trust_forwarded_headers env rq =
     (if \<not> trust_proxy_headers env then False
      else
        (case extract_socket_client_ip_addr rq of
           None \<Rightarrow> False
         | Some peer_ip \<Rightarrow>
             (case trusted_proxy_rules_from_env env of
                Err _ \<Rightarrow> False
              | Ok rules \<Rightarrow>
                  if rules = [] then False else list_ex (\<lambda>rule. rule_matches rule peer_ip) rules)))"

definition extract_user_agent :: "Request \<Rightarrow> string option" where
  "extract_user_agent rq = trimmed_nonempty (rq_header rq ''user-agent'')"

text \<open>The display of addresses: octets, or hexadecimal groups with the longest run of zeros left out.\<close>

definition hex_digit :: "nat \<Rightarrow> char" where
  "hex_digit n = char_of (if n < 10 then 48 + n else 87 + n)"

fun show_hex :: "nat \<Rightarrow> string" where
  "show_hex n = (if n < 16 then [hex_digit n] else show_hex (n div 16) @ [hex_digit (n mod 16)])"

definition show_ipv4 :: "32 word \<Rightarrow> string" where
  "show_ipv4 w = join_on CHR ''.'' (map (\<lambda>i. show_nat (unat (take_bit 8 (drop_bit i w)))) [24, 16, 8, 0])"

definition ipv6_groups :: "128 word \<Rightarrow> nat list" where
  "ipv6_groups w = map (\<lambda>i. unat (take_bit 16 (drop_bit i w))) [112, 96, 80, 64, 48, 32, 16, 0]"

text \<open>Start and length of the longest run of zeros, the first one of several.\<close>

fun zero_span :: "nat list \<Rightarrow> nat \<Rightarrow> nat \<times> nat \<Rightarrow> nat \<times> nat \<Rightarrow> nat \<times> nat" where
  "zero_span [] i current longest = longest"
| "zero_span (g # gs) i (start, len) longest =
     (if g = 0
      then
        (let current = ((if len = 0 then i else start), len + 1) in
         zero_span gs (i + 1) current (if snd longest < snd current then current else longest))
      else zero_span gs (i + 1) (0, 0) longest)"

definition show_ipv6 :: "128 word \<Rightarrow> string" where
  "show_ipv6 w =
     (let gs = ipv6_groups w; show = (\<lambda>xs. join_on CHR '':'' (map show_hex xs)) in
      if take 6 gs = [0, 0, 0, 0, 0, 65535] then ''::ffff:'' @ show_ipv4 (ucast w)
      else
        (let (start, len) = zero_span gs 0 (0, 0) (0, 0) in
         if 1 < len then show (take start gs) @ ''::'' @ show (drop (start + len) gs) else show gs))"

fun show_ip :: "IpAddr \<Rightarrow> string" where
  "show_ip (IpV4 w) = show_ipv4 w"
| "show_ip (IpV6 w) = show_ipv6 w"

definition extract_socket_client_ip :: "Request \<Rightarrow> string option" where
  "extract_socket_client_ip rq =
     (case map_option show_ip (rq_connect_info rq) of
        Some s \<Rightarrow> Some s | None \<Rightarrow> map_option show_ip (rq_socket_addr rq))"

definition extract_client_ip :: "env \<Rightarrow> Request \<Rightarrow> string option" where
  "extract_client_ip env rq =
     (case (if should_trust_forwarded_headers env rq then extract_forwarded_client_ip rq else None) of
        Some forwarded_ip \<Rightarrow> Some forwarded_ip
      | None \<Rightarrow> extract_socket_client_ip rq)"

section \<open>Only configured proxies are believed\<close>

text \<open>Two addresses of one family whose first \<open>len\<close> bits agree.\<close>

fun same_prefix :: "nat \<Rightarrow> IpAddr \<Rightarrow> IpAddr \<Rightarrow> bool" where
  "same_prefix len (IpV4 a) (IpV4 b) \<longleftrightarrow> drop_bit (32 - len) a = drop_bit (32 - len) b"
| "same_prefix len (IpV6 a) (IpV6 b) \<longleftrightarrow> drop_bit (128 - len) a = drop_bit (128 - len) b"
| "same_prefix len _ _ \<longleftrightarrow> False"

lemma bit_prefix_mask: "bit (prefix_mask len :: 'w::len word) i \<longleftrightarrow> LENGTH('w) - len \<le> i \<and> i < LENGTH('w)"
  by (auto simp: prefix_mask_def bit_not_iff bit_mask_iff dest: bit_imp_le_length)

lemma prefix_mask_eq_iff:
  fixes a b :: "'w::len word"
  shows "a AND prefix_mask len = b AND prefix_mask len
    \<longleftrightarrow> drop_bit (LENGTH('w) - len) a = drop_bit (LENGTH('w) - len) b"
proof
  assume eq: "a AND prefix_mask len = b AND prefix_mask len"
  show "drop_bit (LENGTH('w) - len) a = drop_bit (LENGTH('w) - len) b"
  proof (rule bit_eqI)
    fix n
    have "bit (a AND prefix_mask len) (LENGTH('w) - len + n) = bit (b AND prefix_mask len) (LENGTH('w) - len + n)"
      by (simp only: eq)
    then show "bit (drop_bit (LENGTH('w) - len) a) n = bit (drop_bit (LENGTH('w) - len) b) n"
      by (auto simp: bit_and_iff bit_prefix_mask bit_drop_bit_eq not_less dest: bit_imp_le_length)
  qed
next
  assume eq: "drop_bit (LENGTH('w) - len) a = drop_bit (LENGTH('w) - len) b"
  show "a AND prefix_mask len = b AND prefix_mask len"
  proof (rule bit_eqI)
    fix n
    have "bit a n = bit b n" if "LENGTH('w) - len \<le> n"
      using arg_cong [OF eq, of "\<lambda>w. bit w (n - (LENGTH('w) - len))"] that by (simp add: bit_drop_bit_eq)
    then show "bit (a AND prefix_mask len) n = bit (b AND prefix_mask len) n"
      by (auto simp: bit_and_iff bit_prefix_mask)
  qed
qed

lemma rule_of_matches:
  assumes "rule_of ip len = Ok rule"
  shows "rule_matches rule peer \<longleftrightarrow> same_prefix len ip peer"
  using assms prefix_mask_eq_iff [where 'w = 32] prefix_mask_eq_iff [where 'w = 128]
  by (cases ip; cases peer) (auto simp: rule_of_def split: if_splits)

lemma rule_parse_cases:
  assumes "rule_parse raw = Ok rule"
  obtains ip len where "rule_of ip len = Ok rule"
    "(\<exists>l r. split_once CHR ''/'' (trim raw) = Some (l, r) \<and> parse_ip_addr (trim l) = Some ip
        \<and> parse_unsigned 255 (trim r) = Some len)
     \<or> (split_once CHR ''/'' (trim raw) = None \<and> parse_ip_addr (trim raw) = Some ip
        \<and> len = (case ip of IpV4 _ \<Rightarrow> 32 | IpV6 _ \<Rightarrow> 128))"
  using assms by (auto simp: rule_parse_def Let_def try_bind_Ok_iff split: if_splits option.splits)

lemma parse_rules_in:
  "parse_rules entries = Ok rules \<Longrightarrow> rule \<in> set rules \<Longrightarrow> \<exists>e \<in> set entries. rule_parse e = Ok rule"
  by (induction entries arbitrary: rules) (auto simp: try_bind_Ok_iff)

text \<open>An entry of the proxy list: an address with a prefix length, or a single address.\<close>

definition cidr_entry :: "string \<Rightarrow> IpAddr \<Rightarrow> nat \<Rightarrow> bool" where
  "cidr_entry entry ip len \<longleftrightarrow>
     (case split_once CHR ''/'' entry of
        Some (l, r) \<Rightarrow> parse_ip_addr (trim l) = Some ip \<and> parse_unsigned 255 (trim r) = Some len
      | None \<Rightarrow> parse_ip_addr entry = Some ip \<and> len = (case ip of IpV4 _ \<Rightarrow> 32 | IpV6 _ \<Rightarrow> 128))"

text \<open>
  C23: forwarded headers are believed only from configured proxies. When a request is attributed
  to anything but the address of its peer, the trust in proxy headers is switched on and the
  peer's address agrees with a configured address of the same family on the whole length of the
  configured prefix. Without that, no header of the request changes the address it is
  attributed to.
\<close>

theorem forwarded_only_from_proxy:
  assumes "extract_client_ip env rq \<noteq> map_option show_ip (extract_socket_client_ip_addr rq)"
  shows "trust_proxy_headers env
    \<and> (\<exists>peer cidrs entry ip len. extract_socket_client_ip_addr rq = Some peer
        \<and> env ''MLRUNX_TRUSTED_PROXY_CIDRS'' = Some cidrs
        \<and> entry \<in> set (map trim (split_on CHR '','' cidrs))
        \<and> cidr_entry entry ip len \<and> same_prefix len ip peer)"
proof -
  have "extract_socket_client_ip rq = map_option show_ip (extract_socket_client_ip_addr rq)"
    by (simp add: extract_socket_client_ip_def extract_socket_client_ip_addr_def split: option.splits)
  with assms have trust: "should_trust_forwarded_headers env rq"
    by (auto simp: extract_client_ip_def split: if_splits)
  then obtain peer rules rule where *: "trust_proxy_headers env"
      "extract_socket_client_ip_addr rq = Some peer" "trusted_proxy_rules_from_env env = Ok rules"
      "rule \<in> set rules" "rule_matches rule peer"
    by (auto simp: should_trust_forwarded_headers_def list_ex_iff split: if_splits option.splits result.splits)
  obtain cidrs where cidrs: "env ''MLRUNX_TRUSTED_PROXY_CIDRS'' = Some cidrs"
    using *(3,4) by (cases "env ''MLRUNX_TRUSTED_PROXY_CIDRS''") (auto simp: trusted_proxy_rules_from_env_def)
  with *(3) have "parse_rules (filter (\<lambda>v. v \<noteq> []) (map trim (split_on CHR '','' cidrs))) = Ok rules"
    by (simp add: trusted_proxy_rules_from_env_def)
  from parse_rules_in [OF this *(4)] obtain entry
    where entry: "entry \<in> set (map trim (split_on CHR '','' cidrs))" "rule_parse entry = Ok rule" by auto
  then have trimmed: "trim entry = entry" by auto
  from entry(2) obtain ip len where "rule_of ip len = Ok rule" "cidr_entry entry ip len"
    by (rule rule_parse_cases) (auto simp: trimmed cidr_entry_def)
  with * cidrs entry(1) show ?thesis by (auto simp: rule_of_matches)
qed

definition sample_env :: env where
  "sample_env name =
     (if name = ''MLRUNX_TRUST_PROXY_HEADERS'' then Some ''1''
      else if name = ''MLRUNX_TRUSTED_PROXY_CIDRS'' then Some ''192.168.0.1, 10.0.0.0/8'' else None)"

definition sample_forwarded :: Request where
  "sample_forwarded =
     \<lparr>rq_method = ''GET'', rq_path = ''/api/v1/runs'',
      rq_header = (\<lambda>n. if n = ''x-forwarded-for'' then Some ''203.0.113.7, 10.0.0.1'' else None),
      rq_connect_info = Some (IpV4 0x0A010203), rq_socket_addr = None\<rparr>"

lemma forwarded_only_from_proxy_witness:
  "extract_client_ip sample_env sample_forwarded = Some ''203.0.113.7''
   \<and> show_ip (IpV4 0x0A010203) = ''10.1.2.3'' \<and> trust_proxy_headers sample_env"
proof -
  have seen: "extract_client_ip sample_env sample_forwarded = Some ''203.0.113.7''" by code_simp
  have shown: "show_ip (IpV4 0x0A010203) = ''10.1.2.3''" by (simp add: show_ipv4_def) code_simp
  then have "trust_proxy_headers sample_env"
    using forwarded_only_from_proxy [of sample_env sample_forwarded] seen
    by (simp add: sample_forwarded_def extract_socket_client_ip_addr_def)
  then show ?thesis using seen shown by simp
qed

lemma parse_ip_samples:
  "parse_ip_addr ''::1'' = Some (IpV6 1)" "parse_ip_addr ''10.0.0.01'' = None"
  by code_simp+

end
