(* ===== verification/Rate_Limiter.thy ===== *)
theory Rate_Limiter
  imports Access Cardinality_Limits
begin

text \<open>
  The limiter of failed authentications (apps/api/src/auth/mod.rs, AuthRateLimiter). Instants and
  durations are natural numbers of nanoseconds; an instant plus a duration does not overflow
  (Rust would panic there, with delays of more than two hundred years). The difference of two instants
  is zero when the second is later, as in Rust. Counters are \<open>u32\<close> and saturate.
\<close>

section \<open>Configuration and state\<close>

definition from_secs :: "nat \<Rightarrow> nat" where
  "from_secs s = s * 10 ^ 9"

definition as_secs :: "nat \<Rightarrow> nat" where
  "as_secs d = d div 10 ^ 9"

record AuthRateLimitConfig =
  rl_enabled :: bool
  max_failures_per_window :: nat
  rl_window :: nat
  base_backoff :: nat
  max_backoff :: nat

text \<open>A positive number from the environment, or the default.\<close>

definition env_positive :: "(string \<Rightarrow> string option) \<Rightarrow> string \<Rightarrow> nat \<Rightarrow> nat \<Rightarrow> nat" where
  "env_positive env name bound d =
     (case Option.bind (env name) (parse_unsigned bound) of
        Some n \<Rightarrow> if 0 < n then n else d | None \<Rightarrow> d)"

definition auth_rate_limit_from_env :: "(string \<Rightarrow> string option) \<Rightarrow> AuthRateLimitConfig" where
  "auth_rate_limit_from_env env =
     \<lparr>rl_enabled = (case env ''MLRUNX_AUTH_RATE_LIMIT_ENABLED'' of None \<Rightarrow> True | Some v \<Rightarrow> env_flag_value v),
      max_failures_per_window = env_positive env ''MLRUNX_AUTH_RATE_LIMIT_MAX_FAILURES'' U32_MAX 10,
      rl_window = from_secs (env_positive env ''MLRUNX_AUTH_RATE_LIMIT_WINDOW_SECONDS'' U64_MAX 60),
      base_backoff = from_secs (env_positive env ''MLRUNX_AUTH_RATE_LIMIT_BASE_BACKOFF_SECONDS'' U64_MAX 5),
      max_backoff = from_secs (env_positive env ''MLRUNX_AUTH_RATE_LIMIT_MAX_BACKOFF_SECONDS'' U64_MAX 300)\<rparr>"

record AuthRateLimitEntry =
  window_started_at :: nat
  failures_in_window :: nat
  blocked_until :: "nat option"

definition new_entry :: "nat \<Rightarrow> AuthRateLimitEntry" where
  "new_entry now = \<lparr>window_started_at = now, failures_in_window = 0, blocked_until = None\<rparr>"

type_synonym entries = "string \<Rightarrow> AuthRateLimitEntry option"

definition retry_after_seconds :: "AuthRateLimitConfig \<Rightarrow> nat \<Rightarrow> string \<Rightarrow> entries \<Rightarrow> nat option \<times> entries" where
  "retry_after_seconds cfg now client_key es =
     (if \<not> rl_enabled cfg \<or> client_key = [] then (None, es)
      else
        (case es client_key of
           None \<Rightarrow> (None, es)
         | Some entry \<Rightarrow>
             if rl_window cfg < now - window_started_at entry
             then (None, es(client_key \<mapsto> new_entry now))
             else
               (case blocked_until entry of
                  None \<Rightarrow> (None, es)
                | Some until \<Rightarrow>
                    if now < until then (Some (max (as_secs (until - now)) 1), es)
                    else (None, es(client_key \<mapsto>
                      entry\<lparr>blocked_until := None, failures_in_window := 0, window_started_at := now\<rparr>)))))"

definition backoff_secs :: "AuthRateLimitConfig \<Rightarrow> nat \<Rightarrow> nat" where
  "backoff_secs cfg failures =
     (let over_limit = failures - max_failures_per_window cfg;
          exponent = min over_limit 16;
          candidate_backoff = u64_saturating_mul (as_secs (base_backoff cfg)) (2 ^ exponent) in
      min candidate_backoff (as_secs (max_backoff cfg)))"

definition record_failure :: "AuthRateLimitConfig \<Rightarrow> nat \<Rightarrow> string \<Rightarrow> entries \<Rightarrow> entries" where
  "record_failure cfg now client_key es =
     (if \<not> rl_enabled cfg \<or> client_key = [] then es
      else
        (let entry = (case es client_key of Some e \<Rightarrow> e | None \<Rightarrow> new_entry now);
             entry = (if rl_window cfg < now - window_started_at entry then new_entry now else entry);
             failures = u32_saturating_add (failures_in_window entry) 1;
             entry = entry\<lparr>failures_in_window := failures\<rparr> in
         es(client_key \<mapsto>
           (if max_failures_per_window cfg \<le> failures
            then entry\<lparr>blocked_until := Some (now + from_secs (backoff_secs cfg failures))\<rparr>
            else entry))))"

definition record_success :: "AuthRateLimitConfig \<Rightarrow> nat \<Rightarrow> string \<Rightarrow> entries \<Rightarrow> entries" where
  "record_success cfg now client_key es =
     (if \<not> rl_enabled cfg \<or> client_key = [] then es else es(client_key := None))"

section \<open>Reachable states\<close>

text \<open>The operations of the limiter as calls with the time at which they run.\<close>

datatype limiter_call = Check string | Failure string | Success string

fun limiter_apply :: "AuthRateLimitConfig \<Rightarrow> nat \<Rightarrow> limiter_call \<Rightarrow> entries \<Rightarrow> entries" where
  "limiter_apply cfg now (Check k) es = snd (retry_after_seconds cfg now k es)"
| "limiter_apply cfg now (Failure k) es = record_failure cfg now k es"
| "limiter_apply cfg now (Success k) es = record_success cfg now k es"

text \<open>The clock is monotonic: no call runs before the one that took the lock before it.\<close>

inductive limiter_reach :: "AuthRateLimitConfig \<Rightarrow> nat \<Rightarrow> entries \<Rightarrow> bool" for cfg where
  start: "limiter_reach cfg now (\<lambda>_. None)"
| step: "limiter_reach cfg before es \<Longrightarrow> before \<le> now \<Longrightarrow> limiter_reach cfg now (limiter_apply cfg now call es)"

definition entry_ok :: "AuthRateLimitConfig \<Rightarrow> nat \<Rightarrow> AuthRateLimitEntry \<Rightarrow> bool" where
  "entry_ok cfg now e \<longleftrightarrow>
     window_started_at e \<le> now
   \<and> (case blocked_until e of
        None \<Rightarrow> failures_in_window e < max_failures_per_window cfg
      | Some until \<Rightarrow>
          max_failures_per_window cfg \<le> failures_in_window e
        \<and> until \<le> now + from_secs (as_secs (max_backoff cfg)))"

definition valid_config :: "AuthRateLimitConfig \<Rightarrow> bool" where
  "valid_config cfg \<longleftrightarrow> 0 < max_failures_per_window cfg \<and> max_failures_per_window cfg \<le> U32_MAX"

lemma env_positive_bounds:
  "0 < d \<Longrightarrow> d \<le> bound \<Longrightarrow> 0 < env_positive env name bound d \<and> env_positive env name bound d \<le> bound"
  by (auto simp: env_positive_def parse_unsigned_def Let_def split: option.splits if_splits Option.bind_splits)

lemma valid_config_from_env: "valid_config (auth_rate_limit_from_env env)"
  using env_positive_bounds [of 10 U32_MAX] by (simp add: valid_config_def auth_rate_limit_from_env_def)

lemma backoff_le_max: "backoff_secs cfg n \<le> as_secs (max_backoff cfg)"
  by (simp add: backoff_secs_def Let_def)

lemma backoff_ge_base:
  "as_secs (base_backoff cfg) \<le> U64_MAX \<Longrightarrow>
   min (as_secs (base_backoff cfg)) (as_secs (max_backoff cfg)) \<le> backoff_secs cfg n"
proof -
  assume "as_secs (base_backoff cfg) \<le> U64_MAX"
  then show ?thesis
    by (simp add: backoff_secs_def Let_def u64_saturating_mul_def min.coboundedI1)
qed

lemma entry_ok_later: "entry_ok cfg before e \<Longrightarrow> before \<le> now \<Longrightarrow> entry_ok cfg now e"
  by (auto simp: entry_ok_def split: option.splits)

lemma entry_ok_new: "valid_config cfg \<Longrightarrow> entry_ok cfg now (new_entry now)"
  by (simp add: entry_ok_def new_entry_def valid_config_def)

lemma entry_ok_check:
  assumes "valid_config cfg" "\<And>k e. es k = Some e \<Longrightarrow> entry_ok cfg now e"
    and "snd (retry_after_seconds cfg now k es) k' = Some e"
  shows "entry_ok cfg now e"
proof -
  have cleared: "entry_ok cfg now (e\<lparr>blocked_until := None, failures_in_window := 0, window_started_at := now\<rparr>)" for e
    using assms(1) by (simp add: entry_ok_def valid_config_def)
  show ?thesis
    using assms(3) entry_ok_new [OF assms(1), of now] cleared
    by (auto simp: retry_after_seconds_def split: if_splits option.splits intro: assms(2))
qed

lemma entry_ok_failure:
  assumes "valid_config cfg" "\<And>k e. es k = Some e \<Longrightarrow> entry_ok cfg now e"
    and "record_failure cfg now k es k' = Some e"
  shows "entry_ok cfg now e"
proof -
  let ?old = "case es k of Some e \<Rightarrow> e | None \<Rightarrow> new_entry now"
  let ?e = "if rl_window cfg < now - window_started_at ?old then new_entry now else ?old"
  have ok: "entry_ok cfg now ?e"
    using assms(1,2) entry_ok_new by (auto split: option.splits)
  have wait: "from_secs (backoff_secs cfg n) \<le> from_secs (as_secs (max_backoff cfg))" for n
    using backoff_le_max by (simp add: from_secs_def)
  have "entry_ok cfg now
      (if max_failures_per_window cfg \<le> u32_saturating_add (failures_in_window ?e) 1
       then ?e\<lparr>failures_in_window := u32_saturating_add (failures_in_window ?e) 1,
               blocked_until := Some (now + from_secs (backoff_secs cfg (u32_saturating_add (failures_in_window ?e) 1)))\<rparr>
       else ?e\<lparr>failures_in_window := u32_saturating_add (failures_in_window ?e) 1\<rparr>)"
    using ok wait assms(1)
    by (auto simp: entry_ok_def valid_config_def u32_saturating_add_def split: option.splits)
  then show ?thesis
    using assms(2,3) by (auto simp: record_failure_def Let_def split: if_splits)
qed

lemma limiter_invariant:
  assumes "valid_config cfg" "limiter_reach cfg now es" "es k = Some e"
  shows "entry_ok cfg now e"
  using assms(2,3)
proof (induction arbitrary: k e rule: limiter_reach.induct)
  case (step before es now call)
  have later: "es k = Some e \<Longrightarrow> entry_ok cfg now e" for k e
    using step.IH step.hyps(2) entry_ok_later by blast
  show ?case
  proof (cases call)
    case (Check c)
    with step.prems later show ?thesis by (auto intro: entry_ok_check [OF assms(1)])
  next
    case (Failure c)
    with step.prems later show ?thesis by (auto intro: entry_ok_failure [OF assms(1)])
  next
    case (Success c)
    with step.prems later show ?thesis by (auto simp: record_success_def split: if_splits)
  qed
qed simp

section \<open>What the limiter guarantees\<close>

text \<open>
  C25: nobody is locked out for good. In every reachable state of the limiter, whatever the
  sequence of checks, failures and successes was, a client is told to wait at most the configured
  maximum (or one second), and a client that waits out the configured maximum is let through.
\<close>

theorem auth_limiter_no_lockout:
  assumes "valid_config cfg" "limiter_reach cfg now es" "now \<le> t"
  shows "(case fst (retry_after_seconds cfg t k es) of
            Some secs \<Rightarrow> 1 \<le> secs \<and> secs \<le> max (as_secs (max_backoff cfg)) 1 | None \<Rightarrow> True)
    \<and> (now + from_secs (as_secs (max_backoff cfg)) \<le> t \<longrightarrow> fst (retry_after_seconds cfg t k es) = None)"
proof -
  have until: "u \<le> now + from_secs (as_secs (max_backoff cfg))"
    if "es k = Some e" "blocked_until e = Some u" for e u
    using limiter_invariant [OF assms(1,2) that(1)] that(2) by (simp add: entry_ok_def)
  have secs: "as_secs (u - t) \<le> as_secs (max_backoff cfg)" if "u \<le> now + from_secs (as_secs (max_backoff cfg))" for u
  proof -
    have "u - t \<le> from_secs (as_secs (max_backoff cfg))" using that assms(3) by simp
    then have "as_secs (u - t) \<le> as_secs (from_secs (as_secs (max_backoff cfg)))"
      unfolding as_secs_def by (rule div_le_mono)
    then show ?thesis by (simp add: as_secs_def from_secs_def)
  qed
  have "secs \<le> max (as_secs (max_backoff cfg)) 1 \<and> 1 \<le> secs"
    if "fst (retry_after_seconds cfg t k es) = Some secs" for secs
    using that until secs
    by (auto simp: retry_after_seconds_def split: if_splits option.splits intro: max.mono)
  moreover have "fst (retry_after_seconds cfg t k es) = None"
    if "now + from_secs (as_secs (max_backoff cfg)) \<le> t"
    using that until by (fastforce simp: retry_after_seconds_def split: if_splits option.splits)
  ultimately show ?thesis by (auto split: option.split)
qed

definition sample_limits :: AuthRateLimitConfig where
  "sample_limits = \<lparr>rl_enabled = True, max_failures_per_window = 2, rl_window = from_secs 60,
     base_backoff = from_secs 5, max_backoff = from_secs 300\<rparr>"

lemma sample_limits_valid: "valid_config sample_limits"
  by (simp add: valid_config_def sample_limits_def)

text \<open>Failures of one client at the given times, with nothing of that client in between.\<close>

definition failures_at :: "AuthRateLimitConfig \<Rightarrow> string \<Rightarrow> nat list \<Rightarrow> entries \<Rightarrow> entries" where
  "failures_at cfg k ts es = fold (\<lambda>t. record_failure cfg t k) ts es"

lemma failures_reach:
  "limiter_reach cfg now es \<Longrightarrow> sorted (now # ts) \<Longrightarrow> limiter_reach cfg (last (now # ts)) (failures_at cfg k ts es)"
proof (induction ts arbitrary: now es)
  case (Cons t ts)
  have "limiter_reach cfg t (limiter_apply cfg t (Failure k) es)"
    using Cons.prems by (intro limiter_reach.step) auto
  with Cons.IH [of t "record_failure cfg t k es"] Cons.prems show ?case by (simp add: failures_at_def)
qed (simp add: failures_at_def)

lemma auth_limiter_no_lockout_witness:
  "fst (retry_after_seconds sample_limits (from_secs 400) ''ip'' (failures_at sample_limits ''ip'' [0, 1, 2] (\<lambda>_. None)))
   = None"
proof -
  have "limiter_reach sample_limits (last (0 # [0, 1, 2])) (failures_at sample_limits ''ip'' [0, 1, 2] (\<lambda>_. None))"
    by (rule failures_reach) (simp_all add: limiter_reach.start)
  then show ?thesis
    using auth_limiter_no_lockout [OF sample_limits_valid, of 2 _ "from_secs 400" "''ip''"]
    by (simp add: sample_limits_def from_secs_def as_secs_def)
qed

text \<open>
  The calls that the middleware makes here for a burst of refused requests of one client: it asks for
  the delay first, and records a failure whether there is one or the credentials were refused.
\<close>

fun burst :: "AuthRateLimitConfig \<Rightarrow> string \<Rightarrow> nat list \<Rightarrow> entries \<Rightarrow> nat option list" where
  "burst cfg k [] es = []"
| "burst cfg k (t # ts) es =
     (let (answer, es') = retry_after_seconds cfg t k es in
      answer # burst cfg k ts (record_failure cfg t k es'))"

text \<open>A burst that ends before the first block and the window it falls into do.\<close>

definition burst_span :: "AuthRateLimitConfig \<Rightarrow> nat \<Rightarrow> nat \<Rightarrow> bool" where
  "burst_span cfg start fin \<longleftrightarrow>
     fin \<le> start + rl_window cfg
   \<and> fin < start + from_secs (min (as_secs (base_backoff cfg)) (as_secs (max_backoff cfg)))"

definition after_failures :: "AuthRateLimitConfig \<Rightarrow> nat \<Rightarrow> nat \<Rightarrow> string \<Rightarrow> nat \<Rightarrow> entries \<Rightarrow> bool" where
  "after_failures cfg start fin k n es \<longleftrightarrow>
     (case es k of
        None \<Rightarrow> n = 0
      | Some e \<Rightarrow>
          0 < n \<and> window_started_at e = start \<and> failures_in_window e = min n U32_MAX
        \<and> (case blocked_until e of
             None \<Rightarrow> n < max_failures_per_window cfg
           | Some until \<Rightarrow> max_failures_per_window cfg \<le> n \<and> fin < until))"

lemma burst_check:
  assumes "after_failures cfg start fin k n es" "burst_span cfg start fin" "t \<le> fin"
    and "rl_enabled cfg" "k \<noteq> []" "valid_config cfg"
  shows "snd (retry_after_seconds cfg t k es) = es"
    and "fst (retry_after_seconds cfg t k es) = None \<longleftrightarrow> n < max_failures_per_window cfg"
  using assms
  by (auto simp: retry_after_seconds_def after_failures_def burst_span_def valid_config_def
    split: option.splits)

lemma burst_failure:
  assumes "after_failures cfg start fin k n es" "burst_span cfg start fin" "start \<le> t" "t \<le> fin"
    and "rl_enabled cfg" "k \<noteq> []" "valid_config cfg" "as_secs (base_backoff cfg) \<le> U64_MAX" "n = 0 \<Longrightarrow> t = start"
  shows "after_failures cfg start fin k (Suc n) (record_failure cfg t k es)"
proof -
  have blocked: "fin < t + from_secs (backoff_secs cfg m)" for m
  proof -
    have "from_secs (min (as_secs (base_backoff cfg)) (as_secs (max_backoff cfg))) \<le> from_secs (backoff_secs cfg m)"
      using backoff_ge_base [OF assms(8)] by (simp add: from_secs_def)
    then show ?thesis using assms(2,3) by (simp add: burst_span_def)
  qed
  have window: "\<not> rl_window cfg < t - start" using assms(2,4) by (auto simp: burst_span_def)
  show ?thesis
  proof (cases "es k")
    case None
    with assms window blocked [of 1] show ?thesis
      by (auto simp: record_failure_def after_failures_def new_entry_def Let_def u32_saturating_add_def
        valid_config_def)
  next
    case (Some e)
    then have e: "window_started_at e = start" "failures_in_window e = min n U32_MAX"
        "blocked_until e = None \<Longrightarrow> n < max_failures_per_window cfg" "0 < n"
      using assms(1) by (auto simp: after_failures_def split: option.splits)
    have add: "u32_saturating_add (min n U32_MAX) 1 = min (Suc n) U32_MAX"
      by (auto simp: u32_saturating_add_def)
    show ?thesis
    proof (cases "max_failures_per_window cfg \<le> Suc n")
      case True
      then have "max_failures_per_window cfg \<le> Suc (min n 4294967294)"
        using assms(7) by (auto simp: valid_config_def)
      with True assms(5-7) Some e window blocked show ?thesis
        by (simp add: record_failure_def after_failures_def Let_def add [unfolded One_nat_def] valid_config_def)
    next
      case False
      then have "blocked_until e = None"
        using assms(1) Some by (auto simp: after_failures_def split: option.splits)
      with False assms(5-7) Some e window show ?thesis
        by (simp add: record_failure_def after_failures_def Let_def u32_saturating_add_def valid_config_def)
    qed
  qed
qed

lemma burst_answers:
  assumes "burst_span cfg start fin" "rl_enabled cfg" "k \<noteq> []" "valid_config cfg"
    "as_secs (base_backoff cfg) \<le> U64_MAX"
  shows "\<forall>t \<in> set ts. start \<le> t \<and> t \<le> fin \<Longrightarrow> after_failures cfg start fin k n es \<Longrightarrow>
    (n = 0 \<Longrightarrow> ts \<noteq> [] \<Longrightarrow> hd ts = start) \<Longrightarrow>
    map (\<lambda>a. a = None) (burst cfg k ts es)
      = map (\<lambda>i. n + i < max_failures_per_window cfg) [0..<length ts]"
proof (induction ts arbitrary: n es)
  case (Cons t ts)
  have t: "start \<le> t" "t \<le> fin" using Cons.prems(1) by auto
  note check = burst_check [OF Cons.prems(2) assms(1) t(2) assms(2-4)]
  have "after_failures cfg start fin k (Suc n) (record_failure cfg t k es)"
    using Cons.prems(3) by (intro burst_failure Cons.prems(2) assms t) auto
  then have "map (\<lambda>a. a = None) (burst cfg k ts (record_failure cfg t k es))
      = map (\<lambda>i. Suc n + i < max_failures_per_window cfg) [0..<length ts]"
    using Cons.prems(1) by (intro Cons.IH) auto
  moreover have "[0..<length (t # ts)] = 0 # map Suc [0..<length ts]"
    by (simp add: map_Suc_upt upt_conv_Cons del: upt_Suc)
  ultimately show ?case
    using check by (cases "retry_after_seconds cfg t k es") (simp add: o_def del: upt_Suc)
qed simp

text \<open>
  Of a burst from a client the limiter has no entry for, shorter than the first delay and within one
  window, exactly the first \<open>max_failures_per_window\<close> requests have no delay.
\<close>

lemma burst_throttled:
  assumes "valid_config cfg" "rl_enabled cfg" "k \<noteq> []" "as_secs (base_backoff cfg) \<le> U64_MAX"
    and "es k = None" "sorted (t # ts)" "burst_span cfg t (last (t # ts))"
  shows "map (\<lambda>a. a = None) (burst cfg k (t # ts) es)
    = map (\<lambda>i. i < max_failures_per_window cfg) [0..<length (t # ts)]"
proof -
  have bounds: "\<forall>x \<in> set (t # ts). t \<le> x \<and> x \<le> last (t # ts)"
  proof
    fix x assume x: "x \<in> set (t # ts)"
    then obtain i where "i < length (t # ts)" "x = (t # ts) ! i" by (metis in_set_conv_nth)
    with assms(6) have "x \<le> (t # ts) ! (length (t # ts) - 1)" by (metis Suc_pred' diff_less le_Suc_eq
        length_greater_0_conv less_Suc_eq_le list.discI sorted_nth_mono zero_less_one)
    with x assms(6) show "t \<le> x \<and> x \<le> last (t # ts)" by (auto simp: last_conv_nth)
  qed
  have "after_failures cfg t (last (t # ts)) k 0 es" using assms(5) by (simp add: after_failures_def)
  from burst_answers [OF assms(7,2,3,1,4) bounds this] show ?thesis by simp
qed

text \<open>
  The delay does not outlive the window: as soon as the window in which the failures were counted
  is over, the client is let through, although it was told to wait longer.
\<close>

lemma window_ends_block:
  assumes "rl_enabled cfg" "k \<noteq> []" "es k = Some e" "rl_window cfg < t - window_started_at e"
  shows "fst (retry_after_seconds cfg t k es) = None"
  using assms by (simp add: retry_after_seconds_def)

end
