(* ===== verification/Key_Store.thy ===== *)
theory Key_Store
  imports Client_Ip Rate_Limiter Sqlite_Runs "HOL-Library.AList"
begin

text \<open>
  The store of API keys (apps/api/src/auth/mod.rs, ApiKeyStore): a map from key hashes to keys in
  memory in front of the table in SQLite, if there is one. Digests (HMAC-SHA-256, SHA-256,
  argon2), the text form of times (chrono) and of lists of scopes (serde_json) are parameters, and
  so are the random keys, salts and identifiers. The order in which a hash map is traversed is
  the order of the list that represents it. Times are unbounded integers: the sum of the time and a
  duration panics in Rust when it leaves the range of the clock, as it does for an expiry of more than
  some hundred billion years; such durations are not modelled.
\<close>

section \<open>Configuration\<close>

datatype RuntimeAuthMode = AuthDisabled | AuthApiKey | AuthHybrid

definition runtime_auth_mode_parse :: "string \<Rightarrow> RuntimeAuthMode option" where
  "runtime_auth_mode_parse v =
     (let mode = to_ascii_lowercase (trim v) in
      if mode \<in> {''disabled'', ''none'', ''off''} then Some AuthDisabled
      else if mode \<in> {''api_key'', ''api-key'', ''apikey''} then Some AuthApiKey
      else if mode \<in> {''hybrid'', ''mixed'', ''api_key_ui_jwt'', ''api-key-ui-jwt'', ''ui_jwt'', ''ui-jwt''}
      then Some AuthHybrid
      else None)"

definition runtime_auth_mode_from_flags :: "bool \<Rightarrow> bool \<Rightarrow> RuntimeAuthMode" where
  "runtime_auth_mode_from_flags auth_disabled ui_jwt_enabled =
     (if auth_disabled then AuthDisabled else if ui_jwt_enabled then AuthHybrid else AuthApiKey)"

definition runtime_auth_mode_from_env :: "env \<Rightarrow> RuntimeAuthMode" where
  "runtime_auth_mode_from_env env =
     (case Option.bind (env ''MLRUNX_AUTH_MODE'') runtime_auth_mode_parse of
        Some mode \<Rightarrow> mode
      | None \<Rightarrow> runtime_auth_mode_from_flags (env_flag env ''MLRUNX_AUTH_DISABLED'')
          (env_flag env ''MLRUNX_UI_JWT_AUTH_ENABLED''))"

datatype HmacSecretSource = ExplicitEnv | JwtSecretFallback | InsecureDefault

definition load_auth_hmac_secret :: "env \<Rightarrow> string \<times> HmacSecretSource" where
  "load_auth_hmac_secret env =
     (case trimmed_nonempty (env ''MLRUNX_AUTH_HMAC_SECRET'') of
        Some secret \<Rightarrow> (secret, ExplicitEnv)
      | None \<Rightarrow>
          (case trimmed_nonempty (env ''MLRUNX_JWT_SECRET'') of
             Some secret \<Rightarrow> (secret, JwtSecretFallback)
           | None \<Rightarrow> (''mlrunx-insecure-default-hmac-secret-change-me'', InsecureDefault)))"

definition load_admin_email :: "env \<Rightarrow> string option" where
  "load_admin_email env = trimmed_nonempty (env ''MLRUNX_ADMIN_EMAIL'')"

abbreviation DEFAULT_BOOTSTRAP_KEY_TTL_SECONDS :: nat where "DEFAULT_BOOTSTRAP_KEY_TTL_SECONDS \<equiv> 900"
abbreviation MAX_BOOTSTRAP_KEY_TTL_SECONDS :: nat where "MAX_BOOTSTRAP_KEY_TTL_SECONDS \<equiv> 86400"

definition bootstrap_key_ttl_seconds_from_env :: "env \<Rightarrow> nat" where
  "bootstrap_key_ttl_seconds_from_env env =
     (case Option.bind (env ''MLRUNX_BOOTSTRAP_KEY_TTL_SECONDS'') (parse_unsigned U64_MAX) of
        Some v \<Rightarrow> if 0 < v then min v MAX_BOOTSTRAP_KEY_TTL_SECONDS else DEFAULT_BOOTSTRAP_KEY_TTL_SECONDS
      | None \<Rightarrow> DEFAULT_BOOTSTRAP_KEY_TTL_SECONDS)"

section \<open>State and parameters\<close>

record KeyExt =
  hmac_sha256_hex :: "string \<Rightarrow> string \<Rightarrow> string"
  sha256_hex :: "string \<Rightarrow> string"
  argon2_hash :: "string \<Rightarrow> string \<Rightarrow> (string, string) result"
  argon2_verify :: "string \<Rightarrow> string \<Rightarrow> bool"
  parse_datetime :: "string \<Rightarrow> int option"
  format_datetime :: "SystemTime \<Rightarrow> string"
  scopes_to_json :: "string list \<Rightarrow> string option"
  scopes_from_json :: "string \<Rightarrow> string list option"

record KeyStore =
  ks_keys :: "(string \<times> ApiKey) list"
  ks_db :: "Db option"

text \<open>The two clocks: of the process and of SQLite.\<close>

record Clock =
  ck_now :: SystemTime
  ck_db_now :: timestamp

definition hash_api_key :: "KeyExt \<Rightarrow> string \<Rightarrow> string" where
  "hash_api_key ext key = sha256_hex ext key"

definition hash_api_key_argon2 :: "KeyExt \<Rightarrow> string \<Rightarrow> string \<Rightarrow> (string, string) result" where
  "hash_api_key_argon2 ext salt key =
     map_err (\<lambda>e. ''argon2id hashing failed: '' @ e) (argon2_hash ext salt key)"

definition verify_api_key_hash :: "KeyExt \<Rightarrow> string \<Rightarrow> string \<Rightarrow> bool" where
  "verify_api_key_hash ext raw_key stored_hash \<longleftrightarrow>
     (if take 7 stored_hash = ''$argon2'' then argon2_verify ext raw_key stored_hash
      else hash_api_key ext raw_key = stored_hash)"

definition parse_sqlite_datetime :: "KeyExt \<Rightarrow> string \<Rightarrow> SystemTime option" where
  "parse_sqlite_datetime ext v = map_option (\<lambda>secs. secs * 10 ^ 9) (parse_datetime ext v)"

definition api_key_from_row :: "KeyExt \<Rightarrow> SystemTime \<Rightarrow> ApiKeyRec \<Rightarrow> ApiKey" where
  "api_key_from_row ext now row =
     \<lparr>k_id = ak_id row, k_key_hash = ak_key_hash row, k_key_prefix = ak_prefix row,
      k_project_id = ak_project_id row, k_created_by_user_id = ak_user_id row, k_name = ak_name row,
      k_scopes = (case scopes_from_json ext (ak_scopes row) of Some s \<Rightarrow> s | None \<Rightarrow> []),
      k_created_at = (case parse_sqlite_datetime ext (ak_created_at row) of Some t \<Rightarrow> t | None \<Rightarrow> now),
      k_last_used_at = Option.bind (ak_last_used_at row) (parse_sqlite_datetime ext),
      k_revoked_at = Option.bind (ak_revoked_at row) (parse_sqlite_datetime ext),
      k_expires_at = Option.bind (ak_expires_at row) (parse_sqlite_datetime ext)\<rparr>"

definition create_key_from_raw ::
  "KeyExt \<Rightarrow> SystemTime \<Rightarrow> string \<Rightarrow> string \<Rightarrow> string \<Rightarrow> string option \<Rightarrow> string option \<Rightarrow> string list \<Rightarrow>
   SystemTime option \<Rightarrow> ApiKey" where
  "create_key_from_raw ext now fresh salt raw_key project_id name scopes expires_at =
     \<lparr>k_id = fresh,
      k_key_hash = (case hash_api_key_argon2 ext salt raw_key of Ok h \<Rightarrow> h | Err _ \<Rightarrow> hash_api_key ext raw_key),
      k_key_prefix = take_chars 8 raw_key, k_project_id = project_id, k_created_by_user_id = None,
      k_name = name, k_scopes = scopes, k_created_at = now, k_last_used_at = None,
      k_revoked_at = None, k_expires_at = expires_at\<rparr>"

section \<open>Operations\<close>

text \<open>What becomes of a row that was found: refuse it, or touch and cache it.\<close>

definition accept_row ::
  "KeyExt \<Rightarrow> Clock \<Rightarrow> string \<Rightarrow> ApiKeyRec \<Rightarrow> KeyStore \<Rightarrow> ApiKey option \<times> KeyStore" where
  "accept_row ext ck raw_key row st =
     (if ak_revoked_at row \<noteq> None then (None, st)
      else if \<not> verify_api_key_hash ext raw_key (ak_key_hash row) then (None, st)
      else
        (let key = api_key_from_row ext (ck_now ck) row in
         if \<not> is_valid (ck_now ck) key then (None, st)
         else
           (let key = key\<lparr>k_last_used_at := Some (ck_now ck)\<rparr> in
            (Some key,
             st\<lparr>ks_db := map_option (\<lambda>db. snd (touch_api_key_last_used (ck_db_now ck) (k_key_hash key) db)) (ks_db st),
                ks_keys := AList.update (k_key_hash key) key (ks_keys st)\<rparr>))))"

definition validate_in_memory ::
  "KeyExt \<Rightarrow> Clock \<Rightarrow> string \<Rightarrow> KeyStore \<Rightarrow> ApiKey option \<times> KeyStore" where
  "validate_in_memory ext ck raw_key st =
     (case find (\<lambda>(h, k). is_valid (ck_now ck) k \<and> verify_api_key_hash ext raw_key (k_key_hash k)) (ks_keys st) of
        None \<Rightarrow> (None, st)
      | Some (h, k) \<Rightarrow>
          (let key = k\<lparr>k_last_used_at := Some (ck_now ck)\<rparr> in
           (Some key, st\<lparr>ks_keys := AList.update h key (ks_keys st)\<rparr>)))"

definition validate_key ::
  "KeyExt \<Rightarrow> string \<Rightarrow> Clock \<Rightarrow> string \<Rightarrow> KeyStore \<Rightarrow> ApiKey option \<times> KeyStore" where
  "validate_key ext secret ck raw_key st =
     (let key_fingerprint = hmac_sha256_hex ext secret raw_key;
          legacy_hash = hash_api_key ext raw_key in
      case ks_db st of
        None \<Rightarrow> validate_in_memory ext ck raw_key st
      | Some db \<Rightarrow>
          (case fst (get_api_key_by_fingerprint key_fingerprint db) of
             Ok (Some row) \<Rightarrow> accept_row ext ck raw_key row st
           | _ \<Rightarrow>
               (case fst (get_api_key_by_hash legacy_hash db) of
                  Ok (Some row) \<Rightarrow> accept_row ext ck raw_key row st
                | _ \<Rightarrow> validate_in_memory ext ck raw_key st)))"

definition create_key_with_owner ::
  "KeyExt \<Rightarrow> string \<Rightarrow> Clock \<Rightarrow> string \<Rightarrow> string \<Rightarrow> string \<Rightarrow> string option \<Rightarrow> string option \<Rightarrow> string list \<Rightarrow>
   nat option \<Rightarrow> string option \<Rightarrow> KeyStore \<Rightarrow> (string \<times> ApiKey) \<times> KeyStore" where
  "create_key_with_owner ext secret ck fresh salt raw_key project_id name scopes expires_in_seconds
     created_by_user_id st =
     (let expires_at = map_option (\<lambda>secs. ck_now ck + int secs * 10 ^ 9) expires_in_seconds;
          key = (create_key_from_raw ext (ck_now ck) fresh salt raw_key project_id name scopes expires_at)
                  \<lparr>k_created_by_user_id := created_by_user_id\<rparr>;
          scopes_json = (case scopes_to_json ext (k_scopes key) of Some s \<Rightarrow> s | None \<Rightarrow> ''[]'') in
      ((raw_key, key),
       st\<lparr>ks_db := map_option (\<lambda>db. snd (insert_api_key (ck_db_now ck) (k_id key) (k_key_hash key)
                    (Some (hmac_sha256_hex ext secret raw_key)) (k_key_prefix key) (k_project_id key)
                    created_by_user_id (k_name key) scopes_json
                    (map_option (format_datetime ext) (k_expires_at key)) db)) (ks_db st),
          ks_keys := AList.update (k_key_hash key) key (ks_keys st)\<rparr>))"

definition create_key ::
  "KeyExt \<Rightarrow> string \<Rightarrow> Clock \<Rightarrow> string \<Rightarrow> string \<Rightarrow> string \<Rightarrow> string option \<Rightarrow> string option \<Rightarrow> string list \<Rightarrow>
   nat option \<Rightarrow> KeyStore \<Rightarrow> (string \<times> ApiKey) \<times> KeyStore" where
  "create_key ext secret ck fresh salt raw_key project_id name scopes expires_in_seconds =
     create_key_with_owner ext secret ck fresh salt raw_key project_id name scopes expires_in_seconds None"

definition bootstrap_key ::
  "KeyExt \<Rightarrow> Clock \<Rightarrow> nat \<Rightarrow> string \<Rightarrow> string \<Rightarrow> ApiKey" where
  "bootstrap_key ext ck ttl_seconds salt raw_key =
     create_key_from_raw ext (ck_now ck) ''bootstrap'' salt raw_key None (Some ''bootstrap'') [''admin'']
       (Some (ck_now ck + int ttl_seconds * 10 ^ 9))"

definition persist_bootstrap_key :: "KeyExt \<Rightarrow> string \<Rightarrow> Clock \<Rightarrow> string \<Rightarrow> ApiKey \<Rightarrow> unit store" where
  "persist_bootstrap_key ext secret ck raw_key key =
     upsert_bootstrap_api_key (ck_db_now ck) (k_id key) (k_key_hash key)
       (Some (hmac_sha256_hex ext secret raw_key)) (k_key_prefix key)
       (map_option (format_datetime ext) (k_expires_at key))"

definition init_from_env ::
  "KeyExt \<Rightarrow> string \<Rightarrow> Clock \<Rightarrow> nat \<Rightarrow> string \<Rightarrow> env \<Rightarrow> KeyStore \<Rightarrow> KeyStore" where
  "init_from_env ext secret ck ttl_seconds salt env st =
     (case env ''MLRUNX_API_KEY'' of
        None \<Rightarrow> st
      | Some raw_key \<Rightarrow>
          if raw_key = [] then st
          else
            (let key = bootstrap_key ext ck ttl_seconds salt raw_key in
             st\<lparr>ks_db := map_option (\<lambda>db. snd (persist_bootstrap_key ext secret ck raw_key key db)) (ks_db st),
                ks_keys := AList.update (k_key_hash key) key (ks_keys st)\<rparr>))"

text \<open>Lookup by the key \<open>bootstrap\<close> and marking by id, as the source does both.\<close>

definition revoke_bootstrap_in_memory :: "SystemTime \<Rightarrow> (string \<times> ApiKey) list \<Rightarrow> (string \<times> ApiKey) list" where
  "revoke_bootstrap_in_memory now keys =
     map (\<lambda>(h, k).
       (h, if h = ''bootstrap'' \<or> (k_id k = ''bootstrap'' \<and> k_revoked_at k = None)
           then k\<lparr>k_revoked_at := Some now\<rparr> else k)) keys"

definition rotate_bootstrap_key ::
  "KeyExt \<Rightarrow> string \<Rightarrow> Clock \<Rightarrow> nat \<Rightarrow> string \<Rightarrow> string \<Rightarrow> KeyStore \<Rightarrow> (string, SqliteError) result \<times> KeyStore" where
  "rotate_bootstrap_key ext secret ck ttl_seconds salt raw_key st =
     (let keys = revoke_bootstrap_in_memory (ck_now ck) (ks_keys st);
          db = map_option (\<lambda>db. snd (revoke_api_key_by_id (ck_db_now ck) ''bootstrap'' db)) (ks_db st);
          key = bootstrap_key ext ck ttl_seconds salt raw_key in
      case map_option (persist_bootstrap_key ext secret ck raw_key key) db of
        Some (Err e, db') \<Rightarrow> (Err e, st\<lparr>ks_keys := keys, ks_db := Some db'\<rparr>)
      | Some (Ok _, db') \<Rightarrow>
          (Ok raw_key, st\<lparr>ks_keys := AList.update (k_key_hash key) key keys, ks_db := Some db'\<rparr>)
      | None \<Rightarrow> (Ok raw_key, st\<lparr>ks_keys := AList.update (k_key_hash key) key keys\<rparr>))"

definition mark_revoked :: "SystemTime \<Rightarrow> string \<Rightarrow> (string \<times> ApiKey) list \<Rightarrow> (string \<times> ApiKey) list" where
  "mark_revoked now key_hash keys =
     (case map_of keys key_hash of
        Some k \<Rightarrow> AList.update key_hash (k\<lparr>k_revoked_at := Some now\<rparr>) keys
      | None \<Rightarrow> keys)"

definition revoke_key :: "Clock \<Rightarrow> string \<Rightarrow> KeyStore \<Rightarrow> bool \<times> KeyStore" where
  "revoke_key ck key_hash st =
     (case map_option (revoke_api_key_by_hash (ck_db_now ck) key_hash) (ks_db st) of
        Some (Ok True, db') \<Rightarrow>
          (True, st\<lparr>ks_db := Some db', ks_keys := mark_revoked (ck_now ck) key_hash (ks_keys st)\<rparr>)
      | _ \<Rightarrow>
          (map_of (ks_keys st) key_hash \<noteq> None,
           st\<lparr>ks_keys := mark_revoked (ck_now ck) key_hash (ks_keys st)\<rparr>))"

definition list_keys :: "KeyExt \<Rightarrow> SystemTime \<Rightarrow> string option \<Rightarrow> KeyStore \<Rightarrow> ApiKey list" where
  "list_keys ext now project_id st =
     (case map_option (\<lambda>db. fst (list_api_keys project_id db)) (ks_db st) of
        Some (Ok rows) \<Rightarrow> map (api_key_from_row ext now) rows
      | _ \<Rightarrow>
          filter (\<lambda>k. case project_id of Some pid \<Rightarrow> k_project_id k = Some pid | None \<Rightarrow> True)
            (map snd (ks_keys st)))"

section \<open>A key that validates is a live key\<close>

lemma api_key_from_row_simps [simp]:
  "k_id (api_key_from_row ext now row) = ak_id row"
  "k_key_hash (api_key_from_row ext now row) = ak_key_hash row"
  "k_project_id (api_key_from_row ext now row) = ak_project_id row"
  "k_created_by_user_id (api_key_from_row ext now row) = ak_user_id row"
  by (simp_all add: api_key_from_row_def)

lemma is_valid_last_used [simp]: "is_valid now (k\<lparr>k_last_used_at := t\<rparr>) = is_valid now k"
  by (simp add: is_valid_def)

lemma accept_row_Some:
  "fst (accept_row ext ck raw row st) = Some key \<longleftrightarrow>
     ak_revoked_at row = None \<and> verify_api_key_hash ext raw (ak_key_hash row)
   \<and> is_valid (ck_now ck) (api_key_from_row ext (ck_now ck) row)
   \<and> key = (api_key_from_row ext (ck_now ck) row)\<lparr>k_last_used_at := Some (ck_now ck)\<rparr>"
  by (auto simp: accept_row_def Let_def)

lemma validate_in_memory_Some:
  assumes "fst (validate_in_memory ext ck raw st) = Some key"
  shows "is_valid (ck_now ck) key \<and> verify_api_key_hash ext raw (k_key_hash key)"
  using assms by (auto simp: validate_in_memory_def Let_def split: option.splits dest!: find_SomeD)

text \<open>The row a raw key is looked up by: the keyed fingerprint first, then the old plain hash.\<close>

definition key_row :: "KeyExt \<Rightarrow> string \<Rightarrow> string \<Rightarrow> Db \<Rightarrow> ApiKeyRec option" where
  "key_row ext secret raw db =
     (case find (\<lambda>k. ak_fingerprint k = Some (hmac_sha256_hex ext secret raw)) (t_api_keys db) of
        Some row \<Rightarrow> Some row
      | None \<Rightarrow> find (\<lambda>k. ak_key_hash k = hash_api_key ext raw) (t_api_keys db))"

lemma validate_key_sqlite:
  "ks_db st = Some db \<Longrightarrow> validate_key ext secret ck raw st =
     (case key_row ext secret raw db of
        Some row \<Rightarrow> accept_row ext ck raw row st | None \<Rightarrow> validate_in_memory ext ck raw st)"
  by (simp add: validate_key_def key_row_def get_api_key_by_fingerprint_def get_api_key_by_hash_def
    Let_def split: option.splits)

lemma validate_key_in_memory_or_row:
  assumes "fst (validate_key ext secret ck raw st) = Some key"
  obtains (row) db row where "ks_db st = Some db" "key_row ext secret raw db = Some row"
      "fst (accept_row ext ck raw row st) = Some key"
    | (memory) "\<nexists>db row. ks_db st = Some db \<and> key_row ext secret raw db = Some row"
      "fst (validate_in_memory ext ck raw st) = Some key"
proof (cases "ks_db st")
  case None
  with assms memory show ?thesis by (simp add: validate_key_def Let_def)
next
  case (Some db)
  with assms row memory show ?thesis by (auto simp: validate_key_sqlite split: option.splits)
qed

text \<open>
  A key that the store has for a raw key: it is live, its hash verifies the raw key, and it is that of
  the row of the raw key, unrevoked, or without such a row one of the keys in memory, marked as used now.
\<close>

definition stored_key :: "KeyExt \<Rightarrow> string \<Rightarrow> Clock \<Rightarrow> string \<Rightarrow> KeyStore \<Rightarrow> ApiKey \<Rightarrow> bool" where
  "stored_key ext secret ck raw st key \<longleftrightarrow>
     is_valid (ck_now ck) key \<and> verify_api_key_hash ext raw (k_key_hash key)
   \<and> ((\<exists>db row. ks_db st = Some db \<and> key_row ext secret raw db = Some row \<and> row \<in> set (t_api_keys db)
          \<and> ak_revoked_at row = None \<and> key = (api_key_from_row ext (ck_now ck) row)\<lparr>k_last_used_at := Some (ck_now ck)\<rparr>)
     \<or> ((\<nexists>db row. ks_db st = Some db \<and> key_row ext secret raw db = Some row)
          \<and> (\<exists>(h, k) \<in> set (ks_keys st). key = k\<lparr>k_last_used_at := Some (ck_now ck)\<rparr>)))"

lemma key_row_stored: "key_row ext secret raw db = Some row \<Longrightarrow> row \<in> set (t_api_keys db)"
  by (auto simp: key_row_def split: option.splits dest!: find_SomeD)

lemma validate_key_stored:
  assumes "fst (validate_key ext secret ck raw st) = Some key"
  shows "stored_key ext secret ck raw st key"
  using assms
proof (cases rule: validate_key_in_memory_or_row)
  case (row db row)
  then show ?thesis using key_row_stored [OF row(2)] by (auto simp: stored_key_def accept_row_Some)
next
  case memory
  from memory(2) obtain h k where "(h, k) \<in> set (ks_keys st)" "key = k\<lparr>k_last_used_at := Some (ck_now ck)\<rparr>"
      "is_valid (ck_now ck) key" "verify_api_key_hash ext raw (k_key_hash key)"
    by (auto simp: validate_in_memory_def Let_def split: option.splits dest!: find_SomeD)
  with memory(1) show ?thesis unfolding stored_key_def by blast
qed

text \<open>
  C20: what it takes to authenticate with an API key. A raw key is accepted only for a key that is
  neither revoked nor expired and whose stored hash verifies it. When the database has a row for
  it, that row decides alone: it is not revoked, and the identity, the project, the owner and the
  scopes of the accepted key are those of the row, whatever the memory says.
\<close>

theorem validate_key_sound:
  assumes "fst (validate_key ext secret ck raw st) = Some key"
  shows "is_valid (ck_now ck) key \<and> verify_api_key_hash ext raw (k_key_hash key)
    \<and> (\<forall>db row. ks_db st = Some db \<and> key_row ext secret raw db = Some row \<longrightarrow>
         row \<in> set (t_api_keys db) \<and> ak_revoked_at row = None
       \<and> key = (api_key_from_row ext (ck_now ck) row)\<lparr>k_last_used_at := Some (ck_now ck)\<rparr>)"
  using assms
proof (cases rule: validate_key_in_memory_or_row)
  case (row db row)
  then have "row \<in> set (t_api_keys db)" by (metis key_row_stored)
  with row show ?thesis by (auto simp: accept_row_Some)
next
  case memory
  then show ?thesis by (auto dest!: validate_in_memory_Some)
qed

section \<open>The life of a key\<close>

text \<open>What the lifecycle relies on in argon2, SHA-256, serde_json and chrono.\<close>

definition key_ext_laws :: "KeyExt \<Rightarrow> string \<Rightarrow> string \<Rightarrow> string list \<Rightarrow> bool" where
  "key_ext_laws ext salt raw scopes \<longleftrightarrow>
     (\<forall>h. argon2_hash ext salt raw = Ok h \<longrightarrow> take 7 h = ''$argon2'' \<and> argon2_verify ext raw h)
   \<and> take 7 (sha256_hex ext raw) \<noteq> ''$argon2''
   \<and> Option.bind (scopes_to_json ext scopes) (scopes_from_json ext) = Some scopes
   \<and> (\<forall>t. parse_datetime ext (format_datetime ext t) = Some (t div 10 ^ 9))"

definition expired :: "SystemTime \<Rightarrow> nat option \<Rightarrow> SystemTime \<Rightarrow> bool" where
  "expired created ttl now \<longleftrightarrow>
     (case ttl of Some n \<Rightarrow> (created div 10 ^ 9 + int n) * 10 ^ 9 \<le> now | None \<Rightarrow> False)"

lemma verify_fresh_hash:
  "key_ext_laws ext salt raw scopes \<Longrightarrow>
   verify_api_key_hash ext raw (k_key_hash (create_key_from_raw ext now fresh salt raw p n s e))"
  by (cases "argon2_hash ext salt raw")
    (auto simp: key_ext_laws_def verify_api_key_hash_def create_key_from_raw_def hash_api_key_argon2_def hash_api_key_def)

text \<open>A new key gets a row in the database.\<close>

definition key_insertable :: "KeyExt \<Rightarrow> string \<Rightarrow> string \<Rightarrow> string \<Rightarrow> string option \<Rightarrow> string option \<Rightarrow> string \<Rightarrow> Db \<Rightarrow> bool" where
  "key_insertable ext secret fresh key_hash project owner raw db \<longleftrightarrow>
     fresh \<notin> set (api_key_ids db) \<and> key_hash \<notin> set (map ak_key_hash (t_api_keys db))
   \<and> hmac_sha256_hex ext secret raw \<notin> set (present ak_fingerprint (t_api_keys db))
   \<and> refers project (project_ids db) \<and> refers owner (user_ids db)"

lemma created_row:
  assumes "create_key_with_owner ext secret ck fresh salt raw project name scopes ttl owner st = ((raw', key), st1)"
    and "ks_db st = Some db" "key_insertable ext secret fresh (k_key_hash key) project owner raw db"
  obtains row db1 where "ks_db st1 = Some db1" "key_row ext secret raw db1 = Some row"
    "t_api_keys db1 = t_api_keys db @ [row]"
    "ak_id row = fresh" "ak_key_hash row = k_key_hash key" "ak_project_id row = project" "ak_user_id row = owner"
    "ak_fingerprint row = Some (hmac_sha256_hex ext secret raw)" "ak_revoked_at row = None"
    "ak_scopes row = (case scopes_to_json ext scopes of Some s \<Rightarrow> s | None \<Rightarrow> ''[]'')"
    "ak_expires_at row = map_option (\<lambda>n. format_datetime ext (ck_now ck + int n * 10 ^ 9)) ttl"
proof -
  let ?row = "\<lparr>ak_id = fresh, ak_key_hash = k_key_hash key, ak_fingerprint = Some (hmac_sha256_hex ext secret raw),
     ak_prefix = k_key_prefix key, ak_project_id = project, ak_user_id = owner, ak_name = name,
     ak_scopes = (case scopes_to_json ext scopes of Some s \<Rightarrow> s | None \<Rightarrow> ''[]''),
     ak_created_at = ck_db_now ck, ak_updated_at = ck_db_now ck, ak_last_used_at = None, ak_revoked_at = None,
     ak_expires_at = map_option (\<lambda>n. format_datetime ext (ck_now ck + int n * 10 ^ 9)) ttl\<rparr>"
  let ?db1 = "db\<lparr>t_api_keys := t_api_keys db @ [?row]\<rparr>"
  have key: "k_id key = fresh" "k_project_id key = project" "k_name key = name" "k_scopes key = scopes"
      "k_expires_at key = map_option (\<lambda>n. ck_now ck + int n * 10 ^ 9) ttl"
    and db1: "ks_db st1 = Some ?db1"
    using assms
    by (auto simp: create_key_with_owner_def create_key_from_raw_def Let_def insert_api_key_def insert_api_key_row_def
      op_stmt_apply key_insertable_def option.map_comp o_def split: option.splits)
  have "find (\<lambda>k. ak_fingerprint k = Some (hmac_sha256_hex ext secret raw)) (t_api_keys db) = None"
    using assms(3) by (auto simp: key_insertable_def set_present find_None_conv)
  then have "key_row ext secret raw ?db1 = Some ?row" by (simp add: key_row_def find_append)
  from that [OF db1 this] show ?thesis by simp
qed

lemma key_row_revoked:
  assumes "key_row ext secret raw db = Some row" "ak_fingerprint row = Some (hmac_sha256_hex ext secret raw)"
  obtains row' where "key_row ext secret raw (snd (revoke_api_key_by_hash now (ak_key_hash row) db)) = Some row'"
    "ak_revoked_at row' \<noteq> None"
proof -
  let ?P = "\<lambda>k. ak_fingerprint k = Some (hmac_sha256_hex ext secret raw)"
  have row: "find ?P (t_api_keys db) = Some row"
  proof (cases "find ?P (t_api_keys db)")
    case None
    with assms have "row \<in> set (t_api_keys db)" by (auto simp: key_row_def dest: find_SomeD)
    with None assms(2) show ?thesis by (auto simp: find_None_conv)
  qed (use assms(1) in \<open>simp add: key_row_def\<close>)
  have "find ?P (key_by_hash.revoke now (ak_key_hash row) (t_api_keys db))
      = Some (if key_by_hash.live (ak_key_hash row) row then stamp_key now row else row)"
    unfolding key_by_hash.revoke_def by (subst find_update_where) (simp_all add: stamp_key_def row)
  then have "key_row ext secret raw (snd (revoke_api_key_by_hash now (ak_key_hash row) db))
      = Some (if ak_revoked_at row = None then stamp_key now row else row)"
    by (simp add: key_row_def revoke_api_key_by_hash_table key_by_hash.live_def)
  then show ?thesis by (rule that) (simp add: stamp_key_def)
qed

text \<open>
  C21: the life of an API key. A key that is created while its row can be inserted authenticates
  from then on, until its time to live is over, with the identity, project, owner and scopes it
  was created with. Once its time is over it is refused, and once it has been revoked it is
  refused at any time.
\<close>

theorem api_key_lifecycle:
  assumes laws: "key_ext_laws ext salt raw scopes"
    and created: "create_key_with_owner ext secret ck fresh salt raw project name scopes ttl owner st = ((raw', key), st1)"
    and db: "ks_db st = Some db" "key_insertable ext secret fresh (k_key_hash key) project owner raw db"
  shows "(\<forall>ck'. if expired (ck_now ck) ttl (ck_now ck')
            then fst (validate_key ext secret ck' raw st1) = None
            else (\<exists>k. fst (validate_key ext secret ck' raw st1) = Some k \<and> k_id k = fresh
                    \<and> k_project_id k = project \<and> k_created_by_user_id k = owner \<and> k_scopes k = scopes))
    \<and> (\<forall>ck' ck''. fst (validate_key ext secret ck'' raw (snd (revoke_key ck' (k_key_hash key) st1))) = None)"
proof -
  obtain row db1 where row: "ks_db st1 = Some db1" "key_row ext secret raw db1 = Some row"
      "t_api_keys db1 = t_api_keys db @ [row]"
      "ak_id row = fresh" "ak_key_hash row = k_key_hash key" "ak_project_id row = project" "ak_user_id row = owner"
      "ak_fingerprint row = Some (hmac_sha256_hex ext secret raw)" "ak_revoked_at row = None"
      "ak_scopes row = (case scopes_to_json ext scopes of Some s \<Rightarrow> s | None \<Rightarrow> ''[]'')"
      "ak_expires_at row = map_option (\<lambda>n. format_datetime ext (ck_now ck + int n * 10 ^ 9)) ttl"
    by (rule created_row [OF created db])
  have verify: "verify_api_key_hash ext raw (ak_key_hash row)"
    using verify_fresh_hash [OF laws] created row(5) by (auto simp: create_key_with_owner_def Let_def)
  have scopes: "k_scopes (api_key_from_row ext now row) = scopes" for now
    using laws row(10) by (auto simp: api_key_from_row_def key_ext_laws_def split: Option.bind_splits)
  have valid: "is_valid now (api_key_from_row ext now row) \<longleftrightarrow> \<not> expired (ck_now ck) ttl now" for now
    using laws row(9,11)
    by (cases ttl) (auto simp: is_valid_def api_key_from_row_def parse_sqlite_datetime_def expired_def
      key_ext_laws_def)
  have "fst (validate_key ext secret ck'' raw (snd (revoke_key ck' (k_key_hash key) st1))) = None" for ck' ck''
  proof -
    have "ks_db (snd (revoke_key ck' (k_key_hash key) st1))
        = Some (snd (revoke_api_key_by_hash (ck_db_now ck') (ak_key_hash row) db1))"
      using row(1,3,5,9)
      by (simp add: revoke_key_def revoke_api_key_by_hash_table count_where_pos key_by_hash.live_def)
    moreover obtain row' where "key_row ext secret raw (snd (revoke_api_key_by_hash (ck_db_now ck') (ak_key_hash row) db1)) = Some row'"
        "ak_revoked_at row' \<noteq> None"
      by (rule key_row_revoked [OF row(2,8)])
    ultimately show ?thesis by (auto simp: validate_key_sqlite accept_row_def)
  qed
  moreover have "fst (validate_key ext secret ck' raw st1) =
      (if expired (ck_now ck) ttl (ck_now ck') then None
       else Some ((api_key_from_row ext (ck_now ck') row)\<lparr>k_last_used_at := Some (ck_now ck')\<rparr>))" for ck'
    using row(1,2,9) verify valid [of "ck_now ck'"] by (simp add: validate_key_sqlite accept_row_def Let_def)
  ultimately show ?thesis using row scopes by simp
qed

text \<open>A concrete instance: digests that tag their argument, times as strings of that many marks.\<close>

definition sample_ext :: KeyExt where
  "sample_ext =
     \<lparr>hmac_sha256_hex = (\<lambda>secret m. ''mac:'' @ m), sha256_hex = (\<lambda>m. ''sha:'' @ m),
      argon2_hash = (\<lambda>salt m. Ok (''$argon2'' @ m)), argon2_verify = (\<lambda>m h. h = ''$argon2'' @ m),
      parse_datetime = (\<lambda>s. case s of [] \<Rightarrow> Some 0
        | c # cs \<Rightarrow> Some (if c = CHR ''-'' then - int (length s) else int (length s))),
      format_datetime = (\<lambda>t. let s = t div 10 ^ 9 in
        if s < 0 then replicate (nat (- s)) CHR ''-'' else replicate (nat s) CHR ''+''),
      scopes_to_json = (\<lambda>ss. if ss = [''read''] then Some ''r'' else None),
      scopes_from_json = (\<lambda>s. if s = ''r'' then Some [''read''] else None)\<rparr>"

lemma sample_ext_laws: "key_ext_laws sample_ext ''salt'' ''key2'' [''read'']"
proof -
  have "parse_datetime sample_ext (format_datetime sample_ext t) = Some (t div 10 ^ 9)" for t
  proof (cases "t div 10 ^ 9" rule: linorder_cases [of _ 0])
    case less
    then obtain n where "nat (- (t div 10 ^ 9)) = Suc n" by (metis gr0_implies_Suc neg_0_less_iff_less zero_less_nat_eq)
    with less show ?thesis by (simp add: sample_ext_def Let_def)
  next
    case greater
    then obtain n where "nat (t div 10 ^ 9) = Suc n" by (metis gr0_implies_Suc zero_less_nat_eq)
    with greater show ?thesis by (simp add: sample_ext_def Let_def)
  qed (simp add: sample_ext_def)
  then show ?thesis by (simp add: key_ext_laws_def sample_ext_def)
qed

definition sample_clock :: "int \<Rightarrow> Clock" where
  "sample_clock t = \<lparr>ck_now = t, ck_db_now = ''2026-01-01 00:00:00''\<rparr>"

definition sample_store :: KeyStore where
  "sample_store = \<lparr>ks_keys = [], ks_db = Some sample_db\<rparr>"

definition sample_created :: KeyStore where
  "sample_created = snd (create_key_with_owner sample_ext ''s'' (sample_clock 0) ''k2'' ''salt'' ''key2''
     (Some ''p1'') None [''read''] (Some 60) (Some ''u1'') sample_store)"

lemma api_key_lifecycle_witness:
  "(\<exists>k. fst (validate_key sample_ext ''s'' (sample_clock 5) ''key2'' sample_created) = Some k \<and> k_scopes k = [''read''])
   \<and> fst (validate_key sample_ext ''s'' (sample_clock (60 * 10 ^ 9)) ''key2'' sample_created) = None"
proof -
  let ?c = "create_key_with_owner sample_ext ''s'' (sample_clock 0) ''k2'' ''salt'' ''key2''
     (Some ''p1'') None [''read''] (Some 60) (Some ''u1'') sample_store"
  have "?c = ((fst (fst ?c), snd (fst ?c)), sample_created)" by (simp add: sample_created_def)
  moreover have "key_insertable sample_ext ''s'' ''k2'' (k_key_hash (snd (fst ?c))) (Some ''p1'') (Some ''u1'') ''key2'' sample_db"
    by code_simp
  ultimately have life: "\<forall>ck'. if expired 0 (Some 60) (ck_now ck')
      then fst (validate_key sample_ext ''s'' ck' ''key2'' sample_created) = None
      else (\<exists>k. fst (validate_key sample_ext ''s'' ck' ''key2'' sample_created) = Some k \<and> k_id k = ''k2''
              \<and> k_project_id k = Some ''p1'' \<and> k_created_by_user_id k = Some ''u1'' \<and> k_scopes k = [''read''])"
    using api_key_lifecycle [OF sample_ext_laws, of "''s''" "sample_clock 0" "''k2''" "Some ''p1''" None "Some 60"
        "Some ''u1''" sample_store "fst (fst ?c)" "snd (fst ?c)" sample_created sample_db]
    by (simp add: sample_store_def sample_clock_def)
  from spec [OF life, of "sample_clock 5"] spec [OF life, of "sample_clock (60 * 10 ^ 9)"] show ?thesis
    by (auto simp: sample_clock_def expired_def)
qed

lemma validate_key_sound_witness:
  "(case fst (validate_key sample_ext ''s'' (sample_clock 5) ''key2'' sample_created) of
      Some k \<Rightarrow> is_valid 5 k \<and> verify_api_key_hash sample_ext ''key2'' (k_key_hash k) | None \<Rightarrow> False)"
proof -
  have "fst (validate_key sample_ext ''s'' (sample_clock 5) ''key2'' sample_created) \<noteq> None" by code_simp
  then show ?thesis
    using validate_key_sound [of sample_ext "''s''" "sample_clock 5" "''key2''" sample_created]
    by (auto simp: sample_clock_def)
qed

section \<open>Where the code does not do what it means to\<close>

lemma revoke_bootstrap_in_memory_kills:
  "(h, k) \<in> set (revoke_bootstrap_in_memory now keys) \<Longrightarrow> k_id k = ''bootstrap'' \<Longrightarrow> k_revoked_at k \<noteq> None"
  by (auto simp: revoke_bootstrap_in_memory_def split: if_splits)

text \<open>
  the rotation of the bootstrap key fails once there is a bootstrap key. Whenever the database
  has a row with the id \<open>bootstrap\<close> and the new key is new, the rotation ends in a uniqueness
  violation, and by then every old bootstrap key is revoked, in memory and in the database.
\<close>

lemma rotate_bootstrap_key_fails:
  assumes "ks_db st = Some db" "old \<in> set (t_api_keys db)" "ak_id old = ''bootstrap''"
    and "hmac_sha256_hex ext secret raw \<notin> set (present ak_fingerprint (t_api_keys db))"
    and "rotate_bootstrap_key ext secret ck ttl salt raw st = (r, st')"
  shows "r = Err (Database UniqueViolation)
    \<and> (\<forall>(h, k) \<in> set (ks_keys st'). k_id k = ''bootstrap'' \<longrightarrow> k_revoked_at k \<noteq> None)
    \<and> (\<exists>db'. ks_db st' = Some db'
        \<and> (\<forall>row \<in> set (t_api_keys db'). ak_id row = ''bootstrap'' \<longrightarrow> ak_revoked_at row \<noteq> None))"
proof -
  let ?db = "db\<lparr>t_api_keys := key_by_id.revoke (ck_db_now ck) ''bootstrap'' (t_api_keys db)\<rparr>"
  let ?key = "bootstrap_key ext ck ttl salt raw"
  have fp: "present ak_fingerprint (t_api_keys ?db) = present ak_fingerprint (t_api_keys db)"
    by (simp add: key_by_id.revoke_def present_update_where stamp_key_def)
  have ids: "''bootstrap'' \<in> set (api_key_ids ?db)"
    using assms(2,3) imageI [of old "set (t_api_keys db)" ak_id]
    by (simp add: key_by_id.revoke_def map_update_where stamp_key_def del: set_map, simp)
  have none: "find (\<lambda>k. ak_fingerprint k = Some (hmac_sha256_hex ext secret raw)) (t_api_keys ?db) = None"
    using assms(4) unfolding fp [symmetric] set_present find_None_conv by blast
  have persist: "persist_bootstrap_key ext secret ck raw ?key ?db = (Err (Database UniqueViolation), ?db)"
    using ids none by (simp add: persist_bootstrap_key_def upsert_bootstrap_api_key_def insert_api_key_row_def
      op_stmt_apply bootstrap_key_def create_key_from_raw_def first_violation.simps)
  have "r = Err (Database UniqueViolation)"
    "st' = st\<lparr>ks_keys := revoke_bootstrap_in_memory (ck_now ck) (ks_keys st), ks_db := Some ?db\<rparr>"
    using assms(1,5) persist by (simp_all add: rotate_bootstrap_key_def Let_def revoke_api_key_by_id_table)
  then show ?thesis
    using key_by_id.revoke_kills by (auto dest: revoke_bootstrap_in_memory_kills)
qed

definition sample_booted :: KeyStore where
  "sample_booted = init_from_env sample_ext ''s'' (sample_clock 0) 9 ''salt''
     (\<lambda>n. if n = ''MLRUNX_API_KEY'' then Some ''boot1'' else None) \<lparr>ks_keys = [], ks_db = Some init_schema\<rparr>"

lemma rotate_bootstrap_key_fails_witness:
  "fst (validate_key sample_ext ''s'' (sample_clock 1) ''boot1'' sample_booted) \<noteq> None
   \<and> fst (rotate_bootstrap_key sample_ext ''s'' (sample_clock 1) 9 ''salt'' ''boot2'' sample_booted)
     = Err (Database UniqueViolation)"
proof -
  define db where "db = the (ks_db sample_booted)"
  have 1: "ks_db sample_booted = Some db" unfolding db_def by code_simp
  have 2: "hd (t_api_keys db) \<in> set (t_api_keys db)" "ak_id (hd (t_api_keys db)) = ''bootstrap''"
    and 3: "hmac_sha256_hex sample_ext ''s'' ''boot2'' \<notin> set (present ak_fingerprint (t_api_keys db))"
    unfolding db_def by code_simp+
  have "fst (validate_key sample_ext ''s'' (sample_clock 1) ''boot1'' sample_booted) \<noteq> None" by code_simp
  with rotate_bootstrap_key_fails [OF 1 2 3 prod.collapse [symmetric]] show ?thesis by blast
qed

text \<open>
  deleting a project does not end the authentication with its keys. A key that has been used
  once stays in memory, and when the deletion of its project has removed its row, the key is
  accepted from memory, with its project and its scopes.
\<close>

lemma deleted_project_key_still_validates:
  "let used = snd (validate_key sample_ext ''s'' (sample_clock 5) ''key2'' sample_created);
       deleted = delete_project ''p1'' (the (ks_db used));
       after = used\<lparr>ks_db := Some (snd deleted)\<rparr> in
   fst deleted = Ok () \<and> t_api_keys (snd deleted) = [] \<and> t_projects (snd deleted) = []
   \<and> map_option k_project_id (fst (validate_key sample_ext ''s'' (sample_clock 6) ''key2'' after)) = Some (Some ''p1'')"
  by code_simp

end
