(* ===== verification/Ui_Auth.thy ===== *)
theory Ui_Auth
  imports Key_Store
begin

text \<open>
  Authentication of browser users (apps/api/src/auth/mod.rs): the configuration of JWT and session
  cookies, the resolution of a token or a session to a user with memberships, and the middleware
  that turns a request into a context. The verification of tokens (jsonwebtoken), the text of
  storage errors and SQLite's date arithmetic are parameters; fresh identifiers and random tokens
  are arguments. The time of a session's end is an unbounded integer: chrono panics when a configured
  lifetime leaves its range, which is not modelled.
\<close>

section \<open>Configuration\<close>

datatype UiJwtAlgorithm = Hs256 | Rs256 | Es256

definition ui_jwt_algorithm_parse :: "string \<Rightarrow> UiJwtAlgorithm option" where
  "ui_jwt_algorithm_parse raw =
     (let v = to_ascii_lowercase (trim raw) in
      if v = ''hs256'' then Some Hs256 else if v = ''rs256'' then Some Rs256
      else if v = ''es256'' then Some Es256 else None)"

fun ui_jwt_algorithm_env_value :: "UiJwtAlgorithm \<Rightarrow> string" where
  "ui_jwt_algorithm_env_value Hs256 = ''HS256''"
| "ui_jwt_algorithm_env_value Rs256 = ''RS256''"
| "ui_jwt_algorithm_env_value Es256 = ''ES256''"

record UiJwtConfig =
  uj_enabled :: bool
  uj_secret :: "string option"
  uj_public_key_pem :: "string option"
  uj_algorithm :: UiJwtAlgorithm
  uj_auto_provision_project :: bool
  uj_personal_project_prefix :: string
  uj_issuer :: "string option"
  uj_audience :: "string option"
  uj_provider :: string
  uj_session_cookie_name :: string
  uj_csrf_cookie_name :: string
  uj_session_ttl_seconds :: nat
  uj_cookie_secure :: bool
  uj_cookie_same_site :: string
  uj_cookie_domain :: "string option"

fun unescape_newlines :: "string \<Rightarrow> string" where
  "unescape_newlines [] = []"
| "unescape_newlines [c] = [c]"
| "unescape_newlines (c # d # s) =
     (if c = CHR 0x5C \<and> d = CHR ''n'' then CHR 0x0A # unescape_newlines s
      else c # unescape_newlines (d # s))"

definition normalize_pem_env :: "string \<Rightarrow> string" where
  "normalize_pem_env raw = unescape_newlines (trim raw)"

definition normalize_cookie_domain :: "string \<Rightarrow> string option" where
  "normalize_cookie_domain raw = (let trimmed = trim raw in if trimmed = [] then None else Some trimmed)"

text \<open>A variable whose value is not only whitespace, untrimmed.\<close>

definition env_nonblank :: "env \<Rightarrow> string \<Rightarrow> string option" where
  "env_nonblank env name = (case env name of Some v \<Rightarrow> if trim v = [] then None else Some v | None \<Rightarrow> None)"

definition or_default :: "'a option \<Rightarrow> 'a \<Rightarrow> 'a" where
  "or_default v d = (case v of Some x \<Rightarrow> x | None \<Rightarrow> d)"

definition ui_jwt_from_env :: "env \<Rightarrow> bool \<Rightarrow> UiJwtConfig" where
  "ui_jwt_from_env env enabled =
     (let public_key_pem = (case map_option normalize_pem_env (env ''MLRUNX_JWT_PUBLIC_KEY_PEM'') of
            Some v \<Rightarrow> if trim v = [] then None else Some v | None \<Rightarrow> None) in
      \<lparr>uj_enabled = enabled,
       uj_secret = env_nonblank env ''MLRUNX_JWT_SECRET'',
       uj_public_key_pem = public_key_pem,
       uj_algorithm = or_default (Option.bind (env ''MLRUNX_JWT_ALGORITHM'') ui_jwt_algorithm_parse)
         (if public_key_pem \<noteq> None then Rs256 else Hs256),
       uj_auto_provision_project = (case env ''MLRUNX_UI_AUTO_PROVISION_PROJECT'' of
          None \<Rightarrow> True | Some v \<Rightarrow> env_flag_value v),
       uj_personal_project_prefix =
         or_default (trimmed_nonempty (env ''MLRUNX_UI_PERSONAL_PROJECT_PREFIX'')) ''personal'',
       uj_issuer = env_nonblank env ''MLRUNX_JWT_ISSUER'',
       uj_audience = env_nonblank env ''MLRUNX_JWT_AUDIENCE'',
       uj_provider = or_default (env_nonblank env ''MLRUNX_JWT_PROVIDER'') ''jwt'',
       uj_session_cookie_name =
         or_default (env_nonblank env ''MLRUNX_UI_SESSION_COOKIE_NAME'') ''mlrunx_ui_session'',
       uj_csrf_cookie_name = or_default (env_nonblank env ''MLRUNX_UI_CSRF_COOKIE_NAME'') ''mlrunx_ui_csrf'',
       uj_session_ttl_seconds = env_positive env ''MLRUNX_UI_SESSION_TTL_SECONDS'' U64_MAX 43200,
       uj_cookie_secure = env_flag env ''MLRUNX_UI_COOKIE_SECURE'',
       uj_cookie_same_site = (case env_nonblank env ''MLRUNX_UI_COOKIE_SAMESITE'' of
          None \<Rightarrow> ''Lax''
        | Some v \<Rightarrow> if eq_ignore_ascii_case v ''strict'' then ''Strict''
            else if eq_ignore_ascii_case v ''none'' then ''None'' else ''Lax''),
       uj_cookie_domain = Option.bind (env ''MLRUNX_UI_COOKIE_DOMAIN'') normalize_cookie_domain\<rparr>)"

definition is_blank :: "string option \<Rightarrow> bool" where
  "is_blank v = (case v of Some s \<Rightarrow> trim s = [] | None \<Rightarrow> True)"

definition validate_startup_configuration_with_proxy_rules ::
  "HmacSecretSource \<Rightarrow> UiJwtConfig \<Rightarrow> bool \<Rightarrow> TrustedProxyRule list \<Rightarrow> (unit, string) result" where
  "validate_startup_configuration_with_proxy_rules source ui trust trusted_proxy_rules =
     (if source = InsecureDefault
      then Err (''MLRUNX_AUTH_HMAC_SECRET is required; insecure fallback secrets are not allowed. ''
        @ ''Set MLRUNX_AUTH_HMAC_SECRET (or MLRUNX_JWT_SECRET for shared HMAC/JWT secret) and restart.'')
      else if trust \<and> trusted_proxy_rules = []
      then Err (''MLRUNX_TRUST_PROXY_HEADERS=true requires MLRUNX_TRUSTED_PROXY_CIDRS to include ''
        @ ''at least one trusted proxy IP/CIDR.'')
      else if \<not> uj_enabled ui then Ok ()
      else if is_blank (uj_issuer ui)
      then Err ''MLRUNX_JWT_ISSUER is required when UI JWT auth is enabled.''
      else if is_blank (uj_audience ui)
      then Err ''MLRUNX_JWT_AUDIENCE is required when UI JWT auth is enabled.''
      else
        (let verifier_configured = (case uj_algorithm ui of
               Hs256 \<Rightarrow> \<not> is_blank (uj_secret ui) | _ \<Rightarrow> \<not> is_blank (uj_public_key_pem ui));
             missing = (case uj_algorithm ui of
               Hs256 \<Rightarrow> ''MLRUNX_JWT_SECRET'' | _ \<Rightarrow> ''MLRUNX_JWT_PUBLIC_KEY_PEM'') in
         if \<not> verifier_configured
         then Err (missing @ '' is required when UI JWT auth is enabled with ''
           @ ui_jwt_algorithm_env_value (uj_algorithm ui) @ ''.'')
         else Ok ()))"

definition validate_startup_configuration ::
  "env \<Rightarrow> HmacSecretSource \<Rightarrow> UiJwtConfig \<Rightarrow> (unit, string) result" where
  "validate_startup_configuration env source ui =
     (let trust = env_flag env ''MLRUNX_TRUST_PROXY_HEADERS'' in
      try_bind (if trust then trusted_proxy_rules_from_env env else Ok [])
        (validate_startup_configuration_with_proxy_rules source ui trust))"

section \<open>Identities\<close>

record UiJwtClaims =
  jc_sub :: "string option"
  jc_user_id :: "string option"
  jc_email :: "string option"
  jc_name :: "string option"

definition claims_subject :: "UiJwtClaims \<Rightarrow> string" where
  "claims_subject c = or_default (map_option trim (case jc_sub c of Some s \<Rightarrow> Some s | None \<Rightarrow> jc_user_id c)) []"

text \<open>
  \<open>jw_key\<close> is the construction of a decoding key from its material, \<open>jw_decode\<close> the verification of
  a token with an algorithm, a key, an issuer and an audience; \<open>ux_show\<close> is the text of a storage
  error, \<open>ux_later\<close> SQLite's addition of seconds to a time.
\<close>

record UiExt =
  ux_key :: KeyExt
  jw_key :: "UiJwtAlgorithm \<Rightarrow> string \<Rightarrow> (unit, string) result"
  jw_decode :: "UiJwtAlgorithm \<Rightarrow> string \<Rightarrow> string \<Rightarrow> string \<Rightarrow> string \<Rightarrow> (UiJwtClaims, string) result"
  ux_show :: "SqliteError \<Rightarrow> string"
  ux_later :: "timestamp \<Rightarrow> nat \<Rightarrow> timestamp"

record UiFresh =
  fr_user :: string
  fr_project :: string
  fr_membership :: string
  fr_session :: string
  fr_session_token :: string
  fr_csrf_token :: string
  fr_request :: string

record ResolvedUiIdentity =
  ri_user_id :: string
  ri_user_name :: "string option"
  ri_allowed_project_ids :: "string set"
  ri_scopes :: "string list"
  ri_is_platform_admin :: bool

definition decode_ui_jwt_claims :: "UiExt \<Rightarrow> UiJwtConfig \<Rightarrow> string \<Rightarrow> (UiJwtClaims, string) result" where
  "decode_ui_jwt_claims ux ui raw_token =
     try_bind (ok_or (uj_issuer ui) ''MLRUNX_JWT_ISSUER is required when UI JWT auth is enabled.'') (\<lambda>issuer.
     try_bind (ok_or (uj_audience ui) ''MLRUNX_JWT_AUDIENCE is required when UI JWT auth is enabled.'') (\<lambda>audience.
     try_bind
       (case uj_algorithm ui of
          Hs256 \<Rightarrow> ok_or (uj_secret ui) ''MLRUNX_JWT_SECRET is not configured.''
        | Rs256 \<Rightarrow>
            try_bind (ok_or (uj_public_key_pem ui) ''MLRUNX_JWT_PUBLIC_KEY_PEM is not configured.'') (\<lambda>pem.
            try_bind (map_err (\<lambda>e. ''Invalid RSA public key PEM: '' @ e) (jw_key ux Rs256 pem)) (\<lambda>_. Ok pem))
        | Es256 \<Rightarrow>
            try_bind (ok_or (uj_public_key_pem ui) ''MLRUNX_JWT_PUBLIC_KEY_PEM is not configured.'') (\<lambda>pem.
            try_bind (map_err (\<lambda>e. ''Invalid EC public key PEM: '' @ e) (jw_key ux Es256 pem)) (\<lambda>_. Ok pem)))
       (\<lambda>material.
     try_bind (map_err (\<lambda>e. ''Invalid JWT token: '' @ e)
                 (jw_decode ux (uj_algorithm ui) material issuer audience raw_token)) (\<lambda>claims.
       if claims_subject claims = [] then Err ''JWT token subject is empty.'' else Ok claims))))"

text \<open>The slug of a text: runs of other characters become one dash, none at the ends.\<close>

fun slug_chars :: "bool \<Rightarrow> string \<Rightarrow> string" where
  "slug_chars previous_dash [] = []"
| "slug_chars previous_dash (c # cs) =
     (if is_ascii_alphanumeric c then ascii_lower c # slug_chars False cs
      else if \<not> previous_dash then CHR ''-'' # slug_chars True cs
      else slug_chars True cs)"

definition trim_dashes :: "string \<Rightarrow> string" where
  "trim_dashes s = rev (dropWhile (\<lambda>c. c = CHR ''-'') (rev (dropWhile (\<lambda>c. c = CHR ''-'') s)))"

definition slugify_personal_project_component :: "string \<Rightarrow> string" where
  "slugify_personal_project_component v = trim_dashes (slug_chars False (trim v))"

definition personal_project_name :: "UiJwtConfig \<Rightarrow> string \<Rightarrow> string option \<Rightarrow> string option \<Rightarrow> string" where
  "personal_project_name ui user_id email display_name =
     (let prefix = slugify_personal_project_component (uj_personal_project_prefix ui);
          prefix = (if prefix = [] then ''personal'' else prefix);
          hint_source = (case map_option (\<lambda>e. hd (split_on CHR ''@'' e)) email of
             Some h \<Rightarrow> h | None \<Rightarrow> or_default display_name ''user'');
          hint = slugify_personal_project_component hint_source;
          hint = (if hint = [] then ''user'' else hint);
          user_suffix = take 8 (filter is_ascii_alphanumeric user_id);
          suffix = (if user_suffix = [] then ''account'' else to_ascii_lowercase user_suffix) in
      prefix @ ''-'' @ hint @ ''-'' @ suffix)"

type_synonym 'a ui = "(Db, 'a, string) op"

definition auto_provision_personal_project ::
  "UiExt \<Rightarrow> UiJwtConfig \<Rightarrow> UiFresh \<Rightarrow> timestamp \<Rightarrow> string \<Rightarrow> string option \<Rightarrow> string option \<Rightarrow> unit ui" where
  "auto_provision_personal_project ux ui fr now user_id email display_name =
     op_bind
       (with_err (\<lambda>e. ''Failed to create personal project: '' @ ux_show ux e)
          (get_or_create_project (fr_project fr) now (personal_project_name ui user_id email display_name)))
       (\<lambda>project_id.
          with_err (\<lambda>e. ''Failed to grant personal project membership: '' @ ux_show ux e)
            (grant_project_membership (fr_membership fr) now project_id user_id ''owner'' (Some user_id)))"

definition resolve_memberships_for_user ::
  "UiExt \<Rightarrow> UiJwtConfig \<Rightarrow> UiFresh \<Rightarrow> timestamp \<Rightarrow> string \<Rightarrow> string option \<Rightarrow> string option \<Rightarrow>
   (string list \<times> string set) ui" where
  "resolve_memberships_for_user ux ui fr now user_id email display_name =
     op_bind
       (with_err (\<lambda>e. ''Failed to load project memberships: '' @ ux_show ux e)
          (list_active_project_memberships user_id)) (\<lambda>loaded.
     op_bind
       (if loaded = [] \<and> uj_auto_provision_project ui
        then
          op_bind (auto_provision_personal_project ux ui fr now user_id email display_name) (\<lambda>_.
            with_err (\<lambda>e. ''Failed to load memberships after auto-provision: '' @ ux_show ux e)
              (list_active_project_memberships user_id))
        else op_return loaded) (\<lambda>memberships.
       if memberships = [] then op_fail ''No active project memberships found for this user.''
       else
         (let (scopes, allowed_projects) = derive_scopes_and_projects memberships in
          op_return (sorted_list_of_set scopes, allowed_projects))))"

text \<open>\<open>.await.unwrap_or(d)\<close>\<close>

definition unwrap_or :: "'a \<Rightarrow> ('s, 'a, 'e) op \<Rightarrow> ('s, 'a, 'f) op" where
  "unwrap_or d m = (\<lambda>s. let (r, s') = m s in (Ok (case r of Ok v \<Rightarrow> v | Err _ \<Rightarrow> d), s'))"

definition resolve_ui_identity_from_jwt ::
  "UiExt \<Rightarrow> UiJwtConfig \<Rightarrow> string option \<Rightarrow> UiFresh \<Rightarrow> timestamp \<Rightarrow> string \<Rightarrow> ResolvedUiIdentity ui" where
  "resolve_ui_identity_from_jwt ux ui admin_email fr now raw_token =
     (if \<not> uj_enabled ui then op_fail ''UI JWT auth is disabled.''
      else
        op_bind (lift_result (decode_ui_jwt_claims ux ui raw_token)) (\<lambda>claims.
        op_bind
          (with_err (\<lambda>e. ''Failed to resolve JWT user identity: '' @ ux_show ux e)
             (get_or_create_user_identity (fr_user fr) now (uj_provider ui) (claims_subject claims)
                (jc_email claims) (jc_name claims))) (\<lambda>user_id.
        op_bind (resolve_memberships_for_user ux ui fr now user_id (jc_email claims) (jc_name claims))
          (\<lambda>(scopes, allowed).
        op_bind (unwrap_or False (sync_platform_admin_flag user_id admin_email)) (\<lambda>is_admin.
          op_return
            \<lparr>ri_user_id = user_id,
             ri_user_name = (case jc_email claims of Some e \<Rightarrow> Some e | None \<Rightarrow> jc_name claims),
             ri_allowed_project_ids = allowed, ri_scopes = scopes, ri_is_platform_admin = is_admin\<rparr>)))))"

definition build_ui_auth_api_key :: "SystemTime \<Rightarrow> ResolvedUiIdentity \<Rightarrow> string \<Rightarrow> ApiKey" where
  "build_ui_auth_api_key now identity mode_prefix =
     \<lparr>k_id = mode_prefix @ '':'' @ ri_user_id identity,
      k_key_hash = mode_prefix @ '':'' @ ri_user_id identity,
      k_key_prefix = mode_prefix @ ''_'' @ take_chars 6 (ri_user_id identity), k_project_id = None,
      k_created_by_user_id = Some (ri_user_id identity), k_name = ri_user_name identity,
      k_scopes = ri_scopes identity, k_created_at = now, k_last_used_at = Some now,
      k_revoked_at = None, k_expires_at = None\<rparr>"

section \<open>Sessions\<close>

record UiSessionIssue =
  is_session_token :: string
  is_csrf_token :: string
  is_expires_at :: timestamp
  is_user_id :: string
  is_allowed_project_ids :: "string list"

text \<open>The settings of the store that do not change: secret, administrator, UI configuration.\<close>

record AuthConfig =
  ac_env :: env
  ac_secret :: string
  ac_secret_source :: HmacSecretSource
  ac_admin_email :: "string option"
  ac_ui :: UiJwtConfig
  ac_limits :: AuthRateLimitConfig
  ac_auth_disabled :: bool
  ac_bootstrap_ttl :: nat

definition hash_with_hmac :: "UiExt \<Rightarrow> AuthConfig \<Rightarrow> string \<Rightarrow> string" where
  "hash_with_hmac ux ac v = hmac_sha256_hex (ux_key ux) (ac_secret ac) v"

definition create_ui_session_from_jwt ::
  "UiExt \<Rightarrow> AuthConfig \<Rightarrow> UiFresh \<Rightarrow> Clock \<Rightarrow> string \<Rightarrow> string option \<Rightarrow> string option \<Rightarrow> UiSessionIssue ui" where
  "create_ui_session_from_jwt ux ac fr ck raw_jwt agent ip =
     (if \<not> uj_enabled (ac_ui ac) then op_fail ''UI JWT auth is disabled.''
      else
        op_bind (resolve_ui_identity_from_jwt ux (ac_ui ac) (ac_admin_email ac) fr (ck_db_now ck) raw_jwt)
          (\<lambda>identity.
        let ttl = min (int (uj_session_ttl_seconds (ac_ui ac))) I64_MAX;
            expires_at = format_datetime (ux_key ux) (ck_now ck + ttl * 10 ^ 9) in
        op_bind
          (with_err (\<lambda>e. ''Failed to persist UI session: '' @ ux_show ux e)
             (insert_auth_session (ck_db_now ck) (fr_session fr) (ri_user_id identity)
                (hash_with_hmac ux ac (fr_session_token fr)) (hash_with_hmac ux ac (fr_csrf_token fr))
                expires_at agent ip)) (\<lambda>_.
          op_return
            \<lparr>is_session_token = fr_session_token fr, is_csrf_token = fr_csrf_token fr,
             is_expires_at = expires_at, is_user_id = ri_user_id identity,
             is_allowed_project_ids = sorted_list_of_set (ri_allowed_project_ids identity)\<rparr>)))"

definition authenticate_ui_jwt ::
  "UiExt \<Rightarrow> AuthConfig \<Rightarrow> UiFresh \<Rightarrow> Clock \<Rightarrow> string \<Rightarrow> (ApiKey \<times> string set \<times> bool) ui" where
  "authenticate_ui_jwt ux ac fr ck raw_token =
     op_bind (resolve_ui_identity_from_jwt ux (ac_ui ac) (ac_admin_email ac) fr (ck_db_now ck) raw_token)
       (\<lambda>identity.
          op_return (build_ui_auth_api_key (ck_now ck) identity ''jwt'', ri_allowed_project_ids identity,
            ri_is_platform_admin identity))"

text \<open>A session is stored under the keyed hash of its token, old ones under the plain hash.\<close>

definition lookup_session :: "UiExt \<Rightarrow> AuthConfig \<Rightarrow> timestamp \<Rightarrow> string \<Rightarrow> (SessionRec \<times> string) option ui" where
  "lookup_session ux ac now raw_session_token =
     (let token_hash = hash_with_hmac ux ac raw_session_token;
          legacy_token_hash = hash_api_key (ux_key ux) raw_session_token in
      op_bind
        (with_err (\<lambda>e. ''Failed to resolve UI session: '' @ ux_show ux e)
           (get_active_auth_session_by_token_hash now token_hash)) (\<lambda>found.
        case found of
          Some session \<Rightarrow> op_return (Some (session, token_hash))
        | None \<Rightarrow>
            op_bind
              (with_err (\<lambda>e. ''Failed to resolve legacy UI session: '' @ ux_show ux e)
                 (get_active_auth_session_by_token_hash now legacy_token_hash)) (\<lambda>legacy.
              op_return (map_option (\<lambda>session. (session, legacy_token_hash)) legacy))))"

definition csrf_matches :: "UiExt \<Rightarrow> AuthConfig \<Rightarrow> string \<Rightarrow> SessionRec \<Rightarrow> bool" where
  "csrf_matches ux ac provided session \<longleftrightarrow>
     hash_with_hmac ux ac provided = se_csrf_hash session \<or> hash_api_key (ux_key ux) provided = se_csrf_hash session"

definition check_csrf ::
  "UiExt \<Rightarrow> AuthConfig \<Rightarrow> string \<Rightarrow> string option \<Rightarrow> SessionRec \<Rightarrow> (unit, string) result" where
  "check_csrf ux ac missing csrf_token session =
     try_bind (ok_or (trimmed_nonempty csrf_token) missing) (\<lambda>provided.
       if \<not> csrf_matches ux ac provided session then Err ''Invalid CSRF token.'' else Ok ())"

definition authenticate_ui_session ::
  "UiExt \<Rightarrow> AuthConfig \<Rightarrow> UiFresh \<Rightarrow> Clock \<Rightarrow> string \<Rightarrow> string option \<Rightarrow> bool \<Rightarrow> (ApiKey \<times> string set \<times> bool) ui" where
  "authenticate_ui_session ux ac fr ck raw_session_token csrf_token require_csrf =
     (if \<not> uj_enabled (ac_ui ac) then op_fail ''UI JWT auth is disabled.''
      else
        op_bind (lookup_session ux ac (ck_db_now ck) raw_session_token) (\<lambda>found.
        op_bind (lift_result (ok_or (map_option fst found) ''Invalid or expired UI session.'')) (\<lambda>session.
        op_bind
          (lift_result (if require_csrf
             then check_csrf ux ac ''Missing CSRF token for mutating request.'' csrf_token session else Ok ()))
          (\<lambda>_.
        op_bind
          (with_err (\<lambda>e. ''Failed to resolve UI session memberships: '' @ e)
             (resolve_memberships_for_user ux (ac_ui ac) fr (ck_db_now ck) (se_user_id session) None None))
          (\<lambda>(scopes, allowed).
        op_bind
          (unwrap_or () (touch_auth_session (ux_later ux) (ck_db_now ck) (se_id session)
             (uj_session_ttl_seconds (ac_ui ac)))) (\<lambda>_.
        op_bind (unwrap_or False (is_user_platform_admin (se_user_id session))) (\<lambda>admin.
          op_return
            (build_ui_auth_api_key (ck_now ck)
               \<lparr>ri_user_id = se_user_id session, ri_user_name = None, ri_allowed_project_ids = allowed,
                ri_scopes = scopes, ri_is_platform_admin = admin\<rparr> ''session'',
             allowed, admin))))))))"

definition revoke_ui_session ::
  "UiExt \<Rightarrow> AuthConfig \<Rightarrow> Clock \<Rightarrow> string \<Rightarrow> string option \<Rightarrow> unit ui" where
  "revoke_ui_session ux ac ck raw_session_token csrf_token =
     (if \<not> uj_enabled (ac_ui ac) then op_return ()
      else
        op_bind (lookup_session ux ac (ck_db_now ck) raw_session_token) (\<lambda>found.
        op_bind
          (lift_result
             (case found of
                Some (session, resolved_hash) \<Rightarrow>
                  try_bind (check_csrf ux ac ''Missing CSRF token.'' csrf_token session) (\<lambda>_. Ok resolved_hash)
              | None \<Rightarrow> Ok (hash_with_hmac ux ac raw_session_token))) (\<lambda>token_hash_to_revoke.
        op_bind
          (with_err (\<lambda>e. ''Failed to revoke UI session: '' @ ux_show ux e)
             (revoke_auth_session_by_token_hash (ck_db_now ck) token_hash_to_revoke))
          (\<lambda>_. op_return ()))))"

section \<open>The middleware\<close>

datatype RequestCredential =
    CredApiKey string
  | CredBearer string
  | CredUiSession string "string option" "string option" bool
  | CredMissing

definition extract_header_token :: "Request \<Rightarrow> string \<Rightarrow> string option" where
  "extract_header_token rq name = trimmed_nonempty (rq_header rq name)"

fun find_cookie :: "string \<Rightarrow> string list \<Rightarrow> string option" where
  "find_cookie cookie_name [] = None"
| "find_cookie cookie_name (part # parts) =
     (case split_once CHR ''='' (trim part) of
        None \<Rightarrow> find_cookie cookie_name parts
      | Some (name, v) \<Rightarrow>
          if trim name = cookie_name \<and> trim v \<noteq> [] then Some (trim v) else find_cookie cookie_name parts)"

definition extract_cookie :: "Request \<Rightarrow> string \<Rightarrow> string option" where
  "extract_cookie rq cookie_name =
     (case rq_header rq ''cookie'' of
        None \<Rightarrow> None | Some h \<Rightarrow> find_cookie cookie_name (split_on CHR '';'' h))"

definition requires_csrf :: "string \<Rightarrow> string \<Rightarrow> bool" where
  "requires_csrf meth path =
     (if meth \<notin> {''POST'', ''PUT'', ''PATCH'', ''DELETE''} then False
      else if path \<in> {''/api/v1/runs/compare'', ''/api/v1/runs/compare/charts''} then False
      else True)"

definition extract_request_credential :: "AuthConfig \<Rightarrow> Request \<Rightarrow> RequestCredential" where
  "extract_request_credential ac rq =
     (case trimmed_nonempty (rq_header rq ''x-api-key'') of
        Some v \<Rightarrow> CredApiKey v
      | None \<Rightarrow>
          (case trimmed_nonempty (Option.bind (rq_header rq ''authorization'') (strip_prefix ''Bearer '')) of
             Some v \<Rightarrow> CredBearer v
           | None \<Rightarrow>
               (case (if uj_enabled (ac_ui ac) then extract_cookie rq (uj_session_cookie_name (ac_ui ac)) else None) of
                  Some session_token \<Rightarrow>
                    CredUiSession session_token (extract_header_token rq ''x-csrf-token'')
                      (extract_cookie rq (uj_csrf_cookie_name (ac_ui ac)))
                      (requires_csrf (rq_method rq) (rq_path rq))
                | None \<Rightarrow> CredMissing)))"

definition auth_client_key :: "string option \<Rightarrow> string" where
  "auth_client_key ip = or_default (trimmed_nonempty ip) ''unknown''"

record AuthState =
  as_store :: KeyStore
  as_limits :: entries

text \<open>The monotonic clock of the limiter is \<open>tick\<close>.\<close>

definition record_auth_failure ::
  "Serde \<Rightarrow> AuthConfig \<Rightarrow> Clock \<Rightarrow> nat \<Rightarrow> string option \<Rightarrow> string option \<Rightarrow> Request \<Rightarrow> string \<Rightarrow> string \<Rightarrow>
   AuthState \<Rightarrow> AuthState" where
  "record_auth_failure sd ac ck tick ip agent rq reason auth_channel st =
     (let metadata = JObject
            [(''auth_channel'', JString auth_channel), (''client_ip'', json_of_text ip),
             (''method'', JString (rq_method rq)), (''path'', JString (rq_path rq)),
             (''reason'', JString reason), (''user_agent'', json_of_text agent)];
          event = \<lparr>ai_user_id = None, ai_key_id = None, ai_project_id = None, ai_run_id = None,
             ai_action = ''auth.failure'', ai_resource_type = ''auth'', ai_resource_id = None,
             ai_outcome = ''denied'', ai_request_id = None, ai_client_ip = None, ai_user_agent = None,
             ai_metadata = (case json_to_string sd metadata of Ok s \<Rightarrow> Some s | Err _ \<Rightarrow> None)\<rparr> in
      st\<lparr>as_limits := record_failure (ac_limits ac) tick (auth_client_key ip) (as_limits st),
         as_store := (as_store st)\<lparr>ks_db :=
           map_option (\<lambda>db. snd (insert_audit_event (ck_db_now ck) event db)) (ks_db (as_store st))\<rparr>\<rparr>)"

text \<open>What authentication yields: key, mode, projects, administrator, cookies to refresh.\<close>

type_synonym authenticated =
  "ApiKey \<times> AuthMode \<times> string set option \<times> bool \<times> (string \<times> string) option"

text \<open>Run an operation of a user on the database of the store, if there is one.\<close>

definition on_sqlite :: "string \<Rightarrow> 'a ui \<Rightarrow> AuthState \<Rightarrow> ('a, string) result \<times> AuthState" where
  "on_sqlite missing m st =
     (case ks_db (as_store st) of
        None \<Rightarrow> (Err missing, st)
      | Some db \<Rightarrow>
          (let (r, db') = m db in (r, st\<lparr>as_store := (as_store st)\<lparr>ks_db := Some db'\<rparr>\<rparr>)))"

definition invalid_key :: http_error where
  "invalid_key = (auth_status_code InvalidKey, auth_error_message InvalidKey)"

definition validate_request_key ::
  "UiExt \<Rightarrow> AuthConfig \<Rightarrow> Clock \<Rightarrow> string \<Rightarrow> AuthState \<Rightarrow> ApiKey option \<times> AuthState" where
  "validate_request_key ux ac ck raw st =
     (case validate_key (ux_key ux) (ac_secret ac) ck raw (as_store st) of (k, ks) \<Rightarrow> (k, st\<lparr>as_store := ks\<rparr>))"

definition auth_failed ::
  "Serde \<Rightarrow> AuthConfig \<Rightarrow> Clock \<Rightarrow> nat \<Rightarrow> string option \<Rightarrow> string option \<Rightarrow> Request \<Rightarrow> string \<Rightarrow> string \<Rightarrow>
   http_error \<Rightarrow> AuthState \<Rightarrow> ('a, http_error) result \<times> AuthState" where
  "auth_failed sd ac ck tick ip agent rq reason channel error st =
     (Err error, record_auth_failure sd ac ck tick ip agent rq reason channel st)"

definition authenticate_credential ::
  "UiExt \<Rightarrow> Serde \<Rightarrow> AuthConfig \<Rightarrow> UiFresh \<Rightarrow> Clock \<Rightarrow> nat \<Rightarrow> string option \<Rightarrow> string option \<Rightarrow> Request \<Rightarrow>
   RequestCredential \<Rightarrow> AuthState \<Rightarrow> (authenticated, http_error) result \<times> AuthState" where
  "authenticate_credential ux sd ac fr ck tick ip agent rq cred st =
     (case cred of
        CredMissing \<Rightarrow> (Err (auth_status_code MissingKey, auth_error_message MissingKey), st)
      | CredApiKey raw_key \<Rightarrow>
          (case validate_request_key ux ac ck raw_key st of
             (Some k, st') \<Rightarrow> (Ok (k, ApiKeyMode, None, False, None), st')
           | (None, st') \<Rightarrow>
               auth_failed sd ac ck tick ip agent rq ''invalid_api_key'' ''x-api-key'' invalid_key st')
      | CredBearer raw_token \<Rightarrow>
          (case validate_request_key ux ac ck raw_token st of
             (Some k, st') \<Rightarrow> (Ok (k, ApiKeyMode, None, False, None), st')
           | (None, st') \<Rightarrow>
               if uj_enabled (ac_ui ac)
               then
                 (case on_sqlite ''SQLite-backed auth store is required for UI JWT auth.''
                         (authenticate_ui_jwt ux ac fr ck raw_token) st' of
                    (Ok (k, allowed, admin), st'') \<Rightarrow> (Ok (k, UiJwt, Some allowed, admin, None), st'')
                  | (Err _, st'') \<Rightarrow>
                      auth_failed sd ac ck tick ip agent rq ''invalid_ui_jwt'' ''bearer_jwt'' invalid_key st'')
               else auth_failed sd ac ck tick ip agent rq ''invalid_bearer_token'' ''bearer'' invalid_key st')
      | CredUiSession session_token csrf_header_token csrf_cookie_token require_csrf \<Rightarrow>
          (case on_sqlite ''SQLite-backed auth store is required for UI session auth.''
                  (authenticate_ui_session ux ac fr ck session_token csrf_header_token require_csrf) st of
             (Ok (k, allowed, admin), st') \<Rightarrow>
               (Ok (k, UiJwt, Some allowed, admin,
                  map_option (\<lambda>csrf. (session_token, csrf))
                    (case csrf_cookie_token of Some c \<Rightarrow> Some c | None \<Rightarrow> csrf_header_token)), st')
           | (Err err, st') \<Rightarrow>
               if str_contains ''CSRF'' err
               then auth_failed sd ac ck tick ip agent rq ''invalid_csrf_token'' ''ui_session''
                 (FORBIDDEN, ''Invalid CSRF token.'') st'
               else auth_failed sd ac ck tick ip agent rq ''invalid_ui_session'' ''ui_session'' invalid_key st'))"

text \<open>
  The middleware up to the call of the handler: the context it inserts and the cookies it will
  refresh on the way back.
\<close>

definition authenticate_request ::
  "UiExt \<Rightarrow> Serde \<Rightarrow> AuthConfig \<Rightarrow> UiFresh \<Rightarrow> Clock \<Rightarrow> nat \<Rightarrow> Request \<Rightarrow> string option \<Rightarrow> string option \<Rightarrow>
   RequestCredential \<Rightarrow> AuthState \<Rightarrow>
   (AuthContext \<times> (string \<times> string) option, http_error) result \<times> AuthState" where
  "authenticate_request ux sd ac fr ck tick rq ip agent cred st =
     (case retry_after_seconds (ac_limits ac) tick (auth_client_key ip) (as_limits st) of
        (Some retry_after, limits) \<Rightarrow>
          (Err (TOO_MANY_REQUESTS, ''Too many failed authentication attempts. Retry in ''
             @ show_nat retry_after @ ''s.''),
           record_auth_failure sd ac ck tick ip agent rq ''rate_limited'' ''middleware''
             (st\<lparr>as_limits := limits\<rparr>))
      | (None, limits) \<Rightarrow>
          (case authenticate_credential ux sd ac fr ck tick ip agent rq cred (st\<lparr>as_limits := limits\<rparr>) of
             (Err error, st') \<Rightarrow> (Err error, st')
           | (Ok (k, mode, allowed, admin, refresh), st') \<Rightarrow>
               (Ok (\<lparr>api_key = k, is_dev_mode = False, is_platform_admin = admin,
                     allowed_project_ids = allowed, auth_mode = mode, request_id = fr_request fr,
                     client_ip = ip, user_agent = agent\<rparr>,
                    if rq_path rq \<noteq> ''/api/v1/ui-auth/logout'' then refresh else None),
                st'\<lparr>as_limits := record_success (ac_limits ac) tick (auth_client_key ip) (as_limits st')\<rparr>)))"

definition auth_middleware ::
  "UiExt \<Rightarrow> Serde \<Rightarrow> AuthConfig \<Rightarrow> UiFresh \<Rightarrow> Clock \<Rightarrow> nat \<Rightarrow> Request \<Rightarrow> AuthState \<Rightarrow>
   (AuthContext \<times> (string \<times> string) option, http_error) result \<times> AuthState" where
  "auth_middleware ux sd ac fr ck tick rq st =
     (if ac_auth_disabled ac then (Ok (dev_mode (ck_now ck) (fr_request fr), None), st)
      else authenticate_request ux sd ac fr ck tick rq (extract_client_ip (ac_env ac) rq)
        (extract_user_agent rq) (extract_request_credential ac rq) st)"

text \<open>The cookies: \<open>build_cookie_value\<close> without the conversion to a header value.\<close>

definition build_cookie_value ::
  "string \<Rightarrow> string \<Rightarrow> nat \<Rightarrow> bool \<Rightarrow> bool \<Rightarrow> string \<Rightarrow> string option \<Rightarrow> string" where
  "build_cookie_value name v ttl_seconds http_only secure same_site domain =
     name @ ''='' @ v @ ''; Path=/; Max-Age='' @ show_nat ttl_seconds @ ''; SameSite='' @ same_site
     @ (case domain of Some d \<Rightarrow> ''; Domain='' @ d | None \<Rightarrow> [])
     @ (if http_only then ''; HttpOnly'' else []) @ (if secure then ''; Secure'' else [])"

definition ui_session_refresh_cookies :: "UiJwtConfig \<Rightarrow> string \<Rightarrow> string \<Rightarrow> string list" where
  "ui_session_refresh_cookies ui session_token csrf_token =
     (if session_token = [] \<or> csrf_token = [] then []
      else
        [build_cookie_value (uj_session_cookie_name ui) session_token (uj_session_ttl_seconds ui) True
           (uj_cookie_secure ui) (uj_cookie_same_site ui) (uj_cookie_domain ui),
         build_cookie_value (uj_csrf_cookie_name ui) csrf_token (uj_session_ttl_seconds ui) False
           (uj_cookie_secure ui) (uj_cookie_same_site ui) (uj_cookie_domain ui)])"

section \<open>What an authenticated user is\<close>

lemma unwrap_or_apply:
  "unwrap_or d m s = (Ok (case fst (m s) of Ok v \<Rightarrow> v | Err _ \<Rightarrow> d), snd (m s))"
  by (simp add: unwrap_or_def split_beta)

lemmas ui_Ok_iff = op_bind_Ok_iff with_err_Ok_iff lift_result_Ok_iff unwrap_or_apply

text \<open>The active memberships of a user, the projects and the scopes they give.\<close>

definition active_memberships :: "string \<Rightarrow> Db \<Rightarrow> MembershipRec set" where
  "active_memberships uid db = {m \<in> set (t_memberships db). mb_user_id m = uid \<and> mb_revoked_at m = None}"

definition member_projects :: "string \<Rightarrow> Db \<Rightarrow> string set" where
  "member_projects uid db = mb_project_id ` active_memberships uid db"

definition member_scopes :: "string \<Rightarrow> Db \<Rightarrow> string set" where
  "member_scopes uid db = (\<Union>m \<in> active_memberships uid db. set (role_scopes (mb_role m)))"

lemma derive_scopes_and_projects_eq:
  "derive_scopes_and_projects ms =
     ((\<Union>m \<in> set ms. set (role_scopes (pmr_role m))), pmr_project_id ` set ms)"
  by (induction ms) (auto simp: split_beta Let_def)

lemma list_active_project_memberships_set:
  assumes "list_active_project_memberships uid db = (Ok ms, db')"
  shows "db' = db" "set ms = (\<lambda>m. \<lparr>pmr_project_id = mb_project_id m, pmr_role = mb_role m\<rparr>) ` active_memberships uid db"
  using assms by (auto simp: list_active_project_memberships_def active_memberships_def)

lemma derived_from_active:
  assumes "list_active_project_memberships uid db = (Ok ms, db')"
  shows "derive_scopes_and_projects ms = (member_scopes uid db, member_projects uid db)"
  using list_active_project_memberships_set [OF assms]
  by (simp add: derive_scopes_and_projects_eq member_scopes_def member_projects_def image_image)

text \<open>Provisioning touches projects and memberships only.\<close>

definition same_accounts :: "Db \<Rightarrow> Db \<Rightarrow> bool" where
  "same_accounts db db' \<longleftrightarrow> t_users db' = t_users db \<and> t_sessions db' = t_sessions db"

lemma get_or_create_project_accounts:
  "get_or_create_project fresh now name db = (r, db') \<Longrightarrow> same_accounts db db'"
  by (auto simp: get_or_create_project_def op_bind_apply insert_project_row_def op_stmt_apply same_accounts_def
    split: option.splits prod.splits result.splits)

lemma grant_project_membership_accounts:
  "grant_project_membership fresh now pid uid role by db = (r, db') \<Longrightarrow> same_accounts db db'"
  by (auto simp: grant_project_membership_def op_bind_apply insert_membership_row_def op_stmt_apply
    revoke_memberships_def same_accounts_def split: option.splits)

lemma auto_provision_accounts:
  "auto_provision_personal_project ux ui fr now uid email name db = (Ok (), db') \<Longrightarrow> same_accounts db db'"
  by (auto simp: auto_provision_personal_project_def ui_Ok_iff same_accounts_def
    dest!: get_or_create_project_accounts grant_project_membership_accounts)

lemma resolve_memberships_sound:
  assumes "resolve_memberships_for_user ux ui fr now uid email name db = (Ok (scopes, allowed), db')"
  shows "set scopes = member_scopes uid db' \<and> allowed = member_projects uid db' \<and> same_accounts db db'"
proof -
  from assms obtain loaded db0 ms db1 where
    loaded: "list_active_project_memberships uid db = (Ok loaded, db0)"
    and ms: "(if loaded = [] \<and> uj_auto_provision_project ui
        then op_bind (auto_provision_personal_project ux ui fr now uid email name) (\<lambda>_.
          with_err (\<lambda>e. ''Failed to load memberships after auto-provision: '' @ ux_show ux e)
            (list_active_project_memberships uid))
        else op_return loaded) db0 = (Ok ms, db1)"
    and out: "(if ms = [] then op_fail ''No active project memberships found for this user.''
       else (let (scopes, allowed_projects) = derive_scopes_and_projects ms in
          op_return (sorted_list_of_set scopes, allowed_projects))) db1 = (Ok (scopes, allowed), db')"
    by (auto simp: resolve_memberships_for_user_def op_bind_Ok_iff with_err_Ok_iff)
  have db0: "db0 = db" using list_active_project_memberships_set(1) [OF loaded] .
  have active: "\<exists>d. list_active_project_memberships uid d = (Ok ms, db1) \<and> same_accounts db d"
  proof (cases "loaded = [] \<and> uj_auto_provision_project ui")
    case True
    with ms db0 obtain d where "auto_provision_personal_project ux ui fr now uid email name db = (Ok (), d)"
        "list_active_project_memberships uid d = (Ok ms, db1)"
      by (auto simp: op_bind_Ok_iff with_err_Ok_iff)
    then show ?thesis using auto_provision_accounts by blast
  next
    case False
    with ms db0 loaded show ?thesis by (auto simp: same_accounts_def)
  qed
  then obtain d where d: "list_active_project_memberships uid d = (Ok ms, db1)" "same_accounts db d" by blast
  have same: "db1 = d" using list_active_project_memberships_set(1) [OF d(1)] .
  have "finite (member_scopes uid d)"
    by (auto simp: member_scopes_def active_memberships_def)
  then show ?thesis
    using out d derived_from_active [OF d(1)] by (auto simp: same split: if_splits)
qed

lemma lookup_session_sound:
  assumes "lookup_session ux ac now token db = (Ok (Some (session, h)), db')"
  shows "db' = db \<and> session \<in> set (t_sessions db) \<and> se_token_hash session = h \<and> se_revoked_at session = None
    \<and> now < se_expires_at session \<and> h \<in> {hash_with_hmac ux ac token, hash_api_key (ux_key ux) token}"
  using assms
  by (auto simp: lookup_session_def Let_def ui_Ok_iff get_active_auth_session_by_token_hash_def
    split: option.splits dest!: find_SomeD)

lemma lookup_session_db: "lookup_session ux ac now token db = (Ok found, db') \<Longrightarrow> db' = db"
  by (auto simp: lookup_session_def Let_def ui_Ok_iff get_active_auth_session_by_token_hash_def split: option.splits)

lemma check_csrf_Ok:
  "check_csrf ux ac missing csrf session = Ok () \<longleftrightarrow>
     (\<exists>provided. trimmed_nonempty csrf = Some provided \<and> csrf_matches ux ac provided session)"
  by (auto simp: check_csrf_def try_bind_Ok_iff split: if_splits)

text \<open>What the key and the flags of an authenticated UI user say, in terms of the database.\<close>

definition ui_identity :: "string \<Rightarrow> string \<Rightarrow> Db \<Rightarrow> ApiKey \<times> string set \<times> bool \<Rightarrow> bool" where
  "ui_identity mode uid db out \<longleftrightarrow>
     (case out of (k, allowed, admin) \<Rightarrow>
        k_id k = mode @ '':'' @ uid \<and> k_project_id k = None \<and> set (k_scopes k) = member_scopes uid db
      \<and> allowed = member_projects uid db)"

lemma build_key_identity:
  "set (ri_scopes ri) = member_scopes (ri_user_id ri) db \<Longrightarrow> allowed = member_projects (ri_user_id ri) db \<Longrightarrow>
   ui_identity mode (ri_user_id ri) db (build_ui_auth_api_key now ri mode, allowed, admin)"
  by (simp add: ui_identity_def build_ui_auth_api_key_def)

lemma memberships_only:
  "t_memberships db' = t_memberships db \<Longrightarrow>
   member_scopes uid db' = member_scopes uid db \<and> member_projects uid db' = member_projects uid db"
  by (simp add: member_scopes_def member_projects_def active_memberships_def)

lemma authenticate_ui_session_sound:
  assumes "authenticate_ui_session ux ac fr ck token csrf require_csrf db = (Ok out, db')"
  obtains session where "session \<in> set (t_sessions db)" "se_revoked_at session = None"
    "ck_db_now ck < se_expires_at session"
    "se_token_hash session \<in> {hash_with_hmac ux ac token, hash_api_key (ux_key ux) token}"
    "require_csrf \<Longrightarrow> \<exists>provided. trimmed_nonempty csrf = Some provided \<and> csrf_matches ux ac provided session"
    "ui_identity ''session'' (se_user_id session) db' out"
    "snd (snd out) \<Longrightarrow> \<exists>u \<in> set (t_users db). us_id u = se_user_id session \<and> us_is_platform_admin u"
proof -
  from assms obtain session h scopes allowed db1 db2 where
    l: "lookup_session ux ac (ck_db_now ck) token db = (Ok (Some (session, h)), db)"
    and c: "(if require_csrf then check_csrf ux ac ''Missing CSRF token for mutating request.'' csrf session else Ok ()) = Ok ()"
    and m: "resolve_memberships_for_user ux (ac_ui ac) fr (ck_db_now ck) (se_user_id session) None None db
        = (Ok (scopes, allowed), db1)"
    and db2: "db2 = snd (touch_auth_session (ux_later ux) (ck_db_now ck) (se_id session)
        (uj_session_ttl_seconds (ac_ui ac)) db1)"
    and out: "out = (build_ui_auth_api_key (ck_now ck)
               \<lparr>ri_user_id = se_user_id session, ri_user_name = None, ri_allowed_project_ids = allowed,
                ri_scopes = scopes, ri_is_platform_admin = snd (snd out)\<rparr> ''session'', allowed, snd (snd out))"
    and admin: "snd (snd out) = (case find (\<lambda>u. us_id u = se_user_id session) (t_users db2) of
       Some u \<Rightarrow> us_is_platform_admin u | None \<Rightarrow> False)"
    and db': "db' = db2"
    by (force simp: authenticate_ui_session_def ui_Ok_iff is_user_platform_admin_def split: if_splits prod.splits
      dest: lookup_session_db)
  have frame: "t_memberships db2 = t_memberships db1" "t_users db2 = t_users db1"
    by (simp_all add: db2 touch_auth_session_def op_write_def)
  note mem = resolve_memberships_sound [OF m]
  show ?thesis
  proof (rule that)
    show "session \<in> set (t_sessions db)" "se_revoked_at session = None" "ck_db_now ck < se_expires_at session"
      "se_token_hash session \<in> {hash_with_hmac ux ac token, hash_api_key (ux_key ux) token}"
      using lookup_session_sound [OF l] by auto
    show "\<exists>provided. trimmed_nonempty csrf = Some provided \<and> csrf_matches ux ac provided session" if require_csrf
      using c that by (simp add: check_csrf_Ok)
    show "ui_identity ''session'' (se_user_id session) db' out"
      using mem memberships_only [OF frame(1), of "se_user_id session"]
      by (subst out) (rule build_key_identity [where ri = "\<lparr>ri_user_id = se_user_id session, ri_user_name = None,
          ri_allowed_project_ids = allowed, ri_scopes = scopes, ri_is_platform_admin = snd (snd out)\<rparr>",
          simplified], simp_all add: db')
    show "\<exists>u \<in> set (t_users db). us_id u = se_user_id session \<and> us_is_platform_admin u" if "snd (snd out)"
      using that admin mem frame(2) by (auto simp: same_accounts_def split: option.splits dest!: find_SomeD)
  qed
qed

text \<open>The user of an identity: the account found or made for a provider and a subject.\<close>

definition identified :: "string \<Rightarrow> string \<Rightarrow> string \<Rightarrow> Db \<Rightarrow> bool" where
  "identified provider subject uid db \<longleftrightarrow>
     (\<exists>u \<in> set (t_users db). us_id u = uid \<and> us_identity u = Some (provider, subject))"

lemma identified_image:
  assumes "identified provider subject uid db" "set (t_users db') = f ` set (t_users db)"
    and "\<And>u. us_id (f u) = us_id u \<and> us_identity (f u) = us_identity u"
  shows "identified provider subject uid db'"
  using assms by (auto simp: identified_def)

lemma get_or_create_user_identity_identified:
  assumes "get_or_create_user_identity fresh now provider subject email display db = (Ok uid, db')"
  shows "identified provider subject uid db' \<and> t_sessions db' = t_sessions db"
proof (cases "find (\<lambda>u. us_auth_provider u = provider \<and> us_external_subject u = Some subject) (t_users db)")
  case None
  with assms show ?thesis
    by (auto simp: get_or_create_user_identity_def op_bind_apply insert_user_row_def op_stmt_apply identified_def us_identity_def split: option.splits)
next
  case (Some u)
  then have u: "identified provider subject (us_id u) db" by (auto simp: identified_def us_identity_def dest!: find_SomeD)
  let ?f = "\<lambda>x. if us_id x = us_id u then x\<lparr>us_email := coalesce email (us_email x),
      us_display_name := coalesce display (us_display_name x), us_updated_at := now\<rparr> else x"
  from Some assms have "uid = us_id u" "set (t_users db') = ?f ` set (t_users db)" "t_sessions db' = t_sessions db"
    by (auto simp: get_or_create_user_identity_def op_bind_apply op_write_def set_update_where)
  then show ?thesis
    using identified_image [OF u, of db' ?f] by (simp add: us_identity_def)
qed

lemma sync_platform_admin_flag_identified:
  assumes "sync_platform_admin_flag uid0 email db = (r, db')" "identified provider subject uid db"
  shows "identified provider subject uid db' \<and> t_sessions db' = t_sessions db"
proof -
  obtain admin where "db' = db\<lparr>t_users := update_where (\<lambda>u. us_id u = uid0) (\<lambda>u. u\<lparr>us_is_platform_admin := admin\<rparr>) (t_users db)\<rparr>"
    using assms(1) unfolding sync_platform_admin_flag_def Let_def by blast
  then show ?thesis
    using identified_image [OF assms(2), of db' "\<lambda>u. if us_id u = uid0 then u\<lparr>us_is_platform_admin := admin\<rparr> else u"]
    by (simp add: set_update_where us_identity_def)
qed

lemma sync_platform_admin_flag_memberships:
  "sync_platform_admin_flag uid email db = (r, db') \<Longrightarrow> t_memberships db' = t_memberships db"
  by (auto simp: sync_platform_admin_flag_def Let_def)

text \<open>
  What it takes for a token to be verified: an issuer, an audience and the material of the algorithm
  are configured, the token verifies against them, and it has a subject.
\<close>

definition jwt_verified :: "UiExt \<Rightarrow> UiJwtConfig \<Rightarrow> string \<Rightarrow> UiJwtClaims \<Rightarrow> bool" where
  "jwt_verified ux ui token claims \<longleftrightarrow>
     (\<exists>issuer audience material. uj_issuer ui = Some issuer \<and> uj_audience ui = Some audience
        \<and> (if uj_algorithm ui = Hs256 then uj_secret ui else uj_public_key_pem ui) = Some material
        \<and> jw_decode ux (uj_algorithm ui) material issuer audience token = Ok claims)
   \<and> claims_subject claims \<noteq> []"

lemma decode_ui_jwt_claims_Ok: "decode_ui_jwt_claims ux ui token = Ok claims \<Longrightarrow> jwt_verified ux ui token claims"
  by (auto simp: decode_ui_jwt_claims_def jwt_verified_def try_bind_Ok_iff split: UiJwtAlgorithm.splits if_splits)

text \<open>The address of a user is the configured one of the platform administrator.\<close>

definition configured_admin :: "AuthConfig \<Rightarrow> string \<Rightarrow> Db \<Rightarrow> bool" where
  "configured_admin ac uid db \<longleftrightarrow>
     (\<exists>u \<in> set (t_users db). \<exists>email admin. us_id u = uid \<and> us_email u = Some email \<and> ac_admin_email ac = Some admin
        \<and> eq_ignore_ascii_case email (trim admin))"

lemma sync_platform_admin_flag_True:
  assumes "sync_platform_admin_flag uid (ac_admin_email ac) db = (Ok True, db')"
  shows "configured_admin ac uid db'"
proof -
  from assms obtain u email admin where u: "u \<in> set (t_users db)" "us_id u = uid" "us_email u = Some email"
      "ac_admin_email ac = Some admin" "eq_ignore_ascii_case email (trim admin)"
    and db': "db' = db\<lparr>t_users := update_where (\<lambda>u. us_id u = uid) (\<lambda>u. u\<lparr>us_is_platform_admin := True\<rparr>) (t_users db)\<rparr>"
    by (auto simp: sync_platform_admin_flag_def Let_def bind_eq_Some_conv split: option.splits dest!: find_SomeD)
  then show ?thesis
    unfolding configured_admin_def by (intro bexI [of _ "u\<lparr>us_is_platform_admin := True\<rparr>"]) (auto simp: set_update_where image_iff)
qed

lemma authenticate_ui_jwt_sound:
  assumes "authenticate_ui_jwt ux ac fr ck token db = (Ok out, db')"
  obtains claims uid where "uj_enabled (ac_ui ac)" "jwt_verified ux (ac_ui ac) token claims" "ui_identity ''jwt'' uid db' out"
    "identified (uj_provider (ac_ui ac)) (claims_subject claims) uid db'" "snd (snd out) \<Longrightarrow> configured_admin ac uid db'"
proof -
  from assms obtain claims uid scopes allowed db1 db2 where
    on: "uj_enabled (ac_ui ac)"
    and c: "decode_ui_jwt_claims ux (ac_ui ac) token = Ok claims"
    and u: "get_or_create_user_identity (fr_user fr) (ck_db_now ck) (uj_provider (ac_ui ac)) (claims_subject claims)
        (jc_email claims) (jc_name claims) db = (Ok uid, db1)"
    and m: "resolve_memberships_for_user ux (ac_ui ac) fr (ck_db_now ck) uid (jc_email claims) (jc_name claims) db1
        = (Ok (scopes, allowed), db2)"
    and db': "db' = snd (sync_platform_admin_flag uid (ac_admin_email ac) db2)"
    and out: "\<exists>name admin. fst (sync_platform_admin_flag uid (ac_admin_email ac) db2) = Ok admin
        \<and> out = (build_ui_auth_api_key (ck_now ck)
               \<lparr>ri_user_id = uid, ri_user_name = name, ri_allowed_project_ids = allowed,
                ri_scopes = scopes, ri_is_platform_admin = admin\<rparr> ''jwt'', allowed, admin)"
    by (force simp: authenticate_ui_jwt_def resolve_ui_identity_from_jwt_def ui_Ok_iff sync_platform_admin_flag_def Let_def
      split: if_splits prod.splits)
  from out obtain name admin where flag: "sync_platform_admin_flag uid (ac_admin_email ac) db2 = (Ok admin, db')"
    and out: "out = (build_ui_auth_api_key (ck_now ck)
      \<lparr>ri_user_id = uid, ri_user_name = name, ri_allowed_project_ids = allowed,
       ri_scopes = scopes, ri_is_platform_admin = admin\<rparr> ''jwt'', allowed, admin)" by (auto simp: db' prod_eq_iff)
  note frame = memberships_only [OF sync_platform_admin_flag_memberships [OF flag], of uid]
  have "identified (uj_provider (ac_ui ac)) (claims_subject claims) uid db2"
    using get_or_create_user_identity_identified [OF u] resolve_memberships_sound [OF m] by (simp add: identified_def same_accounts_def)
  note id = sync_platform_admin_flag_identified [OF flag this]
  show ?thesis
  proof (rule that [OF on decode_ui_jwt_claims_Ok [OF c]])
    show "ui_identity ''jwt'' uid db' out"
      unfolding out
      by (rule build_key_identity [where ri = "\<lparr>ri_user_id = uid, ri_user_name = name,
          ri_allowed_project_ids = allowed, ri_scopes = scopes, ri_is_platform_admin = admin\<rparr>", simplified])
        (simp_all add: frame resolve_memberships_sound [OF m])
    show "identified (uj_provider (ac_ui ac)) (claims_subject claims) uid db'" using id by blast
    show "configured_admin ac uid db'" if "snd (snd out)"
      using that flag by (auto simp: out intro: sync_platform_admin_flag_True)
  qed
qed

lemma on_sqlite_Ok:
  assumes "on_sqlite missing m st = (Ok out, st')"
  obtains db db' where "ks_db (as_store st) = Some db" "m db = (Ok out, db')" "ks_db (as_store st') = Some db'"
  using assms by (auto simp: on_sqlite_def Let_def split: option.splits prod.splits)

text \<open>
  Where the context of a request that passed the middleware comes from. The credentials are those
  the request carries in its headers: a key or a token, or a session in a cookie.
\<close>

definition presented_key :: "Request \<Rightarrow> string option" where
  "presented_key rq = trimmed_nonempty (rq_header rq ''x-api-key'')"

definition presented_bearer :: "Request \<Rightarrow> string option" where
  "presented_bearer rq = trimmed_nonempty (Option.bind (rq_header rq ''authorization'') (strip_prefix ''Bearer ''))"

text \<open>
  The context of an API key: the request presents a raw key, and the key of the context is the one
  the store has for it, live and verified.
\<close>

definition key_context :: "UiExt \<Rightarrow> AuthConfig \<Rightarrow> Clock \<Rightarrow> Request \<Rightarrow> KeyStore \<Rightarrow> AuthContext \<Rightarrow> bool" where
  "key_context ux ac ck rq ks auth \<longleftrightarrow>
     auth_mode auth = ApiKeyMode \<and> allowed_project_ids auth = None \<and> \<not> is_platform_admin auth
   \<and> (\<exists>raw. Some raw \<in> {presented_key rq, presented_bearer rq} \<and> stored_key (ux_key ux) (ac_secret ac) ck raw ks (api_key auth))"

text \<open>
  The user of a verified bearer token: the account of the provider and of the subject of the token. An
  administrator has the configured address.
\<close>

definition jwt_user :: "UiExt \<Rightarrow> AuthConfig \<Rightarrow> Request \<Rightarrow> Db \<Rightarrow> string \<Rightarrow> bool \<Rightarrow> bool" where
  "jwt_user ux ac rq db' uid admin \<longleftrightarrow>
     (\<exists>token claims. presented_bearer rq = Some token \<and> jwt_verified ux (ac_ui ac) token claims
        \<and> identified (uj_provider (ac_ui ac)) (claims_subject claims) uid db')
   \<and> (admin \<longrightarrow> configured_admin ac uid db')"

text \<open>
  The user of a session: the cookie carries the token of a stored session that is live now, and where
  the request changes something the header carries its CSRF token. An administrator is marked so
  in the database.
\<close>

definition session_user :: "UiExt \<Rightarrow> AuthConfig \<Rightarrow> Clock \<Rightarrow> Request \<Rightarrow> KeyStore \<Rightarrow> string \<Rightarrow> bool \<Rightarrow> bool" where
  "session_user ux ac ck rq ks uid admin \<longleftrightarrow>
     (\<exists>token db session. extract_cookie rq (uj_session_cookie_name (ac_ui ac)) = Some token \<and> ks_db ks = Some db
        \<and> session \<in> set (t_sessions db) \<and> se_user_id session = uid
        \<and> se_revoked_at session = None \<and> ck_db_now ck < se_expires_at session
        \<and> se_token_hash session \<in> {hash_with_hmac ux ac token, hash_api_key (ux_key ux) token}
        \<and> (requires_csrf (rq_method rq) (rq_path rq) \<longrightarrow>
             (\<exists>csrf. trimmed_nonempty (extract_header_token rq ''x-csrf-token'') = Some csrf
                \<and> se_csrf_hash session \<in> {hash_with_hmac ux ac csrf, hash_api_key (ux_key ux) csrf}))
        \<and> (admin \<longrightarrow> (\<exists>u \<in> set (t_users db). us_id u = uid \<and> us_is_platform_admin u)))"

definition user_context :: "UiExt \<Rightarrow> AuthConfig \<Rightarrow> Clock \<Rightarrow> Request \<Rightarrow> KeyStore \<Rightarrow> Db \<Rightarrow> AuthContext \<Rightarrow> string \<Rightarrow> bool" where
  "user_context ux ac ck rq ks db' auth uid \<longleftrightarrow>
     auth_mode auth = UiJwt \<and> uj_enabled (ac_ui ac)
   \<and> (\<exists>mode \<in> {''jwt'', ''session''}. k_id (api_key auth) = mode @ '':'' @ uid)
   \<and> set (k_scopes (api_key auth)) = member_scopes uid db'
   \<and> allowed_project_ids auth = Some (member_projects uid db')
   \<and> (jwt_user ux ac rq db' uid (is_platform_admin auth) \<or> session_user ux ac ck rq ks uid (is_platform_admin auth))"

lemma authenticate_credential_Ok:
  assumes "authenticate_credential ux sd ac fr ck tick ip agent rq (extract_request_credential ac rq) st
      = (Ok (k, mode, allowed, admin, refresh), st')"
    and auth: "api_key auth = k" "auth_mode auth = mode" "allowed_project_ids auth = allowed" "is_platform_admin auth = admin"
  shows "key_context ux ac ck rq (as_store st) auth
    \<or> (\<exists>db' uid. ks_db (as_store st') = Some db' \<and> user_context ux ac ck rq (as_store st) db' auth uid)"
proof (cases "extract_request_credential ac rq")
  case (CredBearer token)
  then have bearer: "presented_bearer rq = Some token"
    by (auto simp: extract_request_credential_def presented_bearer_def split: option.splits)
  obtain v ks where v: "validate_key (ux_key ux) (ac_secret ac) ck token (as_store st) = (v, ks)" by fastforce
  show ?thesis
  proof (cases v)
    case None
    with assms(1) CredBearer v obtain al where
      on: "on_sqlite ''SQLite-backed auth store is required for UI JWT auth.'' (authenticate_ui_jwt ux ac fr ck token)
         (st\<lparr>as_store := ks\<rparr>) = (Ok (k, al, admin), st')" and out: "mode = UiJwt" "allowed = Some al"
      by (auto simp: authenticate_credential_def validate_request_key_def auth_failed_def split: if_splits prod.splits result.splits)
    from on obtain db db' where db': "ks_db (as_store st') = Some db'"
      and j: "authenticate_ui_jwt ux ac fr ck token db = (Ok (k, al, admin), db')"
      by (rule on_sqlite_Ok) blast
    from j obtain claims uid where "uj_enabled (ac_ui ac)" "jwt_verified ux (ac_ui ac) token claims"
        "ui_identity ''jwt'' uid db' (k, al, admin)" "identified (uj_provider (ac_ui ac)) (claims_subject claims) uid db'"
        "admin \<Longrightarrow> configured_admin ac uid db'"
      by (rule authenticate_ui_jwt_sound) simp
    with bearer auth out have "user_context ux ac ck rq (as_store st) db' auth uid"
      unfolding user_context_def jwt_user_def ui_identity_def by simp blast
    with db' show ?thesis by blast
  next
    case (Some a)
    with assms(1) CredBearer v have "mode = ApiKeyMode \<and> allowed = None \<and> \<not> admin \<and> k = a"
      by (auto simp: authenticate_credential_def validate_request_key_def auth_failed_def)
    with Some v bearer auth validate_key_stored [of "ux_key ux" "ac_secret ac" ck token "as_store st" k] show ?thesis
      by (simp add: key_context_def) metis
  qed
next
  case (CredUiSession token csrf cookie require_csrf)
  then have cred: "extract_cookie rq (uj_session_cookie_name (ac_ui ac)) = Some token" "csrf = extract_header_token rq ''x-csrf-token''"
      "require_csrf = requires_csrf (rq_method rq) (rq_path rq)" "uj_enabled (ac_ui ac)"
    by (auto simp: extract_request_credential_def split: option.splits if_splits)
  from CredUiSession assms(1) obtain al where
    on: "on_sqlite ''SQLite-backed auth store is required for UI session auth.''
       (authenticate_ui_session ux ac fr ck token csrf require_csrf) st = (Ok (k, al, admin), st')"
    and out: "mode = UiJwt" "allowed = Some al"
    by (auto simp: authenticate_credential_def validate_request_key_def auth_failed_def split: if_splits prod.splits result.splits)
  from on obtain db db' where db: "ks_db (as_store st) = Some db" and db': "ks_db (as_store st') = Some db'"
    and j: "authenticate_ui_session ux ac fr ck token csrf require_csrf db = (Ok (k, al, admin), db')"
    by (rule on_sqlite_Ok) blast
  from j obtain session where s: "session \<in> set (t_sessions db)" "se_revoked_at session = None" "ck_db_now ck < se_expires_at session"
      "se_token_hash session \<in> {hash_with_hmac ux ac token, hash_api_key (ux_key ux) token}"
      "require_csrf \<Longrightarrow> \<exists>provided. trimmed_nonempty csrf = Some provided \<and> csrf_matches ux ac provided session"
      "ui_identity ''session'' (se_user_id session) db' (k, al, admin)"
      "admin \<Longrightarrow> \<exists>u \<in> set (t_users db). us_id u = se_user_id session \<and> us_is_platform_admin u"
    by (rule authenticate_ui_session_sound) simp
  then have "session_user ux ac ck rq (as_store st) (se_user_id session) admin"
    unfolding session_user_def csrf_matches_def using cred db
    by (intro exI [of _ token] exI [of _ db] exI [of _ session]) (auto 0 4)
  with s(6) auth out cred have "user_context ux ac ck rq (as_store st) db' auth (se_user_id session)"
    unfolding user_context_def ui_identity_def by simp
  with db' show ?thesis by blast
next
  case (CredApiKey raw)
  then have key: "presented_key rq = Some raw"
    by (auto simp: extract_request_credential_def presented_key_def split: option.splits if_splits)
  obtain v ks where v: "validate_key (ux_key ux) (ac_secret ac) ck raw (as_store st) = (v, ks)" by fastforce
  with assms(1) CredApiKey have "mode = ApiKeyMode \<and> allowed = None \<and> \<not> admin \<and> v = Some k"
    by (cases v) (auto simp: authenticate_credential_def validate_request_key_def auth_failed_def)
  with v key auth validate_key_stored [of "ux_key ux" "ac_secret ac" ck raw "as_store st" k] show ?thesis
    by (simp add: key_context_def) metis
qed (use assms(1) in \<open>simp add: authenticate_credential_def\<close>)

lemma auth_middleware_Ok:
  assumes "\<not> ac_auth_disabled ac" "auth_middleware ux sd ac fr ck tick rq st = (Ok (auth, refresh), st')"
  shows "\<not> is_dev_mode auth \<and> (key_context ux ac ck rq (as_store st) auth
    \<or> (\<exists>db' uid. ks_db (as_store st') = Some db' \<and> user_context ux ac ck rq (as_store st) db' auth uid))"
proof -
  obtain limits k mode allowed admin refresh' st1 where
    a: "authenticate_credential ux sd ac fr ck tick (extract_client_ip (ac_env ac) rq) (extract_user_agent rq) rq
      (extract_request_credential ac rq) (st\<lparr>as_limits := limits\<rparr>) = (Ok (k, mode, allowed, admin, refresh'), st1)"
    and auth: "auth = \<lparr>api_key = k, is_dev_mode = False, is_platform_admin = admin,
        allowed_project_ids = allowed, auth_mode = mode, request_id = fr_request fr,
        client_ip = extract_client_ip (ac_env ac) rq, user_agent = extract_user_agent rq\<rparr>"
    and st': "as_store st' = as_store st1"
    using assms by (auto simp: auth_middleware_def authenticate_request_def split: prod.splits option.splits result.splits)
  from authenticate_credential_Ok [OF a, of auth] show ?thesis by (simp add: auth st')
qed

lemma user_context_user:
  assumes "user_context ux ac ck rq ks db auth uid" "\<not> is_dev_mode auth"
  shows "auth_user_id auth = Some uid" "set (k_scopes (api_key auth)) = member_scopes uid db"
    "allowed_project_ids auth = Some (member_projects uid db)" "is_ui_jwt auth"
  using assms split_once_append [of "CHR '':''" "''jwt''" uid] split_once_append [of "CHR '':''" "''session''" uid]
  by (auto simp: user_context_def auth_user_id_def is_ui_jwt_def)

text \<open>
  Tenants are isolated, from the request to the endpoint. With authentication on, a request
  that the middleware let through and that passes the check of an endpoint of a project comes
  either with an API key of the store that is bound to that project or to none and has the scope,
  or from an authenticated user who is a platform administrator or has an active membership in that
  project. In the last case, when scopes of the tier are enforced, some active membership of the
  user gives the scope.
\<close>

definition member_access :: "Runtime \<Rightarrow> EndpointRbacTier \<Rightarrow> string \<Rightarrow> string \<Rightarrow> Db \<Rightarrow> bool" where
  "member_access rt tier uid p db \<longleftrightarrow>
     (\<exists>m \<in> set (t_memberships db). mb_user_id m = uid \<and> mb_project_id m = p \<and> mb_revoked_at m = None)
   \<and> (env_flag_default (rt_env rt) (tier_env_flag_name tier) True \<longrightarrow>
        (\<exists>m \<in> set (t_memberships db). mb_user_id m = uid \<and> mb_revoked_at m = None
           \<and> {''admin'', tier_scope tier} \<inter> set (role_scopes (mb_role m)) \<noteq> {}))"

lemma request_tenant_isolation:
  assumes "\<not> ac_auth_disabled ac"
    and "auth_middleware ux sd ac fr ck tick rq st = (Ok (auth, refresh), st')"
    and "ks_db (as_store st') = Some db"
    and "require_endpoint_access rt auth tier (Some p) r a t i db = (Ok (), db')"
  shows "(key_context ux ac ck rq (as_store st) auth
        \<and> k_project_id (api_key auth) \<in> {None, Some p} \<and> has_scope (api_key auth) (tier_scope tier))
    \<or> (\<exists>uid. user_context ux ac ck rq (as_store st) db auth uid
        \<and> (is_platform_admin auth \<or> member_access rt tier uid p db))"
proof -
  have granted: "endpoint_granted rt auth tier (Some p)"
    using endpoint_guard.verdict [of "(rt, auth, tier, Some p, r, a, t, i)" db] assms(4) by simp
  then have p: "project_granted auth p" and scope: "scope_granted rt auth tier"
    by (simp_all add: endpoint_granted_def)
  note mw = auth_middleware_Ok [OF assms(1,2)]
  then have dev: "\<not> is_dev_mode auth" by blast
  from mw consider "key_context ux ac ck rq (as_store st) auth" | uid where "user_context ux ac ck rq (as_store st) db auth uid"
    using assms(3) by auto
  then show ?thesis
  proof cases
    case 1
    then have "allowed_project_ids auth = None" "auth_mode auth = ApiKeyMode" "\<not> is_platform_admin auth"
      by (auto simp: key_context_def)
    with 1 p scope dev show ?thesis by (auto simp: project_granted_def scope_granted_def is_ui_jwt_def has_scope_def)
  next
    case (2 uid)
    note u = user_context_user [OF 2 dev]
    have "member_access rt tier uid p db" if "\<not> is_platform_admin auth"
    proof -
      have "p \<in> member_projects uid db" using that p dev u(3) by (simp add: project_granted_def)
      moreover have "env_flag_default (rt_env rt) (tier_env_flag_name tier) True \<Longrightarrow>
          {''admin'', tier_scope tier} \<inter> member_scopes uid db \<noteq> {}"
        using scope dev u by (auto simp: scope_granted_def)
      ultimately show ?thesis
        by (fastforce simp: member_access_def member_projects_def member_scopes_def active_memberships_def)
    qed
    with 2 show ?thesis by blast
  qed
qed

text \<open>
  C17: what a UI session proves. A session cookie authenticates only against a session of the
  database that is neither revoked nor expired and that was issued for this token; a request
  that changes something must also carry the CSRF token issued with the session. The user of
  that session gets exactly the projects and the scopes of the active memberships, and is an
  administrator only when the database says so.
\<close>

theorem ui_session_auth_sound:
  assumes "authenticate_ui_session ux ac fr ck token csrf require_csrf db = (Ok (k, allowed, admin), db')"
  shows "\<exists>session \<in> set (t_sessions db).
      se_revoked_at session = None \<and> ck_db_now ck < se_expires_at session
    \<and> se_token_hash session \<in> {hash_with_hmac ux ac token, hash_api_key (ux_key ux) token}
    \<and> (require_csrf \<longrightarrow> (\<exists>provided. trimmed_nonempty csrf = Some provided \<and> csrf_matches ux ac provided session))
    \<and> set (k_scopes k) = member_scopes (se_user_id session) db'
    \<and> allowed = member_projects (se_user_id session) db'
    \<and> (admin \<longrightarrow> (\<exists>u \<in> set (t_users db). us_id u = se_user_id session \<and> us_is_platform_admin u))"
  using assms by (rule authenticate_ui_session_sound) (auto simp: ui_identity_def)

section \<open>Concrete requests\<close>

definition sample_ui :: UiJwtConfig where
  "sample_ui =
     \<lparr>uj_enabled = True, uj_secret = Some ''s'', uj_public_key_pem = None, uj_algorithm = Hs256,
      uj_auto_provision_project = True, uj_personal_project_prefix = ''personal'', uj_issuer = Some ''iss'',
      uj_audience = Some ''aud'', uj_provider = ''jwt'', uj_session_cookie_name = ''sid'',
      uj_csrf_cookie_name = ''csrf'', uj_session_ttl_seconds = 60, uj_cookie_secure = True,
      uj_cookie_same_site = ''Lax'', uj_cookie_domain = None\<rparr>"

definition sample_ac :: AuthConfig where
  "sample_ac =
     \<lparr>ac_env = (\<lambda>_. None), ac_secret = ''s'', ac_secret_source = ExplicitEnv, ac_admin_email = None,
      ac_ui = sample_ui,
      ac_limits = \<lparr>rl_enabled = True, max_failures_per_window = 3, rl_window = 60, base_backoff = 5, max_backoff = 9\<rparr>,
      ac_auth_disabled = False, ac_bootstrap_ttl = 9\<rparr>"

definition sample_ux :: UiExt where
  "sample_ux =
     \<lparr>ux_key = sample_ext, jw_key = (\<lambda>_ _. Ok ()), jw_decode = (\<lambda>_ _ _ _ _. Err ''bad token''),
      ux_show = (\<lambda>_. ''storage error''), ux_later = (\<lambda>now secs. ''2026-03-01 00:00:00'')\<rparr>"

definition sample_fresh :: UiFresh where
  "sample_fresh = \<lparr>fr_user = ''u9'', fr_project = ''p9'', fr_membership = ''m9'', fr_session = ''s9'',
     fr_session_token = ''tok9'', fr_csrf_token = ''csrf9'', fr_request = ''q9''\<rparr>"

text \<open>User \<open>u1\<close> owns project \<open>p1\<close>, may view project \<open>p2\<close>, and has a session.\<close>

definition sample_ui_db :: Db where
  "sample_ui_db = snd (op_bind (get_or_create_project ''p2'' ''2026-01-01 00:00:00'' ''other'') (\<lambda>pid.
     op_bind (grant_project_membership ''m2'' ''2026-01-01 00:00:00'' pid ''u1'' ''viewer'' None) (\<lambda>_.
       insert_auth_session ''2026-01-01 00:00:00'' ''s2'' ''u1'' ''mac:tok'' ''mac:token2'' ''2026-02-01 00:00:00''
         None None)) sample_db)"

definition sample_auth_state :: AuthState where
  "sample_auth_state = \<lparr>as_store = \<lparr>ks_keys = [], ks_db = Some sample_ui_db\<rparr>, as_limits = (\<lambda>_. None)\<rparr>"

definition sample_post :: Request where
  "sample_post =
     \<lparr>rq_method = ''POST'', rq_path = ''/api/v1/projects'',
      rq_header = (\<lambda>n. if n = ''cookie'' then Some ''sid=tok; csrf=token2''
        else if n = ''x-csrf-token'' then Some ''token2'' else None),
      rq_connect_info = None, rq_socket_addr = None\<rparr>"

definition sample_now :: Clock where
  "sample_now = \<lparr>ck_now = 7, ck_db_now = ''2026-01-02 00:00:00''\<rparr>"

definition sample_passed :: "(AuthContext \<times> (string \<times> string) option, http_error) result \<times> AuthState" where
  "sample_passed = auth_middleware sample_ux sample_serde sample_ac sample_fresh sample_now 7 sample_post sample_auth_state"

lemma ui_session_auth_sound_witness:
  "\<exists>session \<in> set (t_sessions sample_ui_db).
     csrf_matches sample_ux sample_ac ''token2'' session
   \<and> fst (authenticate_ui_session sample_ux sample_ac sample_fresh sample_now ''tok'' None True sample_ui_db)
     = Err ''Missing CSRF token for mutating request.''"
proof -
  let ?a = "authenticate_ui_session sample_ux sample_ac sample_fresh sample_now ''tok'' (Some ''token2'') True sample_ui_db"
  have "is_ok (fst ?a)" by code_simp
  then obtain k allowed admin where "fst ?a = Ok (k, allowed, admin)" by (auto simp: is_ok_iff)
  then have "?a = (Ok (k, allowed, admin), snd ?a)" by (simp add: prod_eq_iff)
  note ui_session_auth_sound [OF this]
  moreover have "trimmed_nonempty (Some ''token2'') = Some ''token2''" by code_simp
  moreover have "fst (authenticate_ui_session sample_ux sample_ac sample_fresh sample_now ''tok'' None True sample_ui_db)
     = Err ''Missing CSRF token for mutating request.''" by code_simp
  ultimately show ?thesis by auto
qed

text \<open>
  scopes are not tied to the project whose membership gives them. The user of the sample owns
  one project and may only view the other; a request of that user passes the check of write access
  to the project it may only view.
\<close>

lemma viewer_passes_write_check:
  "case sample_passed of (r, st) \<Rightarrow>
     (case r of Err _ \<Rightarrow> False
      | Ok (auth, _) \<Rightarrow>
          (case ks_db (as_store st) of None \<Rightarrow> False
           | Some db \<Rightarrow>
               map mb_role (filter (\<lambda>m. mb_user_id m = ''u1'' \<and> mb_project_id m = ''p2'') (t_memberships db)) = [''viewer'']
             \<and> fst (require_endpoint_access sample_runtime auth Write (Some ''p2'') None ''a'' ''t'' None db) = Ok ()))"
  by code_simp

section \<open>Refused requests are throttled\<close>

text \<open>
  Requests one after the other through the middleware, each with its fresh values, its time and its
  instant on the monotonic clock.
\<close>

record Attempt =
  at_fresh :: UiFresh
  at_clock :: Clock
  at_tick :: nat
  at_request :: Request

definition attempt ::
  "UiExt \<Rightarrow> Serde \<Rightarrow> AuthConfig \<Rightarrow> Attempt \<Rightarrow> AuthState \<Rightarrow>
   (AuthContext \<times> (string \<times> string) option, http_error) result \<times> AuthState" where
  "attempt ux sd ac x = auth_middleware ux sd ac (at_fresh x) (at_clock x) (at_tick x) (at_request x)"

fun attempts ::
  "UiExt \<Rightarrow> Serde \<Rightarrow> AuthConfig \<Rightarrow> Attempt list \<Rightarrow> AuthState \<Rightarrow>
   (AuthContext \<times> (string \<times> string) option, http_error) result list" where
  "attempts ux sd ac [] st = []"
| "attempts ux sd ac (x # xs) st = (case attempt ux sd ac x st of (r, st') \<Rightarrow> r # attempts ux sd ac xs st')"

definition told_to_wait :: "('a, http_error) result \<Rightarrow> bool" where
  "told_to_wait r \<longleftrightarrow> (case r of Err (code, _) \<Rightarrow> code = TOO_MANY_REQUESTS | Ok _ \<Rightarrow> False)"

definition attempt_client :: "AuthConfig \<Rightarrow> Attempt \<Rightarrow> string" where
  "attempt_client ac x = auth_client_key (extract_client_ip (ac_env ac) (at_request x))"

lemma auth_client_key_nonempty: "auth_client_key ip \<noteq> []"
  by (auto simp: auth_client_key_def or_default_def trimmed_nonempty_def split: option.splits if_splits)

lemma length_attempts [simp]: "length (attempts ux sd ac xs st) = length xs"
  by (induction xs arbitrary: st) (auto split: prod.splits)

lemma length_burst [simp]: "length (burst cfg k ts es) = length ts"
  by (induction ts arbitrary: es) (auto simp: Let_def split: prod.splits)

lemma record_auth_failure_limits [simp]:
  "as_limits (record_auth_failure sd ac ck tick ip agent rq reason channel st)
     = record_failure (ac_limits ac) tick (auth_client_key ip) (as_limits st)"
  by (simp add: record_auth_failure_def Let_def)

lemma on_sqlite_limits: "on_sqlite missing m st = (r, st') \<Longrightarrow> as_limits st' = as_limits st"
  by (auto simp: on_sqlite_def Let_def split: option.splits prod.splits)

lemma validate_request_key_limits: "validate_request_key ux ac ck raw st = (k, st') \<Longrightarrow> as_limits st' = as_limits st"
  by (auto simp: validate_request_key_def split: prod.splits)

lemma refused_credential:
  assumes "authenticate_credential ux sd ac fr ck tick ip agent rq cred st = (Err e, st')" "cred \<noteq> CredMissing"
  shows "fst e \<noteq> TOO_MANY_REQUESTS \<and> as_limits st' = record_failure (ac_limits ac) tick (auth_client_key ip) (as_limits st)"
  using assms
  by (cases cred)
    (auto simp: authenticate_credential_def auth_failed_def invalid_key_def split: prod.splits option.splits result.splits if_splits
      dest!: on_sqlite_limits validate_request_key_limits)

lemma attempt_step:
  assumes "\<not> ac_auth_disabled ac" "attempt ux sd ac x st = (r, st')" "attempt_client ac x = k"
    and check: "retry_after_seconds (ac_limits ac) (at_tick x) k (as_limits st) = (answer, limits)"
    and refused: "answer = None \<Longrightarrow> \<not> is_ok r \<and> extract_request_credential ac (at_request x) \<noteq> CredMissing"
  shows "told_to_wait r = (answer \<noteq> None) \<and> as_limits st' = record_failure (ac_limits ac) (at_tick x) k limits"
proof (cases answer)
  case None
  obtain r1 st1 where a: "authenticate_credential ux sd ac (at_fresh x) (at_clock x) (at_tick x)
      (extract_client_ip (ac_env ac) (at_request x)) (extract_user_agent (at_request x)) (at_request x)
      (extract_request_credential ac (at_request x)) (st\<lparr>as_limits := limits\<rparr>) = (r1, st1)" by fastforce
  with None assms(1-4) refused obtain e where "r1 = Err e" "r = Err e" "st' = st1"
    by (auto simp: attempt_def auth_middleware_def authenticate_request_def attempt_client_def is_ok_iff split: result.splits prod.splits)
  with refused_credential [OF a [unfolded \<open>r1 = Err e\<close>]] None refused assms(3) show ?thesis
    by (auto simp: told_to_wait_def attempt_client_def split: prod.splits)
next
  case (Some secs)
  with assms(1-4) show ?thesis
    by (auto simp: attempt_def auth_middleware_def authenticate_request_def attempt_client_def told_to_wait_def)
qed

lemma attempts_burst:
  assumes "\<not> ac_auth_disabled ac"
  shows "\<forall>x \<in> set xs. attempt_client ac x = k \<Longrightarrow>
    \<forall>i < length xs. burst (ac_limits ac) k (map at_tick xs) (as_limits st) ! i = None \<longrightarrow>
      \<not> is_ok (attempts ux sd ac xs st ! i) \<and> extract_request_credential ac (at_request (xs ! i)) \<noteq> CredMissing \<Longrightarrow>
    map told_to_wait (attempts ux sd ac xs st) = map (\<lambda>a. a \<noteq> None) (burst (ac_limits ac) k (map at_tick xs) (as_limits st))"
proof (induction xs arbitrary: st)
  case (Cons x xs)
  obtain r st' where a: "attempt ux sd ac x st = (r, st')" by fastforce
  obtain answer limits where c: "retry_after_seconds (ac_limits ac) (at_tick x) k (as_limits st) = (answer, limits)" by fastforce
  have first: "answer = None \<Longrightarrow> \<not> is_ok r \<and> extract_request_credential ac (at_request x) \<noteq> CredMissing"
    using Cons.prems(2) [rule_format, of 0] a c by simp
  note step = attempt_step [OF assms a _ c first, simplified]
  have client: "attempt_client ac x = k" using Cons.prems(1) by simp
  have "map told_to_wait (attempts ux sd ac xs st') = map (\<lambda>a. a \<noteq> None) (burst (ac_limits ac) k (map at_tick xs) (as_limits st'))"
  proof (rule Cons.IH)
    show "\<forall>i < length xs. burst (ac_limits ac) k (map at_tick xs) (as_limits st') ! i = None \<longrightarrow>
      \<not> is_ok (attempts ux sd ac xs st' ! i) \<and> extract_request_credential ac (at_request (xs ! i)) \<noteq> CredMissing"
    proof (intro allI impI)
      fix i assume "i < length xs" "burst (ac_limits ac) k (map at_tick xs) (as_limits st') ! i = None"
      then show "\<not> is_ok (attempts ux sd ac xs st' ! i) \<and> extract_request_credential ac (at_request (xs ! i)) \<noteq> CredMissing"
        using Cons.prems(2) [rule_format, of "Suc i"] a c step [OF client] by simp
    qed
  qed (use Cons.prems(1) in simp)
  then show ?case using a c step [OF client] by simp
qed simp

text \<open>
  C24: guessing is throttled at the middleware. Take requests of one client address when the limiter has
  no entry for the client, all within the window and sooner after the first of them than the first
  delay lasts. If the first \<open>max_failures_per_window\<close> of them each present a credential and none
  of these requests passes, then none of them is told to wait, and every later request is, however
  many there are and whether its credential is valid or not.
\<close>

theorem refused_requests_throttled:
  assumes "\<not> ac_auth_disabled ac" "valid_config (ac_limits ac)" "rl_enabled (ac_limits ac)"
    and "as_secs (base_backoff (ac_limits ac)) \<le> U64_MAX"
    and "list_all (\<lambda>x. attempt_client ac x = k) (x # xs)" "as_limits st k = None"
    and "sorted (map at_tick (x # xs))" "burst_span (ac_limits ac) (at_tick x) (at_tick (last (x # xs)))"
    and "list_all (\<lambda>y. extract_request_credential ac (at_request y) \<noteq> CredMissing) (take (max_failures_per_window (ac_limits ac)) (x # xs))"
    and "list_all (\<lambda>r. \<not> is_ok r) (take (max_failures_per_window (ac_limits ac)) (attempts ux sd ac (x # xs) st))"
  shows "map told_to_wait (attempts ux sd ac (x # xs) st)
    = map (\<lambda>i. max_failures_per_window (ac_limits ac) \<le> i) [0..<length (x # xs)]"
proof -
  let ?cfg = "ac_limits ac" and ?xs = "x # xs"
  let ?burst = "burst ?cfg k (map at_tick ?xs) (as_limits st)"
  have "k \<noteq> []" using assms(5) auth_client_key_nonempty by (auto simp: attempt_client_def)
  moreover have "burst_span ?cfg (at_tick x) (last (at_tick x # map at_tick xs))"
    using assms(8) by (simp add: last_map split: if_splits)
  ultimately have free: "map (\<lambda>a. a = None) ?burst = map (\<lambda>i. i < max_failures_per_window ?cfg) [0..<length ?xs]"
    using burst_throttled [where cfg = ?cfg and k = k and es = "as_limits st" and t = "at_tick x" and ts = "map at_tick xs"]
      assms(2-4,6,7) by simp
  have nth: "?burst ! i = None \<longleftrightarrow> i < max_failures_per_window ?cfg" if "i < length ?xs" for i
    using arg_cong [OF free, of "\<lambda>l. l ! i"] that by (simp del: upt_Suc burst.simps list.map)
  have early: "\<not> is_ok (attempts ux sd ac ?xs st ! i) \<and> extract_request_credential ac (at_request (?xs ! i)) \<noteq> CredMissing"
    if "i < length ?xs" "i < max_failures_per_window ?cfg" for i
    using assms(9,10) that by (simp add: list_all_length del: attempts.simps)
  have "map told_to_wait (attempts ux sd ac ?xs st) = map (\<lambda>a. a \<noteq> None) ?burst"
    using assms(5) nth early by (intro attempts_burst [OF assms(1)]) (auto simp: list_all_iff)
  also have "\<dots> = map Not (map (\<lambda>a. a = None) ?burst)" by (simp only: list.map_comp o_def)
  also have "\<dots> = map (\<lambda>i. max_failures_per_window ?cfg \<le> i) [0..<length ?xs]"
    unfolding free by (simp only: list.map_comp o_def not_less)
  finally show ?thesis .
qed

definition throttled_ac :: AuthConfig where
  "throttled_ac = sample_ac\<lparr>ac_limits := sample_limits\<rparr>"

definition guess :: "nat \<Rightarrow> Attempt" where
  "guess t = \<lparr>at_fresh = sample_fresh, at_clock = sample_now, at_tick = t,
     at_request = sample_post\<lparr>rq_header := (\<lambda>n. if n = ''x-api-key'' then Some ''guess'' else None)\<rparr>\<rparr>"

definition honest :: "nat \<Rightarrow> Attempt" where
  "honest t = \<lparr>at_fresh = sample_fresh, at_clock = sample_now, at_tick = t, at_request = sample_post\<rparr>"

lemma other_limits:
  "extract_request_credential (ac\<lparr>ac_limits := l\<rparr>) rq = extract_request_credential ac rq"
  "authenticate_ui_session ux (ac\<lparr>ac_limits := l\<rparr>) fr ck token csrf require_csrf = authenticate_ui_session ux ac fr ck token csrf require_csrf"
proof -
  have "hash_with_hmac ux (ac\<lparr>ac_limits := l\<rparr>) = hash_with_hmac ux ac" by (simp add: hash_with_hmac_def fun_eq_iff)
  then have "lookup_session ux (ac\<lparr>ac_limits := l\<rparr>) = lookup_session ux ac" "csrf_matches ux (ac\<lparr>ac_limits := l\<rparr>) = csrf_matches ux ac"
    unfolding lookup_session_def csrf_matches_def by simp_all
  moreover from this have "check_csrf ux (ac\<lparr>ac_limits := l\<rparr>) = check_csrf ux ac" unfolding check_csrf_def by simp
  moreover have ui: "ac_ui (ac\<lparr>ac_limits := l\<rparr>) = ac_ui ac" by simp
  ultimately show "authenticate_ui_session ux (ac\<lparr>ac_limits := l\<rparr>) fr ck token csrf require_csrf
      = authenticate_ui_session ux ac fr ck token csrf require_csrf"
    unfolding authenticate_ui_session_def by (simp only:)
  show "extract_request_credential (ac\<lparr>ac_limits := l\<rparr>) rq = extract_request_credential ac rq"
    unfolding extract_request_credential_def ui ..
qed

lemma sample_attempts:
  "extract_request_credential sample_ac (at_request (guess t)) = CredApiKey ''guess''"
  "extract_request_credential sample_ac (at_request (honest t)) = CredUiSession ''tok'' (Some ''token2'') (Some ''token2'') True"
  "extract_client_ip (\<lambda>_. None) (at_request (guess t)) = None" "extract_client_ip (\<lambda>_. None) (at_request (honest t)) = None"
  unfolding guess_def honest_def by code_simp+

lemma sample_clients: "attempt_client throttled_ac (guess t) = ''unknown''" "attempt_client throttled_ac (honest t) = ''unknown''"
  using sample_attempts(3,4)
  by (simp_all add: attempt_client_def auth_client_key_def or_default_def trimmed_nonempty_def throttled_ac_def sample_ac_def)

lemma honest_accepted: "is_ok (fst (attempt sample_ux sample_serde throttled_ac (honest t) sample_auth_state))"
proof -
  have "is_ok (fst (authenticate_ui_session sample_ux sample_ac sample_fresh sample_now ''tok'' (Some ''token2'') True sample_ui_db))"
    by code_simp
  then obtain k allowed admin db' where "authenticate_ui_session sample_ux sample_ac sample_fresh sample_now ''tok'' (Some ''token2'') True
      sample_ui_db = (Ok (k, allowed, admin), db')" by (auto simp: is_ok_iff prod_eq_iff)
  moreover have "at_fresh (honest t) = sample_fresh" "at_clock (honest t) = sample_now" "\<not> ac_auth_disabled throttled_ac"
      "as_limits sample_auth_state = (\<lambda>_. None)" "ks_db (as_store sample_auth_state) = Some sample_ui_db"
    by (simp_all add: honest_def throttled_ac_def sample_ac_def sample_auth_state_def)
  ultimately show ?thesis
    using sample_attempts(2) [of t]
    by (simp add: attempt_def auth_middleware_def authenticate_request_def retry_after_seconds_def authenticate_credential_def
      throttled_ac_def other_limits on_sqlite_def is_ok_iff split: prod.split)
qed

lemma guess_credential: "extract_request_credential throttled_ac (at_request (guess t)) = CredApiKey ''guess''"
  using sample_attempts(1) by (simp add: throttled_ac_def other_limits)

text \<open>The key of a guess is unknown, and stays so.\<close>

definition unguessed :: "AuthState \<Rightarrow> bool" where
  "unguessed st \<longleftrightarrow> ks_keys (as_store st) = []
     \<and> (\<exists>db. ks_db (as_store st) = Some db \<and> t_api_keys db = t_api_keys sample_ui_db)"

lemma audit_keys: "t_api_keys (snd (insert_audit_event now e db)) = t_api_keys db"
  by (auto simp: insert_audit_event_def op_stmt_apply split: option.split)

lemma unguessed_failure: "unguessed st \<Longrightarrow> unguessed (record_auth_failure sd ac ck tick ip agent rq reason channel st)"
  by (auto simp: unguessed_def record_auth_failure_def Let_def audit_keys)

lemma guess_unknown:
  assumes "unguessed st"
  shows "validate_request_key sample_ux throttled_ac ck ''guess'' st = (None, st)"
proof -
  from assms obtain db where db: "ks_db (as_store st) = Some db" "t_api_keys db = t_api_keys sample_ui_db" "ks_keys (as_store st) = []"
    by (auto simp: unguessed_def)
  have "case key_row (ux_key sample_ux) ''s'' ''guess'' sample_ui_db of None \<Rightarrow> True | Some _ \<Rightarrow> False" by code_simp
  moreover have "ac_secret throttled_ac = ''s''" by (simp add: throttled_ac_def sample_ac_def)
  ultimately have "key_row (ux_key sample_ux) (ac_secret throttled_ac) ''guess'' sample_ui_db = None" by (simp split: option.splits)
  then have "key_row (ux_key sample_ux) (ac_secret throttled_ac) ''guess'' db = None" unfolding key_row_def db(2) .
  with db show ?thesis by (simp add: validate_request_key_def validate_key_sqlite validate_in_memory_def)
qed

lemma guess_invalid:
  assumes "unguessed st"
  shows "authenticate_credential sample_ux sd throttled_ac fr ck tick ip agent rq (CredApiKey ''guess'') st
    = (Err invalid_key, record_auth_failure sd throttled_ac ck tick ip agent rq ''invalid_api_key'' ''x-api-key'' st)"
  by (simp only: authenticate_credential_def guess_unknown [OF assms] RequestCredential.case prod.case option.case auth_failed_def)

lemma guess_refused:
  assumes "unguessed st"
  obtains e st' where "attempt sample_ux sample_serde throttled_ac (guess t) st = (Err e, st')" "unguessed st'"
proof -
  have limits: "unguessed (st\<lparr>as_limits := l\<rparr>)" for l using assms by (simp add: unguessed_def)
  have on: "ac_auth_disabled throttled_ac = False" by (simp add: throttled_ac_def sample_ac_def)
  let ?g = "guess t"
  obtain answer l where c: "retry_after_seconds (ac_limits throttled_ac) (at_tick ?g)
      (auth_client_key (extract_client_ip (ac_env throttled_ac) (at_request ?g))) (as_limits st) = (answer, l)" by fastforce
  note step = attempt_def auth_middleware_def authenticate_request_def guess_credential on if_False c prod.case option.case result.case
    guess_invalid [OF limits]
  have "fst (attempt sample_ux sample_serde throttled_ac ?g st) \<noteq> Ok y" for y
    by (cases answer) (simp_all only: step fst_conv result.distinct not_False_eq_True)
  moreover have "unguessed (snd (attempt sample_ux sample_serde throttled_ac ?g st))"
    by (cases answer) (simp_all only: step snd_conv unguessed_failure [OF limits])
  ultimately show thesis using that by (cases "attempt sample_ux sample_serde throttled_ac ?g st"; cases "fst (attempt sample_ux sample_serde throttled_ac ?g st)") auto
qed

lemma guesses_refused:
  "list_all (\<lambda>r. \<not> is_ok r) (take 2 (attempts sample_ux sample_serde throttled_ac [guess 10, guess 20, honest 30] sample_auth_state))"
proof -
  have "unguessed sample_auth_state" by (simp add: unguessed_def sample_auth_state_def)
  then obtain e st where "attempt sample_ux sample_serde throttled_ac (guess 10) sample_auth_state = (Err e, st)" "unguessed st"
    by (rule guess_refused)
  moreover from this(2) obtain e' st' where "attempt sample_ux sample_serde throttled_ac (guess 20) st = (Err e', st')"
    by (rule guess_refused)
  ultimately show ?thesis by (simp add: is_ok_iff numeral_2_eq_2 split: prod.split)
qed

theorem refused_requests_throttled_witness:
  "map told_to_wait (attempts sample_ux sample_serde throttled_ac [guess 10, guess 20, honest 30] sample_auth_state)
     = [False, False, True]
   \<and> is_ok (fst (attempt sample_ux sample_serde throttled_ac (honest 30) sample_auth_state))"
proof -
  have limits: "ac_limits throttled_ac = sample_limits" "\<not> ac_auth_disabled throttled_ac"
    by (simp_all add: throttled_ac_def sample_ac_def)
  have cfg: "max_failures_per_window sample_limits = 2" "rl_enabled sample_limits"
      "as_secs (base_backoff sample_limits) \<le> U64_MAX" "burst_span sample_limits 10 30"
    by (simp_all add: sample_limits_def as_secs_def from_secs_def burst_span_def)
  have ticks: "at_tick (guess t) = t" "at_tick (honest t) = t" for t by (simp_all add: guess_def honest_def)
  have "map told_to_wait (attempts sample_ux sample_serde throttled_ac [guess 10, guess 20, honest 30] sample_auth_state)
    = map (\<lambda>i. max_failures_per_window (ac_limits throttled_ac) \<le> i) [0..<length [guess 10, guess 20, honest 30]]"
    using guesses_refused
    by (intro refused_requests_throttled [where k = "''unknown''"])
      (simp_all add: limits cfg sample_limits_valid sample_clients ticks guess_credential sample_auth_state_def del: attempts.simps)
  then show ?thesis using honest_accepted by (simp add: limits cfg upt_rec del: attempts.simps)
qed

end
