(* ===== verification/Http_Limiter.thy ===== *)
theory Http_Limiter
  imports Client_Ip
begin

text \<open>
  The token buckets in front of the HTTP endpoints (apps/api/src/main.rs, HttpRateLimiter): one
  instance is keyed by client address, one by the writing user or key and the project. Tokens are
  binary64 numbers, refilled with a fused multiply-add; instants are natural numbers of
  nanoseconds.
\<close>

section \<open>Operations\<close>

record HttpRateLimiter =
  hl_capacity :: nat
  hl_refill_rate :: f64
  buckets :: "string \<rightharpoonup> f64 \<times> nat"

definition limiter_new :: "nat \<Rightarrow> f64 \<Rightarrow> HttpRateLimiter" where
  "limiter_new capacity refill_rate =
     \<lparr>hl_capacity = capacity, hl_refill_rate = refill_rate, buckets = Map.empty\<rparr>"

definition from_env_with_prefix :: "env \<Rightarrow> string \<Rightarrow> nat \<Rightarrow> f64 \<Rightarrow> HttpRateLimiter" where
  "from_env_with_prefix env pre default_capacity default_refill_rate =
     limiter_new
       (case Option.bind (env (pre @ ''_BURST'')) (parse_unsigned U32_MAX) of
          Some n \<Rightarrow> n | None \<Rightarrow> default_capacity)
       (case Option.bind (env (pre @ ''_PER_SECOND'')) parse_f64 of
          Some r \<Rightarrow> r | None \<Rightarrow> default_refill_rate)"

definition http_limiter_from_env :: "env \<Rightarrow> HttpRateLimiter" where
  "http_limiter_from_env env = from_env_with_prefix env ''MLRUNX_RATE_LIMIT'' 100 (f_of_int 50)"

text \<open>
  \<open>Duration::try_from_secs_f64\<close> refuses \<open>2\<^sup>64\<close> seconds and more, and an integral number of
  seconds below is converted exactly.
\<close>

definition retry_after_wait :: "f64 \<Rightarrow> nat" where
  "retry_after_wait wait =
     (if \<not> is_finite wait \<or> f_le wait (f_of_int 0) then 1
      else if f_val (f_ceil wait) < 2 ^ 64 then nat \<lfloor>f_val (f_ceil wait)\<rfloor> else U64_MAX)"

definition refilled :: "HttpRateLimiter \<Rightarrow> nat \<Rightarrow> f64 \<times> nat \<Rightarrow> f64" where
  "refilled l now b =
     f_min (f_mul_add (as_secs_f64 (now - snd b)) (hl_refill_rate l) (fst b)) (f_of_int (int (hl_capacity l)))"

definition take_or_wait :: "nat \<Rightarrow> string \<Rightarrow> HttpRateLimiter \<Rightarrow> f64 \<Rightarrow> (unit, nat) result \<times> HttpRateLimiter" where
  "take_or_wait now client l tokens =
     (if f_le (f_of_int 1) tokens
      then (Ok (), l\<lparr>buckets := (buckets l)(client \<mapsto> (f_sub tokens (f_of_int 1), now))\<rparr>)
      else (Err (retry_after_wait (f_div (f_sub (f_of_int 1) tokens) (hl_refill_rate l))),
            l\<lparr>buckets := (buckets l)(client \<mapsto> (tokens, now))\<rparr>))"

definition limiter_check :: "nat \<Rightarrow> string \<Rightarrow> HttpRateLimiter \<Rightarrow> (unit, nat) result \<times> HttpRateLimiter" where
  "limiter_check now client l =
     take_or_wait now client l (refilled l now
       (case buckets l client of Some b \<Rightarrow> b | None \<Rightarrow> (f_of_int (int (hl_capacity l)), now)))"

lemmas limiter_check_defs = limiter_check_def take_or_wait_def

definition prune_stale :: "nat \<Rightarrow> HttpRateLimiter \<Rightarrow> HttpRateLimiter" where
  "prune_stale now l =
     l\<lparr>buckets := (\<lambda>c. case buckets l c of
        Some (t, last_seen) \<Rightarrow> if int now - 300 * 10 ^ 9 < int last_seen then Some (t, last_seen) else None
      | None \<Rightarrow> None)\<rparr>"

definition request_client_ip :: "env \<Rightarrow> Request \<Rightarrow> string" where
  "request_client_ip env rq = (case extract_client_ip env rq of Some ip \<Rightarrow> ip | None \<Rightarrow> ''unknown'')"

section \<open>How many requests pass\<close>

text \<open>A sequence of checks, each with its instant and its client, and the answers to one client.\<close>

fun limiter_checks :: "(nat \<times> string) list \<Rightarrow> HttpRateLimiter \<Rightarrow> (string \<times> (unit, nat) result) list" where
  "limiter_checks [] l = []"
| "limiter_checks ((now, client) # cs) l =
     (case limiter_check now client l of (r, l') \<Rightarrow> (client, r) # limiter_checks cs l')"

definition admitted :: "string \<Rightarrow> (string \<times> (unit, nat) result) list \<Rightarrow> nat" where
  "admitted client rs = length (filter (\<lambda>(c, r). c = client \<and> is_ok r) rs)"

definition asked :: "string \<Rightarrow> (nat \<times> string) list \<Rightarrow> nat" where
  "asked client cs = length (filter (\<lambda>c. snd c = client) cs)"

text \<open>The rounding of one check costs at most this share of a token.\<close>

abbreviation check_error :: rat where "check_error \<equiv> 2 powi (- 20)"

definition nonneg_tokens :: "f64 \<Rightarrow> bool" where
  "nonneg_tokens t \<longleftrightarrow> is_finite t \<and> 0 \<le> f_val t"

definition sane_limiter :: "HttpRateLimiter \<Rightarrow> bool" where
  "sane_limiter l \<longleftrightarrow>
     hl_capacity l \<le> U32_MAX \<and> is_finite (hl_refill_rate l) \<and> 0 \<le> f_val (hl_refill_rate l)"

lemma capacity_val:
  assumes "sane_limiter l"
  shows "f_val (f_of_int (int (hl_capacity l))) = of_nat (hl_capacity l)"
    "is_finite (f_of_int (int (hl_capacity l)))" "of_nat (hl_capacity l) < (2::rat) powi 32"
proof -
  have c: "hl_capacity l \<le> U32_MAX" using assms by (simp add: sane_limiter_def)
  then have "\<bar>int (hl_capacity l)\<bar> \<le> 2 ^ 53" by simp
  from f_of_int_exact [OF this] show "f_val (f_of_int (int (hl_capacity l))) = of_nat (hl_capacity l)"
    "is_finite (f_of_int (int (hl_capacity l)))" by simp_all
  have "(of_nat (hl_capacity l) :: rat) \<le> of_nat U32_MAX" using c by (simp only: of_nat_le_iff)
  then show "of_nat (hl_capacity l) < (2::rat) powi 32" by simp
qed

text \<open>
  After a refill a bucket holds at most the capacity, and at most what it held plus what the
  elapsed time gives, up to rounding.
\<close>

lemma refilled_bound:
  assumes l: "sane_limiter l" and t: "nonneg_tokens (fst b)" and elapsed: "now - snd b < 2 ^ 64 * 10 ^ 9"
  shows "nonneg_tokens (refilled l now b)" "f_val (refilled l now b) \<le> of_nat (hl_capacity l)"
    "f_val (refilled l now b)
       \<le> f_val (fst b) + f_val (as_secs_f64 (now - snd b)) * f_val (hl_refill_rate l) + 2 powi (- 21)"
proof -
  let ?cap = "f_of_int (int (hl_capacity l))" and ?c = "of_nat (hl_capacity l) :: rat"
  let ?e = "as_secs_f64 (now - snd b)"
  note cap = capacity_val [OF l] and e = as_secs_f64_bound [OF elapsed]
  have r: "is_finite (hl_refill_rate l)" "0 \<le> f_val (hl_refill_rate l)" using l by (auto simp: sane_limiter_def)
  have tok: "is_finite (fst b)" "0 \<le> f_val (fst b)" using t by (auto simp: nonneg_tokens_def)
  define q where "q = f_val ?e * f_val (hl_refill_rate l) + f_val (fst b)"
  have q0: "0 \<le> q" using e r tok by (simp add: q_def)
  obtain s where s: "f_mul_add ?e (hl_refill_rate l) (fst b) = f_round s q"
    using f_mul_add_finite [OF e(1) r(1) tok(1)] by (auto simp: q_def)
  let ?x = "f_round s q"
  have not_nan: "\<not> is_nan ?x"
    using f_round_fields(1) [of q s] f_round_huge(1) [of q s] q0 by (cases "q < 2 powi 1023") auto
  have low: "is_finite ?x \<and> 0 \<le> f_val ?x \<and> f_val ?x \<le> ?c" if "\<not> f_less ?cap ?x"
  proof -
    have small: "q < 2 powi 1023"
    proof (rule ccontr)
      assume "\<not> q < 2 powi 1023"
      then have huge: "2 powi 1023 \<le> q" by simp
      have "?c < 2 powi 1023" using cap(3) by (rule powi_numeral_less) simp
      then have "f_less ?cap ?x"
        using f_round_huge [OF huge, of s] cap not_nan unfolding f_less_def is_finite_def is_infinite_def is_nan_def
        by (cases "f_bits ?x < F64_INF_BITS") (auto simp: is_finite_def)
      with that show False by simp
    qed
    then have "is_finite ?x" "0 \<le> f_val ?x"
      using q0 by (auto intro: f_round_fields(1) f_round_nonneg)
    then show ?thesis using that cap by (auto simp: f_less_finite)
  qed
  have refilled: "refilled l now b = (if f_less ?cap ?x then ?cap else ?x)"
    unfolding refilled_def s using f_min_cases [OF not_nan cap(2)] .
  then show "nonneg_tokens (refilled l now b)" "f_val (refilled l now b) \<le> ?c"
    using low cap by (auto simp: nonneg_tokens_def)
  have "f_val (refilled l now b) \<le> q + 2 powi (- 21)"
  proof (cases "q < ?c")
    case True
    then have "\<bar>q\<bar> < 2 powi 32" using q0 cap(3) by simp
    then have "\<bar>f_val ?x - q\<bar> \<le> 2 powi (32 - 53)" by (rule f_round_error_below) simp_all
    then have err: "f_val ?x \<le> q + 2 powi (- 21)" using abs_le_D1 by fastforce
    have "\<bar>q\<bar> < 2 powi 1023" using \<open>\<bar>q\<bar> < 2 powi 32\<close> by (rule powi_numeral_less) simp
    then have "is_finite ?x" by (rule f_round_fields(1))
    then show ?thesis using err cap by (auto simp: refilled f_less_finite)
  next
    case False
    moreover have "(0::rat) < 2 powi (- 21)" by simp
    ultimately show ?thesis using \<open>f_val (refilled l now b) \<le> ?c\<close> by linarith
  qed
  then show "f_val (refilled l now b)
       \<le> f_val (fst b) + f_val ?e * f_val (hl_refill_rate l) + 2 powi (- 21)"
    by (simp add: q_def)
qed

definition bucket_of :: "HttpRateLimiter \<Rightarrow> string \<Rightarrow> nat \<Rightarrow> f64 \<times> nat" where
  "bucket_of l client now =
     (case buckets l client of Some b \<Rightarrow> b | None \<Rightarrow> (f_of_int (int (hl_capacity l)), now))"

lemma limiter_check_config:
  assumes "limiter_check now client l = (r, l')"
  shows "hl_capacity l' = hl_capacity l" "hl_refill_rate l' = hl_refill_rate l"
    "c \<noteq> client \<Longrightarrow> buckets l' c = buckets l c"
  using assms by (auto simp: limiter_check_defs split: if_splits)

lemma sane_limiter_check: "sane_limiter l \<Longrightarrow> limiter_check now client l = (r, l') \<Longrightarrow> sane_limiter l'"
  by (simp add: sane_limiter_def limiter_check_config)

lemma take_token:
  assumes "nonneg_tokens t" "1 \<le> f_val t" "f_val t < 2 powi 32"
  shows "nonneg_tokens (f_sub t (f_of_int 1))" "f_val (f_sub t (f_of_int 1)) + 1 \<le> f_val t + 2 powi (- 21)"
proof -
  have one: "f_val (f_of_int 1) = 1" "is_finite (f_of_int 1)" using f_of_int_exact [of 1] by simp_all
  obtain s where s: "f_sub t (f_of_int 1) = f_round s (f_val t - 1)"
    using f_sub_finite [OF _ one(2), of t] assms(1) by (auto simp: one nonneg_tokens_def)
  have small: "\<bar>f_val t - 1\<bar> < 2 powi 32" using assms by simp
  then have "\<bar>f_val t - 1\<bar> < 2 powi 1023" by (rule powi_numeral_less) simp
  then show "nonneg_tokens (f_sub t (f_of_int 1))"
    using assms(2) by (auto simp: s nonneg_tokens_def intro: f_round_fields(1) f_round_nonneg)
  have "\<bar>f_val (f_round s (f_val t - 1)) - (f_val t - 1)\<bar> \<le> 2 powi (32 - 53)"
    using small by (rule f_round_error_below) simp_all
  then show "f_val (f_sub t (f_of_int 1)) + 1 \<le> f_val t + 2 powi (- 21)"
    using abs_le_D1 by (fastforce simp: s)
qed

text \<open>One check: the token it takes, if it passes, and what is left were in the bucket.\<close>

lemma limiter_check_bound:
  assumes l: "sane_limiter l" and c: "limiter_check now client l = (r, l')"
    and b: "nonneg_tokens (fst (bucket_of l client now))" "now - snd (bucket_of l client now) < 2 ^ 64 * 10 ^ 9"
  obtains t where "buckets l' client = Some (t, now)" "nonneg_tokens t"
    "(if is_ok r then 1 else 0) + f_val t
       \<le> f_val (fst (bucket_of l client now))
         + f_val (as_secs_f64 (now - snd (bucket_of l client now))) * f_val (hl_refill_rate l) + check_error"
proof -
  let ?x = "refilled l now (bucket_of l client now)"
  note x = refilled_bound [OF l b]
  have "f_val ?x < 2 powi 32" using x(2) capacity_val(3) [OF l] by linarith
  have one: "f_val (f_of_int 1) = 1" "is_finite (f_of_int 1)" using f_of_int_exact [of 1] by simp_all
  have le: "f_le (f_of_int 1) ?x \<longleftrightarrow> 1 \<le> f_val ?x"
    using x(1) one by (simp add: f_le_finite nonneg_tokens_def)
  have check: "limiter_check now client l =
      (if 1 \<le> f_val ?x then (Ok (), l\<lparr>buckets := (buckets l)(client \<mapsto> (f_sub ?x (f_of_int 1), now))\<rparr>)
       else (Err (retry_after_wait (f_div (f_sub (f_of_int 1) ?x) (hl_refill_rate l))),
             l\<lparr>buckets := (buckets l)(client \<mapsto> (?x, now))\<rparr>))"
    unfolding le [symmetric] by (simp add: limiter_check_defs bucket_of_def)
  have two: "(2::rat) powi (- 21) + 2 powi (- 21) = check_error" by (simp add: power_int_minus)
  show ?thesis
  proof (cases "1 \<le> f_val ?x")
    case True
    from take_token [OF x(1) this \<open>f_val ?x < 2 powi 32\<close>] True x(3) two c check show ?thesis
      by (intro that [of "f_sub ?x (f_of_int 1)"]) auto
  next
    case False
    have "(0::rat) < 2 powi (- 21)" by simp
    with False x(1,3) two c check show ?thesis
      by (intro that [of ?x]) (auto simp del: power_int_minus)
  qed
qed

definition refill_bound :: "HttpRateLimiter \<Rightarrow> nat \<Rightarrow> rat" where
  "refill_bound l d = f_val (hl_refill_rate l) * (of_nat d / 10 ^ 9 * (1 + 2 powi (- 51)))"

lemma refill_bound_add: "refill_bound l (a + b) = refill_bound l a + refill_bound l b"
  by (simp add: refill_bound_def ring_distribs add_divide_distrib)

lemma refill_bound_nonneg: "sane_limiter l \<Longrightarrow> 0 \<le> refill_bound l d"
  by (simp add: refill_bound_def sane_limiter_def)

lemma refill_bound_mono: "sane_limiter l \<Longrightarrow> a \<le> b \<Longrightarrow> refill_bound l a \<le> refill_bound l b"
  using refill_bound_add [of l a "b - a"] refill_bound_nonneg [of l "b - a"] by simp

lemma admitted_Cons: "admitted c ((c', r) # rs) = (if c' = c \<and> is_ok r then 1 else 0) + admitted c rs"
  by (simp add: admitted_def)

lemma asked_Cons: "asked c ((t, c') # cs) = (if c' = c then 1 else 0) + asked c cs"
  by (simp add: asked_def)

lemma checks_bound:
  assumes "sane_limiter l" "buckets l client = Some b" "nonneg_tokens (fst b)"
    and "sorted (snd b # map fst cs @ [end_at])" "end_at - snd b < 2 ^ 64 * 10 ^ 9"
  shows "of_nat (admitted client (limiter_checks cs l))
    \<le> f_val (fst b) + refill_bound l (end_at - snd b) + of_nat (asked client cs) * check_error"
  using assms
proof (induction cs arbitrary: l b)
  case Nil
  then show ?case using refill_bound_nonneg by (simp add: admitted_def asked_def nonneg_tokens_def)
next
  case (Cons tc cs)
  obtain now c where tc: "tc = (now, c)" by fastforce
  obtain r l' where check: "limiter_check now c l = (r, l')" by fastforce
  note sane = sane_limiter_check [OF Cons.prems(1) check]
  have same: "refill_bound l' d = refill_bound l d" for d
    by (simp add: refill_bound_def limiter_check_config [OF check])
  have times: "snd b \<le> now" "now \<le> end_at" "sorted (now # map fst cs @ [end_at])" "sorted (snd b # map fst cs @ [end_at])"
    using Cons.prems(4) by (auto simp: tc)
  show ?case
  proof (cases "c = client")
    case False
    then have "buckets l' client = Some b" using limiter_check_config(3) [OF check] Cons.prems(2) by auto
    from Cons.IH [OF sane this Cons.prems(3) times(4) Cons.prems(5)] False show ?thesis
      by (simp add: tc check admitted_Cons asked_Cons same)
  next
    case True
    have b: "bucket_of l client now = b" using Cons.prems(2) by (simp add: bucket_of_def)
    obtain t where t: "buckets l' client = Some (t, now)" "nonneg_tokens t"
      "(if is_ok r then 1 else 0) + f_val t
         \<le> f_val (fst b) + f_val (as_secs_f64 (now - snd b)) * f_val (hl_refill_rate l) + check_error"
      using limiter_check_bound [OF Cons.prems(1) check [unfolded True], unfolded b] Cons.prems(3,5) times(2) by force
    have IH: "of_nat (admitted client (limiter_checks cs l'))
        \<le> f_val t + refill_bound l (end_at - now) + of_nat (asked client cs) * check_error"
      using Cons.IH [OF sane t(1)] t(2) times(3) Cons.prems(5) times(1) by (simp add: same)
    have "f_val (as_secs_f64 (now - snd b)) * f_val (hl_refill_rate l) \<le> refill_bound l (now - snd b)"
      unfolding refill_bound_def mult.commute [of "f_val (as_secs_f64 (now - snd b))"]
      by (intro mult_left_mono as_secs_f64_bound(3)) (use Cons.prems(1,5) times(2) in \<open>auto simp: sane_limiter_def\<close>)
    moreover have "refill_bound l (end_at - snd b) = refill_bound l (now - snd b) + refill_bound l (end_at - now)"
      using refill_bound_add [of l "now - snd b" "end_at - now"] times(1,2) by simp
    ultimately show ?thesis
      using t(3) IH by (auto simp: tc check [unfolded True] True admitted_Cons asked_Cons ring_distribs add_divide_distrib split: if_splits)
  qed
qed

lemma fresh_checks_bound:
  assumes "sane_limiter l" "buckets l client = None"
    and "sorted (start # map fst cs @ [end_at])" "end_at - start < 2 ^ 64 * 10 ^ 9"
  shows "of_nat (admitted client (limiter_checks cs l))
    \<le> of_nat (hl_capacity l) + refill_bound l (end_at - start) + of_nat (asked client cs) * check_error"
  using assms
proof (induction cs arbitrary: l)
  case Nil
  then show ?case using refill_bound_nonneg by (simp add: admitted_def asked_def)
next
  case (Cons tc cs)
  obtain now c where tc: "tc = (now, c)" by fastforce
  obtain r l' where check: "limiter_check now c l = (r, l')" by fastforce
  note cap = capacity_val [OF Cons.prems(1)]
  show ?case
  proof (cases "c = client")
    case False
    then have "buckets l' client = None" using limiter_check_config(3) [OF check] Cons.prems(2) by auto
    from Cons.IH [OF sane_limiter_check [OF Cons.prems(1) check] this] Cons.prems(3,4) False show ?thesis
      by (simp add: tc check admitted_Cons asked_Cons refill_bound_def limiter_check_config [OF check])
  next
    case True
    let ?full = "(f_of_int (int (hl_capacity l)), now)" and ?cs = "(now, client) # cs"
    let ?l = "l\<lparr>buckets := (buckets l)(client \<mapsto> ?full)\<rparr>"
    have checks: "limiter_checks ?cs ?l = limiter_checks ?cs l"
      using Cons.prems(2) by (simp add: limiter_check_defs refilled_def)
    have "of_nat (admitted client (limiter_checks ?cs ?l))
        \<le> f_val (fst ?full) + refill_bound ?l (end_at - snd ?full) + of_nat (asked client ?cs) * check_error"
      by (rule checks_bound)
        (use Cons.prems cap in \<open>auto simp: tc sane_limiter_def nonneg_tokens_def\<close>)
    moreover have "refill_bound ?l d = refill_bound l d" for d by (simp add: refill_bound_def)
    moreover have "refill_bound l (end_at - now) \<le> refill_bound l (end_at - start)"
      using Cons.prems(1,3) by (intro refill_bound_mono) (auto simp: tc)
    ultimately show ?thesis using cap(1) by (simp add: tc True checks del: limiter_checks.simps)
  qed
qed

section \<open>The rate the limiter enforces\<close>

text \<open>
  C26: the token bucket limits the rate. With a finite refill rate that is not negative, over any
  sequence of checks in the order of time, of any clients, a client the limiter has not seen
  before is admitted at most the capacity plus the refill rate times the elapsed time, up to a
  relative error of two to the power of minus 51 on the time and of two to the power of minus 20
  tokens for each of its checks, which is what binary64 rounding can add.
\<close>

theorem http_limiter_rate:
  assumes "hl_capacity l \<le> U32_MAX" "is_finite (hl_refill_rate l)" "0 \<le> f_val (hl_refill_rate l)"
    and "buckets l client = None"
    and "sorted (start # map fst cs @ [end_at])" "end_at - start < 2 ^ 64 * 10 ^ 9"
  shows "of_nat (admitted client (limiter_checks cs l))
    \<le> of_nat (hl_capacity l)
      + f_val (hl_refill_rate l) * (of_nat (end_at - start) / 10 ^ 9 * (1 + 2 powi (- 51)))
      + of_nat (asked client cs) * 2 powi (- 20)"
  using fresh_checks_bound [OF _ assms(4-6)] assms(1-3) by (simp add: sane_limiter_def refill_bound_def)

definition sample_limiter :: HttpRateLimiter where
  "sample_limiter = limiter_new 2 (f_of_int 1)"

definition sample_checks :: "(nat \<times> string) list" where
  "sample_checks = map (\<lambda>t. (t * 500, ''a'')) [0, 1, 2, 3]"

lemma sample_limiter_val:
  "f_val (f_of_int 1) = 1" "is_finite (f_of_int 1)"
  using f_of_int_exact [of 1] by simp_all

lemma http_limiter_rate_witness:
  "(of_nat (admitted ''a'' (limiter_checks sample_checks sample_limiter)) :: rat)
     \<le> of_nat 2 + f_val (f_of_int 1) * (of_nat (1500 - 0) / 10 ^ 9 * (1 + 2 powi (- 51)))
       + of_nat (asked ''a'' sample_checks) * 2 powi (- 20)"
  using http_limiter_rate [of sample_limiter "''a''" 0 sample_checks 1500]
  by (simp add: sample_limiter_def limiter_new_def sample_limiter_val sample_checks_def)

text \<open>
  A refill rate that is not a number, which the environment variable accepts, switches the
  limiter off: the minimum with the capacity ignores the NaN, so every bucket is always full.
\<close>

lemma nan_rate_never_limits:
  assumes "is_nan (hl_refill_rate l)" "1 \<le> hl_capacity l" "hl_capacity l \<le> U32_MAX"
  shows "is_ok (fst (limiter_check now client l))"
proof -
  have cap: "f_val (f_of_int (int (hl_capacity l))) = of_nat (hl_capacity l)" "is_finite (f_of_int (int (hl_capacity l)))"
    using f_of_int_exact [of "int (hl_capacity l)"] assms(3) by simp_all
  have "is_nan F64_NAN" by (simp add: is_nan_def f_bits_def F64_NAN_def)
  then have "refilled l now b = f_of_int (int (hl_capacity l))" for b
    using assms(1) by (simp add: refilled_def f_mul_add_def f_min_def)
  then show ?thesis
    using cap assms(2) sample_limiter_val by (simp add: limiter_check_defs f_le_finite)
qed

lemma nan_rate_accepted:
  "hl_refill_rate (from_env_with_prefix ((\<lambda>_. None)(''MLRUNX_RATE_LIMIT_PER_SECOND'' := Some ''nan''))
     ''MLRUNX_RATE_LIMIT'' 100 (f_of_int 50)) = F64_NAN"
  by code_simp

end
