(* ===== verification/Metrics.thy ===== *)
theory Metrics
  imports Sqlite_Runs
begin

text \<open>
  Metric series: the in-memory service (apps/api/src/services/metrics.rs) and the query of the
  SQLite store (apps/api/src/storage/sqlite.rs, get_metrics). Both return the points of a metric
  as they are when they fit the requested number, and otherwise group them by buckets of steps.

  Values are binary64. The iteration order of a hash map is a parameter, a permutation of its
  entries. The average that SQLite computes is a parameter too. \<open>i64\<close> arithmetic on steps wraps, as
  in a release build; inside SQL the steps are assumed to differ by less than \<open>2\<^sup>63\<close>, beyond
  which SQLite would continue in floating point.
\<close>

section \<open>Points\<close>

record MetricPoint =
  pt_name :: string
  pt_step :: int
  pt_value :: f64
  pt_timestamp :: "f64 option"

record AggregatedPoint =
  ap_step :: int
  ap_mean :: f64
  ap_min :: f64
  ap_max :: f64
  ap_count :: nat

record MetricSeries =
  ms_name :: string
  ms_points :: "AggregatedPoint list"
  ms_total_points :: nat
  ms_downsampled :: bool

definition i64_wrap :: "int \<Rightarrow> int" where
  "i64_wrap n = (n + 2 ^ 63) mod 2 ^ 64 - 2 ^ 63"

definition single_point :: "int \<Rightarrow> f64 \<Rightarrow> AggregatedPoint" where
  "single_point step v = \<lparr>ap_step = step, ap_mean = v, ap_min = v, ap_max = v, ap_count = 1\<rparr>"

definition min_step :: "int list \<Rightarrow> int" where "min_step ss = (case ss of [] \<Rightarrow> 0 | s # r \<Rightarrow> foldl min s r)"
definition max_step :: "int list \<Rightarrow> int" where "max_step ss = (case ss of [] \<Rightarrow> 0 | s # r \<Rightarrow> foldl max s r)"

text \<open>The width of a bucket: the range of the steps, at least one, over the number of buckets.\<close>

definition bucket_size :: "int list \<Rightarrow> nat \<Rightarrow> f64" where
  "bucket_size ss bucket_count =
     f_div (f_of_int (max (i64_wrap (max_step ss - min_step ss)) 1)) (f_of_int (int bucket_count))"

section \<open>The in-memory service\<close>

definition bucket_index :: "nat \<Rightarrow> f64 \<Rightarrow> int \<Rightarrow> int \<Rightarrow> nat" where
  "bucket_index bucket_count width low step =
     nat (min (f_trunc 0 (int U64_MAX) (f_floor (f_div (f_of_int (i64_wrap (step - low))) width)))
       ((int bucket_count - 1) mod 2 ^ 64))"

text \<open>\<open>buckets.entry(idx).or_default().push(value)\<close>: the values of a bucket in the order of the points.\<close>

definition bucket_values :: "(MetricPoint \<Rightarrow> nat) \<Rightarrow> MetricPoint list \<Rightarrow> (nat \<times> f64 list) list" where
  "bucket_values idx points =
     map (\<lambda>i. (i, map pt_value (filter (\<lambda>p. idx p = i) points))) (remdups (map idx points))"

definition f_sum :: "f64 list \<Rightarrow> f64" where
  "f_sum = foldl f_add (f_negate 0)"

definition aggregate_bucket :: "int \<Rightarrow> f64 \<Rightarrow> nat \<times> f64 list \<Rightarrow> AggregatedPoint" where
  "aggregate_bucket low width b =
     \<lparr>ap_step = i64_wrap (low + f_trunc I64_MIN I64_MAX (f_mul (f_of_int (int (fst b))) width)),
      ap_mean = f_div (f_sum (snd b)) (f_of_int (int (length (snd b)))),
      ap_min = foldl f_min F64_INFINITY (snd b), ap_max = foldl f_max F64_NEG_INFINITY (snd b),
      ap_count = length (snd b)\<rparr>"

definition downsample_points ::
  "((nat \<times> f64 list) list \<Rightarrow> (nat \<times> f64 list) list) \<Rightarrow> MetricPoint list \<Rightarrow> nat \<Rightarrow> AggregatedPoint list" where
  "downsample_points iter points max_points =
     (if points = [] then []
      else if length points \<le> max_points then map (\<lambda>p. single_point (pt_step p) (pt_value p)) points
      else
        (let low = min_step (map pt_step points); width = bucket_size (map pt_step points) max_points in
         sort_by (asc ap_step)
           (map (aggregate_bucket low width)
              (iter (bucket_values (\<lambda>p. bucket_index max_points width low (pt_step p)) points)))))"

record RunMetrics =
  rm_metrics :: "string \<rightharpoonup> MetricPoint list"

definition add_point :: "MetricPoint \<Rightarrow> RunMetrics \<Rightarrow> RunMetrics" where
  "add_point p rm =
     rm\<lparr>rm_metrics := (rm_metrics rm)(pt_name p \<mapsto>
       (case rm_metrics rm (pt_name p) of Some ps \<Rightarrow> ps | None \<Rightarrow> []) @ [p])\<rparr>"

definition metric_names :: "string list \<Rightarrow> string list" where
  "metric_names keys = sort keys"

definition step_in :: "int option \<Rightarrow> int option \<Rightarrow> int \<Rightarrow> bool" where
  "step_in start_step end_step step \<longleftrightarrow>
     (case start_step of None \<Rightarrow> True | Some s \<Rightarrow> s \<le> step) \<and> (case end_step of None \<Rightarrow> True | Some e \<Rightarrow> step \<le> e)"

definition query ::
  "((nat \<times> f64 list) list \<Rightarrow> (nat \<times> f64 list) list) \<Rightarrow> string list \<Rightarrow> RunMetrics \<Rightarrow> string list \<Rightarrow> nat \<Rightarrow>
   int option \<Rightarrow> int option \<Rightarrow> MetricSeries list" where
  "query iter keys rm names max_points start_step end_step =
     map (\<lambda>name.
       (let filtered = filter (\<lambda>p. step_in start_step end_step (pt_step p))
              (case rm_metrics rm name of Some ps \<Rightarrow> ps | None \<Rightarrow> []) in
        \<lparr>ms_name = name, ms_points = downsample_points iter filtered max_points,
         ms_total_points = length filtered, ms_downsampled = max_points < length filtered\<rparr>))
       (if names = [] then keys else filter (\<lambda>n. rm_metrics rm n \<noteq> None) names)"

section \<open>The SQLite query\<close>

definition metric_rows :: "string \<Rightarrow> int option \<Rightarrow> int option \<Rightarrow> string \<Rightarrow> Db \<Rightarrow> MetricRec list" where
  "metric_rows run_id start_step end_step name db =
     filter (\<lambda>m. mt_run_id m = run_id \<and> mt_name m = name \<and> step_in start_step end_step (mt_step m)) (t_metrics db)"

text \<open>Integer division truncates; the difference is not negative and neither is the width.\<close>

definition bucket_step :: "int \<Rightarrow> int \<Rightarrow> MetricRec \<Rightarrow> int" where
  "bucket_step low width m = low + ((mt_step m - low) div width) * width"

definition aggregate_rows :: "(f64 list \<Rightarrow> f64) \<Rightarrow> int \<Rightarrow> f64 list \<Rightarrow> AggregatedPoint" where
  "aggregate_rows avg step vs =
     \<lparr>ap_step = step, ap_mean = avg vs, ap_min = foldl f_min F64_INFINITY vs,
      ap_max = foldl f_max F64_NEG_INFINITY vs, ap_count = length vs\<rparr>"

definition bucket_rows :: "(f64 list \<Rightarrow> f64) \<Rightarrow> int \<Rightarrow> int \<Rightarrow> MetricRec list \<Rightarrow> AggregatedPoint list" where
  "bucket_rows avg low width rows =
     map (\<lambda>k. aggregate_rows avg k (map mt_value (filter (\<lambda>m. bucket_step low width m = k) rows)))
       (sort (remdups (map (bucket_step low width) rows)))"

text \<open>\<open>LIMIT\<close> of a negative number is no limit.\<close>

definition sql_limit :: "int \<Rightarrow> 'a list \<Rightarrow> 'a list" where
  "sql_limit n rows = (if n < 0 then rows else take (nat n) rows)"

text \<open>A width of zero makes the bucket NULL, which does not convert to an \<open>i64\<close>.\<close>

definition get_metric_series ::
  "(f64 list \<Rightarrow> f64) \<Rightarrow> nat \<Rightarrow> string \<Rightarrow> MetricRec list \<Rightarrow> (MetricSeries, SqliteError) result" where
  "get_metric_series avg max_points name rows =
     (let width = f_trunc I64_MIN I64_MAX (bucket_size (map mt_step rows) max_points) in
      try_bind
        (if length rows \<le> max_points
         then Ok (map (\<lambda>m. single_point (mt_step m) (mt_value m)) (sort_by (asc mt_step) rows))
         else if width = 0 then Err (Database InvalidColumnType)
         else Ok (sql_limit (i64_wrap (int max_points)) (bucket_rows avg (min_step (map mt_step rows)) width rows)))
        (\<lambda>points. Ok \<lparr>ms_name = name, ms_points = points, ms_total_points = length rows,
                     ms_downsampled = max_points < length rows\<rparr>))"

definition get_metrics ::
  "(f64 list \<Rightarrow> f64) \<Rightarrow> string \<Rightarrow> string list \<Rightarrow> nat \<Rightarrow> int option \<Rightarrow> int option \<Rightarrow> MetricSeries list store" where
  "get_metrics avg run_id names max_points start_step end_step = (\<lambda>db.
     (try_map
        (\<lambda>name. get_metric_series avg max_points name (metric_rows run_id start_step end_step name db))
        (if names = [] then sort (remdups (map mt_name (filter (\<lambda>m. mt_run_id m = run_id) (t_metrics db))))
         else names), db))"

section \<open>Grouping loses nothing\<close>

lemma sum_bucket_counts:
  "distinct ks \<Longrightarrow> set (map f xs) \<subseteq> set ks \<Longrightarrow> sum_list (map (\<lambda>k. length (filter (\<lambda>x. f x = k) xs)) ks) = length xs"
proof (induction xs)
  case (Cons x xs)
  have "(\<Sum>k\<leftarrow>ks. length (filter (\<lambda>y. f y = k) (x # xs)))
      = (\<Sum>k\<leftarrow>ks. (if k = f x then 1 else 0) + length (filter (\<lambda>y. f y = k) xs))"
    by (rule arg_cong [of _ _ sum_list], rule map_cong) auto
  also have "\<dots> = (\<Sum>k\<leftarrow>ks. if k = f x then 1 else 0) + length xs"
    using Cons by (simp add: sum_list_addf)
  also have "(\<Sum>k\<leftarrow>ks. if k = f x then 1 else 0) = (1 :: nat)"
    using Cons.prems by (simp add: sum_list_distinct_conv_sum_set)
  finally show ?case by simp
qed simp

lemma min_step_Min: "ss \<noteq> [] \<Longrightarrow> min_step ss = Min (set ss)" and max_step_Max: "ss \<noteq> [] \<Longrightarrow> max_step ss = Max (set ss)"
  by (cases ss; simp add: min_step_def max_step_def Min.set_eq_fold Max.set_eq_fold foldl_conv_fold
      min.commute max.commute del: list.set)+

lemma step_range_interval:
  assumes "set ss = {lo..hi}" "lo \<le> hi"
  shows "min_step ss = lo" "max_step ss = hi"
proof -
  have "ss \<noteq> []" using assms by auto
  then show "min_step ss = lo" "max_step ss = hi"
    using assms by (auto simp: min_step_Min max_step_Max intro: Min_eqI Max_eqI)
qed

section \<open>What a downsampled series keeps\<close>

lemma bucket_values_counts:
  "sum_list (map (length \<circ> snd) (bucket_values idx points)) = length points"
  using sum_bucket_counts [of "remdups (map idx points)" idx points] by (simp add: bucket_values_def o_def)

lemma sum_list_mset_cong: "mset xs = mset ys \<Longrightarrow> sum_list (map f xs) = (sum_list (map f ys) :: nat)"
  by (metis mset_map sum_mset_sum_list)

lemma sorted_by_asc: "sorted (map f (sort_by (asc f) xs))"
  unfolding sorted_map by (rule sorted_wrt_mono_rel [OF _ sorted_sort_by [OF row_order_asc, of f xs]]) (simp add: asc_def)

lemma bucket_index_bound: "0 < n \<Longrightarrow> n \<le> U64_MAX \<Longrightarrow> bucket_index n width low step < n"
  by (auto simp: bucket_index_def)

lemma bucket_values_length:
  assumes "\<And>p. p \<in> set points \<Longrightarrow> idx p < n"
  shows "length (bucket_values idx points) \<le> n"
proof -
  have "length (remdups (map idx points)) = card (idx ` set points)" by (simp add: length_remdups_card_conv)
  also have "\<dots> \<le> card {..<n}" using assms by (intro card_mono) auto
  finally show ?thesis by (simp add: bucket_values_def)
qed

lemma aggregate_bucket_bounds:
  "v \<in> set (snd b) \<Longrightarrow> \<not> is_nan v \<Longrightarrow>
   f_le (ap_min (aggregate_bucket low width b)) v \<and> f_le v (ap_max (aggregate_bucket low width b))"
  using foldl_f_min [of F64_INFINITY "snd b"] foldl_f_max [of F64_NEG_INFINITY "snd b"]
  by (simp add: aggregate_bucket_def)

text \<open>
  C28: downsampling in memory summarises every point. For any order in which the hash map of the
  buckets is walked, the counts of the returned points add up to the number of points, each value
  that is not a NaN lies between the minimum and the maximum of one of them, at most
  \<open>max_points\<close> come back, and when buckets are formed they come back in the order of the steps.
\<close>

theorem downsample_keeps_points:
  assumes iter: "\<And>bs. mset (iter bs) = mset bs" and "0 < max_points" "max_points \<le> U64_MAX"
    and res_def: "res = downsample_points iter points max_points"
  shows "sum_list (map ap_count res) = length points \<and> length res \<le> max_points
    \<and> (\<forall>p \<in> set points. \<not> is_nan (pt_value p) \<longrightarrow>
         (\<exists>a \<in> set res. f_le (ap_min a) (pt_value p) \<and> f_le (pt_value p) (ap_max a)))
    \<and> (max_points < length points \<longrightarrow> sorted (map ap_step res))"
proof (cases "length points \<le> max_points")
  case True
  then have res: "res = map (\<lambda>p. single_point (pt_step p) (pt_value p)) points"
    by (simp add: res_def downsample_points_def)
  have "\<exists>a \<in> set res. f_le (ap_min a) (pt_value p) \<and> f_le (pt_value p) (ap_max a)"
    if "p \<in> set points" "\<not> is_nan (pt_value p)" for p
    using that f_le_refl by (auto simp: res single_point_def intro!: bexI [of _ p])
  then show ?thesis using True by (simp add: res single_point_def o_def sum_list_triv)
next
  case False
  let ?low = "min_step (map pt_step points)" and ?width = "bucket_size (map pt_step points) max_points"
  let ?idx = "\<lambda>p. bucket_index max_points ?width ?low (pt_step p)"
  let ?bs = "bucket_values ?idx points"
  have res: "res = sort_by (asc ap_step) (map (aggregate_bucket ?low ?width) (iter ?bs))"
    using False by (auto simp: res_def downsample_points_def Let_def)
  have "sum_list (map ap_count res) = sum_list (map (ap_count \<circ> aggregate_bucket ?low ?width) ?bs)"
    unfolding res by (rule trans [OF sum_list_mset_cong [OF mset_sort_by]]) (simp add: sum_list_mset_cong [OF iter])
  also have "\<dots> = length points" using bucket_values_counts by (simp add: aggregate_bucket_def o_def)
  finally have "sum_list (map ap_count res) = length points" .
  moreover have "length (iter ?bs) = length ?bs" using iter by (metis size_mset)
  then have "length res \<le> max_points"
    using bucket_values_length [of points ?idx max_points] bucket_index_bound [OF assms(2,3)] by (simp add: res)
  moreover have "\<exists>a \<in> set res. f_le (ap_min a) (pt_value p) \<and> f_le (pt_value p) (ap_max a)"
    if "p \<in> set points" "\<not> is_nan (pt_value p)" for p
  proof -
    let ?b = "(?idx p, map pt_value (filter (\<lambda>q. ?idx q = ?idx p) points))"
    have "?b \<in> set ?bs" using that by (auto simp: bucket_values_def)
    moreover have "set (iter ?bs) = set ?bs" using iter by (metis set_mset_mset)
    ultimately have "aggregate_bucket ?low ?width ?b \<in> set res" by (simp add: res)
    then show ?thesis using aggregate_bucket_bounds [of "pt_value p" ?b] that by force
  qed
  moreover have "sorted (map ap_step res)"
    by (simp add: res sorted_by_asc)
  ultimately show ?thesis by blast
qed

section \<open>The series of the SQLite store\<close>

lemma i64_wrap_id: "I64_MIN \<le> n \<Longrightarrow> n \<le> I64_MAX \<Longrightarrow> i64_wrap n = n"
  by (simp add: i64_wrap_def)

lemma bucket_width:
  assumes "set ss = {lo..hi}" "lo < hi" "hi - lo < 2 ^ 53" "0 < n" "int n < 2 ^ 53"
  shows "f_trunc I64_MIN I64_MAX (bucket_size ss n) = (hi - lo) div int n"
proof -
  have "max (i64_wrap (max_step ss - min_step ss)) 1 = hi - lo"
    using step_range_interval [OF assms(1)] assms(2,3) by (simp add: i64_wrap_id)
  then show ?thesis unfolding bucket_size_def using assms by (simp add: f_trunc_quotient)
qed

lemma bucket_steps_interval:
  assumes "set (map mt_step rows) = {lo..hi}" "lo < hi" "0 < w"
  shows "set (map (bucket_step lo w) rows) = (\<lambda>i. lo + i * w) ` {0..(hi - lo) div w}"
proof -
  have "set (map (bucket_step lo w) rows) = (\<lambda>s. lo + ((s - lo) div w) * w) ` {lo..hi}"
    unfolding assms(1) [symmetric] by (auto simp: bucket_step_def)
  also have "\<dots> = (\<lambda>i. lo + i * w) ` ((\<lambda>s. (s - lo) div w) ` {lo..hi})" by (simp add: image_image)
  also have "(\<lambda>s. (s - lo) div w) ` {lo..hi} = {0..(hi - lo) div w}"
  proof (intro equalityI subsetI)
    fix i assume "i \<in> {0..(hi - lo) div w}"
    then have "0 \<le> i * w" "i * w \<le> (hi - lo) div w * w" using assms(3) by (auto intro: mult_right_mono)
    moreover have "(hi - lo) div w * w \<le> hi - lo" using assms(3) by (simp flip: minus_mod_eq_div_mult)
    ultimately have "lo + i * w \<in> {lo..hi}" by simp
    moreover have "(lo + i * w - lo) div w = i" using assms(3) by simp
    ultimately show "i \<in> (\<lambda>s. (s - lo) div w) ` {lo..hi}" by (metis imageI)
  qed (use assms(3) in \<open>auto intro!: zdiv_mono1 simp: pos_imp_zdiv_nonneg_iff\<close>)
  finally show ?thesis .
qed

lemma take_strict_prefix:
  assumes "sorted xs" "distinct xs" "n < length xs" "x \<in> set (take n xs)"
  shows "x < last (xs :: int list)"
proof -
  obtain i where i: "i < n" "x = xs ! i" using assms(3,4) by (auto simp: in_set_conv_nth)
  have "xs ! i < xs ! (length xs - 1)"
    using assms(1,2,3) i(1) by (intro sorted_wrt_nth_less [of "(<)"]) (auto simp: strict_sorted_iff)
  then show ?thesis using i(2) assms(3) by (cases xs) (auto simp: last_conv_nth)
qed

lemma sum_list_take_less:
  assumes "n < length xs" "\<forall>x \<in> set xs. 0 < (f x :: nat)"
  shows "sum_list (map f (take n xs)) < sum_list (map f xs)"
proof -
  have "sum_list (map f xs) = sum_list (map f (take n xs)) + sum_list (map f (drop n xs))"
    by (simp flip: sum_list_append map_append)
  moreover have "drop n xs = xs ! n # drop (Suc n) xs" using assms(1) by (simp add: Cons_nth_drop_Suc)
  ultimately show ?thesis using assms by simp
qed

text \<open>
  the SQLite query loses the end of a downsampled series. When a metric has a point at every
  step of a range at least as wide as the requested number of points, the query returns that many
  buckets and none of them contains the last step: every returned bucket ends before it, and the
  counts add up to less than the number of points.
\<close>

lemma get_metrics_drops_last:
  assumes "set (map mt_step rows) = {lo..hi}" "hi - lo < 2 ^ 53" "0 < n" "int n \<le> hi - lo" "n < length rows"
  shows "\<exists>s. get_metric_series avg n name rows = Ok s \<and> length (ms_points s) = n
    \<and> sum_list (map ap_count (ms_points s)) < ms_total_points s
    \<and> (\<forall>p \<in> set (ms_points s). ap_step p + (hi - lo) div int n \<le> hi)"
proof -
  let ?w = "(hi - lo) div int n" and ?b = "bucket_step lo ((hi - lo) div int n)"
  let ?ks = "sort (remdups (map ?b rows))" and ?last = "lo + (hi - lo) div ?w * ?w"
  have lh: "lo < hi" "int n < 2 ^ 53" using assms by auto
  have w: "0 < ?w" using assms(3,4) by (simp add: pos_imp_zdiv_pos_iff)
  have trunc: "f_trunc I64_MIN I64_MAX (bucket_size (map mt_step rows) n) = ?w"
    using bucket_width [OF assms(1) lh(1) assms(2,3) lh(2)] .
  have "int n * ?w \<le> hi - lo" using assms(3) by (simp flip: minus_mod_eq_mult_div)
  then have n: "int n \<le> (hi - lo) div ?w" using zdiv_mono1 [of "int n * ?w" "hi - lo" ?w] w by simp
  have set_ks: "set ?ks = (\<lambda>i. lo + i * ?w) ` {0..(hi - lo) div ?w}"
    using bucket_steps_interval [OF assms(1) lh(1) w] by simp
  have "length ?ks = card (set ?ks)" by (simp add: length_remdups_card_conv)
  also have "\<dots> = card {0..(hi - lo) div ?w}" unfolding set_ks using w by (intro card_image) (auto simp: inj_on_def)
  also have "\<dots> = nat ((hi - lo) div ?w + 1)" by simp
  finally have len: "n < length ?ks" using n by simp
  have "?ks \<noteq> []" using len by (metis list.size(3) not_less_zero)
  then have "last ?ks \<in> set ?ks" by (rule last_in_set)
  then have last_ks: "last ?ks \<le> ?last" unfolding set_ks using w by (auto intro: mult_right_mono)
  let ?pts = "bucket_rows avg lo ?w rows"
  have series: "get_metric_series avg n name rows
      = Ok \<lparr>ms_name = name, ms_points = take n ?pts, ms_total_points = length rows, ms_downsampled = True\<rparr>"
    using assms(5) w lh(2) step_range_interval(1) [OF assms(1)] lh(1) trunc
    by (simp add: get_metric_series_def sql_limit_def i64_wrap_id)
  have steps: "map ap_step ?pts = ?ks" by (simp add: bucket_rows_def aggregate_rows_def o_def)
  have "length ?pts = length ?ks" by (simp add: bucket_rows_def)
  with len have "length (take n ?pts) = n" by simp
  moreover have "sum_list (map ap_count (take n ?pts)) < sum_list (map ap_count ?pts)"
    using len by (intro sum_list_take_less)
      (auto simp: bucket_rows_def aggregate_rows_def filter_empty_conv)
  moreover have "sum_list (map ap_count ?pts) = length rows"
    using sum_bucket_counts [of ?ks ?b rows] by (simp add: bucket_rows_def aggregate_rows_def o_def)
  moreover have "ap_step p + ?w \<le> hi" if "p \<in> set (take n ?pts)" for p
  proof -
    have p: "ap_step p \<in> set (take n ?ks)" using that by (metis imageI set_map steps take_map)
    then have "ap_step p < ?last" using take_strict_prefix [OF _ _ len] last_ks by fastforce
    moreover obtain i where "ap_step p = lo + i * ?w" using in_set_takeD [OF p] unfolding set_ks by auto
    ultimately have "i < (hi - lo) div ?w" using w by simp
    then have "(i + 1) * ?w \<le> (hi - lo) div ?w * ?w" using w by (intro mult_right_mono) auto
    also have "\<dots> \<le> hi - lo" using w by (simp flip: minus_mod_eq_div_mult)
    finally show ?thesis using \<open>ap_step p = lo + i * ?w\<close> by (simp add: distrib_right)
  qed
  ultimately show ?thesis unfolding series by auto
qed

text \<open>
  And it fails outright when there are more points than requested on fewer steps: the width of a
  bucket is truncated to zero, the division gives NULL, and NULL is no step.
\<close>

lemma get_metrics_dense_fails:
  assumes "set (map mt_step rows) = {lo..hi}" "lo < hi" "hi - lo < int n" "n < length rows" "int n < 2 ^ 53"
  shows "get_metric_series avg n name rows = Err (Database InvalidColumnType)"
proof -
  have "f_trunc I64_MIN I64_MAX (bucket_size (map mt_step rows) n) = (hi - lo) div int n"
    by (rule bucket_width [OF assms(1,2)]) (use assms in auto)
  also have "\<dots> = 0" using assms by (simp add: div_pos_pos_trivial)
  finally show ?thesis using assms(4) by (simp add: get_metric_series_def)
qed

lemma get_metric_series_fits:
  assumes "length rows \<le> n"
  shows "\<exists>s. get_metric_series avg n name rows = Ok s \<and> \<not> ms_downsampled s
    \<and> mset (map (\<lambda>p. (ap_step p, ap_mean p)) (ms_points s)) = mset (map (\<lambda>m. (mt_step m, mt_value m)) rows)
    \<and> sorted (map ap_step (ms_points s))"
proof -
  let ?f = "\<lambda>m. single_point (mt_step m) (mt_value m)"
  have "map ap_step (map ?f (sort_by (asc mt_step) rows)) = map mt_step (sort_by (asc mt_step) rows)"
    by (simp add: single_point_def)
  then have "sorted (map ap_step (map ?f (sort_by (asc mt_step) rows)))" using sorted_by_asc by metis
  moreover have "mset (map (\<lambda>p. (ap_step p, ap_mean p)) (map ?f (sort_by (asc mt_step) rows)))
      = mset (map (\<lambda>m. (mt_step m, mt_value m)) rows)"
    by (simp add: single_point_def o_def flip: image_mset.compositionality)
  ultimately show ?thesis using assms by (simp add: get_metric_series_def image_mset.compositionality o_def)
qed

section \<open>Concrete series\<close>

definition sample_rows :: "MetricRec list" where
  "sample_rows = map (\<lambda>i. \<lparr>mt_run_id = ''r'', mt_name = ''loss'', mt_step = i, mt_value = f_of_int i,
     mt_timestamp = None\<rparr>) [0, 1, 2, 3]"

theorem get_metrics_drops_last_witness:
  "\<exists>s. get_metric_series f_sum 2 ''loss'' sample_rows = Ok s \<and> length (ms_points s) = 2
    \<and> sum_list (map ap_count (ms_points s)) < ms_total_points s"
proof -
  have "set (map mt_step sample_rows) = {0..3}" by (auto simp: sample_rows_def)
  from get_metrics_drops_last [OF this, of 2 f_sum "''loss''"] show ?thesis by (auto simp: sample_rows_def)
qed

definition sample_points :: "MetricPoint list" where
  "sample_points = map (\<lambda>i. \<lparr>pt_name = ''loss'', pt_step = i, pt_value = f_of_int i, pt_timestamp = None\<rparr>) [0, 1, 2]"

theorem downsample_keeps_points_witness:
  "sum_list (map ap_count (downsample_points rev sample_points 2)) = length sample_points
    \<and> length (downsample_points rev sample_points 2) \<le> 2
    \<and> sorted (map ap_step (downsample_points rev sample_points 2))"
  using downsample_keeps_points [of rev 2 "downsample_points rev sample_points 2" sample_points]
  by (simp add: sample_points_def)

text \<open>
  The mean of a bucket can lie outside its own bounds: three times the double next to 0.1 add up
  to more than three times that number.
\<close>

lemma mean_exceeds_max:
  "f_less (ap_max (aggregate_bucket 0 (f_of_int 1) (0, replicate 3 0x3FB999999999999A)))
     (ap_mean (aggregate_bucket 0 (f_of_int 1) (0, replicate 3 0x3FB999999999999A)))"
  unfolding aggregate_bucket_def AggregatedPoint.select_convs by code_simp

end
