(* ===== verification/Server_Config.thy ===== *)
theory Server_Config
  imports Client_Ip
begin

text \<open>
  The configuration of the server (apps/api/src/config.rs), and the writes to PostgreSQL that
  accompany changes of projects and runs when it says so (apps/api/src/main.rs,
  maybe_shadow_write_project_to_postgres, maybe_shadow_write_run_to_postgres,
  maybe_shadow_finish_run_in_postgres; the inputs of storage/postgres.rs).

  A shadow write is a command handed to PostgreSQL; its failure is only logged, so the commands
  are all the server contributes. The parser of \<open>uuid\<close> is a parameter. Parse errors of the
  standard library appear in error texts only; their wording is not modelled.
\<close>

section \<open>Modes\<close>

datatype RuntimeMode = Standalone | ScaleOut

definition runtime_mode_from_env :: "env \<Rightarrow> RuntimeMode" where
  "runtime_mode_from_env env =
     (case env ''MLRUNX_RUNTIME_MODE'' of
        None \<Rightarrow> Standalone
      | Some v \<Rightarrow>
          if to_ascii_lowercase (trim v) \<in> {''scaleout'', ''scale-out'', ''scale_out''} then ScaleOut else Standalone)"

fun runtime_mode_str :: "RuntimeMode \<Rightarrow> string" where
  "runtime_mode_str Standalone = ''standalone''"
| "runtime_mode_str ScaleOut = ''scaleout''"

fun is_scale_out :: "RuntimeMode \<Rightarrow> bool" where
  "is_scale_out ScaleOut = True"
| "is_scale_out Standalone = False"

datatype IngestMode = Direct | Queued

text \<open>
  \<open>to_lowercase\<close> is the Unicode one; no character outside ASCII lowers to a letter of the two words,
  so on them it agrees with the ASCII one.
\<close>

definition ingest_mode_from_env :: "env \<Rightarrow> IngestMode" where
  "ingest_mode_from_env env =
     (case env ''INGEST_MODE'' of
        None \<Rightarrow> Direct
      | Some v \<Rightarrow> if to_ascii_lowercase v = ''queued'' then Queued else Direct)"

fun ingest_mode_str :: "IngestMode \<Rightarrow> string" where
  "ingest_mode_str Direct = ''direct''"
| "ingest_mode_str Queued = ''queued''"

section \<open>Addresses to listen on\<close>

type_synonym SocketAddr = "IpAddr \<times> nat"

record ServerConfig =
  sc_http_addr :: SocketAddr
  sc_grpc_addr :: SocketAddr
  sc_runtime_mode :: RuntimeMode
  sc_ingest_mode :: IngestMode
  sc_log_level :: string

abbreviation DEFAULT_HTTP_PORT :: nat where "DEFAULT_HTTP_PORT \<equiv> 3001"
abbreviation DEFAULT_GRPC_PORT :: nat where "DEFAULT_GRPC_PORT \<equiv> 50051"
abbreviation U16_MAX :: nat where "U16_MAX \<equiv> 65535"

definition DEFAULT_RUST_LOG :: string where
  "DEFAULT_RUST_LOG = ''info,mlrunx_api=debug''"

definition server_config_default :: ServerConfig where
  "server_config_default =
     \<lparr>sc_http_addr = (IpV4 0, DEFAULT_HTTP_PORT), sc_grpc_addr = (IpV4 0, DEFAULT_GRPC_PORT),
      sc_runtime_mode = Standalone, sc_ingest_mode = Direct, sc_log_level = DEFAULT_RUST_LOG\<rparr>"

text \<open>
  \<open>SocketAddr::from_str\<close>: an IPv4 address, or an IPv6 address in brackets with an optional scope,
  then a colon and a port, up to the end of the text. The scope does not matter here.
\<close>

definition read_port :: "string \<Rightarrow> (nat \<times> string) option" where
  "read_port s = Option.bind (read_char CHR '':'' s) (\<lambda>r. read_number 10 (length r) (Some U16_MAX) True r)"

definition read_scope :: "string \<Rightarrow> string" where
  "read_scope s =
     (case Option.bind (read_char CHR ''%'' s) (\<lambda>r. read_number 10 (length r) (Some U32_MAX) True r) of
        Some (_, rest) \<Rightarrow> rest | None \<Rightarrow> s)"

definition read_bracketed :: "string \<Rightarrow> (128 word \<times> string) option" where
  "read_bracketed s =
     Option.bind (read_char CHR ''['' s) (\<lambda>r.
     Option.bind (read_ipv6_addr r) (\<lambda>(a, r).
     Option.bind (read_char CHR '']'' (read_scope r)) (\<lambda>r. Some (a, r))))"

definition read_socket_ip :: "string \<Rightarrow> (IpAddr \<times> string) option" where
  "read_socket_ip s =
     (case read_ipv4_addr s of
        Some (a, r) \<Rightarrow> Some (IpV4 a, r)
      | None \<Rightarrow> map_option (\<lambda>(a, r). (IpV6 a, r)) (read_bracketed s))"

definition parse_socket_addr :: "string \<Rightarrow> SocketAddr option" where
  "parse_socket_addr s =
     Option.bind (read_socket_ip s) (\<lambda>(ip, r).
     Option.bind (read_port r) (\<lambda>(port, r). if r = [] then Some (ip, port) else None))"

definition parse_optional_port :: "string \<Rightarrow> string option \<Rightarrow> (nat option, string) result" where
  "parse_optional_port name v =
     (case trimmed_nonempty v of
        None \<Rightarrow> Ok None
      | Some text \<Rightarrow>
          (case parse_unsigned U16_MAX text of
             Some p \<Rightarrow> Ok (Some p)
           | None \<Rightarrow> Err (''invalid '' @ name @ '' value '' @ sq text)))"

definition parse_bind_addr :: "string \<Rightarrow> nat \<Rightarrow> string \<Rightarrow> (SocketAddr, string) result" where
  "parse_bind_addr host port label =
     ok_or (parse_socket_addr (host @ '':'' @ show_nat port))
       (''invalid '' @ label @ '' address '' @ sq (host @ '':'' @ show_nat port))"

definition server_config_build ::
  "string option \<Rightarrow> nat option \<Rightarrow> nat option \<Rightarrow> RuntimeMode \<Rightarrow> IngestMode \<Rightarrow> string option \<Rightarrow> (ServerConfig, string) result" where
  "server_config_build host http_port grpc_port runtime_mode ingest_mode log_level =
     (let resolved_host = (case trimmed_nonempty host of Some h \<Rightarrow> h | None \<Rightarrow> ''0.0.0.0'') in
      try_bind (parse_bind_addr resolved_host (case http_port of Some p \<Rightarrow> p | None \<Rightarrow> DEFAULT_HTTP_PORT) ''HTTP bind'') (\<lambda>http.
      try_bind (parse_bind_addr resolved_host (case grpc_port of Some p \<Rightarrow> p | None \<Rightarrow> DEFAULT_GRPC_PORT) ''gRPC bind'') (\<lambda>grpc.
        Ok \<lparr>sc_http_addr = http, sc_grpc_addr = grpc, sc_runtime_mode = runtime_mode, sc_ingest_mode = ingest_mode,
            sc_log_level = (case log_level of Some l \<Rightarrow> l | None \<Rightarrow> DEFAULT_RUST_LOG)\<rparr>)))"

definition server_config_from_env :: "env \<Rightarrow> (ServerConfig, string) result" where
  "server_config_from_env env =
     try_bind (parse_optional_port ''API_HTTP_PORT'' (env ''API_HTTP_PORT'')) (\<lambda>http_port.
     try_bind (parse_optional_port ''API_GRPC_PORT'' (env ''API_GRPC_PORT'')) (\<lambda>grpc_port.
       server_config_build (env ''API_HOST'') http_port grpc_port (runtime_mode_from_env env)
         (ingest_mode_from_env env) (env ''RUST_LOG'')))"

definition queued_ingest_enabled :: "ServerConfig \<Rightarrow> bool" where
  "queued_ingest_enabled c \<longleftrightarrow> is_scale_out (sc_runtime_mode c) \<or> sc_ingest_mode c = Queued"

section \<open>Shadow writes\<close>

datatype PgRunStatus = PgPending | PgRunning | PgFinished | PgFailed | PgKilled

datatype PgCommand =
    PgCreateProject string string "string option"
  | PgCreateRun string string "string option" Json
  | PgUpdateStatus string PgRunStatus

definition postgres_metadata_shadow_writes_enabled :: "env \<Rightarrow> bool" where
  "postgres_metadata_shadow_writes_enabled env \<longleftrightarrow>
     env_flag_default env ''MLRUNX_POSTGRES_METADATA_SHADOW_WRITES_ENABLED'' False
   \<or> is_scale_out (runtime_mode_from_env env)"

definition postgres_run_status_from_http :: "string \<Rightarrow> PgRunStatus option" where
  "postgres_run_status_from_http status =
     (let s = to_ascii_lowercase (trim status) in
      if s = ''pending'' then Some PgPending else if s = ''running'' then Some PgRunning
      else if s = ''finished'' then Some PgFinished else if s = ''failed'' then Some PgFailed
      else if s = ''killed'' then Some PgKilled else None)"

definition maybe_shadow_write_project_to_postgres ::
  "env \<Rightarrow> (string \<Rightarrow> string option) \<Rightarrow> ProjectRow \<Rightarrow> PgCommand list" where
  "maybe_shadow_write_project_to_postgres env parse_uuid project =
     (if \<not> postgres_metadata_shadow_writes_enabled env then []
      else
        (case parse_uuid (pj_id project) of
           None \<Rightarrow> []
         | Some u \<Rightarrow> [PgCreateProject u (pj_name project) (pj_description project)]))"

text \<open>The tags as a JSON object: its members are sorted, a later value of a key wins.\<close>

definition tags_json :: "(string \<times> string) list option \<Rightarrow> Json" where
  "tags_json tags =
     (case tags of
        None \<Rightarrow> JObject []
      | Some kvs \<Rightarrow> JObject (map (\<lambda>k. (k, JString (the (map_of (rev kvs) k)))) (sort (remdups (map fst kvs)))))"

definition maybe_shadow_write_run_to_postgres ::
  "env \<Rightarrow> (string \<Rightarrow> string option) \<Rightarrow> string \<Rightarrow> string \<Rightarrow> string option \<Rightarrow> (string \<times> string) list option \<Rightarrow> PgCommand list" where
  "maybe_shadow_write_run_to_postgres env parse_uuid run_id project_id name tags =
     (if \<not> postgres_metadata_shadow_writes_enabled env then []
      else
        (case (parse_uuid run_id, parse_uuid project_id) of
           (Some r, Some p) \<Rightarrow> [PgCreateRun r p name (tags_json tags)]
         | _ \<Rightarrow> []))"

definition maybe_shadow_finish_run_in_postgres ::
  "env \<Rightarrow> (string \<Rightarrow> string option) \<Rightarrow> string \<Rightarrow> string \<Rightarrow> PgCommand list" where
  "maybe_shadow_finish_run_in_postgres env parse_uuid run_id status =
     (if \<not> postgres_metadata_shadow_writes_enabled env then []
      else
        (case (parse_uuid run_id, postgres_run_status_from_http status) of
           (Some r, Some s) \<Rightarrow> [PgUpdateStatus r s]
         | _ \<Rightarrow> []))"

end
