(* ===== verification/Ingest.thy ===== *)
theory Ingest
  imports Http_Limiter Idempotency Store_Props Server_Config
begin

text \<open>
  Ingestion of a batch over HTTP (apps/api/src/main.rs, http_ingest_batch and
  persist_ingest_batch_to_sqlite; the types of crates/api-http-types): the guards of the run, the
  write limiter, validation of parameters, tags and metrics, deduplication, cardinality limits,
  filtering of values that are not finite and of unsafe events, and the writes to SQLite or to
  the ingest queue.

  The state is what the handler shares with others: the database, the deduplication store, the
  cardinality tracker, the buckets of the write limiter, the Redis stream, when one is configured,
  and the commands handed to PostgreSQL. A handler returns None when it panics; nothing is said about the state then.
\<close>

section \<open>Requests and state\<close>

datatype MetricValue = Scalar f64 | Array "f64 list"

record MetricData =
  md_name :: string
  md_value :: MetricValue
  md_step :: int
  md_timestamp :: "f64 option"

record LogEventData =
  le_level :: "string option"
  le_source :: "string option"
  le_message :: string
  le_step :: "int option"
  le_timestamp :: "f64 option"

record IngestBatchHttpRequest =
  ig_run_id :: string
  ig_batch_id :: "string option"
  ig_seq :: "int option"
  ig_metrics :: "MetricData list"
  ig_params :: "(string \<times> string) list"
  ig_tags :: "(string \<times> string) list"
  ig_events :: "LogEventData list"

record IngestBatchHttpResponse =
  ir_accepted :: int
  ir_duplicate :: bool
  ir_warnings :: "string list"

record ExpandedMetricData =
  xm_name :: string
  xm_value :: f64
  xm_step :: int
  xm_timestamp :: "f64 option"

record QueuedIngestBatch =
  qb_project_id :: string
  qb_run_id :: string
  qb_batch_id :: string
  qb_payload_hash :: string
  qb_seq :: int
  qb_queued_at_unix_ms :: int
  qb_metrics :: "MetricRow list"
  qb_params :: "(string \<times> string) list"
  qb_tags :: "(string \<times> string) list"
  qb_events :: "RunEventInput list"
  qb_warnings :: "string list"

record App =
  app_db :: Db
  app_idem :: IdempotencyStore
  app_tracker :: CardinalityTracker
  app_writes :: HttpRateLimiter
  app_queue :: "QueuedIngestBatch list option"
  app_shadow :: "PgCommand list"

text \<open>
  What a request takes from outside: the digest of the payload hash, the identifier and the clocks
  of the request, the text of a database error, and the error with which Redis refuses the batch,
  if it does.
\<close>

record IngestExt =
  ix_digest :: "string \<Rightarrow> string"
  ix_uuid :: string
  ix_instant :: nat
  ix_unix_ms :: int
  ix_created_at :: nat
  ix_show_error :: "SqliteError \<Rightarrow> string"
  ix_queue_error :: "string option"

abbreviation METRIC_ARRAY_MAX_LEN :: nat where "METRIC_ARRAY_MAX_LEN \<equiv> 1024"
abbreviation PRECONDITION_FAILED :: nat where "PRECONDITION_FAILED \<equiv> 412"
abbreviation SERVICE_UNAVAILABLE :: nat where "SERVICE_UNAVAILABLE \<equiv> 503"

definition usize_to_i32_saturating :: "nat \<Rightarrow> int" where
  "usize_to_i32_saturating n = min (int n) 2147483647"

definition usize_to_i64_saturating :: "nat \<Rightarrow> int" where
  "usize_to_i64_saturating n = min (int n) I64_MAX"

definition on_db :: "(Db, 'a, 'e) op \<Rightarrow> (App, 'a, 'e) op" where
  "on_db m = (\<lambda>s. case m (app_db s) of (r, db) \<Rightarrow> (r, s\<lparr>app_db := db\<rparr>))"

definition check_write_rate :: "nat \<Rightarrow> AuthContext \<Rightarrow> string option \<Rightarrow> (App, unit, http_error) op" where
  "check_write_rate instant auth project_id = (\<lambda>s.
     case limiter_check instant (scoped_write_rate_limit_key auth project_id) (app_writes s) of
       (r, l) \<Rightarrow> (map_err rate_limit_error r, s\<lparr>app_writes := l\<rparr>))"

text \<open>\<open>get_run\<close> with the columns the handlers use, and its error as a response.\<close>

definition store_error :: "SqliteError \<Rightarrow> http_error" where
  "store_error e = (case e of NotFound msg \<Rightarrow> (NOT_FOUND, msg) | _ \<Rightarrow> internal_error e)"

definition load_run :: "string \<Rightarrow> RunRec http" where
  "load_run run_id = (\<lambda>db.
     (case find_run run_id db of Some r \<Rightarrow> Ok r | None \<Rightarrow> Err (store_error (run_not_found run_id)), db))"

text \<open>The checks every handler that changes a run makes before it changes anything.\<close>

definition guard_run_mutation :: "Runtime \<Rightarrow> AuthContext \<Rightarrow> string \<Rightarrow> string \<Rightarrow> string \<Rightarrow> RunRec http" where
  "guard_run_mutation rt auth action verb run_id =
     op_bind (load_run run_id) (\<lambda>run.
     op_bind
       (require_endpoint_access rt auth Write (Some (rn_project_id run)) (Some run_id) action ''run'' (Some run_id)) (\<lambda>_.
     op_bind (lift_result (require_ui_run_owner auth run)) (\<lambda>_.
     op_bind (lift_result (require_api_key_run_owner_for_mutation auth run verb)) (\<lambda>_.
       op_return run))))"

section \<open>Validation\<close>

definition validate_param :: "string \<times> string \<Rightarrow> (string \<times> string, http_error) result" where
  "validate_param p =
     try_bind (map_err (\<lambda>err. (BAD_REQUEST, ''Invalid param key '' @ sq (fst p) @ '': '' @ err))
       (canonicalize_metadata_key (fst p) ''parameters'')) (\<lambda>name.
     try_bind (map_err (\<lambda>err. (BAD_REQUEST, ''Invalid param value for '' @ sq (fst p) @ '': '' @ err))
       (validate_param_value (snd p))) (\<lambda>_. Ok (name, snd p)))"

definition validate_ingest_tag :: "nat \<Rightarrow> string \<times> string \<Rightarrow> (string \<times> string, http_error) result" where
  "validate_ingest_tag max_len t =
     try_bind (map_err (\<lambda>err. (BAD_REQUEST, ''Invalid tag key '' @ sq (fst t) @ '': '' @ err))
       (canonicalize_metadata_key (fst t) ''tags'')) (\<lambda>key.
     try_bind (map_err (\<lambda>err. (BAD_REQUEST, ''Invalid tag value for '' @ sq (fst t) @ '': '' @ err))
       (validate_tag_value (snd t) max_len)) (\<lambda>_. Ok (key, snd t)))"

definition expanded :: "MetricData \<Rightarrow> string \<Rightarrow> f64 \<Rightarrow> ExpandedMetricData" where
  "expanded m name v = \<lparr>xm_name = name, xm_value = v, xm_step = md_step m, xm_timestamp = md_timestamp m\<rparr>"

definition expand_named :: "MetricData \<Rightarrow> string \<Rightarrow> (ExpandedMetricData list, http_error) result" where
  "expand_named m base =
     (if base = [] then Err (BAD_REQUEST, ''metric name cannot be empty'')
      else
        (case md_value m of
           Scalar v \<Rightarrow> Ok [expanded m base v]
         | Array vs \<Rightarrow>
             if METRIC_ARRAY_MAX_LEN < length vs
             then Err (BAD_REQUEST, ''metric array '' @ sq base @ '' exceeds max length ''
               @ show_nat METRIC_ARRAY_MAX_LEN)
             else Ok (map (\<lambda>(i, v). expanded m (base @ ''['' @ show_nat i @ '']'') v) (enumerate 0 vs))))"

definition expand_metric :: "MetricData \<Rightarrow> (ExpandedMetricData list, http_error) result" where
  "expand_metric m = expand_named m (trim (md_name m))"

record ValidatedBatch =
  vb_run :: RunRec
  vb_params :: "(string \<times> string) list"
  vb_tags :: "(string \<times> string) list"
  vb_metrics :: "ExpandedMetricData list"

definition validate_items :: "nat \<Rightarrow> IngestBatchHttpRequest \<Rightarrow> RunRec \<Rightarrow> (ValidatedBatch, http_error) result" where
  "validate_items max_tag_len req run =
     try_bind (try_map validate_param (ig_params req)) (\<lambda>params.
     try_bind (try_map (validate_ingest_tag max_tag_len) (ig_tags req)) (\<lambda>tags.
     try_bind (try_map expand_metric (ig_metrics req)) (\<lambda>metrics.
       Ok \<lparr>vb_run = run, vb_params = params, vb_tags = tags, vb_metrics = concat metrics\<rparr>)))"

definition ingest_checks ::
  "IngestExt \<Rightarrow> Runtime \<Rightarrow> AuthContext \<Rightarrow> IngestBatchHttpRequest \<Rightarrow> (App, ValidatedBatch, http_error) op" where
  "ingest_checks ix rt auth req =
     op_bind (on_db (guard_run_mutation rt auth ''run.ingest'' ''ingest to'' (ig_run_id req))) (\<lambda>run.
     op_bind (check_write_rate (ix_instant ix) auth (Some (rn_project_id run))) (\<lambda>_ s.
       (validate_items (max_tag_value_length (ct_config (app_tracker s))) req run, s)))"

section \<open>Deduplication\<close>

definition payload_hash :: "IngestExt \<Rightarrow> IngestBatchHttpRequest \<Rightarrow> ValidatedBatch \<Rightarrow> string" where
  "payload_hash ix req vb =
     compute_payload_hash (ix_digest ix)
       (map (\<lambda>m. \<lparr>mp_name = xm_name m, mp_value = xm_value m, mp_step = xm_step m\<rparr>) (vb_metrics vb))
       (map (\<lambda>p. \<lparr>pp_name = fst p, pp_value = snd p\<rparr>) (vb_params vb))
       (map (\<lambda>t. \<lparr>tp_key = fst t, tp_value = snd t\<rparr>) (vb_tags vb))
       (map (\<lambda>e. \<lparr>ep_level = normalize_run_event_level (le_level e),
                  ep_source = normalize_run_event_source (le_source e), ep_message = le_message e,
                  ep_step = le_step e, ep_timestamp = le_timestamp e\<rparr>) (ig_events req))"

definition ingest_batch_id :: "IngestExt \<Rightarrow> IngestBatchHttpRequest \<Rightarrow> string" where
  "ingest_batch_id ix req = (case ig_batch_id req of Some b \<Rightarrow> b | None \<Rightarrow> ix_uuid ix)"

definition ingest_seq :: "IngestBatchHttpRequest \<Rightarrow> int" where
  "ingest_seq req = (case ig_seq req of Some n \<Rightarrow> n | None \<Rightarrow> 0)"

definition batch_record :: "IngestExt \<Rightarrow> IngestBatchHttpRequest \<Rightarrow> ValidatedBatch \<Rightarrow> BatchRecord" where
  "batch_record ix req vb =
     \<lparr>br_project_id = rn_project_id (vb_run vb), br_run_id = ig_run_id req,
      br_batch_id = ingest_batch_id ix req, br_seq = ingest_seq req,
      br_payload_hash = payload_hash ix req vb,
      br_metric_count = usize_to_i32_saturating (length (vb_metrics vb)),
      br_param_count = usize_to_i32_saturating (length (vb_params vb)),
      br_tag_count = usize_to_i32_saturating (length (vb_tags vb)),
      br_event_count = usize_to_i32_saturating (length (ig_events req)), br_created_at = ix_created_at ix\<rparr>"

definition order_warnings :: "IdempotencyResult \<Rightarrow> string list" where
  "order_warnings r =
     (case r of
        OutOfOrder expected_seq actual_seq \<Rightarrow>
          [''Batch received out of order (expected seq >= '' @ show_int expected_seq @ '', got ''
           @ show_int actual_seq @ '')'']
      | _ \<Rightarrow> [])"

section \<open>Filtering\<close>

definition finite_metric :: "ExpandedMetricData \<Rightarrow> bool" where
  "finite_metric m \<longleftrightarrow>
     is_finite (xm_value m) \<and> (case xm_timestamp m of None \<Rightarrow> True | Some t \<Rightarrow> is_finite t)"

definition metric_row :: "ExpandedMetricData \<Rightarrow> MetricRow" where
  "metric_row m =
     \<lparr>mr_name = xm_name m, mr_step = xm_step m, mr_value = xm_value m, mr_timestamp = xm_timestamp m\<rparr>"

definition sanitize_event :: "Serde \<Rightarrow> LogEventData \<Rightarrow> RunEventInput option \<times> string list" where
  "sanitize_event sd e =
     (case sanitize_run_event_message (le_message e) of
        None \<Rightarrow> (None, [])
      | Some message \<Rightarrow>
          if \<not> (case le_timestamp e of None \<Rightarrow> True | Some t \<Rightarrow> is_finite t) then (None, [])
          else
            (case sanitize_structured_event_message sd message of
               Err err \<Rightarrow> (None, [''Dropped unsafe structured event: '' @ err])
             | Ok sanitized \<Rightarrow>
                 (Some \<lparr>ei_level = normalize_run_event_level (le_level e),
                        ei_source = normalize_run_event_source (le_source e),
                        ei_message = (case sanitized of Some m \<Rightarrow> m | None \<Rightarrow> message),
                        ei_step = le_step e, ei_timestamp = le_timestamp e\<rparr>, [])))"

definition count_warning :: "nat \<Rightarrow> string \<Rightarrow> string list" where
  "count_warning n what = (if 0 < n then [''Dropped '' @ show_nat n @ what] else [])"

record FilteredBatch =
  fb_metrics :: "MetricRow list"
  fb_events :: "RunEventInput list"
  fb_warnings :: "string list"

definition filter_batch ::
  "Serde \<Rightarrow> string list \<Rightarrow> ValidationResult \<Rightarrow> ValidatedBatch \<Rightarrow> LogEventData list \<Rightarrow> FilteredBatch" where
  "filter_batch sd ws v vb events =
     (let known = filter (\<lambda>m. xm_name m \<in> set (accepted_metrics v)) (vb_metrics vb);
          outcomes = map (sanitize_event sd) events in
      \<lparr>fb_metrics = map metric_row (filter finite_metric known),
       fb_events = List.map_filter fst outcomes,
       fb_warnings = ws @ warnings v
         @ count_warning (length (filter (\<lambda>m. \<not> finite_metric m) known)) '' metrics with non-finite values/timestamps''
         @ concat (map snd outcomes)
         @ count_warning (length (filter (\<lambda>r. fst r = None) outcomes))
             '' events with empty messages or non-finite timestamps''\<rparr>)"

section \<open>Persistence\<close>

record PersistedIngestBatch =
  pb_metric_count :: nat
  pb_tag_count :: nat
  pb_event_count :: nat

definition persist_error :: "IngestExt \<Rightarrow> string \<Rightarrow> SqliteError \<Rightarrow> http_error" where
  "persist_error ix what e =
     (INTERNAL_SERVER_ERROR, ''Failed to '' @ what @ '' in SQLite: '' @ ix_show_error ix e)"

definition persist_error_to :: "IngestExt \<Rightarrow> string \<Rightarrow> SqliteError \<Rightarrow> http_error" where
  "persist_error_to ix what e =
     (INTERNAL_SERVER_ERROR, ''Failed to persist '' @ what @ '' to SQLite: '' @ ix_show_error ix e)"

definition warning_event :: "string \<Rightarrow> RunEventInput" where
  "warning_event w =
     \<lparr>ei_level = ''warn'', ei_source = ''ingest'', ei_message = w, ei_step = None, ei_timestamp = None\<rparr>"

definition op_when :: "bool \<Rightarrow> 'a \<Rightarrow> ('s, 'a, 'e) op \<Rightarrow> ('s, 'a, 'e) op" where
  "op_when c d m = (if c then m else op_return d)"

text \<open>A failure that is only logged.\<close>

definition best_effort :: "'a \<Rightarrow> ('s, 'a, 'e) op \<Rightarrow> ('s, 'a, 'f) op" where
  "best_effort d m = (\<lambda>s. case m s of (Ok v, s') \<Rightarrow> (Ok v, s') | (Err _, s') \<Rightarrow> (Ok d, s'))"

definition persist_ingest_batch_to_sqlite ::
  "IngestExt \<Rightarrow> timestamp \<Rightarrow> string \<Rightarrow> MetricRow list \<Rightarrow> (string \<times> string) list \<Rightarrow> (string \<times> string) list \<Rightarrow>
   RunEventInput list \<Rightarrow> string list \<Rightarrow> PersistedIngestBatch http" where
  "persist_ingest_batch_to_sqlite ix now run_id metrics params tags events ws =
     op_bind (op_when (metrics \<noteq> []) 0 (with_err (persist_error_to ix ''metrics'') (insert_metrics run_id metrics))) (\<lambda>_.
     op_bind (op_when (metrics \<noteq> []) () (with_err (persist_error ix ''update metrics count'')
       (increment_metrics_count now run_id (usize_to_i64_saturating (length metrics))))) (\<lambda>_.
     op_bind (op_when (tags \<noteq> []) () (with_err (persist_error_to ix ''tags'') (set_tags run_id tags))) (\<lambda>_.
     op_bind (op_when (params \<noteq> []) 0 (with_err (persist_error_to ix ''params'') (insert_params now run_id params))) (\<lambda>_.
     op_bind (op_when (events \<noteq> []) 0 (with_err (persist_error_to ix ''run events'') (insert_run_events now run_id events))) (\<lambda>n.
     op_bind (op_when (ws \<noteq> []) 0 (best_effort 0 (insert_run_events now run_id (map warning_event ws)))) (\<lambda>k.
       op_return \<lparr>pb_metric_count = length metrics, pb_tag_count = length tags, pb_event_count = n + k\<rparr>))))))"

definition build_queued_ingest_batch ::
  "IngestExt \<Rightarrow> IngestBatchHttpRequest \<Rightarrow> ValidatedBatch \<Rightarrow> (string \<times> string) list \<Rightarrow> FilteredBatch \<Rightarrow> QueuedIngestBatch" where
  "build_queued_ingest_batch ix req vb tags fb =
     \<lparr>qb_project_id = rn_project_id (vb_run vb), qb_run_id = ig_run_id req, qb_batch_id = ingest_batch_id ix req,
      qb_payload_hash = payload_hash ix req vb, qb_seq = ingest_seq req, qb_queued_at_unix_ms = ix_unix_ms ix,
      qb_metrics = fb_metrics fb, qb_params = vb_params vb, qb_tags = tags, qb_events = fb_events fb,
      qb_warnings = fb_warnings fb\<rparr>"

definition enqueue_or_persist ::
  "IngestExt \<Rightarrow> Runtime \<Rightarrow> IngestBatchHttpRequest \<Rightarrow> ValidatedBatch \<Rightarrow> (string \<times> string) list \<Rightarrow> FilteredBatch \<Rightarrow>
   (App, PersistedIngestBatch, http_error) op" where
  "enqueue_or_persist ix rt req vb tags fb = (\<lambda>s.
     case app_queue s of
       Some stream \<Rightarrow>
         (case ix_queue_error ix of
            Some e \<Rightarrow> (Err (SERVICE_UNAVAILABLE, ''Failed to enqueue ingest batch: '' @ e), s)
          | None \<Rightarrow>
              (Ok \<lparr>pb_metric_count = length (fb_metrics fb), pb_tag_count = length tags,
                   pb_event_count = length (fb_events fb) + length (fb_warnings fb)\<rparr>,
               s\<lparr>app_queue := Some (stream @ [build_queued_ingest_batch ix req vb tags fb])\<rparr>))
     | None \<Rightarrow>
         on_db (persist_ingest_batch_to_sqlite ix (rt_now rt) (ig_run_id req) (fb_metrics fb) (vb_params vb)
           tags (fb_events fb) (fb_warnings fb)) s)"

section \<open>The handler\<close>

definition json_nat :: "nat \<Rightarrow> Json" where "json_nat n = JNumber (PosInt n)"

definition metadata_audit ::
  "Runtime \<Rightarrow> AuthContext \<Rightarrow> string \<Rightarrow> string \<Rightarrow> (string \<times> string) list \<Rightarrow> (string \<times> string) list \<Rightarrow> (Db, unit, 'e) op" where
  "metadata_audit rt auth project_id run_id params tags =
     emit_audit_event rt (Some auth) (Some project_id) (Some run_id) ''run.metadata.update'' ''run'' (Some run_id)
       ''success''
       (JObject [(''param_count'', json_nat (length params)), (''source'', JString ''http_ingest_batch''),
                 (''tag_count'', json_nat (length tags)),
                 (''updated_param_names'', JArray (map (JString \<circ> fst) (take 20 params))),
                 (''updated_tag_keys'', JArray (map (JString \<circ> fst) (take 20 tags)))])"

definition ingest_response :: "nat \<Rightarrow> PersistedIngestBatch \<Rightarrow> string list \<Rightarrow> IngestBatchHttpResponse" where
  "ingest_response param_count pb ws =
     \<lparr>ir_accepted = usize_to_i64_saturating
        (pb_metric_count pb + param_count + pb_tag_count pb + pb_event_count pb),
      ir_duplicate = False, ir_warnings = ws\<rparr>"

definition ingest_accept ::
  "IngestExt \<Rightarrow> Runtime \<Rightarrow> AuthContext \<Rightarrow> IngestBatchHttpRequest \<Rightarrow> ValidatedBatch \<Rightarrow> ValidationResult \<Rightarrow> FilteredBatch \<Rightarrow>
   (App, IngestBatchHttpResponse, http_error) op" where
  "ingest_accept ix rt auth req vb v fb =
     op_bind (on_db (load_run (ig_run_id req))) (\<lambda>run.
     op_bind
       (if \<not> eq_ignore_ascii_case (rn_status run) ''running''
        then op_fail (PRECONDITION_FAILED, ''Run '' @ ig_run_id req @ '' is not running'')
        else op_return ()) (\<lambda>_.
     op_bind (enqueue_or_persist ix rt req vb (accepted_tags v) fb) (\<lambda>pb.
     op_bind
       (op_when (vb_params vb \<noteq> [] \<or> 0 < pb_tag_count pb) ()
          (on_db (metadata_audit rt auth (rn_project_id (vb_run vb)) (ig_run_id req) (vb_params vb) (accepted_tags v)))) (\<lambda>_.
       op_return (ingest_response (length (vb_params vb)) pb (fb_warnings fb))))))"

definition duplicate_response :: IngestBatchHttpResponse where
  "duplicate_response = \<lparr>ir_accepted = 0, ir_duplicate = True, ir_warnings = []\<rparr>"

definition conflict_error :: "IngestExt \<Rightarrow> IngestBatchHttpRequest \<Rightarrow> string \<Rightarrow> string \<Rightarrow> http_error" where
  "conflict_error ix req expected_hash actual_hash =
     (CONFLICT, ''Batch '' @ ingest_batch_id ix req @ '' conflicts with existing batch (expected hash ''
       @ expected_hash @ '', got '' @ actual_hash @ '')'')"

definition ingest_new ::
  "IngestExt \<Rightarrow> Runtime \<Rightarrow> AuthContext \<Rightarrow> IngestBatchHttpRequest \<Rightarrow> ValidatedBatch \<Rightarrow> string list \<Rightarrow> App \<Rightarrow>
   ((IngestBatchHttpResponse, http_error) result \<times> App) option" where
  "ingest_new ix rt auth req vb ws s =
     (case validate_batch (app_tracker s) (rn_project_id (vb_run vb)) (ig_run_id req) (vb_tags vb)
             (map xm_name (vb_metrics vb)) of
        None \<Rightarrow> None
      | Some (v, tracker) \<Rightarrow>
          Some (ingest_accept ix rt auth req vb v (filter_batch (rt_serde rt) ws v vb (ig_events req))
                  (s\<lparr>app_tracker := tracker\<rparr>)))"

definition ingest_validated ::
  "IngestExt \<Rightarrow> Runtime \<Rightarrow> AuthContext \<Rightarrow> IngestBatchHttpRequest \<Rightarrow> ValidatedBatch \<Rightarrow> App \<Rightarrow>
   ((IngestBatchHttpResponse, http_error) result \<times> App) option" where
  "ingest_validated ix rt auth req vb s =
     (case check_and_record (app_idem s) (batch_record ix req vb) of
        (Duplicate, st) \<Rightarrow> Some (Ok duplicate_response, s\<lparr>app_idem := st\<rparr>)
      | (Conflict e a, st) \<Rightarrow> Some (Err (conflict_error ix req e a), s\<lparr>app_idem := st\<rparr>)
      | (r, st) \<Rightarrow> ingest_new ix rt auth req vb (order_warnings r) (s\<lparr>app_idem := st\<rparr>))"

definition http_ingest_batch ::
  "IngestExt \<Rightarrow> Runtime \<Rightarrow> AuthContext \<Rightarrow> IngestBatchHttpRequest \<Rightarrow> App \<Rightarrow>
   ((IngestBatchHttpResponse, http_error) result \<times> App) option" where
  "http_ingest_batch ix rt auth req s =
     (case ingest_checks ix rt auth req s of
        (Err e, s') \<Rightarrow> Some (Err e, s')
      | (Ok vb, s') \<Rightarrow> ingest_validated ix rt auth req vb s')"

section \<open>Writes to a run that exists\<close>

lemma find_run_ids: "find_run rid db = Some r \<Longrightarrow> rid \<in> set (run_ids db) \<and> rn_id r = rid"
  unfolding find_run_def by (auto dest: find_SomeD)

definition stored_metric :: "string \<Rightarrow> MetricRow \<Rightarrow> MetricRec" where
  "stored_metric rid m =
     \<lparr>mt_run_id = rid, mt_name = mr_name m, mt_step = mr_step m, mt_value = mr_value m,
      mt_timestamp = Option.bind (mr_timestamp m) bind_real\<rparr>"

lemma insert_metrics_table:
  assumes "rid \<in> set (run_ids db)" "\<forall>m \<in> set ms. \<not> is_nan (mr_value m)"
  shows "insert_metrics rid ms db = (Ok (length ms), db\<lparr>t_metrics := t_metrics db @ map (stored_metric rid) ms\<rparr>)"
proof -
  have "op_for (insert_metric_row rid) ms db = (Ok (), db\<lparr>t_metrics := t_metrics db @ map (stored_metric rid) ms\<rparr>)"
    using assms
  proof (induction ms arbitrary: db)
    case (Cons m ms)
    then show ?case
      by (simp add: op_bind_apply insert_metric_row_def op_stmt_apply bind_real_def stored_metric_def)
  qed simp
  then show ?thesis by (simp add: insert_metrics_def op_bind_apply)
qed

definition stored_event :: "timestamp \<Rightarrow> string \<Rightarrow> int \<Rightarrow> RunEventInput \<Rightarrow> RunEventRow" where
  "stored_event now rid i e =
     \<lparr>ev_id = i, ev_run_id = rid, ev_level = ei_level e, ev_source = ei_source e, ev_message = ei_message e,
      ev_step = ei_step e, ev_timestamp = Option.bind (ei_timestamp e) bind_real, ev_created_at = now\<rparr>"

fun stored_events :: "timestamp \<Rightarrow> string \<Rightarrow> int \<Rightarrow> RunEventInput list \<Rightarrow> RunEventRow list" where
  "stored_events now rid i [] = []"
| "stored_events now rid i (e # es) = stored_event now rid (i + 1) e # stored_events now rid (i + 1) es"

lemma stored_events_append:
  "stored_events now rid i (es @ es') = stored_events now rid i es @ stored_events now rid (i + int (length es)) es'"
  by (induction es arbitrary: i) (simp_all add: add.assoc)

lemma insert_run_events_table:
  assumes "rid \<in> set (run_ids db)"
  obtains rs where "insert_run_events now rid es db = (Ok (length es),
    db\<lparr>t_run_events := t_run_events db @ stored_events now rid (event_seq db) es,
       event_seq := event_seq db + int (length es), t_runs := rs\<rparr>)" "map rn_id rs = run_ids db"
proof -
  have rows: "op_for (insert_event_row now rid) es db = (Ok (),
      db\<lparr>t_run_events := t_run_events db @ stored_events now rid (event_seq db) es,
         event_seq := event_seq db + int (length es)\<rparr>)"
    using assms
  proof (induction es arbitrary: db)
    case (Cons e es)
    then show ?case
      by (simp add: op_bind_apply insert_event_row_def op_stmt_apply stored_event_def add.assoc)
  qed simp
  show ?thesis
  proof (cases "es = []")
    case True
    then show ?thesis using rows by (intro that [of "t_runs db"]) (simp_all add: insert_run_events_def op_bind_apply)
  next
    case False
    then show ?thesis
      using rows
      by (intro that [of "update_where (\<lambda>r. rn_id r = rid) (\<lambda>r. r\<lparr>rn_updated_at := now\<rparr>) (t_runs db)"])
        (simp_all add: insert_run_events_def op_bind_apply update_run_def map_update_where)
  qed
qed

lemma insert_params_table:
  assumes "rid \<in> set (run_ids db)"
  obtains rs where "insert_params now rid ps db = (Ok (length ps),
    db\<lparr>t_params := fold upsert_param (map (\<lambda>(n, v). \<lparr>pm_run_id = rid, pm_name = n, pm_value = v\<rparr>) ps) (t_params db),
       t_runs := rs\<rparr>)" "map rn_id rs = run_ids db"
proof -
  have rows: "op_for (\<lambda>(name, value).
      op_stmt (\<lambda>db. first_violation [(rid \<in> set (run_ids db), ForeignKeyViolation)])
        (\<lambda>db. db\<lparr>t_params := upsert_param \<lparr>pm_run_id = rid, pm_name = name, pm_value = value\<rparr> (t_params db)\<rparr>)) ps db
    = (Ok (), db\<lparr>t_params :=
        fold upsert_param (map (\<lambda>(n, v). \<lparr>pm_run_id = rid, pm_name = n, pm_value = v\<rparr>) ps) (t_params db)\<rparr>)"
    using assms
  proof (induction ps arbitrary: db)
    case (Cons p ps)
    then show ?case by (cases p) (simp add: op_bind_apply op_stmt_apply)
  qed simp
  then show ?thesis
    by (intro that [of "update_where (\<lambda>r. rn_id r = rid) _ (t_runs db)"])
      (simp add: insert_params_def op_bind_apply, rule map_update_where, simp)
qed

lemma op_when_simps [simp]: "op_when True d m = m" "op_when False d m = op_return d"
  by (simp_all add: op_when_def)

text \<open>The tables an ingestion writes, and what each step does to them.\<close>

definition ingest_view ::
  "Db \<Rightarrow> MetricRec list \<times> TagRec list \<times> ParamRec list \<times> RunEventRow list \<times> int \<times> string list" where
  "ingest_view db = (t_metrics db, t_tags db, t_params db, t_run_events db, event_seq db, run_ids db)"

abbreviation tag_rows :: "string \<Rightarrow> (string \<times> string) list \<Rightarrow> TagRec list" where
  "tag_rows rid \<equiv> map (\<lambda>(k, v). \<lparr>tg_run_id = rid, tg_key = k, tg_value = v\<rparr>)"

abbreviation param_rows :: "string \<Rightarrow> (string \<times> string) list \<Rightarrow> ParamRec list" where
  "param_rows rid \<equiv> map (\<lambda>(n, v). \<lparr>pm_run_id = rid, pm_name = n, pm_value = v\<rparr>)"

lemma view_metrics:
  assumes "rid \<in> set (run_ids db)" "\<forall>m \<in> set ms. \<not> is_nan (mr_value m)" "ingest_view db = (tm, tt, tp, te, i, ids)"
  obtains db' where "op_when (ms \<noteq> []) 0 (with_err f (insert_metrics rid ms)) db = (Ok (length ms), db')"
    "ingest_view db' = (tm @ map (stored_metric rid) ms, tt, tp, te, i, ids)"
  using assms by (cases "ms = []") (auto simp: with_err_def insert_metrics_table ingest_view_def)

lemma view_count:
  assumes "ingest_view db = v"
  obtains db' where "op_when c () (with_err f (increment_metrics_count now rid n)) db = (Ok (), db')" "ingest_view db' = v"
  using assms
  by (cases c) (auto simp: with_err_def increment_metrics_count_def update_run_def ingest_view_def map_update_where)

lemma view_tags:
  assumes "rid \<in> set (run_ids db)" "ingest_view db = (tm, tt, tp, te, i, ids)"
  obtains db' where "op_when (tags \<noteq> []) () (with_err f (set_tags rid tags)) db = (Ok (), db')"
    "ingest_view db' = (tm, fold upsert_tag (tag_rows rid tags) tt, tp, te, i, ids)"
  using assms by (cases "tags = []") (auto simp: with_err_def set_tags_table ingest_view_def)

lemma view_params:
  assumes "rid \<in> set (run_ids db)" "ingest_view db = (tm, tt, tp, te, i, ids)"
  obtains db' where "op_when (ps \<noteq> []) 0 (with_err f (insert_params now rid ps)) db = (Ok (length ps), db')"
    "ingest_view db' = (tm, tt, fold upsert_param (param_rows rid ps) tp, te, i, ids)"
proof (cases "ps = []")
  case False
  obtain rs where "insert_params now rid ps db = (Ok (length ps),
      db\<lparr>t_params := fold upsert_param (param_rows rid ps) (t_params db), t_runs := rs\<rparr>)" "map rn_id rs = run_ids db"
    by (rule insert_params_table [OF assms(1)])
  with False assms(2) show ?thesis by (intro that) (auto simp: with_err_def ingest_view_def)
qed (use assms that in auto)

lemma view_events:
  assumes "rid \<in> set (run_ids db)" "ingest_view db = (tm, tt, tp, te, i, ids)"
  obtains db' where "op_when (es \<noteq> []) 0 (insert_run_events now rid es) db = (Ok (length es), db')"
    "ingest_view db' = (tm, tt, tp, te @ stored_events now rid i es, i + int (length es), ids)"
proof (cases "es = []")
  case False
  obtain rs where "insert_run_events now rid es db = (Ok (length es),
    db\<lparr>t_run_events := t_run_events db @ stored_events now rid (event_seq db) es,
       event_seq := event_seq db + int (length es), t_runs := rs\<rparr>)" "map rn_id rs = run_ids db"
    by (rule insert_run_events_table [OF assms(1)])
  with False assms(2) show ?thesis by (intro that) (auto simp: ingest_view_def)
qed (use assms that in auto)

lemma op_when_with_err: "op_when c d (with_err f m) s = (Ok x, s') \<longleftrightarrow> op_when c d m s = (Ok x, s')"
  and op_when_best_effort: "op_when c d m s = (Ok x, s') \<Longrightarrow> op_when c d (best_effort d m) s = (Ok x, s')"
  by (auto simp: op_when_def with_err_def best_effort_def Let_def split: prod.splits)

lemma persist_spec:
  assumes rid: "rid \<in> set (run_ids db)" and "\<forall>m \<in> set metrics. \<not> is_nan (mr_value m)"
    and "ingest_view db = (tm, tt, tp, te, i, ids)"
  obtains db' where
    "persist_ingest_batch_to_sqlite ix now rid metrics params tags events ws db
      = (Ok \<lparr>pb_metric_count = length metrics, pb_tag_count = length tags,
             pb_event_count = length events + length ws\<rparr>, db')"
    "ingest_view db' = (tm @ map (stored_metric rid) metrics, fold upsert_tag (tag_rows rid tags) tt,
       fold upsert_param (param_rows rid params) tp, te @ stored_events now rid i (events @ map warning_event ws),
       i + int (length events + length ws), ids)"
proof -
  have ids: "rid \<in> set ids" using rid assms(3) by (auto simp: ingest_view_def simp del: set_map)
  have run: "rid \<in> set (run_ids d)" if "ingest_view d = (a, b, c, e, f, ids)" for d a b c e f
    using that ids by (auto simp: ingest_view_def simp del: set_map)
  obtain d1 where 1: "op_when (metrics \<noteq> []) 0 (with_err (persist_error_to ix ''metrics'') (insert_metrics rid metrics)) db
      = (Ok (length metrics), d1)" "ingest_view d1 = (tm @ map (stored_metric rid) metrics, tt, tp, te, i, ids)"
    by (rule view_metrics [OF assms])
  obtain d2 where 2: "op_when (metrics \<noteq> []) () (with_err (persist_error ix ''update metrics count'')
      (increment_metrics_count now rid (usize_to_i64_saturating (length metrics)))) d1 = (Ok (), d2)"
      "ingest_view d2 = (tm @ map (stored_metric rid) metrics, tt, tp, te, i, ids)"
    by (rule view_count [OF 1(2)])
  obtain d3 where 3: "op_when (tags \<noteq> []) () (with_err (persist_error_to ix ''tags'') (set_tags rid tags)) d2 = (Ok (), d3)"
      "ingest_view d3 = (tm @ map (stored_metric rid) metrics, fold upsert_tag (tag_rows rid tags) tt, tp, te, i, ids)"
    by (rule view_tags [OF run [OF 2(2)] 2(2)])
  obtain d4 where 4: "op_when (params \<noteq> []) 0 (with_err (persist_error_to ix ''params'') (insert_params now rid params)) d3
      = (Ok (length params), d4)"
      "ingest_view d4 = (tm @ map (stored_metric rid) metrics, fold upsert_tag (tag_rows rid tags) tt,
        fold upsert_param (param_rows rid params) tp, te, i, ids)"
    by (rule view_params [OF run [OF 3(2)] 3(2)])
  obtain d5 where 5: "op_when (events \<noteq> []) 0 (insert_run_events now rid events) d4 = (Ok (length events), d5)"
      "ingest_view d5 = (tm @ map (stored_metric rid) metrics, fold upsert_tag (tag_rows rid tags) tt,
        fold upsert_param (param_rows rid params) tp, te @ stored_events now rid i events, i + int (length events), ids)"
    by (rule view_events [OF run [OF 4(2)] 4(2)])
  obtain d6 where 6: "op_when (map warning_event ws \<noteq> []) 0 (insert_run_events now rid (map warning_event ws)) d5
      = (Ok (length (map warning_event ws)), d6)"
      "ingest_view d6 = (tm @ map (stored_metric rid) metrics, fold upsert_tag (tag_rows rid tags) tt,
        fold upsert_param (param_rows rid params) tp,
        (te @ stored_events now rid i events) @ stored_events now rid (i + int (length events)) (map warning_event ws),
        i + int (length events) + int (length (map warning_event ws)), ids)"
    by (rule view_events [OF run [OF 5(2)] 5(2)])
  have 7: "op_when (ws \<noteq> []) 0 (best_effort 0 (insert_run_events now rid (map warning_event ws)) :: nat http) d5 = (Ok (length ws), d6)"
    using op_when_best_effort [OF 6(1)] by simp
  have 8: "op_when (events \<noteq> []) 0 (with_err (persist_error_to ix ''run events'') (insert_run_events now rid events)) d4
      = (Ok (length events), d5)"
    using 5(1) by (simp add: op_when_with_err)
  show ?thesis
    using 1(1) 2(1) 3(1) 4(1) 6(2) 7 8
    by (intro that [of d6])
      (auto simp: persist_ingest_batch_to_sqlite_def op_bind_apply stored_events_append)
qed

section \<open>The guards\<close>

definition mutation_granted :: "Runtime \<Rightarrow> AuthContext \<Rightarrow> RunRec \<Rightarrow> bool" where
  "mutation_granted rt auth run \<longleftrightarrow>
     endpoint_granted rt auth Write (Some (rn_project_id run)) \<and> run_owner_granted auth run \<and> key_owner_granted auth run"

lemma load_run_apply:
  "load_run rid db = (case find_run rid db of Some r \<Rightarrow> (Ok r, db) | None \<Rightarrow> (Err (NOT_FOUND, ''Run not found: '' @ rid), db))"
  by (simp add: load_run_def store_error_def run_not_found_def split: option.splits)

lemma guard_run_mutation_cases:
  obtains (missing) "find_run rid db = None"
      "guard_run_mutation rt auth action verb rid db = (Err (NOT_FOUND, ''Run not found: '' @ rid), db)"
  | (granted) run where "find_run rid db = Some run" "mutation_granted rt auth run"
      "guard_run_mutation rt auth action verb rid db = (Ok run, db)"
  | (refused) run msg db' where "find_run rid db = Some run" "\<not> mutation_granted rt auth run"
      "guard_run_mutation rt auth action verb rid db = (Err (FORBIDDEN, msg), db')" "audit_extends db db'"
proof (cases "find_run rid db")
  case None
  then show ?thesis by (intro missing) (simp_all add: guard_run_mutation_def op_bind_apply load_run_apply)
next
  case (Some run)
  let ?e = "(rt, auth, Write, Some (rn_project_id run), Some rid, action, ''run'', Some rid)"
  note e = endpoint_guard.pass [of ?e db] endpoint_guard.refuse [of ?e db]
    and o = run_owner_guard.pass [of "(auth, run)" db] run_owner_guard.refuse [of "(auth, run)" db]
    and k = key_owner_guard.pass [of "(auth, run, verb)" db] key_owner_guard.refuse [of "(auth, run, verb)" db]
  show ?thesis
  proof (cases "mutation_granted rt auth run")
    case True
    with Some e(1) o(1) k(1) show ?thesis
      by (intro granted) (auto simp: guard_run_mutation_def op_bind_apply load_run_apply mutation_granted_def)
  next
    case False
    with Some e o k show ?thesis
      by (cases "endpoint_granted rt auth Write (Some (rn_project_id run))"; cases "run_owner_granted auth run")
        (auto simp: guard_run_mutation_def op_bind_apply load_run_apply mutation_granted_def intro: refused)
  qed
qed

lemma on_db_apply: "on_db m s = (fst (m (app_db s)), s\<lparr>app_db := snd (m (app_db s))\<rparr>)"
  by (simp add: on_db_def split_beta)

lemma check_write_rate_apply:
  obtains l where "check_write_rate t auth p s = (Ok (), s\<lparr>app_writes := l\<rparr>)"
  | l msg where "check_write_rate t auth p s = (Err (TOO_MANY_REQUESTS, msg), s\<lparr>app_writes := l\<rparr>)"
proof -
  obtain r l where "limiter_check t (scoped_write_rate_limit_key auth p) (app_writes s) = (r, l)" by fastforce
  then show ?thesis using that by (cases r) (auto simp: check_write_rate_def rate_limit_error_def)
qed

lemma try_map_Err: "try_map f xs = Err e \<Longrightarrow> \<exists>x \<in> set xs. f x = Err e"
  by (induction xs) (auto simp: try_bind_def split: result.splits)

lemma item_status:
  "validate_param p = Err e \<Longrightarrow> fst e = BAD_REQUEST" "validate_ingest_tag n t = Err e \<Longrightarrow> fst e = BAD_REQUEST"
  "expand_metric m = Err e \<Longrightarrow> fst e = BAD_REQUEST"
  by (auto simp: validate_param_def validate_ingest_tag_def expand_metric_def expand_named_def try_bind_def map_err_def
      split: result.splits if_splits MetricValue.splits)

lemma validate_items_status: "validate_items n req run = Err e \<Longrightarrow> fst e = BAD_REQUEST"
  using item_status
  by (auto simp: validate_items_def try_bind_def split: result.splits dest!: try_map_Err)

text \<open>
  The checks in front of an ingestion either pass, and have then changed the buckets of the write
  limiter only, or they fail and leave at most rows of the audit log behind.
\<close>

lemma ingest_checks_cases:
  obtains (passed) run vb l where "find_run (ig_run_id req) (app_db s) = Some run" "mutation_granted rt auth run"
      "validate_items (max_tag_value_length (ct_config (app_tracker s))) req run = Ok vb"
      "ingest_checks ix rt auth req s = (Ok vb, s\<lparr>app_writes := l\<rparr>)"
  | (failed) st msg db l where "ingest_checks ix rt auth req s = (Err (st, msg), s\<lparr>app_db := db, app_writes := l\<rparr>)"
      "audit_extends (app_db s) db" "st \<in> {BAD_REQUEST, FORBIDDEN, NOT_FOUND, TOO_MANY_REQUESTS}"
proof (cases rule: guard_run_mutation_cases [of "ig_run_id req" "app_db s" rt auth "''run.ingest''" "''ingest to''"])
  case missing
  then show ?thesis
    by (intro failed [where db = "app_db s" and l = "app_writes s"]) (auto simp: ingest_checks_def op_bind_apply on_db_apply)
next
  case (refused run msg db')
  then show ?thesis
    by (intro failed [where db = db' and l = "app_writes s"]) (auto simp: ingest_checks_def op_bind_apply on_db_apply)
next
  case (granted run)
  then have guard: "on_db (guard_run_mutation rt auth ''run.ingest'' ''ingest to'' (ig_run_id req)) s = (Ok run, s)"
    by (simp add: on_db_apply)
  let ?v = "validate_items (max_tag_value_length (ct_config (app_tracker s))) req run"
  show ?thesis
  proof (cases rule: check_write_rate_apply [of "ix_instant ix" auth "Some (rn_project_id run)" s])
    case (1 l)
    then have checks: "ingest_checks ix rt auth req s = (?v, s\<lparr>app_writes := l\<rparr>)"
      using guard by (simp add: ingest_checks_def op_bind_apply)
    show ?thesis
    proof (cases ?v)
      case (Ok vb)
      then show ?thesis using granted checks by (intro passed) auto
    next
      case (Err e)
      then have "e = (BAD_REQUEST, snd e)" using validate_items_status [OF Err] by (cases e) simp
      with Err checks show ?thesis
        by (intro failed [where st = BAD_REQUEST and msg = "snd e" and db = "app_db s" and l = l]) auto
    qed
  next
    case (2 l msg)
    then show ?thesis using guard
      by (intro failed [where db = "app_db s" and l = l]) (auto simp: ingest_checks_def op_bind_apply)
  qed
qed

section \<open>What an ingestion does\<close>

text \<open>
  C7: only the permitted write to a run. A request that ingests into a run it may not change, or
  into no run at all, is refused with 403 or 404, and it leaves the deduplication store, the
  cardinality tracker, the queue and every table but the audit log as they were.
\<close>

theorem ingest_guarded:
  assumes "http_ingest_batch ix rt auth req s = Some (res, s')"
    and "\<not> (\<exists>run. find_run (ig_run_id req) (app_db s) = Some run \<and> mutation_granted rt auth run)"
  shows "(\<exists>st msg. res = Err (st, msg) \<and> st \<in> {FORBIDDEN, NOT_FOUND})
    \<and> audit_extends (app_db s) (app_db s') \<and> app_idem s' = app_idem s \<and> app_tracker s' = app_tracker s
    \<and> app_writes s' = app_writes s \<and> app_queue s' = app_queue s"
proof (cases rule: guard_run_mutation_cases [of "ig_run_id req" "app_db s" rt auth "''run.ingest''" "''ingest to''"])
  case missing
  then show ?thesis using assms(1) by (auto simp: http_ingest_batch_def ingest_checks_def op_bind_apply on_db_apply)
next
  case (refused run msg db')
  then show ?thesis using assms(1) by (auto simp: http_ingest_batch_def ingest_checks_def op_bind_apply on_db_apply)
qed (use assms(2) in blast)

text \<open>The batch as the handler filters it.\<close>

definition filtered :: "Runtime \<Rightarrow> IngestBatchHttpRequest \<Rightarrow> ValidatedBatch \<Rightarrow> IdempotencyResult \<Rightarrow> ValidationResult \<Rightarrow> FilteredBatch" where
  "filtered rt req vb r v = filter_batch (rt_serde rt) (order_warnings r) v vb (ig_events req)"

lemma filtered_not_nan: "m \<in> set (fb_metrics (filtered rt req vb r v)) \<Longrightarrow> \<not> is_nan (mr_value m)"
  by (auto simp: filtered_def filter_batch_def Let_def metric_row_def finite_metric_def)

lemma ingest_validated_new:
  assumes "check_and_record (app_idem s) (batch_record ix req vb) = (r, st)" "should_process r"
    and "validate_batch (app_tracker s) (rn_project_id (vb_run vb)) (ig_run_id req) (vb_tags vb) (map xm_name (vb_metrics vb)) = Some (v, tr)"
  shows "ingest_validated ix rt auth req vb s
    = Some (ingest_accept ix rt auth req vb v (filtered rt req vb r v) (s\<lparr>app_idem := st, app_tracker := tr\<rparr>))"
  using assms by (cases r) (simp_all add: ingest_validated_def ingest_new_def should_process_def filtered_def)

lemma audit_extends_view: "audit_extends db db' \<Longrightarrow> ingest_view db' = ingest_view db"
  by (auto simp: audit_extends_def ingest_view_def)

lemma metadata_audit_apply:
  obtains db' where "metadata_audit rt auth p rid params tags db = (Ok (), db')" "audit_extends db db'"
  unfolding metadata_audit_def using emit_audit_event_apply by (metis surj_pair)

lemma ingest_accept_stores:
  assumes "app_queue s = None" "find_run (ig_run_id req) (app_db s) = Some run" "eq_ignore_ascii_case (rn_status run) ''running''"
    and "\<forall>m \<in> set (fb_metrics fb). \<not> is_nan (mr_value m)" "ingest_view (app_db s) = (tm, tt, tp, te, i, ids)"
  obtains db' where
    "ingest_accept ix rt auth req vb v fb s
      = (Ok \<lparr>ir_accepted = usize_to_i64_saturating (length (fb_metrics fb) + length (vb_params vb)
                 + length (accepted_tags v) + (length (fb_events fb) + length (fb_warnings fb))),
             ir_duplicate = False, ir_warnings = fb_warnings fb\<rparr>, s\<lparr>app_db := db'\<rparr>)"
    "ingest_view db' = (tm @ map (stored_metric (ig_run_id req)) (fb_metrics fb),
       fold upsert_tag (tag_rows (ig_run_id req) (accepted_tags v)) tt,
       fold upsert_param (param_rows (ig_run_id req) (vb_params vb)) tp,
       te @ stored_events (rt_now rt) (ig_run_id req) i (fb_events fb @ map warning_event (fb_warnings fb)),
       i + int (length (fb_events fb) + length (fb_warnings fb)), ids)"
proof -
  let ?rid = "ig_run_id req"
  have rid: "?rid \<in> set (run_ids (app_db s))" using find_run_ids [OF assms(2)] by blast
  obtain db1 where p: "persist_ingest_batch_to_sqlite ix (rt_now rt) ?rid (fb_metrics fb) (vb_params vb)
        (accepted_tags v) (fb_events fb) (fb_warnings fb) (app_db s)
      = (Ok \<lparr>pb_metric_count = length (fb_metrics fb), pb_tag_count = length (accepted_tags v),
             pb_event_count = length (fb_events fb) + length (fb_warnings fb)\<rparr>, db1)"
    "ingest_view db1 = (tm @ map (stored_metric ?rid) (fb_metrics fb), fold upsert_tag (tag_rows ?rid (accepted_tags v)) tt,
       fold upsert_param (param_rows ?rid (vb_params vb)) tp,
       te @ stored_events (rt_now rt) ?rid i (fb_events fb @ map warning_event (fb_warnings fb)),
       i + int (length (fb_events fb) + length (fb_warnings fb)), ids)"
    by (rule persist_spec [OF rid assms(4,5)])
  define audit where "audit = op_when (vb_params vb \<noteq> [] \<or> accepted_tags v \<noteq> []) ()
    (on_db (metadata_audit rt auth (rn_project_id (vb_run vb)) ?rid (vb_params vb) (accepted_tags v)) :: (App, unit, http_error) op)"
  obtain db2 where a: "audit (s\<lparr>app_db := db1\<rparr>) = (Ok (), s\<lparr>app_db := db2\<rparr>)" "audit_extends db1 db2"
  proof -
    obtain d where "metadata_audit rt auth (rn_project_id (vb_run vb)) ?rid (vb_params vb) (accepted_tags v) db1
        = (Ok () :: (unit, http_error) result, d)" "audit_extends db1 d"
      by (rule metadata_audit_apply)
    then show ?thesis
      using that by (cases "vb_params vb \<noteq> [] \<or> accepted_tags v \<noteq> []") (auto simp: audit_def on_db_apply)
  qed
  show ?thesis
  proof (rule that [of db2])
    show "ingest_accept ix rt auth req vb v fb s
      = (Ok \<lparr>ir_accepted = usize_to_i64_saturating (length (fb_metrics fb) + length (vb_params vb)
                 + length (accepted_tags v) + (length (fb_events fb) + length (fb_warnings fb))),
             ir_duplicate = False, ir_warnings = fb_warnings fb\<rparr>, s\<lparr>app_db := db2\<rparr>)"
      using assms(1-3) p(1) a(1)
      by (simp add: ingest_accept_def op_bind_apply on_db_apply load_run_apply enqueue_or_persist_def ingest_response_def audit_def)
  qed (use p(2) audit_extends_view [OF a(2)] in simp)
qed


section \<open>A failed batch cannot be sent again\<close>

lemma validate_items_run:
  "validate_items n req run = Ok vb \<Longrightarrow> validate_items n req run' = Ok vb' \<Longrightarrow> vb' = vb\<lparr>vb_run := run'\<rparr>"
  by (auto simp: validate_items_def try_bind_Ok_iff)

lemma validate_batch_config: "validate_batch t p r tags names = Some (v, t') \<Longrightarrow> ct_config t' = ct_config t"
  by (auto simp: validate_batch_def split: option.splits prod.splits)

lemma ingest_accept_keeps_idem:
  "app_idem (snd (ingest_accept ix rt auth req vb v fb s)) = app_idem s"
  "app_tracker (snd (ingest_accept ix rt auth req vb v fb s)) = app_tracker s"
  by (auto simp: ingest_accept_def op_bind_apply on_db_apply enqueue_or_persist_def op_when_def
      split: prod.splits result.splits option.splits if_splits)

text \<open>Where an error comes from.\<close>

lemma op_bind_Err_iff:
  "fst (op_bind m f s) = Err e \<longleftrightarrow> fst (m s) = Err e \<or> (\<exists>x s'. m s = (Ok x, s') \<and> fst (f x s') = Err e)"
  by (auto simp: op_bind_apply split: prod.splits result.splits)

lemma op_when_Err_iff: "fst (op_when c d m s) = Err e \<longleftrightarrow> c \<and> fst (m s) = Err e"
  by (simp add: op_when_def)

lemma with_err_Err_iff: "fst (with_err f m s) = Err e \<longleftrightarrow> (\<exists>e'. fst (m s) = Err e' \<and> e = f e')"
  by (cases "fst (m s)") (auto simp: with_err_def Let_def split: prod.splits)

lemma best_effort_never [simp]: "fst (best_effort d m s) \<noteq> Err e"
  by (auto simp: best_effort_def split: prod.splits result.splits)

lemma persist_error_status:
  "fst (persist_ingest_batch_to_sqlite ix now rid ms ps ts es ws db) = Err e \<Longrightarrow> fst e = INTERNAL_SERVER_ERROR"
  by (auto simp: persist_ingest_batch_to_sqlite_def op_bind_Err_iff op_when_Err_iff with_err_Err_iff persist_error_def persist_error_to_def)

lemma metadata_audit_Ok [simp]: "fst (metadata_audit rt auth p rid params tags db) = Ok ()"
  by (simp add: metadata_audit_def emit_audit_event_def)

lemma ingest_accept_unavailable:
  assumes "ingest_accept ix rt auth req vb v fb s = (Err (st, msg), s')" "st \<in> {PRECONDITION_FAILED, SERVICE_UNAVAILABLE}"
  shows "app_db s' = app_db s"
proof -
  let ?p = "persist_ingest_batch_to_sqlite ix (rt_now rt) (ig_run_id req) (fb_metrics fb) (vb_params vb)
    (accepted_tags v) (fb_events fb) (fb_warnings fb) (app_db s)"
  have "fst ?p \<noteq> Err (st, msg)" using persist_error_status assms(2) by fastforce
  with assms(1) show ?thesis
    by (auto simp: ingest_accept_def op_bind_apply on_db_apply enqueue_or_persist_def load_run_apply op_when_def
        split: prod.splits result.splits option.splits if_splits)
qed

lemma ingest_failed_after_record:
  assumes "http_ingest_batch ix rt auth req s = Some (Err (st, msg), s')" "st \<in> {PRECONDITION_FAILED, SERVICE_UNAVAILABLE}"
  obtains run vb where
    "validate_items (max_tag_value_length (ct_config (app_tracker s))) req run = Ok vb"
    "batches (app_idem s') (ig_run_id req, ingest_batch_id ix req) = Some (batch_record ix req vb)"
    "ct_config (app_tracker s') = ct_config (app_tracker s)" "app_db s' = app_db s"
proof (cases rule: ingest_checks_cases [of req s rt auth ix])
  case (passed run vb l)
  let ?b = "batch_record ix req vb" and ?s1 = "s\<lparr>app_writes := l\<rparr>"
  obtain r st' where r: "check_and_record (app_idem s) ?b = (r, st')" by fastforce
  have "http_ingest_batch ix rt auth req s = ingest_validated ix rt auth req vb ?s1"
    using passed(4) by (simp add: http_ingest_batch_def)
  with assms r have val: "ingest_validated ix rt auth req vb ?s1 = Some (Err (st, msg), s')" by simp
  then have "should_process r"
    using r assms(2) by (cases r) (auto simp: ingest_validated_def should_process_def conflict_error_def)
  then have st': "batches st' (batch_key ?b) = Some ?b"
    using should_process_check_and_record [of "app_idem s" ?b] batches_check_and_record [of "app_idem s" ?b] r by simp
  obtain v tr where v: "validate_batch (app_tracker s) (rn_project_id (vb_run vb)) (ig_run_id req) (vb_tags vb) (map xm_name (vb_metrics vb)) = Some (v, tr)"
    using val r \<open>should_process r\<close>
    by (cases r) (auto simp: ingest_validated_def ingest_new_def should_process_def split: option.splits)
  then have acc: "ingest_accept ix rt auth req vb v (filtered rt req vb r v) (?s1\<lparr>app_idem := st', app_tracker := tr\<rparr>) = (Err (st, msg), s')"
    using val ingest_validated_new [of ?s1 ix req vb r st' v tr rt auth] r \<open>should_process r\<close> by simp
  show ?thesis
    using passed(3) st' validate_batch_config [OF v] acc ingest_accept_unavailable [OF acc assms(2)]
      ingest_accept_keeps_idem [of ix rt auth req vb v "filtered rt req vb r v" "?s1\<lparr>app_idem := st', app_tracker := tr\<rparr>"]
    by (intro that [of run vb]) (auto simp: batch_record_def)
next
  case (failed st2 msg2 db l)
  then show ?thesis using assms by (auto simp: http_ingest_batch_def)
qed

text \<open>
  C32: a batch that failed is lost. When an ingestion fails because the queue is unavailable or the
  run is not running, nothing of the batch has been stored, but the batch is already on record; a
  client that sends the same batch again, when its checks pass, is told that the batch is a
  duplicate, with success, and again nothing is stored.
\<close>

theorem ingest_retry_lost:
  assumes "http_ingest_batch ix rt auth req s = Some (Err (st, msg), s1)" "st \<in> {PRECONDITION_FAILED, SERVICE_UNAVAILABLE}"
    and "ig_batch_id req = Some b" "ix_digest ix' = ix_digest ix"
    and "ingest_checks ix' rt' auth' req s1 = (Ok vb, s2)"
  shows "http_ingest_batch ix' rt' auth' req s1 = Some (Ok duplicate_response, s2)
    \<and> app_db s2 = app_db s \<and> app_queue s2 = app_queue s1"
proof -
  obtain run vb1 where 1: "validate_items (max_tag_value_length (ct_config (app_tracker s))) req run = Ok vb1"
    "batches (app_idem s1) (ig_run_id req, ingest_batch_id ix req) = Some (batch_record ix req vb1)"
    "ct_config (app_tracker s1) = ct_config (app_tracker s)" "app_db s1 = app_db s"
    by (rule ingest_failed_after_record [OF assms(1,2)])
  obtain run2 l where 2: "validate_items (max_tag_value_length (ct_config (app_tracker s1))) req run2 = Ok vb"
    "s2 = s1\<lparr>app_writes := l\<rparr>"
    using assms(5) by (cases rule: ingest_checks_cases [of req s1 rt' auth' ix']) auto
  have vb: "vb = vb1\<lparr>vb_run := run2\<rparr>" using validate_items_run 1(1,3) 2(1) by metis
  have id: "ingest_batch_id ix' req = ingest_batch_id ix req" using assms(3) by (simp add: ingest_batch_id_def)
  have "payload_hash ix' req vb = payload_hash ix req vb1" using assms(4) by (simp add: payload_hash_def vb)
  then have "check_and_record (app_idem s2) (batch_record ix' req vb) = (Duplicate, app_idem s2)"
    using check_and_record_seen [of "app_idem s2" "batch_record ix' req vb" "batch_record ix req vb1"] 1(2) 2(2) id
    by (simp add: batch_record_def)
  then show ?thesis using assms(5) 1(4) 2(2) by (simp add: http_ingest_batch_def ingest_validated_def)
qed

section \<open>Concrete batches\<close>

definition sample_running :: RunRec where
  "sample_running =
     \<lparr>rn_id = ''r1'', rn_project_id = ''p1'', rn_name = None, rn_status = ''running'', rn_key_id = None,
      rn_user_id = None, rn_created_at = ''t0'', rn_updated_at = ''t0'', rn_finished_at = None,
      rn_metrics_count = 0, rn_params_count = 0\<rparr>"

definition sample_app :: "QueuedIngestBatch list option \<Rightarrow> App" where
  "sample_app queue =
     \<lparr>app_db = init_schema\<lparr>t_runs := [sample_running]\<rparr>, app_idem = idem_new,
      app_tracker = tracker_new default_limits, app_writes = limiter_new 2 (f_of_int 1), app_queue = queue, app_shadow = []\<rparr>"

definition sample_request :: IngestBatchHttpRequest where
  "sample_request =
     \<lparr>ig_run_id = ''r1'', ig_batch_id = Some ''b1'', ig_seq = None,
      ig_metrics = [\<lparr>md_name = '' loss '', md_value = Array [f_of_int 1, F64_NAN], md_step = 0, md_timestamp = None\<rparr>],
      ig_params = [(''lr'', ''0.1'')], ig_tags = [], ig_events = []\<rparr>"

definition sample_ingest :: "string option \<Rightarrow> IngestExt" where
  "sample_ingest queue_error =
     \<lparr>ix_digest = id, ix_uuid = ''u1'', ix_instant = 0, ix_unix_ms = 0, ix_created_at = 0,
      ix_show_error = (\<lambda>_. ''error''), ix_queue_error = queue_error\<rparr>"

definition sample_validated :: ValidatedBatch where
  "sample_validated =
     \<lparr>vb_run = sample_running, vb_params = [(''parameters.lr'', ''0.1'')], vb_tags = [],
      vb_metrics = [\<lparr>xm_name = ''loss[0]'', xm_value = f_of_int 1, xm_step = 0, xm_timestamp = None\<rparr>,
                    \<lparr>xm_name = ''loss[1]'', xm_value = F64_NAN, xm_step = 0, xm_timestamp = None\<rparr>]\<rparr>"

abbreviation sample_dev :: AuthContext where "sample_dev \<equiv> dev_mode 0 ''q1''"

lemma sample_items: "validate_items (max_tag_value_length default_limits) sample_request sample_running = Ok sample_validated"
  by code_simp

lemma sample_buckets:
  "case limiter_check 0 ''dev:p1'' (limiter_new 2 (f_of_int 1)) of (r, l) \<Rightarrow> is_ok r \<and> is_ok (fst (limiter_check 0 ''dev:p1'' l))"
  by code_simp

lemma sample_bucket: "is_ok (fst (limiter_check 0 ''dev:p1'' (limiter_new 2 (f_of_int 1))))"
  using sample_buckets by (simp add: split_beta)

lemma sample_found: "find_run ''r1'' (app_db (sample_app q)) = Some sample_running"
  by (simp add: find_run_def sample_app_def sample_running_def)

lemma sample_granted: "mutation_granted sample_runtime sample_dev sample_running"
  by (simp add: mutation_granted_def endpoint_granted_def scope_granted_def project_granted_def run_owner_granted_def
      key_owner_granted_def dev_mode_def)

lemma sample_checks:
  assumes "app_db s = app_db (sample_app None)" "ct_config (app_tracker s) = default_limits"
    and "is_ok (fst (limiter_check 0 ''dev:p1'' (app_writes s)))"
  shows "ingest_checks (sample_ingest q) sample_runtime sample_dev sample_request s
    = (Ok sample_validated, s\<lparr>app_writes := snd (limiter_check 0 ''dev:p1'' (app_writes s))\<rparr>)"
proof -
  have id: "ig_run_id sample_request = ''r1''" by (simp add: sample_request_def)
  have guard: "guard_run_mutation sample_runtime sample_dev ''run.ingest'' ''ingest to'' ''r1'' (app_db s) = (Ok sample_running, app_db s)"
    using sample_found [of None] sample_granted
    by (cases rule: guard_run_mutation_cases [of "''r1''" "app_db s" sample_runtime sample_dev "''run.ingest''" "''ingest to''"])
      (simp_all add: assms(1))
  have key: "scoped_write_rate_limit_key sample_dev (Some (rn_project_id sample_running)) = ''dev:p1''" by code_simp
  have rate: "check_write_rate 0 sample_dev (Some (rn_project_id sample_running)) s
      = (Ok (), s\<lparr>app_writes := snd (limiter_check 0 ''dev:p1'' (app_writes s))\<rparr>)"
  proof (cases "limiter_check 0 ''dev:p1'' (app_writes s)")
    case (Pair r l)
    with assms(3) show ?thesis by (cases r) (auto simp: check_write_rate_def key)
  qed
  show ?thesis using guard rate assms(2) sample_items
    by (simp add: ingest_checks_def id op_bind_apply on_db_apply sample_ingest_def)
qed

theorem ingest_guarded_witness:
  "\<exists>res s'. http_ingest_batch (sample_ingest None) sample_runtime sample_dev sample_request
      ((sample_app None)\<lparr>app_db := init_schema\<rparr>) = Some (res, s') \<and> \<not> is_ok res \<and> app_idem s' = idem_new"
proof -
  let ?s = "(sample_app None)\<lparr>app_db := init_schema\<rparr>"
  have missing: "find_run (ig_run_id sample_request) (app_db ?s) = None"
    by (simp add: find_run_def init_schema_def)
  obtain st msg where "http_ingest_batch (sample_ingest None) sample_runtime sample_dev sample_request ?s
      = Some (Err (st, msg), ?s)"
    using missing by (cases rule: guard_run_mutation_cases [of "ig_run_id sample_request" "app_db ?s" sample_runtime sample_dev "''run.ingest''" "''ingest to''"])
      (auto simp: http_ingest_batch_def ingest_checks_def op_bind_apply on_db_apply)
  from ingest_guarded [OF this] this missing show ?thesis by (auto simp: sample_app_def)
qed

lemma sample_valid:
  "validate_batch (tracker_new default_limits) ''p1'' ''r1'' (vb_tags sample_validated) (map xm_name (vb_metrics sample_validated)) \<noteq> None"
  by code_simp


lemma sample_bucket_again:
  "is_ok (fst (limiter_check 0 ''dev:p1'' (snd (limiter_check 0 ''dev:p1'' (limiter_new 2 (f_of_int 1))))))"
  using sample_buckets by (simp add: split_beta)

lemma sample_unavailable:
  obtains st tr where "http_ingest_batch (sample_ingest (Some ''down'')) sample_runtime sample_dev sample_request (sample_app (Some []))
    = Some (Err (SERVICE_UNAVAILABLE, ''Failed to enqueue ingest batch: down''),
        (sample_app (Some []))\<lparr>app_writes := snd (limiter_check 0 ''dev:p1'' (limiter_new 2 (f_of_int 1))), app_idem := st, app_tracker := tr\<rparr>)"
    "ct_config tr = default_limits"
proof -
  have checks: "ingest_checks (sample_ingest (Some ''down'')) sample_runtime sample_dev sample_request (sample_app (Some []))
    = (Ok sample_validated, (sample_app (Some []))\<lparr>app_writes := snd (limiter_check 0 ''dev:p1'' (app_writes (sample_app (Some []))))\<rparr>)"
    by (rule sample_checks) (use sample_bucket in \<open>simp_all add: sample_app_def tracker_new_def\<close>)
  obtain r st where st: "check_and_record (app_idem (sample_app (Some []))) (batch_record (sample_ingest (Some ''down'')) sample_request sample_validated)
      = (r, st)" "should_process r"
    using should_process_check_and_record [of "app_idem (sample_app (Some []))" "batch_record (sample_ingest (Some ''down'')) sample_request sample_validated"]
    by (cases "check_and_record (app_idem (sample_app (Some []))) (batch_record (sample_ingest (Some ''down'')) sample_request sample_validated)")
      (simp add: sample_app_def idem_new_def)
  obtain v tr where v: "validate_batch (tracker_new default_limits) ''p1'' ''r1'' (vb_tags sample_validated)
      (map xm_name (vb_metrics sample_validated)) = Some (v, tr)"
    using sample_valid by auto
  have "ct_config tr = default_limits" using validate_batch_config [OF v] by (simp add: tracker_new_def)
  moreover have "http_ingest_batch (sample_ingest (Some ''down'')) sample_runtime sample_dev sample_request (sample_app (Some []))
      = ingest_new (sample_ingest (Some ''down'')) sample_runtime sample_dev sample_request sample_validated (order_warnings r)
          ((sample_app (Some []))\<lparr>app_writes := snd (limiter_check 0 ''dev:p1'' (app_writes (sample_app (Some [])))), app_idem := st\<rparr>)"
    using st by (cases r) (simp_all add: http_ingest_batch_def checks ingest_validated_def should_process_def)
  moreover have "find_run ''r1'' (app_db (sample_app (Some []))) = Some sample_running" "app_queue (sample_app (Some [])) = Some []"
    "eq_ignore_ascii_case (rn_status sample_running) ''running''" "app_tracker (sample_app (Some [])) = tracker_new default_limits"
    "app_writes (sample_app (Some [])) = limiter_new 2 (f_of_int 1)" "ig_run_id sample_request = ''r1''"
    "ix_queue_error (sample_ingest (Some ''down'')) = Some ''down''" "rn_project_id (vb_run sample_validated) = ''p1''"
    by (simp_all add: sample_found) (simp_all add: sample_app_def sample_running_def sample_request_def sample_ingest_def sample_validated_def
        eq_ignore_ascii_case_def)
  ultimately show ?thesis using v
    by (intro that [of tr st]) (auto simp: ingest_new_def ingest_accept_def op_bind_apply on_db_apply load_run_apply enqueue_or_persist_def
        op_return_def)
qed

theorem ingest_retry_lost_witness:
  "\<exists>s1 s2. http_ingest_batch (sample_ingest (Some ''down'')) sample_runtime sample_dev sample_request (sample_app (Some []))
      = Some (Err (SERVICE_UNAVAILABLE, ''Failed to enqueue ingest batch: down''), s1)
    \<and> http_ingest_batch (sample_ingest None) sample_runtime sample_dev sample_request s1 = Some (Ok duplicate_response, s2)
    \<and> app_queue s2 = Some []"
proof -
  obtain st tr where first: "http_ingest_batch (sample_ingest (Some ''down'')) sample_runtime sample_dev sample_request (sample_app (Some []))
      = Some (Err (SERVICE_UNAVAILABLE, ''Failed to enqueue ingest batch: down''),
          (sample_app (Some []))\<lparr>app_writes := snd (limiter_check 0 ''dev:p1'' (limiter_new 2 (f_of_int 1))), app_idem := st, app_tracker := tr\<rparr>)"
      (is "_ = Some (_, ?s1)")
    and tr: "ct_config tr = default_limits" by (rule sample_unavailable)
  have checks: "ingest_checks (sample_ingest None) sample_runtime sample_dev sample_request ?s1
      = (Ok sample_validated, ?s1\<lparr>app_writes := snd (limiter_check 0 ''dev:p1'' (app_writes ?s1))\<rparr>)"
    by (rule sample_checks) (use sample_bucket_again tr in \<open>simp_all add: sample_app_def\<close>)
  have sample: "ig_batch_id sample_request = Some ''b1''" "ix_digest (sample_ingest None) = ix_digest (sample_ingest (Some ''down''))"
    "app_queue ?s1 = Some []"
    by (simp_all add: sample_request_def sample_ingest_def sample_app_def)
  note lost = ingest_retry_lost [OF first _ sample(1,2) checks]
  show ?thesis
    by (rule exI [of _ ?s1], rule exI, rule conjI [OF first], rule conjI [OF lost [THEN conjunct1]])
      (simp_all add: sample_app_def)
qed

end
