(* ===== verification/Grpc_Ingest.thy ===== *)
theory Grpc_Ingest
  imports Metrics Access "HOL-Library.Multiset"
begin

text \<open>
  The gRPC ingest service (apps/api/src/services/ingest.rs): runs, seen batches and metric points
  in memory, behind three locks of their own. Every request is a function on the store, and the
  three critical sections of \<open>log_metrics\<close> are separate functions, so that calls that overlap can be
  described: a step of the service is one critical section of one call.

  The clock is an argument, once for the value a request stores and once for the reply. The parser
  of \<open>uuid\<close> and the PostgreSQL write are parameters. \<open>u64\<close> counters wrap, as in a release build.
\<close>

section \<open>State and messages\<close>

datatype GrpcRunStatus = Unspecified | Running | Finished | Failed | Crashed | Killed

text \<open>The derived \<open>Debug\<close> text, and the enum of a number on the wire: unknown numbers are the default.\<close>

fun show_status :: "GrpcRunStatus \<Rightarrow> string" where
  "show_status Unspecified = ''Unspecified''"
| "show_status Running = ''Running''"
| "show_status Finished = ''Finished''"
| "show_status Failed = ''Failed''"
| "show_status Crashed = ''Crashed''"
| "show_status Killed = ''Killed''"

definition status_of_wire :: "int \<Rightarrow> GrpcRunStatus" where
  "status_of_wire n =
     (if n = 1 then Running else if n = 2 then Finished else if n = 3 then Failed
      else if n = 4 then Crashed else if n = 5 then Killed else Unspecified)"

record RunState =
  rs_run_id :: string
  rs_project_id :: string
  rs_name :: "string option"
  rs_status :: GrpcRunStatus
  rs_created_at :: SystemTime
  rs_updated_at :: SystemTime
  rs_metrics_count :: nat
  rs_params_count :: nat
  rs_tags :: "string \<rightharpoonup> string"

record InMemoryStore =
  im_runs :: "string \<rightharpoonup> RunState"
  im_seen_batches :: "string set"
  im_metrics :: "string \<rightharpoonup> RunMetrics"

definition in_memory_store_new :: InMemoryStore where
  "in_memory_store_new = \<lparr>im_runs = Map.empty, im_seen_batches = {}, im_metrics = Map.empty\<rparr>"

datatype GrpcStatus = InvalidArgument string | NotFoundStatus string | FailedPrecondition string | Unimplemented string

type_synonym 'a grpc = "(InMemoryStore, 'a, GrpcStatus) op"

record Timestamp =
  ts_seconds :: int
  ts_nanos :: int

definition now_timestamp :: "SystemTime \<Rightarrow> Timestamp option" where
  "now_timestamp now =
     (if now < 0 then None
      else Some \<lparr>ts_seconds = min (now div 1000000000) I64_MAX, ts_nanos = now mod 1000000000\<rparr>)"

record ErrorDetail =
  ed_code :: string
  ed_message :: string
  ed_field :: string
  ed_severity :: int

definition warning_detail :: "string \<Rightarrow> string \<Rightarrow> string \<Rightarrow> ErrorDetail" where
  "warning_detail code message field = \<lparr>ed_code = code, ed_message = message, ed_field = field, ed_severity = 1\<rparr>"

definition grpc_usize_to_i64 :: "nat \<Rightarrow> int" where
  "grpc_usize_to_i64 n = min (int n) I64_MAX"

definition grpc_usize_to_u64 :: "nat \<Rightarrow> nat" where
  "grpc_usize_to_u64 n = min n U64_MAX"

definition u64_to_i64_saturating :: "nat \<Rightarrow> int" where
  "u64_to_i64_saturating n = min (int n) I64_MAX"

definition u64_add :: "nat \<Rightarrow> nat \<Rightarrow> nat" where
  "u64_add a b = (a + b) mod 2 ^ 64"

section \<open>Requests\<close>

record InitRunRequest =
  in_project_id :: "string option"
  in_run_id :: "string option"
  in_name :: "string option"
  in_tags :: "(string \<times> string) list"

record InitRunResponse =
  io_run_id :: string
  io_resume_token :: string
  io_server_time :: "Timestamp option"
  io_resumed :: bool

definition init_run :: "SystemTime \<Rightarrow> SystemTime \<Rightarrow> string \<Rightarrow> InitRunRequest \<Rightarrow> InitRunResponse grpc" where
  "init_run now reply uuid req = (\<lambda>st.
     case in_project_id req of
       None \<Rightarrow> (Err (InvalidArgument ''project_id is required''), st)
     | Some project_id \<Rightarrow>
         let run_id = (case in_run_id req of Some r \<Rightarrow> r | None \<Rightarrow> uuid) in
         (case im_runs st run_id of
            Some existing \<Rightarrow>
              (Ok \<lparr>io_run_id = rs_run_id existing, io_resume_token = ''resume-'' @ run_id,
                   io_server_time = now_timestamp reply, io_resumed = True\<rparr>, st)
          | None \<Rightarrow>
              (Ok \<lparr>io_run_id = run_id, io_resume_token = ''resume-'' @ run_id,
                   io_server_time = now_timestamp reply, io_resumed = False\<rparr>,
               st\<lparr>im_runs := (im_runs st)(run_id \<mapsto>
                 \<lparr>rs_run_id = run_id, rs_project_id = project_id, rs_name = in_name req, rs_status = Running,
                  rs_created_at = now, rs_updated_at = now, rs_metrics_count = 0, rs_params_count = 0,
                  rs_tags = fold (\<lambda>(k, v) m. m(k \<mapsto> v)) (in_tags req) Map.empty\<rparr>)\<rparr>)))"

text \<open>\<open>runs.get_mut(id).ok_or_else(not found)?\<close>, and an update of the run in place.\<close>

definition run_missing :: "string \<Rightarrow> GrpcStatus" where
  "run_missing run_id = NotFoundStatus (''Run not found: '' @ run_id)"

definition with_run :: "string \<Rightarrow> (RunState \<Rightarrow> ('a, GrpcStatus) result \<times> RunState) \<Rightarrow> 'a grpc" where
  "with_run run_id f = (\<lambda>st.
     case im_runs st run_id of
       None \<Rightarrow> (Err (run_missing run_id), st)
     | Some run \<Rightarrow> (case f run of (r, run') \<Rightarrow> (r, st\<lparr>im_runs := (im_runs st)(run_id \<mapsto> run')\<rparr>)))"

definition required :: "string option \<Rightarrow> (string \<Rightarrow> 'a grpc) \<Rightarrow> 'a grpc" where
  "required run_id f =
     (case run_id of None \<Rightarrow> op_fail (InvalidArgument ''run_id is required'') | Some r \<Rightarrow> f r)"

record GrpcMetricPoint =
  gp_name :: string
  gp_step :: int
  gp_value :: f64
  gp_timestamp :: "Timestamp option"

record LogMetricsRequest =
  lm_run_id :: "string option"
  lm_batch_id :: string
  lm_metrics :: "GrpcMetricPoint list option"

record LogMetricsResponse =
  lr_accepted_count :: int
  lr_deduplicated_count :: int
  lr_server_time :: "Timestamp option"

definition point_count :: "LogMetricsRequest \<Rightarrow> nat" where
  "point_count req = (case lm_metrics req of None \<Rightarrow> 0 | Some ps \<Rightarrow> length ps)"

definition batch_seen_key :: "string \<Rightarrow> LogMetricsRequest \<Rightarrow> string" where
  "batch_seen_key run_id req = run_id @ '':'' @ lm_batch_id req"

text \<open>The first critical section: is the batch new, and if so, remember it.\<close>

definition claim_batch :: "string \<Rightarrow> LogMetricsRequest \<Rightarrow> InMemoryStore \<Rightarrow> bool \<times> InMemoryStore" where
  "claim_batch run_id req st =
     (if batch_seen_key run_id req \<in> im_seen_batches st then (False, st)
      else (True, st\<lparr>im_seen_batches := insert (batch_seen_key run_id req) (im_seen_batches st)\<rparr>))"

text \<open>The second: the run exists and is running, and its counter grows.\<close>

definition count_points :: "SystemTime \<Rightarrow> string \<Rightarrow> LogMetricsRequest \<Rightarrow> unit grpc" where
  "count_points now run_id req =
     with_run run_id (\<lambda>run.
       if rs_status run \<noteq> Running
       then (Err (FailedPrecondition (''Run '' @ run_id @ '' is not running (status: '' @ show_status (rs_status run) @ '')'')), run)
       else (Ok (), run\<lparr>rs_metrics_count := u64_add (rs_metrics_count run) (grpc_usize_to_u64 (point_count req)),
                        rs_updated_at := now\<rparr>))"

text \<open>The third: the points are stored. \<open>t.seconds as f64 + f64::from(t.nanos) / 1e9\<close>\<close>

definition timestamp_seconds :: "Timestamp \<Rightarrow> f64" where
  "timestamp_seconds t = f_add (f_of_int (ts_seconds t)) (f_div (f_of_int (ts_nanos t)) (f_of_int 1000000000))"

definition stored_point :: "GrpcMetricPoint \<Rightarrow> MetricPoint" where
  "stored_point p =
     \<lparr>pt_name = gp_name p, pt_step = gp_step p, pt_value = gp_value p,
      pt_timestamp = map_option timestamp_seconds (gp_timestamp p)\<rparr>"

definition run_metrics_new :: RunMetrics where
  "run_metrics_new = \<lparr>rm_metrics = Map.empty\<rparr>"

definition store_points :: "string \<Rightarrow> LogMetricsRequest \<Rightarrow> InMemoryStore \<Rightarrow> InMemoryStore" where
  "store_points run_id req st =
     (case lm_metrics req of
        None \<Rightarrow> st
      | Some ps \<Rightarrow>
          st\<lparr>im_metrics := (im_metrics st)(run_id \<mapsto>
            fold (\<lambda>p. add_point (stored_point p)) ps
              (case im_metrics st run_id of Some rm \<Rightarrow> rm | None \<Rightarrow> run_metrics_new))\<rparr>)"

definition log_metrics :: "SystemTime \<Rightarrow> SystemTime \<Rightarrow> LogMetricsRequest \<Rightarrow> LogMetricsResponse grpc" where
  "log_metrics now reply req =
     required (lm_run_id req) (\<lambda>run_id st.
       case claim_batch run_id req st of
         (False, st1) \<Rightarrow>
           (Ok \<lparr>lr_accepted_count = 0, lr_deduplicated_count = grpc_usize_to_i64 (point_count req),
                lr_server_time = now_timestamp reply\<rparr>, st1)
       | (True, st1) \<Rightarrow>
           (case count_points now run_id req st1 of
              (Err e, st2) \<Rightarrow> (Err e, st2)
            | (Ok _, st2) \<Rightarrow>
                (Ok \<lparr>lr_accepted_count = grpc_usize_to_i64 (point_count req), lr_deduplicated_count = 0,
                     lr_server_time = now_timestamp reply\<rparr>, store_points run_id req st2)))"

definition log_metrics_stream :: "unit grpc" where
  "log_metrics_stream = op_fail (Unimplemented ''Streaming not yet implemented'')"

record GrpcExt =
  gx_env :: "string \<Rightarrow> string option"
  gx_parse_uuid :: "string \<Rightarrow> string option"
  gx_upsert_batch :: "(string \<times> string \<times> string) list \<Rightarrow> (nat, string) result"

record LogParamsRequest =
  lp_run_id :: "string option"
  lp_params :: "(string \<times> string) list"

record LogParamsResponse =
  pr_accepted_count :: int
  pr_existing_count :: int
  pr_warnings :: "ErrorDetail list"

definition grpc_env_flag :: "GrpcExt \<Rightarrow> string \<Rightarrow> bool" where
  "grpc_env_flag gx name = (case gx_env gx name of Some v \<Rightarrow> env_flag_value v | None \<Rightarrow> False)"

definition build_postgres_parameter_inputs ::
  "GrpcExt \<Rightarrow> string \<Rightarrow> (string \<times> string) list \<Rightarrow> ((string \<times> string \<times> string) list, string) result" where
  "build_postgres_parameter_inputs gx run_id params =
     (case gx_parse_uuid gx run_id of
        None \<Rightarrow> Err (''run_id '' @ sq run_id @ '' is not a UUID; skipping PostgreSQL parameter shadow write'')
      | Some u \<Rightarrow> Ok (map (\<lambda>(name, value). (u, name, value)) params))"

definition shadow_warnings :: "GrpcExt \<Rightarrow> string \<Rightarrow> (string \<times> string) list \<Rightarrow> ErrorDetail list" where
  "shadow_warnings gx run_id params =
     (if grpc_env_flag gx ''MLRUNX_POSTGRES_SHADOW_WRITES_ENABLED''
      then
        (case build_postgres_parameter_inputs gx run_id params of
           Ok inputs \<Rightarrow>
             (case gx_upsert_batch gx inputs of
                Ok _ \<Rightarrow> []
              | Err _ \<Rightarrow>
                  [warning_detail ''POSTGRES_SHADOW_WRITE_FAILED''
                     ''PostgreSQL parameter shadow write failed; in-memory ingest path remains active.'' ''params''])
         | Err message \<Rightarrow> [warning_detail ''POSTGRES_SHADOW_WRITE_SKIPPED'' message ''run_id''])
      else [])"

definition log_params :: "GrpcExt \<Rightarrow> SystemTime \<Rightarrow> LogParamsRequest \<Rightarrow> LogParamsResponse grpc" where
  "log_params gx now req =
     required (lp_run_id req) (\<lambda>run_id.
       op_bind
         (with_run run_id (\<lambda>run.
            (Ok (), run\<lparr>rs_params_count := u64_add (rs_params_count run) (grpc_usize_to_u64 (length (lp_params req))),
                        rs_updated_at := now\<rparr>))) (\<lambda>_.
         op_return \<lparr>pr_accepted_count = grpc_usize_to_i64 (length (lp_params req)), pr_existing_count = 0,
                    pr_warnings = shadow_warnings gx run_id (lp_params req)\<rparr>))"

record LogTagsRequest =
  lt_run_id :: "string option"
  lt_tags :: "(string \<times> string) list"
  lt_remove_keys :: "string list"

text \<open>Insert the tags in order, then remove the keys in order, counting those that were there.\<close>

fun remove_tags :: "string list \<Rightarrow> (string \<rightharpoonup> string) \<Rightarrow> int \<times> (string \<rightharpoonup> string)" where
  "remove_tags [] m = (0, m)"
| "remove_tags (k # ks) m =
     (case remove_tags ks (m(k := None)) of (n, m') \<Rightarrow> ((if m k = None then n else n + 1), m'))"

definition log_tags :: "SystemTime \<Rightarrow> LogTagsRequest \<Rightarrow> (int \<times> int) grpc" where
  "log_tags now req =
     required (lt_run_id req) (\<lambda>run_id.
       with_run run_id (\<lambda>run.
         case remove_tags (lt_remove_keys req) (fold (\<lambda>(k, v) m. m(k \<mapsto> v)) (lt_tags req) (rs_tags run)) of
           (removed, tags) \<Rightarrow>
             (Ok (int (length (lt_tags req)), removed), run\<lparr>rs_tags := tags, rs_updated_at := now\<rparr>)))"

definition create_artifact_upload :: "unit grpc" where
  "create_artifact_upload = op_fail (Unimplemented ''Artifact upload not yet implemented'')"

definition finalize_artifact_upload :: "unit grpc" where
  "finalize_artifact_upload = op_fail (Unimplemented ''Artifact upload not yet implemented'')"

definition heartbeat :: "SystemTime \<Rightarrow> SystemTime \<Rightarrow> string option \<Rightarrow> (Timestamp option \<times> bool) grpc" where
  "heartbeat now reply run_id =
     required run_id (\<lambda>r. with_run r (\<lambda>run. (Ok (now_timestamp reply, False), run\<lparr>rs_updated_at := now\<rparr>)))"

record FinishRunResponse =
  fr_duration_seconds :: f64
  fr_total_metrics :: int
  fr_finished_at :: "Timestamp option"

definition grpc_finish_run :: "SystemTime \<Rightarrow> SystemTime \<Rightarrow> string option \<Rightarrow> int \<Rightarrow> FinishRunResponse grpc" where
  "grpc_finish_run now reply run_id wire_status =
     required run_id (\<lambda>r. with_run r (\<lambda>run.
       (Ok \<lparr>fr_duration_seconds = (if rs_created_at run \<le> now then as_secs_f64 (nat (now - rs_created_at run)) else f_of_int 0),
            fr_total_metrics = u64_to_i64_saturating (rs_metrics_count run), fr_finished_at = now_timestamp reply\<rparr>,
        run\<lparr>rs_status := status_of_wire wire_status, rs_updated_at := now\<rparr>)))"

section \<open>Calls that overlap\<close>

text \<open>
  The service as a transition system. Beside the store it has the calls of \<open>log_metrics\<close> that have
  claimed their batch and those that have been counted and not yet stored. A step is one critical
  section; it leaves an event in the trace.
\<close>

datatype GrpcEvent =
    Claimed string LogMetricsRequest | Refused string LogMetricsRequest
  | Counted string LogMetricsRequest | Stored string LogMetricsRequest | Served

type_synonym grpc_sys =
  "InMemoryStore \<times> (string \<times> LogMetricsRequest) multiset \<times> (string \<times> LogMetricsRequest) multiset"

inductive grpc_step :: "GrpcExt \<Rightarrow> grpc_sys \<Rightarrow> GrpcEvent \<Rightarrow> grpc_sys \<Rightarrow> bool" for gx where
  claim: "lm_run_id q = Some r \<Longrightarrow> claim_batch r q st = (True, st') \<Longrightarrow>
    grpc_step gx (st, C, D) (Claimed r q) (st', add_mset (r, q) C, D)"
| refuse: "(r, q) \<in># C \<Longrightarrow> count_points now r q st = (Err e, st') \<Longrightarrow>
    grpc_step gx (st, C, D) (Refused r q) (st', C - {#(r, q)#}, D)"
| count: "(r, q) \<in># C \<Longrightarrow> count_points now r q st = (Ok (), st') \<Longrightarrow>
    grpc_step gx (st, C, D) (Counted r q) (st', C - {#(r, q)#}, add_mset (r, q) D)"
| store: "(r, q) \<in># D \<Longrightarrow>
    grpc_step gx (st, C, D) (Stored r q) (store_points r q st, C, D - {#(r, q)#})"
| init: "init_run now reply uuid i st = (x, st') \<Longrightarrow> grpc_step gx (st, C, D) Served (st', C, D)"
| params: "log_params gx now p st = (y, st') \<Longrightarrow> grpc_step gx (st, C, D) Served (st', C, D)"
| tags: "log_tags now t st = (z, st') \<Longrightarrow> grpc_step gx (st, C, D) Served (st', C, D)"
| beat: "heartbeat now reply rid st = (v, st') \<Longrightarrow> grpc_step gx (st, C, D) Served (st', C, D)"
| finish: "grpc_finish_run now reply rid n st = (w, st') \<Longrightarrow> grpc_step gx (st, C, D) Served (st', C, D)"

inductive_cases grpc_step_claim: "grpc_step gx s (Claimed r q) s'"
inductive_cases grpc_step_store: "grpc_step gx s (Stored r q) s'"

inductive grpc_reach :: "GrpcExt \<Rightarrow> GrpcEvent list \<Rightarrow> grpc_sys \<Rightarrow> bool" for gx where
  start: "grpc_reach gx [] (in_memory_store_new, {#}, {#})"
| step: "grpc_reach gx tr s \<Longrightarrow> grpc_step gx s e s' \<Longrightarrow> grpc_reach gx (tr @ [e]) s'"

fun claimed_by :: "GrpcEvent \<Rightarrow> (string \<times> LogMetricsRequest) option" where
  "claimed_by (Claimed r q) = Some (r, q)" | "claimed_by _ = None"

fun refused_by :: "GrpcEvent \<Rightarrow> (string \<times> LogMetricsRequest) option" where
  "refused_by (Refused r q) = Some (r, q)" | "refused_by _ = None"

fun counted_by :: "GrpcEvent \<Rightarrow> (string \<times> LogMetricsRequest) option" where
  "counted_by (Counted r q) = Some (r, q)" | "counted_by _ = None"

fun stored_by :: "GrpcEvent \<Rightarrow> (string \<times> LogMetricsRequest) option" where
  "stored_by (Stored r q) = Some (r, q)" | "stored_by _ = None"

abbreviation events_of :: "(GrpcEvent \<Rightarrow> (string \<times> LogMetricsRequest) option) \<Rightarrow> GrpcEvent list \<Rightarrow> (string \<times> LogMetricsRequest) list" where
  "events_of f tr \<equiv> List.map_filter f tr"

lemma events_of_snoc [simp]:
  "events_of f (tr @ [e]) = events_of f tr @ (case f e of Some x \<Rightarrow> [x] | None \<Rightarrow> [])"
  by (induction tr) (auto simp: map_filter_simps split: option.splits)

definition seen_key :: "string \<times> LogMetricsRequest \<Rightarrow> string" where
  "seen_key rq = batch_seen_key (fst rq) (snd rq)"

text \<open>The points of one metric of a run, and how many points the listed calls gave a run.\<close>

definition metric_points :: "InMemoryStore \<Rightarrow> string \<Rightarrow> string \<Rightarrow> MetricPoint list" where
  "metric_points st r n =
     (case im_metrics st r of None \<Rightarrow> []
      | Some rm \<Rightarrow> (case rm_metrics rm n of None \<Rightarrow> [] | Some ps \<Rightarrow> ps))"

definition request_points :: "LogMetricsRequest \<Rightarrow> MetricPoint list" where
  "request_points q = (case lm_metrics q of None \<Rightarrow> [] | Some ps \<Rightarrow> map stored_point ps)"

definition points_given :: "string \<Rightarrow> (string \<times> LogMetricsRequest) list \<Rightarrow> MetricPoint list" where
  "points_given r rqs = concat (map (\<lambda>rq. if fst rq = r then request_points (snd rq) else []) rqs)"

lemma points_given_simps [simp]:
  "points_given r [] = []"
  "points_given r (a @ b) = points_given r a @ points_given r b"
  "points_given r [(r', q)] = (if r' = r then request_points q else [])"
  by (simp_all add: points_given_def)

lemma length_request_points: "length (request_points q) = point_count q"
  by (simp add: request_points_def point_count_def split: option.splits)

lemma rm_add_points:
  "rm_metrics (fold (\<lambda>p. add_point (stored_point p)) ps rm) n =
     (let new = filter (\<lambda>p. pt_name p = n) (map stored_point ps) in
      if new = [] then rm_metrics rm n
      else Some ((case rm_metrics rm n of Some old \<Rightarrow> old | None \<Rightarrow> []) @ new))"
  by (induction ps arbitrary: rm) (auto simp: add_point_def Let_def split: option.splits)

lemma metric_points_store:
  "metric_points (store_points r q st) r' n =
     metric_points st r' n @ (if r' = r then filter (\<lambda>p. pt_name p = n) (request_points q) else [])"
  by (auto simp: metric_points_def store_points_def request_points_def run_metrics_new_def rm_add_points Let_def
      split: option.splits)

lemma store_points_frame [simp]:
  "im_runs (store_points r q st) = im_runs st" "im_seen_batches (store_points r q st) = im_seen_batches st"
  by (simp_all add: store_points_def split: option.splits)

text \<open>A request that works on one run changes its counter at most, and no points or seen batches.\<close>

definition same_data :: "InMemoryStore \<Rightarrow> InMemoryStore \<Rightarrow> bool" where
  "same_data st st' \<longleftrightarrow> im_seen_batches st' = im_seen_batches st \<and> im_metrics st' = im_metrics st
   \<and> (\<forall>r. map_option rs_metrics_count (im_runs st' r) = map_option rs_metrics_count (im_runs st r)
        \<or> (im_runs st r = None \<and> map_option rs_metrics_count (im_runs st' r) = Some 0))"

lemma same_data_refl [simp]: "same_data st st"
  by (simp add: same_data_def)

lemma with_run_same_data:
  assumes "\<And>run. rs_metrics_count (snd (f run)) = rs_metrics_count run" "with_run r f st = (x, st')"
  shows "same_data st st'"
proof (cases "im_runs st r")
  case (Some run)
  obtain y run' where f: "f run = (y, run')" by fastforce
  then have "rs_metrics_count run' = rs_metrics_count run" using assms(1) [of run] by simp
  then show ?thesis using assms(2) Some f by (auto simp: with_run_def same_data_def split: if_splits)
qed (use assms(2) in \<open>simp add: with_run_def\<close>)

lemma served_same_data:
  assumes "grpc_step gx (st, C, D) Served (st', C', D')"
  shows "same_data st st' \<and> C' = C \<and> D' = D"
  using assms
proof cases
  case (init now reply uuid i x)
  then show ?thesis by (auto simp: init_run_def same_data_def Let_def split: option.splits if_splits)
next
  case (params now p y)
  then show ?thesis
    by (auto simp: log_params_def required_def op_fail_def op_bind_apply split: option.splits prod.splits result.splits
        elim!: with_run_same_data [rotated])
next
  case (tags now t z)
  then show ?thesis
    by (auto simp: log_tags_def required_def op_fail_def split: option.splits prod.splits elim!: with_run_same_data [rotated])
next
  case (beat now reply rid v)
  then show ?thesis
    by (auto simp: heartbeat_def required_def op_fail_def split: option.splits elim!: with_run_same_data [rotated])
next
  case (finish now reply rid n w)
  then show ?thesis
    by (auto simp: grpc_finish_run_def required_def op_fail_def split: option.splits elim!: with_run_same_data [rotated])
qed

definition counted_total :: "string \<Rightarrow> (string \<times> LogMetricsRequest) list \<Rightarrow> nat" where
  "counted_total r rqs = sum_list (map (\<lambda>rq. if fst rq = r then grpc_usize_to_u64 (point_count (snd rq)) else 0) rqs)"

lemma counted_total_simps [simp]:
  "counted_total r [] = 0"
  "counted_total r (a @ b) = counted_total r a + counted_total r b"
  "counted_total r [(r', q)] = (if r' = r then grpc_usize_to_u64 (point_count q) else 0)"
  by (simp_all add: counted_total_def)

text \<open>What the trace and the state have in common in every reachable state.\<close>

definition counter_ok :: "nat option \<Rightarrow> nat \<Rightarrow> bool" where
  "counter_ok c t \<longleftrightarrow> (case c of Some n \<Rightarrow> n = t mod 2 ^ 64 | None \<Rightarrow> t = 0)"

definition counters_ok :: "GrpcEvent list \<Rightarrow> InMemoryStore \<Rightarrow> bool" where
  "counters_ok tr st \<longleftrightarrow>
     (\<forall>r. counter_ok (map_option rs_metrics_count (im_runs st r)) (counted_total r (events_of counted_by tr)))"

definition points_ok :: "GrpcEvent list \<Rightarrow> InMemoryStore \<Rightarrow> bool" where
  "points_ok tr st \<longleftrightarrow>
     (\<forall>r n. metric_points st r n = filter (\<lambda>p. pt_name p = n) (points_given r (events_of stored_by tr)))"

definition grpc_inv :: "GrpcEvent list \<Rightarrow> grpc_sys \<Rightarrow> bool" where
  "grpc_inv tr s \<longleftrightarrow> (case s of (st, C, D) \<Rightarrow>
     im_seen_batches st = seen_key ` set (events_of claimed_by tr)
   \<and> distinct (map seen_key (events_of claimed_by tr))
   \<and> mset (events_of claimed_by tr) = mset (events_of refused_by tr) + C + mset (events_of counted_by tr)
   \<and> mset (events_of counted_by tr) = mset (events_of stored_by tr) + D
   \<and> counters_ok tr st \<and> points_ok tr st)"

lemma counter_ok_change: "counter_ok a t \<Longrightarrow> b = a \<or> (a = None \<and> b = Some 0) \<Longrightarrow> counter_ok b t"
  by (auto simp: counter_ok_def)

lemma counters_ok_same:
  assumes "counters_ok tr st" "same_data st st'" "counted_by e = None"
  shows "counters_ok (tr @ [e]) st'"
  unfolding counters_ok_def
proof
  fix r
  have "map_option rs_metrics_count (im_runs st' r) = map_option rs_metrics_count (im_runs st r)
      \<or> (map_option rs_metrics_count (im_runs st r) = None \<and> map_option rs_metrics_count (im_runs st' r) = Some 0)"
    using assms(2) by (simp add: same_data_def)
  moreover have "counter_ok (map_option rs_metrics_count (im_runs st r)) (counted_total r (events_of counted_by tr))"
    using assms(1) by (simp add: counters_ok_def)
  ultimately show "counter_ok (map_option rs_metrics_count (im_runs st' r)) (counted_total r (events_of counted_by (tr @ [e])))"
    using assms(3) counter_ok_change by simp
qed

lemma points_ok_same:
  assumes "points_ok tr st" "im_metrics st' = im_metrics st" "stored_by e = None"
  shows "points_ok (tr @ [e]) st'"
  using assms by (simp add: points_ok_def metric_points_def)

lemma count_points_Ok:
  assumes "count_points now r q st = (Ok (), st')"
  obtains run run' where "im_runs st r = Some run" "rs_status run = Running"
    "rs_metrics_count run' = u64_add (rs_metrics_count run) (grpc_usize_to_u64 (point_count q))"
    "st' = st\<lparr>im_runs := (im_runs st)(r \<mapsto> run')\<rparr>"
  using assms by (auto simp: count_points_def with_run_def intro!: that split: option.splits if_splits)

lemma count_points_Err: "count_points now r q st = (Err e, st') \<Longrightarrow> st' = st"
  by (cases st) (auto simp: count_points_def with_run_def fun_upd_idem split: option.splits if_splits)

lemma counters_ok_count:
  assumes "counters_ok tr st" "count_points now r q st = (Ok (), st')"
  shows "counters_ok (tr @ [Counted r q]) st'"
  using assms(2)
proof (rule count_points_Ok)
  fix run run'
  assume run: "im_runs st r = Some run"
    and run': "rs_metrics_count run' = u64_add (rs_metrics_count run) (grpc_usize_to_u64 (point_count q))"
    and st': "st' = st\<lparr>im_runs := (im_runs st)(r \<mapsto> run')\<rparr>"
  have ok: "counter_ok (map_option rs_metrics_count (im_runs st r')) (counted_total r' (events_of counted_by tr))" for r'
    using assms(1) by (simp add: counters_ok_def)
  have "counter_ok (Some (rs_metrics_count run')) (counted_total r (events_of counted_by tr) + grpc_usize_to_u64 (point_count q))"
    using ok [of r] by (simp add: run run' counter_ok_def u64_add_def mod_simps)
  then show ?thesis using ok by (simp add: counters_ok_def st')
qed

lemma grpc_inv_served:
  assumes "grpc_inv tr (st, C, D)" "grpc_step gx (st, C, D) Served (st', C', D')"
  shows "grpc_inv (tr @ [Served]) (st', C', D')"
proof -
  have same: "same_data st st'" "C' = C" "D' = D" using served_same_data [OF assms(2)] by auto
  then have "counters_ok (tr @ [Served]) st'" "points_ok (tr @ [Served]) st'"
    using assms(1) by (auto simp: grpc_inv_def same_data_def intro: counters_ok_same points_ok_same)
  then show ?thesis using assms(1) same by (simp add: grpc_inv_def same_data_def)
qed

lemma grpc_inv_step:
  assumes "grpc_inv tr s" "grpc_step gx s e s'"
  shows "grpc_inv (tr @ [e]) s'"
  using assms(2)
proof cases
  case (claim q r st st' C D)
  then have "batch_seen_key r q \<notin> im_seen_batches st"
    "st' = st\<lparr>im_seen_batches := insert (batch_seen_key r q) (im_seen_batches st)\<rparr>"
    by (auto simp: claim_batch_def split: if_splits)
  moreover have "seen_key (r, q) = batch_seen_key r q" by (simp add: seen_key_def)
  ultimately show ?thesis using assms(1) claim
    by (auto simp: grpc_inv_def counters_ok_def points_ok_def metric_points_def)
next
  case (refuse r q C now st err st' D)
  then have "st' = st" by (simp add: count_points_Err)
  with assms(1) refuse show ?thesis
    by (auto simp: grpc_inv_def counters_ok_def points_ok_def)
next
  case (count r q C now st st' D)
  moreover have "counters_ok (tr @ [Counted r q]) st'"
    using assms(1) count counters_ok_count by (auto simp: grpc_inv_def)
  moreover have "im_metrics st' = im_metrics st" "im_seen_batches st' = im_seen_batches st"
    using count(5) by (auto elim!: count_points_Ok)
  ultimately show ?thesis using assms(1) points_ok_same [of tr st st' "Counted r q"]
    by (auto simp: grpc_inv_def)
next
  case (store r q D st C)
  then show ?thesis using assms(1)
    by (auto simp: grpc_inv_def counters_ok_def points_ok_def metric_points_store)
qed (use assms(1) grpc_inv_served assms(2) in blast)+

section \<open>What overlapping calls achieve\<close>

lemma grpc_reach_inv: "grpc_reach gx tr s \<Longrightarrow> grpc_inv tr s"
proof (induction rule: grpc_reach.induct)
  case start
  show ?case
    by (simp add: grpc_inv_def in_memory_store_new_def counters_ok_def counter_ok_def points_ok_def metric_points_def
        map_filter_simps)
qed (rule grpc_inv_step)

lemma distinct_keys_mset:
  assumes "distinct (map f xs)" "mset xs = mset ys + mset zs + R"
  shows "distinct (map f ys)" "f ` set ys \<inter> f ` set zs = {}"
proof -
  obtain us where "mset us = image_mset f R" using ex_mset by blast
  then have "mset (map f xs) = mset (map f (ys @ zs) @ us)" using assms(2) by simp
  then have "distinct (map f (ys @ zs) @ us)" using assms(1) mset_eq_imp_distinct_iff by metis
  then show "distinct (map f ys)" "f ` set ys \<inter> f ` set zs = {}" by auto
qed

text \<open>
  C11: overlapping calls of the gRPC service. However the critical sections of the calls interleave:
  no two batches with the same run and batch id are claimed, and a batch whose key is taken is
  turned away; every batch that was claimed is in exactly one place, refused, waiting to be
  counted, counted and waiting to be stored, or stored; the points of every metric of a run are
  exactly those of the stored batches, all of them, in the order they were stored; and the metric
  counter of a run is the number of points of its counted batches, which are the stored ones and
  those waiting to be stored, modulo \<open>2\<^sup>64\<close>.
\<close>

theorem grpc_exactly_once:
  assumes "grpc_reach gx tr (st, C, D)"
  shows "distinct (map seen_key (events_of claimed_by tr))
    \<and> (seen_key (r, q) \<in> seen_key ` set (events_of claimed_by tr) \<longrightarrow> claim_batch r q st = (False, st))
    \<and> mset (events_of claimed_by tr) = mset (events_of refused_by tr) + C + D + mset (events_of stored_by tr)
    \<and> metric_points st r n = filter (\<lambda>p. pt_name p = n) (points_given r (events_of stored_by tr))
    \<and> mset (events_of counted_by tr) = mset (events_of stored_by tr) + D
    \<and> (im_runs st r = Some run \<longrightarrow> rs_metrics_count run = counted_total r (events_of counted_by tr) mod 2 ^ 64)"
proof -
  have inv: "grpc_inv tr (st, C, D)" by (rule grpc_reach_inv [OF assms])
  then have "claim_batch r q st = (False, st)" if "seen_key (r, q) \<in> seen_key ` set (events_of claimed_by tr)"
    using that by (simp add: grpc_inv_def claim_batch_def seen_key_def)
  moreover have "rs_metrics_count run = counted_total r (events_of counted_by tr) mod 2 ^ 64" if "im_runs st r = Some run"
    using inv that by (auto simp: grpc_inv_def counters_ok_def counter_ok_def dest!: spec [where x = r])
  ultimately show ?thesis using inv by (auto simp: grpc_inv_def points_ok_def ac_simps)
qed

text \<open>
  a refused batch is lost. A batch is remembered as seen before its run is looked at; once it
  has been refused, because the run is unknown or not running, no batch of that run with that id is
  ever stored, however often the client repeats the call, and every repetition is answered with
  success and the points counted as duplicates.
\<close>

lemma grpc_refused_lost:
  assumes "grpc_reach gx tr (st, C, D)" "Refused r q \<in> set tr" "lm_run_id q = Some r"
  shows "(\<forall>r' q'. Stored r' q' \<in> set tr \<longrightarrow> seen_key (r', q') \<noteq> seen_key (r, q))
    \<and> log_metrics now reply q st
      = (Ok \<lparr>lr_accepted_count = 0, lr_deduplicated_count = grpc_usize_to_i64 (point_count q),
             lr_server_time = now_timestamp reply\<rparr>, st)"
proof -
  have inv: "grpc_inv tr (st, C, D)" by (rule grpc_reach_inv [OF assms(1)])
  have refused: "(r, q) \<in> set (events_of refused_by tr)"
    using assms(2) by (force simp: List.map_filter_def)
  have parts: "mset (events_of claimed_by tr) = mset (events_of stored_by tr) + mset (events_of refused_by tr) + (C + D)"
    using inv by (auto simp: grpc_inv_def ac_simps)
  then have apart: "seen_key ` set (events_of stored_by tr) \<inter> seen_key ` set (events_of refused_by tr) = {}"
    by (rule distinct_keys_mset(2) [rotated]) (use inv in \<open>auto simp: grpc_inv_def\<close>)
  have "seen_key (r', q') \<noteq> seen_key (r, q)" if "Stored r' q' \<in> set tr" for r' q'
  proof -
    have "(r', q') \<in> set (events_of stored_by tr)" using that by (force simp: List.map_filter_def)
    then show ?thesis using apart refused by (metis disjoint_iff image_eqI)
  qed
  moreover have "(r, q) \<in># mset (events_of claimed_by tr)" unfolding parts using refused by simp
  then have "batch_seen_key r q \<in> im_seen_batches st"
    using inv by (auto simp: grpc_inv_def seen_key_def image_iff intro!: bexI [of _ "(r, q)"])
  ultimately show ?thesis by (simp add: log_metrics_def required_def assms(3) claim_batch_def)
qed

text \<open>The key of a batch joins two identifiers with a colon, so different batches share one.\<close>

lemma seen_key_collision:
  "seen_key (''a:b'', q\<lparr>lm_batch_id := ''c''\<rparr>) = seen_key (''a'', q\<lparr>lm_batch_id := ''b:c''\<rparr>)"
  by (simp add: seen_key_def batch_seen_key_def)

section \<open>Concrete calls\<close>

definition sample_gx :: GrpcExt where
  "sample_gx = \<lparr>gx_env = (\<lambda>_. None), gx_parse_uuid = (\<lambda>_. None), gx_upsert_batch = (\<lambda>_. Ok 0)\<rparr>"

definition sample_point :: GrpcMetricPoint where
  "sample_point = \<lparr>gp_name = ''loss'', gp_step = 0, gp_value = f_of_int 1, gp_timestamp = None\<rparr>"

definition sample_batch :: LogMetricsRequest where
  "sample_batch = \<lparr>lm_run_id = Some ''r'', lm_batch_id = ''b'', lm_metrics = Some [sample_point]\<rparr>"

definition sample_init :: InitRunRequest where
  "sample_init = \<lparr>in_project_id = Some ''p'', in_run_id = Some ''r'', in_name = None, in_tags = []\<rparr>"

abbreviation sample_run :: RunState where
  "sample_run \<equiv> \<lparr>rs_run_id = ''r'', rs_project_id = ''p'', rs_name = None, rs_status = Running, rs_created_at = 0,
     rs_updated_at = 0, rs_metrics_count = 0, rs_params_count = 0, rs_tags = Map.empty\<rparr>"

lemma sample_refused:
  "grpc_reach sample_gx [Claimed ''r'' sample_batch, Refused ''r'' sample_batch]
     (in_memory_store_new\<lparr>im_seen_batches := {''r:b''}\<rparr>, {#}, {#})"
proof -
  let ?st = "in_memory_store_new\<lparr>im_seen_batches := {''r:b''}\<rparr>"
  have "claim_batch ''r'' sample_batch in_memory_store_new = (True, ?st)"
    by (simp add: claim_batch_def in_memory_store_new_def batch_seen_key_def sample_batch_def)
  then have "grpc_step sample_gx (in_memory_store_new, {#}, {#}) (Claimed ''r'' sample_batch) (?st, {#(''r'', sample_batch)#}, {#})"
    by (intro grpc_step.claim) (simp_all add: sample_batch_def)
  moreover have "count_points 0 ''r'' sample_batch ?st = (Err (run_missing ''r''), ?st)"
    by (simp add: count_points_def with_run_def in_memory_store_new_def)
  then have "grpc_step sample_gx (?st, {#(''r'', sample_batch)#}, {#}) (Refused ''r'' sample_batch) (?st, {#}, {#})"
    using grpc_step.refuse [of "''r''" sample_batch "{#(''r'', sample_batch)#}"] by fastforce
  ultimately show ?thesis
    using grpc_reach.step [OF grpc_reach.step [OF grpc_reach.start]] by fastforce
qed

theorem grpc_refused_lost_witness:
  "fst (log_metrics 1 1 sample_batch (in_memory_store_new\<lparr>im_seen_batches := {''r:b''}\<rparr>))
     = Ok \<lparr>lr_accepted_count = 0, lr_deduplicated_count = 1, lr_server_time = Some \<lparr>ts_seconds = 0, ts_nanos = 1\<rparr>\<rparr>"
  using grpc_refused_lost [OF sample_refused, of "''r''" sample_batch 1 1]
  by (simp add: sample_batch_def now_timestamp_def point_count_def grpc_usize_to_i64_def)

lemma sample_stored:
  obtains st run where "grpc_reach sample_gx [Served, Claimed ''r'' sample_batch, Counted ''r'' sample_batch, Stored ''r'' sample_batch]
     (st, {#}, {#})" "im_runs st ''r'' = Some run"
proof -
  let ?s1 = "in_memory_store_new\<lparr>im_runs := [''r'' \<mapsto> sample_run]\<rparr>"
  let ?s2 = "?s1\<lparr>im_seen_batches := {''r:b''}\<rparr>"
  let ?s3 = "?s2\<lparr>im_runs := [''r'' \<mapsto> sample_run\<lparr>rs_metrics_count := 1\<rparr>]\<rparr>"
  let ?q = "(''r'', sample_batch)"
  obtain x where "init_run 0 0 ''u'' sample_init in_memory_store_new = (x, ?s1)"
    by (cases "init_run 0 0 ''u'' sample_init in_memory_store_new")
      (auto simp: init_run_def sample_init_def in_memory_store_new_def Let_def)
  then have 1: "grpc_step sample_gx (in_memory_store_new, {#}, {#}) Served (?s1, {#}, {#})" by (rule grpc_step.init)
  have "claim_batch ''r'' sample_batch ?s1 = (True, ?s2)"
    by (simp add: claim_batch_def in_memory_store_new_def batch_seen_key_def sample_batch_def)
  then have 2: "grpc_step sample_gx (?s1, {#}, {#}) (Claimed ''r'' sample_batch) (?s2, {#?q#}, {#})"
    by (intro grpc_step.claim) (simp_all add: sample_batch_def)
  have "count_points 0 ''r'' sample_batch ?s2 = (Ok (), ?s3)"
    by (simp add: count_points_def with_run_def in_memory_store_new_def u64_add_def grpc_usize_to_u64_def point_count_def sample_batch_def)
  then have 3: "grpc_step sample_gx (?s2, {#?q#}, {#}) (Counted ''r'' sample_batch) (?s3, {#}, {#?q#})"
    using grpc_step.count [of "''r''" sample_batch "{#?q#}" 0 ?s2 ?s3 sample_gx "{#}"] by simp
  have 4: "grpc_step sample_gx (?s3, {#}, {#?q#}) (Stored ''r'' sample_batch) (store_points ''r'' sample_batch ?s3, {#}, {#})"
    using grpc_step.store [of "''r''" sample_batch "{#?q#}" sample_gx ?s3 "{#}"] by simp
  have "grpc_reach sample_gx ([] @ [Served]) (?s1, {#}, {#})" by (rule grpc_reach.step [OF grpc_reach.start 1])
  then have "grpc_reach sample_gx (([] @ [Served]) @ [Claimed ''r'' sample_batch]) (?s2, {#?q#}, {#})" by (rule grpc_reach.step [OF _ 2])
  from grpc_reach.step [OF grpc_reach.step [OF this 3] 4]
  have reach: "grpc_reach sample_gx [Served, Claimed ''r'' sample_batch, Counted ''r'' sample_batch, Stored ''r'' sample_batch]
      (store_points ''r'' sample_batch ?s3, {#}, {#})"
    by simp
  have "im_runs (store_points ''r'' sample_batch ?s3) ''r'' = Some (sample_run\<lparr>rs_metrics_count := 1\<rparr>)"
    unfolding store_points_frame by simp
  with reach show ?thesis by (rule that)
qed

theorem grpc_exactly_once_witness:
  "\<exists>st run. metric_points st ''r'' ''loss'' = [stored_point sample_point] \<and> im_runs st ''r'' = Some run \<and> rs_metrics_count run = 1"
proof -
  obtain st run where r: "grpc_reach sample_gx [Served, Claimed ''r'' sample_batch, Counted ''r'' sample_batch, Stored ''r'' sample_batch]
     (st, {#}, {#})" and run: "im_runs st ''r'' = Some run" by (rule sample_stored)
  have "events_of stored_by [Served, Claimed ''r'' sample_batch, Counted ''r'' sample_batch, Stored ''r'' sample_batch] = [(''r'', sample_batch)]"
    by (simp add: map_filter_simps)
  moreover have "events_of counted_by [Served, Claimed ''r'' sample_batch, Counted ''r'' sample_batch, Stored ''r'' sample_batch] = [(''r'', sample_batch)]"
    by (simp add: map_filter_simps)
  ultimately show ?thesis using grpc_exactly_once [OF r, of "''r''" sample_batch "''loss''" run] run
    by (intro exI [of _ st] exI [of _ run])
      (simp add: request_points_def sample_batch_def stored_point_def sample_point_def grpc_usize_to_u64_def point_count_def)
qed

end
