(* ===== verification/Query_Handlers.thy ===== *)
theory Query_Handlers
  imports Ingest Metrics Run_Sql
begin

text \<open>
  The handlers that read runs (apps/api/src/main.rs: http_list_runs, http_get_run,
  http_get_metrics, http_get_run_events, http_get_run_charts, http_get_run_images,
  http_compare_runs, http_compare_run_charts). They are operations on the database, which they
  leave as it is but for rows of the audit log.

  Parameters: the date parser of chrono, the duration arithmetic and the average of SQLite.
\<close>

section \<open>Reading one run\<close>

definition i64_to_u64_or_zero :: "int \<Rightarrow> nat" where
  "i64_to_u64_or_zero n = (if 0 \<le> n then nat n else 0)"

text \<open>The guards of every endpoint that reads a run.\<close>

definition guard_run_read :: "Runtime \<Rightarrow> AuthContext \<Rightarrow> string \<Rightarrow> string \<Rightarrow> RunRec http" where
  "guard_run_read rt auth action run_id =
     op_bind (load_run run_id) (\<lambda>run.
     op_bind
       (require_endpoint_access rt auth Read (Some (rn_project_id run)) (Some run_id) action ''run'' (Some run_id)) (\<lambda>_.
     op_bind (lift_result (require_ui_run_owner auth run)) (\<lambda>_.
       op_return run)))"

definition checked_path :: "string \<Rightarrow> string \<Rightarrow> 'a http \<Rightarrow> 'a http" where
  "checked_path path_id name m = op_bind (lift_result (validate_path_id path_id name)) (\<lambda>_. m)"

text \<open>\<open>collect::<HashMap<..>>\<close>: a later entry of a key replaces an earlier one.\<close>

definition collect_map :: "(string \<times> string) list \<Rightarrow> string \<rightharpoonup> string" where
  "collect_map kvs = map_of (rev kvs)"

record 'd RunResponse =
  rp_run_id :: string
  rp_project_id :: string
  rp_name :: "string option"
  rp_status :: string
  rp_metrics_count :: nat
  rp_params_count :: nat
  rp_tags :: "string \<rightharpoonup> string"
  rp_created_at :: timestamp
  rp_updated_at :: timestamp
  rp_duration_seconds :: "'d option"

record 'd RunDetailResponse = "'d RunResponse" +
  rd_metrics_summary :: "(string \<times> f64 \<times> int) list"

definition run_response :: "'d RunRow \<Rightarrow> (string \<times> string) list \<Rightarrow> 'd RunResponse" where
  "run_response row tags =
     (let r = rr_run row in
      \<lparr>rp_run_id = rn_id r, rp_project_id = rn_project_id r, rp_name = rn_name r, rp_status = rn_status r,
       rp_metrics_count = i64_to_u64_or_zero (rn_metrics_count r),
       rp_params_count = i64_to_u64_or_zero (rn_params_count r), rp_tags = collect_map tags,
       rp_created_at = rn_created_at r, rp_updated_at = rn_updated_at r, rp_duration_seconds = rr_duration row\<rparr>)"

definition run_detail :: "'d RunRow \<Rightarrow> (string \<times> string) list \<Rightarrow> 'd RunDetailResponse" where
  "run_detail row tags = RunResponse.extend (run_response row tags) (RunDetailResponse.fields [])"

definition http_get_run ::
  "Runtime \<Rightarrow> (timestamp \<Rightarrow> timestamp \<Rightarrow> 'd option) \<Rightarrow> AuthContext \<Rightarrow> string \<Rightarrow> 'd RunDetailResponse http" where
  "http_get_run rt duration auth run_id =
     checked_path run_id ''run_id''
       (op_bind (guard_run_read rt auth ''run.read'' run_id) (\<lambda>run.
        op_bind (best_effort [] (get_tags run_id)) (\<lambda>tags.
          op_return (run_detail (run_row duration run) tags))))"

record MetricsQuery =
  mq_names :: string
  mq_max_points :: nat
  mq_start_step :: "int option"
  mq_end_step :: "int option"

definition default_max_points :: nat where
  "default_max_points = 1000"

record MetricsQueryResponse =
  ma_run_id :: string
  ma_series :: "MetricSeries list"
  ma_available_metrics :: "string list"
  ma_metric_aliases :: "string \<rightharpoonup> string"

definition query_names :: "string \<Rightarrow> string list" where
  "query_names names = (if names = [] then [] else map trim (split_on CHR '','' names))"

text \<open>The part that \<open>http_get_metrics\<close> and the shared view of a run have in common.\<close>

definition read_metrics :: "(f64 list \<Rightarrow> f64) \<Rightarrow> RunRec \<Rightarrow> MetricsQuery \<Rightarrow> MetricsQueryResponse http" where
  "read_metrics avg run q =
     op_bind (with_err internal_error
       (get_metrics avg (rn_id run) (query_names (mq_names q)) (mq_max_points q) (mq_start_step q) (mq_end_step q))) (\<lambda>series.
     op_bind (best_effort [] (get_metric_names (rn_id run))) (\<lambda>available.
     op_bind (best_effort Map.empty (get_metric_alias_map (rn_project_id run))) (\<lambda>aliases.
       op_return \<lparr>ma_run_id = rn_id run, ma_series = series, ma_available_metrics = available,
                  ma_metric_aliases = aliases\<rparr>)))"

definition http_get_metrics ::
  "Runtime \<Rightarrow> (f64 list \<Rightarrow> f64) \<Rightarrow> AuthContext \<Rightarrow> string \<Rightarrow> MetricsQuery \<Rightarrow> MetricsQueryResponse http" where
  "http_get_metrics rt avg auth run_id q =
     checked_path run_id ''run_id''
       (op_bind (guard_run_read rt auth ''run.metrics.read'' run_id) (\<lambda>run. read_metrics avg run q))"

record ListRunEventsResponse =
  le_run_id :: string
  le_events :: "RunEventRow list"
  le_next_after_id :: "int option"
  le_has_more :: bool

definition default_run_events_limit :: nat where
  "default_run_events_limit = 200"

definition clamp :: "nat \<Rightarrow> nat \<Rightarrow> nat \<Rightarrow> nat" where
  "clamp n lo hi = min (max n lo) hi"

text \<open>\<open>rows.last().map(id).or(after_id)\<close>\<close>

definition next_after :: "('r \<Rightarrow> int) \<Rightarrow> 'r list \<Rightarrow> int option \<Rightarrow> int option" where
  "next_after key rows after_id = (if rows = [] then after_id else Some (key (last rows)))"

definition http_get_run_events ::
  "Runtime \<Rightarrow> AuthContext \<Rightarrow> string \<Rightarrow> int option \<Rightarrow> nat \<Rightarrow> ListRunEventsResponse http" where
  "http_get_run_events rt auth run_id after_id requested =
     checked_path run_id ''run_id''
       (op_bind (guard_run_read rt auth ''run.events.read'' run_id) (\<lambda>run.
        let page = clamp requested 1 500 in
        op_bind (with_err internal_error (list_run_events run_id after_id (page + 1))) (\<lambda>rows.
          let shown = (if page < length rows then take page rows else rows) in
          op_return \<lparr>le_run_id = run_id, le_events = shown, le_next_after_id = next_after ev_id shown after_id,
                     le_has_more = page < length rows\<rparr>)))"

text \<open>Charts and images: the events of a window ten times the page, those of the kind and the names.\<close>

record StructuredRunLogsQuery =
  sq_after_id :: "int option"
  sq_limit :: nat
  sq_names :: "string option"

record 'r StructuredPage =
  sp_run_id :: string
  sp_items :: "'r list"
  sp_next_after_id :: "int option"
  sp_has_more :: bool

definition named :: "string set \<Rightarrow> ('r \<Rightarrow> string) \<Rightarrow> 'r \<Rightarrow> bool" where
  "named names name r \<longleftrightarrow> names = {} \<or> name r \<in> names"

definition structured_page ::
  "(RunEventRow \<Rightarrow> 'r option) \<Rightarrow> ('r \<Rightarrow> string) \<Rightarrow> ('r \<Rightarrow> RunEventRow) \<Rightarrow> string \<Rightarrow> StructuredRunLogsQuery \<Rightarrow> 'r StructuredPage http" where
  "structured_page decode name event run_id q =
     (let page = clamp (sq_limit q) 1 200; names = parse_name_filter (sq_names q) in
      op_bind (with_err internal_error
        (list_run_events run_id (sq_after_id q) (clamp (u64_saturating_mul page 10) 20 1000))) (\<lambda>rows.
        let found = filter (named names name) (List.map_filter decode rows);
            shown = (if page < length found then take page found else found) in
        op_return \<lparr>sp_run_id = run_id, sp_items = shown,
                   sp_next_after_id = next_after (ev_id \<circ> event) shown (sq_after_id q),
                   sp_has_more = page < length found\<rparr>))"

definition http_get_run_charts ::
  "Runtime \<Rightarrow> AuthContext \<Rightarrow> string \<Rightarrow> StructuredRunLogsQuery \<Rightarrow> RunChartLogResponse StructuredPage http" where
  "http_get_run_charts rt auth run_id q =
     checked_path run_id ''run_id''
       (op_bind (guard_run_read rt auth ''run.charts.read'' run_id) (\<lambda>_.
          structured_page (chart_log_from_event_row (rt_serde rt)) cl_name cl_event run_id q))"

definition http_get_run_images ::
  "Runtime \<Rightarrow> AuthContext \<Rightarrow> string \<Rightarrow> StructuredRunLogsQuery \<Rightarrow> RunImageLogResponse StructuredPage http" where
  "http_get_run_images rt auth run_id q =
     checked_path run_id ''run_id''
       (op_bind (guard_run_read rt auth ''run.images.read'' run_id) (\<lambda>_.
          structured_page (image_log_from_event_row (rt_serde rt)) im_name im_event run_id q))"

section \<open>The list of runs\<close>

record ListRunsQuery =
  lq_project :: "string option"
  lq_owner :: "string option"
  lq_status :: "string option"
  lq_name :: "string option"
  lq_q :: "string option"
  lq_tags :: "string option"
  lq_params :: "string option"
  lq_filter :: "string option"
  lq_sort_by :: "string option"
  lq_sort_order :: "string option"
  lq_created_after :: "string option"
  lq_created_before :: "string option"
  lq_limit :: "nat option"
  lq_offset :: "nat option"

record 'd ListRunsResponse =
  lo_runs :: "'d RunResponse list"
  lo_total :: nat
  lo_limit :: nat
  lo_offset :: nat

definition deny_list :: "Runtime \<Rightarrow> AuthContext \<Rightarrow> string \<Rightarrow> (string \<times> Json) list \<Rightarrow> string \<Rightarrow> 'a http" where
  "deny_list rt auth requested metadata message =
     op_bind
       (emit_audit_event rt (Some auth) (Some requested) None ''runs.list'' ''run'' None ''denied'' (JObject metadata))
       (\<lambda>_. op_fail (FORBIDDEN, message))"

definition effective_project :: "Runtime \<Rightarrow> AuthContext \<Rightarrow> string option \<Rightarrow> string option http" where
  "effective_project rt auth requested =
     (if is_platform_admin auth then op_return requested
      else
        (case allowed_project_ids auth of
           Some allowed \<Rightarrow>
             (case requested of
                Some p \<Rightarrow>
                  if p \<notin> allowed
                  then deny_list rt auth p [(''reason'', JString ''project_membership_mismatch'')]
                    (''Access denied: this user is not a member of project '' @ sq p @ ''.'')
                  else op_return (Some p)
              | None \<Rightarrow>
                  if card allowed = 1 then op_return (Some (the_elem allowed))
                  else op_fail (BAD_REQUEST, ''Multiple project memberships found. Provide ?project=<project_id>.''))
         | None \<Rightarrow>
             (case context_project_id auth of
                Some scoped \<Rightarrow>
                  if requested \<noteq> None \<and> requested \<noteq> Some scoped
                  then deny_list rt auth (the requested)
                    [(''reason'', JString ''api_key_project_scope_mismatch''), (''scoped_project'', JString scoped)]
                    (''Access denied: your key is scoped to project '' @ sq scoped @ '', cannot query ''
                      @ sq (the requested) @ ''.'')
                  else op_return (Some scoped)
              | None \<Rightarrow> op_return requested)))"

definition owner_user_filter :: "AuthContext \<Rightarrow> string option \<Rightarrow> (string option, http_error) result" where
  "owner_user_filter auth requested =
     (if is_ui_jwt auth \<and> \<not> is_platform_admin auth
      then
        try_bind (ok_or (auth_user_id auth) (FORBIDDEN, ''Unable to resolve user identity for run listing.'')) (\<lambda>u.
          if requested \<noteq> None \<and> requested \<noteq> Some u
          then Err (FORBIDDEN, ''Access denied: non-admin users can only query their own runs.'')
          else Ok (Some u))
      else Ok requested)"

text \<open>\<open>opt.map(f).transpose()?\<close>\<close>

definition transpose_map :: "('a \<Rightarrow> ('b, 'e) result) \<Rightarrow> 'a option \<Rightarrow> ('b option, 'e) result" where
  "transpose_map f v = (case v of None \<Rightarrow> Ok None | Some x \<Rightarrow> try_bind (f x) (\<lambda>y. Ok (Some y)))"

text \<open>
  The part of the query that is parsed. The parser of filters is a function with fuel; it has
  enough of it for every text, so that the last case never happens.
\<close>

definition parse_list_query :: "Chrono \<Rightarrow> ListRunsQuery \<Rightarrow> (RunListQuery, http_error) result" where
  "parse_list_query ch q =
     try_bind (parse_metadata_filters (lq_tags q) ''tags'' ''tags'') (\<lambda>tags.
     try_bind (parse_metadata_filters (lq_params q) ''parameters'' ''params'') (\<lambda>params.
     try_bind (case parse_run_filter_expr ch (lq_filter q) of Some r \<Rightarrow> r | None \<Rightarrow> Ok None) (\<lambda>expr.
     try_bind (parse_run_list_sort_field (lq_sort_by q)) (\<lambda>field.
     try_bind (parse_run_list_sort_order (lq_sort_order q)) (\<lambda>order.
     try_bind (transpose_map (\<lambda>raw. normalize_created_at_filter ch raw ''created_after'') (lq_created_after q)) (\<lambda>after.
     try_bind (transpose_map (\<lambda>raw. normalize_created_at_filter ch raw ''created_before'') (lq_created_before q)) (\<lambda>before.
       Ok \<lparr>q_project = None, q_owner = None, q_status = lq_status q, q_query = lq_q q, q_name = lq_name q,
           q_created_after = after, q_created_before = before, q_tags = tags, q_params = params, q_filter = expr,
           q_sort_field = field, q_sort_order = order,
           q_limit = min (case lq_limit q of Some n \<Rightarrow> n | None \<Rightarrow> 100) 1000,
           q_offset = (case lq_offset q of Some n \<Rightarrow> n | None \<Rightarrow> 0)\<rparr>)))))))"

fun op_map :: "('a \<Rightarrow> ('s, 'b, 'e) op) \<Rightarrow> 'a list \<Rightarrow> ('s, 'b list, 'e) op" where
  "op_map f [] = op_return []"
| "op_map f (x # xs) = op_bind (f x) (\<lambda>y. op_bind (op_map f xs) (\<lambda>ys. op_return (y # ys)))"

definition http_list_runs ::
  "Runtime \<Rightarrow> Chrono \<Rightarrow> (timestamp \<Rightarrow> timestamp \<Rightarrow> 'd::linorder option) \<Rightarrow> AuthContext \<Rightarrow> ListRunsQuery \<Rightarrow>
   'd ListRunsResponse http" where
  "http_list_runs rt ch duration auth lq =
     op_bind (require_endpoint_access rt auth Read None None ''runs.list'' ''run'' None) (\<lambda>_.
     op_bind (lift_result (parse_list_query ch lq)) (\<lambda>q.
     op_bind (effective_project rt auth (lq_project lq)) (\<lambda>project.
     op_bind (lift_result (owner_user_filter auth (lq_owner lq))) (\<lambda>owner.
     op_bind (lift_result (case owner of Some u \<Rightarrow> validate_path_id u ''owner'' | None \<Rightarrow> Ok ())) (\<lambda>_.
     op_bind (with_err internal_error (list_runs duration (q\<lparr>q_project := project, q_owner := owner\<rparr>))) (\<lambda>(rows, total).
     op_bind (op_map (\<lambda>row. op_bind (best_effort [] (get_tags (rn_id (rr_run row)))) (\<lambda>tags.
       op_return (run_response row tags))) rows) (\<lambda>runs.
       op_return \<lparr>lo_runs = runs, lo_total = total, lo_limit = q_limit q, lo_offset = q_offset q\<rparr>)))))))"

section \<open>Comparing runs\<close>

record CompareRunsRequest =
  cr_run_ids :: "string list"
  cr_metric_names :: "string list"
  cr_max_points :: nat
  cr_alignment :: string
  cr_limit :: nat
  cr_offset :: nat

abbreviation MAX_COMPARE_RUN_IDS :: nat where "MAX_COMPARE_RUN_IDS \<equiv> 5000"
abbreviation MAX_COMPARE_PAGE_LIMIT :: nat where "MAX_COMPARE_PAGE_LIMIT \<equiv> 1000"

record RunCompareData =
  cd_run_id :: string
  cd_run_name :: "string option"
  cd_status :: string
  cd_series :: "MetricSeries list"
  cd_metric_aliases :: "string \<rightharpoonup> string"

record CompareRunsResponse =
  co_runs :: "RunCompareData list"
  co_common_metrics :: "string list"
  co_alignment :: string
  co_total :: nat
  co_limit :: nat
  co_offset :: nat

text \<open>Ids in order of their first occurrence.\<close>

fun unique_ids :: "string set \<Rightarrow> string list \<Rightarrow> string list" where
  "unique_ids seen [] = []"
| "unique_ids seen (x # xs) = (if x \<in> seen then unique_ids seen xs else x # unique_ids (insert x seen) xs)"

definition common_names :: "string set list \<Rightarrow> string list" where
  "common_names sets = (case sets of [] \<Rightarrow> [] | s # rest \<Rightarrow> sorted_list_of_set (foldl (\<inter>) s rest))"

text \<open>The loop over the page, with the aliases of the projects met so far.\<close>

fun compare_loop ::
  "Runtime \<Rightarrow> (f64 list \<Rightarrow> f64) \<Rightarrow> AuthContext \<Rightarrow> CompareRunsRequest \<Rightarrow> (string \<rightharpoonup> string \<rightharpoonup> string) \<Rightarrow> string list \<Rightarrow>
   (RunCompareData \<times> string set) list http" where
  "compare_loop rt avg auth req cache [] = op_return []"
| "compare_loop rt avg auth req cache (run_id # ids) =
     op_bind (guard_run_read rt auth ''runs.compare'' run_id) (\<lambda>run.
     op_bind (with_err internal_error (get_metrics avg run_id (cr_metric_names req) (cr_max_points req) None None)) (\<lambda>series.
     op_bind (best_effort [] (get_metric_names run_id)) (\<lambda>available.
     op_bind
       (case cache (rn_project_id run) of
          Some aliases \<Rightarrow> op_return (aliases, cache)
        | None \<Rightarrow> op_bind (best_effort Map.empty (get_metric_alias_map (rn_project_id run))) (\<lambda>aliases.
            op_return (aliases, cache(rn_project_id run \<mapsto> aliases)))) (\<lambda>(aliases, cache').
     op_bind (compare_loop rt avg auth req cache' ids) (\<lambda>rest.
       op_return ((\<lparr>cd_run_id = run_id, cd_run_name = rn_name run, cd_status = rn_status run, cd_series = series,
                    cd_metric_aliases = aliases\<rparr>, set available) # rest))))))"

definition http_compare_runs ::
  "Runtime \<Rightarrow> (f64 list \<Rightarrow> f64) \<Rightarrow> AuthContext \<Rightarrow> CompareRunsRequest \<Rightarrow> CompareRunsResponse http" where
  "http_compare_runs rt avg auth req =
     (if cr_run_ids req = [] then op_fail (BAD_REQUEST, ''run_ids cannot be empty'')
      else if MAX_COMPARE_RUN_IDS < length (cr_run_ids req)
      then op_fail (BAD_REQUEST, ''Maximum '' @ show_nat MAX_COMPARE_RUN_IDS @ '' runs can be compared'')
      else if cr_limit req = 0 then op_fail (BAD_REQUEST, ''limit must be >= 1'')
      else
        (let page = min (cr_limit req) MAX_COMPARE_PAGE_LIMIT; ids = unique_ids {} (cr_run_ids req) in
         op_bind (compare_loop rt avg auth req Map.empty (take page (drop (cr_offset req) ids))) (\<lambda>data.
           op_return \<lparr>co_runs = map fst data, co_common_metrics = common_names (map snd data),
                      co_alignment = cr_alignment req, co_total = length ids, co_limit = page,
                      co_offset = cr_offset req\<rparr>)))"

record CompareRunChartsRequest =
  cc_run_ids :: "string list"
  cc_chart_names :: "string list"
  cc_limit_per_run :: nat

record RunChartsCompareData =
  ce_run_id :: string
  ce_run_name :: "string option"
  ce_status :: string
  ce_charts :: "RunChartLogResponse list"

definition compare_charts_of ::
  "Runtime \<Rightarrow> AuthContext \<Rightarrow> CompareRunChartsRequest \<Rightarrow> string \<Rightarrow> RunChartsCompareData http" where
  "compare_charts_of rt auth req run_id =
     op_bind (guard_run_read rt auth ''runs.compare.charts'' run_id) (\<lambda>run.
     op_bind (with_err internal_error (list_run_events run_id None 1000)) (\<lambda>rows.
       op_return \<lparr>ce_run_id = run_id, ce_run_name = rn_name run, ce_status = rn_status run,
                  ce_charts = take (clamp (cc_limit_per_run req) 1 200)
                    (filter (named (set (cc_chart_names req)) cl_name)
                       (List.map_filter (chart_log_from_event_row (rt_serde rt)) rows))\<rparr>))"

definition http_compare_run_charts ::
  "Runtime \<Rightarrow> AuthContext \<Rightarrow> CompareRunChartsRequest \<Rightarrow> (RunChartsCompareData list \<times> string list) http" where
  "http_compare_run_charts rt auth req =
     (if cc_run_ids req = [] then op_fail (BAD_REQUEST, ''run_ids cannot be empty'')
      else if 100 < length (cc_run_ids req) then op_fail (BAD_REQUEST, ''Maximum 100 runs can be compared'')
      else
        op_bind (op_map (compare_charts_of rt auth req) (cc_run_ids req)) (\<lambda>runs.
          op_return (runs, common_names (map (\<lambda>d. set (map cl_name (ce_charts d))) runs))))"

text \<open>One step of a sequence, when its first operation is known.\<close>

lemma op_bind_first: "m db = (Ok x, db') \<Longrightarrow> op_bind m f db = f x db'"
  by (simp add: op_bind_apply)

lemma op_bind_same: "m db = m' db \<Longrightarrow> op_bind m f db = op_bind m' f db"
  by (simp add: op_bind_apply)

lemma op_return_apply: "op_return x db = (Ok x, db)"
  by (simp add: op_return_def)

section \<open>Who may read\<close>

definition read_granted :: "Runtime \<Rightarrow> AuthContext \<Rightarrow> RunRec \<Rightarrow> bool" where
  "read_granted rt auth run \<longleftrightarrow>
     endpoint_granted rt auth Read (Some (rn_project_id run)) \<and> run_owner_granted auth run"

lemma run_owner_granted_code [code]:
  "run_owner_granted auth run \<longleftrightarrow>
     is_dev_mode auth \<or> is_platform_admin auth \<or> \<not> is_ui_jwt auth
   \<or> (case auth_user_id auth of Some u \<Rightarrow> rn_user_id run = None \<or> rn_user_id run = Some u | None \<Rightarrow> False)"
  by (auto simp: run_owner_granted_def split: option.splits)

definition readable :: "Runtime \<Rightarrow> AuthContext \<Rightarrow> string \<Rightarrow> Db \<Rightarrow> bool" where
  "readable rt auth rid db \<longleftrightarrow> (\<exists>run. find_run rid db = Some run \<and> read_granted rt auth run)"

lemma guard_run_read_cases:
  obtains (missing) "find_run rid db = None"
      "guard_run_read rt auth action rid db = (Err (NOT_FOUND, ''Run not found: '' @ rid), db)"
  | (granted) run where "find_run rid db = Some run" "read_granted rt auth run"
      "guard_run_read rt auth action rid db = (Ok run, db)"
  | (refused) run msg db' where "find_run rid db = Some run" "\<not> read_granted rt auth run"
      "guard_run_read rt auth action rid db = (Err (FORBIDDEN, msg), db')" "audit_extends db db'"
proof (cases "find_run rid db")
  case None
  then show ?thesis by (intro missing) (simp_all add: guard_run_read_def op_bind_apply load_run_apply)
next
  case (Some run)
  let ?e = "(rt, auth, Read, Some (rn_project_id run), Some rid, action, ''run'', Some rid)"
  note e = endpoint_guard.pass [of ?e db] endpoint_guard.refuse [of ?e db]
    and o = run_owner_guard.pass [of "(auth, run)" db] run_owner_guard.refuse [of "(auth, run)" db]
  show ?thesis
  proof (cases "read_granted rt auth run")
    case True
    with Some e(1) o(1) show ?thesis
      by (intro granted) (auto simp: guard_run_read_def op_bind_apply load_run_apply read_granted_def)
  next
    case False
    with Some e o show ?thesis
      by (cases "endpoint_granted rt auth Read (Some (rn_project_id run))")
        (auto simp: guard_run_read_def op_bind_apply load_run_apply read_granted_def intro: refused)
  qed
qed

text \<open>A failure that shows nothing and changes nothing but the audit log.\<close>

definition refused :: "'a http \<Rightarrow> Db \<Rightarrow> bool" where
  "refused m db \<longleftrightarrow> (\<exists>st msg db'. m db = (Err (st, msg), db') \<and> st \<in> {BAD_REQUEST, FORBIDDEN, NOT_FOUND} \<and> audit_extends db db')"

text \<open>
  The endpoints that read one run have one shape: the path is checked, the guards are passed, and
  what follows only reads. What a caller can learn from such an endpoint is proved here once.
\<close>

locale run_reader =
  fixes handler :: "Runtime \<Rightarrow> AuthContext \<Rightarrow> string \<Rightarrow> 'q \<Rightarrow> 'r http"
    and action :: string
    and body :: "Runtime \<Rightarrow> string \<Rightarrow> 'q \<Rightarrow> RunRec \<Rightarrow> 'r http"
  assumes shape: "handler rt auth rid q = checked_path rid ''run_id'' (op_bind (guard_run_read rt auth action rid) (body rt rid q))"
    and reads: "snd (body rt rid q run db) = db"
begin

lemma answered:
  assumes "handler rt auth rid q db = (Ok x, db')"
  shows "readable rt auth rid db" "db' = db"
    "\<exists>run. find_run rid db = Some run \<and> body rt rid q run db = (Ok x, db)"
proof -
  obtain run where "find_run rid db = Some run" "read_granted rt auth run" "body rt rid q run db = (Ok x, db')"
    using assms
    by (cases rule: guard_run_read_cases [of rid db rt auth action]; cases "validate_path_id rid ''run_id''")
      (auto simp: shape checked_path_def lift_result_def op_bind_apply)
  moreover from this(3) have "db' = db" using reads [of rt rid q run db] by simp
  ultimately show "readable rt auth rid db" "db' = db" "\<exists>run. find_run rid db = Some run \<and> body rt rid q run db = (Ok x, db)"
    by (auto simp: readable_def)
qed

lemma unreadable:
  assumes "\<not> readable rt auth rid db"
  shows "refused (handler rt auth rid q) db"
proof (cases "validate_path_id rid ''run_id''")
  case (Ok u)
  then show ?thesis using assms
    by (cases rule: guard_run_read_cases [of rid db rt auth action])
      (auto simp: refused_def shape checked_path_def lift_result_def op_bind_apply readable_def)
next
  case (Err e)
  then have "fst e = BAD_REQUEST" by (auto simp: validate_path_id_def split: if_splits)
  with Err show ?thesis by (cases e) (simp add: refused_def shape checked_path_def lift_result_def op_bind_apply)
qed

lemma reading:
  assumes "validate_path_id rid ''run_id'' = Ok ()" "find_run rid db = Some run" "read_granted rt auth run"
  shows "handler rt auth rid q db = body rt rid q run db"
  using assms
  by (cases rule: guard_run_read_cases [of rid db rt auth action])
    (auto simp: shape checked_path_def lift_result_def op_bind_apply)

end

lemmas read_simps = op_bind_apply with_err_def get_tags_def get_metric_names_def list_run_events_def op_read_def
  get_metric_alias_map_def list_metric_aliases_def op_return_def best_effort_def

text \<open>The outcome of an operation without its value.\<close>

definition map_res :: "('a \<Rightarrow> 'b) \<Rightarrow> ('s, 'a, 'e) op \<Rightarrow> ('s, 'b, 'e) op" where
  "map_res f m = (\<lambda>s. case m s of (Ok v, s') \<Rightarrow> (Ok (f v), s') | (Err e, s') \<Rightarrow> (Err e, s'))"

lemma refused_map_res [simp]: "refused (map_res f m) db = refused m db"
  by (auto simp: refused_def map_res_def split: result.splits prod.splits)

interpretation run_detail: run_reader "\<lambda>rt auth rid duration. http_get_run rt duration auth rid" "''run.read''"
  "\<lambda>rt rid duration run. op_bind (best_effort [] (get_tags rid)) (\<lambda>tags. op_return (run_detail (run_row duration run) tags))"
  by unfold_locales (simp_all add: http_get_run_def read_simps)

lemma read_metrics_apply:
  "read_metrics avg run q db =
     (case fst (get_metrics avg (rn_id run) (query_names (mq_names q)) (mq_max_points q) (mq_start_step q) (mq_end_step q) db) of
        Ok series \<Rightarrow>
          (Ok \<lparr>ma_run_id = rn_id run, ma_series = series,
              ma_available_metrics = ok_val (fst (get_metric_names (rn_id run) db)),
              ma_metric_aliases = ok_val (fst (get_metric_alias_map (rn_project_id run) db))\<rparr>, db)
      | Err e \<Rightarrow> (Err (internal_error e), db))"
proof -
  have "snd (get_metrics avg (rn_id run) (query_names (mq_names q)) (mq_max_points q) (mq_start_step q) (mq_end_step q) db) = db"
    by (simp add: get_metrics_def)
  then obtain r where r: "get_metrics avg (rn_id run) (query_names (mq_names q)) (mq_max_points q) (mq_start_step q) (mq_end_step q) db = (r, db)"
    by (metis prod.collapse)
  show ?thesis by (cases r) (simp_all add: read_metrics_def r read_simps)
qed

lemma read_metrics_db [simp]: "snd (read_metrics avg run q db) = db"
  by (simp add: read_metrics_apply split: result.splits)

lemma read_metrics_about: "read_metrics avg run q db = (Ok x, db') \<Longrightarrow> ma_run_id x = rn_id run"
  by (auto simp: read_metrics_apply split: result.splits)

interpretation run_metrics: run_reader "\<lambda>rt auth rid (avg, q). http_get_metrics rt avg auth rid q" "''run.metrics.read''"
  "\<lambda>rt rid (avg, q) run. read_metrics avg run q"
  by unfold_locales (auto simp: http_get_metrics_def)

definition events_page :: "string \<Rightarrow> int option \<times> nat \<Rightarrow> ListRunEventsResponse http" where
  "events_page run_id q =
     (let page = clamp (snd q) 1 500 in
      op_bind (with_err internal_error (list_run_events run_id (fst q) (page + 1))) (\<lambda>rows.
        let shown = (if page < length rows then take page rows else rows) in
        op_return \<lparr>le_run_id = run_id, le_events = shown, le_next_after_id = next_after ev_id shown (fst q),
                   le_has_more = page < length rows\<rparr>))"

interpretation run_events: run_reader "\<lambda>rt auth rid q. http_get_run_events rt auth rid (fst q) (snd q)" "''run.events.read''"
  "\<lambda>rt rid q run. events_page rid q"
  by unfold_locales (simp_all add: http_get_run_events_def events_page_def read_simps Let_def)

lemma structured_page_reads: "snd (structured_page decode name event rid q db) = db"
  by (simp add: structured_page_def read_simps Let_def)

interpretation run_charts: run_reader http_get_run_charts "''run.charts.read''"
  "\<lambda>rt rid q run. structured_page (chart_log_from_event_row (rt_serde rt)) cl_name cl_event rid q"
  by unfold_locales (simp_all add: http_get_run_charts_def structured_page_reads)

interpretation run_images: run_reader http_get_run_images "''run.images.read''"
  "\<lambda>rt rid q run. structured_page (image_log_from_event_row (rt_serde rt)) im_name im_event rid q"
  by unfold_locales (simp_all add: http_get_run_images_def structured_page_reads)

text \<open>
  C15: nobody reads a run without permission. The endpoints for the detail, the metrics, the events,
  the charts and the images of a run answer only when the run exists, the caller has the read scope
  and access to its project, and a user session owns the run; otherwise they fail with 400, 403 or
  404, and all they change is that the audit log may have grown.
\<close>

theorem run_reads_guarded:
  assumes "\<not> (\<exists>run. find_run rid db = Some run \<and> read_granted rt auth run)"
    and "m \<in> {map_res (\<lambda>_. ()) (http_get_run rt duration auth rid), map_res (\<lambda>_. ()) (http_get_metrics rt avg auth rid mq),
              map_res (\<lambda>_. ()) (http_get_run_events rt auth rid after n), map_res (\<lambda>_. ()) (http_get_run_charts rt auth rid lq),
              map_res (\<lambda>_. ()) (http_get_run_images rt auth rid lq)}"
  shows "refused m db"
proof -
  have no: "\<not> readable rt auth rid db" using assms(1) by (simp add: readable_def)
  show ?thesis
    using assms(2) run_detail.unreadable [OF no, of duration] run_metrics.unreadable [OF no, of "(avg, mq)"]
      run_events.unreadable [OF no, of "(after, n)"] run_charts.unreadable [OF no, of lq] run_images.unreadable [OF no, of lq]
    by (elim insertE emptyE) simp_all
qed

section \<open>Paging\<close>

lemma events_page_apply:
  assumes "db_ok db"
  shows "events_page rid (after, n) db =
    (let page = clamp n 1 500; rows = take (page + 1) (events_after rid after db); shown = take page rows in
     (Ok \<lparr>le_run_id = rid, le_events = shown, le_next_after_id = next_after ev_id shown after,
          le_has_more = page < length rows\<rparr>, db))"
proof -
  have "min (max (clamp n 1 500 + 1) 1) 1000 = clamp n 1 500 + 1" by (simp add: clamp_def)
  then show ?thesis
    by (simp add: events_page_def op_bind_apply with_err_def list_run_events_page [OF assms] Let_def min_def)
qed

text \<open>
  C29: paging through the events of a run. Whatever page size the client asks for, the events of the
  page followed by those after the returned cursor are exactly the events after the cursor it sent,
  in order; the flag says whether any are left; and a page is empty only when there are none. So a
  client that follows the cursor until the flag is off has seen every event exactly once.
\<close>

theorem run_events_paging:
  assumes "db_ok db" and "http_get_run_events rt auth rid after n db = (Ok page, db')"
  shows "db' = db
    \<and> events_after rid after db = le_events page @ events_after rid (le_next_after_id page) db
    \<and> (le_has_more page \<longleftrightarrow> events_after rid (le_next_after_id page) db \<noteq> [])
    \<and> (le_events page = [] \<longrightarrow> events_after rid after db = []) \<and> length (le_events page) \<le> 500"
proof -
  let ?n = "clamp n 1 500" and ?all = "events_after rid after db"
  have n: "0 < ?n" "?n \<le> 500" "min (max ?n 1) 1000 = ?n" by (auto simp: clamp_def)
  have body: "events_page rid (after, n) db = (Ok page, db)" "db' = db"
    using run_events.answered [of rt auth rid "(after, n)" db page db'] assms(2) by auto
  then have page: "le_events page = take ?n ?all" "le_next_after_id page = next_after ev_id (take ?n ?all) after"
    "le_has_more page = (?n < length ?all)"
    unfolding events_page_apply [OF assms(1)] by (auto simp: Let_def min_def split: if_splits)
  have "list_run_events rid after ?n db = (Ok (take ?n ?all), db)"
    unfolding list_run_events_page [OF assms(1)] n(3) ..
  from event_polling_complete [OF assms(1) this]
  have split: "if take ?n ?all = [] then ?all = [] else ?all = take ?n ?all @ events_after rid (Some (ev_id (last (take ?n ?all)))) db"
    by blast
  have rest: "?all = take ?n ?all @ events_after rid (le_next_after_id page) db"
    using split page(2) by (cases "take ?n ?all = []") (auto simp: next_after_def)
  then have "events_after rid (le_next_after_id page) db = drop ?n ?all"
    by (metis append_take_drop_id same_append_eq)
  then show ?thesis using body(2) page rest n split by auto
qed

text \<open>
  charts can be out of reach. The chart endpoint looks at a window of events only, and takes its
  cursor and its flag from the charts found in it. When the window holds no chart of the requested
  names the answer is an empty page, the cursor the client sent, and no more to come, whatever
  charts the run has later; asking again with that cursor gives the same answer.
\<close>

lemma charts_page_gap:
  assumes "validate_path_id rid ''run_id'' = Ok ()" "find_run rid db = Some run" "read_granted rt auth run" "db_ok db"
    and "\<forall>e \<in> set (take (clamp (u64_saturating_mul (clamp (sq_limit q) 1 200) 10) 20 1000) (events_after rid (sq_after_id q) db)).
      \<forall>c. chart_log_from_event_row (rt_serde rt) e = Some c \<longrightarrow> \<not> named (parse_name_filter (sq_names q)) cl_name c"
  shows "http_get_run_charts rt auth rid q db
    = (Ok \<lparr>sp_run_id = rid, sp_items = [], sp_next_after_id = sq_after_id q, sp_has_more = False\<rparr>, db)"
proof -
  let ?w = "clamp (u64_saturating_mul (clamp (sq_limit q) 1 200) 10) 20 1000"
  let ?rows = "take ?w (events_after rid (sq_after_id q) db)"
  have w: "min (max ?w 1) 1000 = ?w" by (simp add: clamp_def)
  have none: "filter (named (parse_name_filter (sq_names q)) cl_name)
      (List.map_filter (chart_log_from_event_row (rt_serde rt)) ?rows) = []"
    using assms(5) by (auto simp: List.map_filter_def filter_empty_conv)
  have page: "with_err internal_error (list_run_events rid (sq_after_id q) ?w) db = (Ok ?rows, db)"
    unfolding with_err_def list_run_events_page [OF assms(4)] w by simp
  have "structured_page (chart_log_from_event_row (rt_serde rt)) cl_name cl_event rid q db
      = (Ok \<lparr>sp_run_id = rid, sp_items = [], sp_next_after_id = sq_after_id q, sp_has_more = False\<rparr>, db)"
    unfolding structured_page_def Let_def op_bind_apply page by (simp add: none [unfolded One_nat_def] next_after_def op_return_def)
  then show ?thesis using run_charts.reading [OF assms(1-3), of q] by simp
qed

section \<open>What the list shows\<close>

lemma deny_list_not_Ok [simp]: "deny_list rt auth p md msg db \<noteq> (Ok x, db')"
  by (simp add: deny_list_def op_bind_apply emit_audit_event_def op_fail_def)

lemma effective_project_Ok:
  assumes "effective_project rt auth requested db = (Ok p, db')"
  shows "db' = db" "\<And>pid. p = None \<or> p = Some pid \<Longrightarrow> project_granted auth pid"
proof -
  have "db' = db \<and> (p = None \<longrightarrow> (\<forall>pid. project_granted auth pid)) \<and> (\<forall>pid. p = Some pid \<longrightarrow> project_granted auth pid)"
    using assms
    by (auto simp: effective_project_def project_granted_def context_project_id_def op_return_def op_fail_def card_1_singleton_iff
        split: if_splits option.splits)
  then show "db' = db" "\<And>pid. p = None \<or> p = Some pid \<Longrightarrow> project_granted auth pid" by auto
qed

lemma owner_user_filter_Ok:
  assumes "owner_user_filter auth requested = Ok owner" "is_ui_jwt auth" "\<not> is_platform_admin auth"
  obtains u where "auth_user_id auth = Some u" "owner = Some u"
  using assms by (auto simp: owner_user_filter_def try_bind_Ok_iff ok_or_Ok_iff split: if_splits)

lemma op_map_pure: "(\<And>x. f x db = (Ok (g x), db)) \<Longrightarrow> op_map f xs db = (Ok (map g xs), db)"
  by (induction xs) (simp_all add: op_bind_apply op_return_def)

lemma list_tags:
  "op_map (\<lambda>row. op_bind (best_effort [] (get_tags (rn_id (rr_run row)))) (\<lambda>tags. op_return (run_response row tags))) rows db
     = (Ok (map (\<lambda>row. run_response row (ok_val (fst (get_tags (rn_id (rr_run row)) db)))) rows), db)"
  by (rule op_map_pure) (simp add: read_simps)

lemma parse_list_query_wf: "parse_list_query ch lq = Ok q \<Longrightarrow> opt_holds (q_filter q) (\<lambda>e. list_all wf_condition (conditions e))"
  using parse_run_filter_expr_spec [of ch "lq_filter lq"]
  by (auto simp: parse_list_query_def try_bind_Ok_iff opt_holds_def split: option.splits)

text \<open>What an answer of the list consists of: runs of the database that match the restricted query.\<close>

lemma http_list_runs_Ok:
  assumes "http_list_runs rt ch duration auth lq db = (Ok resp, db')"
  obtains q project owner where "parse_list_query ch lq = Ok q" "effective_project rt auth (lq_project lq) db = (Ok project, db)"
    "owner_user_filter auth (lq_owner lq) = Ok owner" "db' = db"
    "\<And>x. x \<in> set (lo_runs resp) \<Longrightarrow> \<exists>r \<in> set (t_runs db). rp_run_id x = rn_id r \<and> rp_project_id x = rn_project_id r
       \<and> query_matches (q\<lparr>q_project := project, q_owner := owner\<rparr>) (run_view db r)"
proof -
  let ?e = "(rt, auth, Read, None, None, ''runs.list'', ''run'', None)"
  have guard: "require_endpoint_access rt auth Read None None ''runs.list'' ''run'' None db = (Ok (), db)"
    using endpoint_guard.guarded_Ok [of ?e _ db resp db'] endpoint_guard.pass [of ?e db] assms
    by (simp add: http_list_runs_def)
  with assms obtain q project owner where q: "parse_list_query ch lq = Ok q"
      and p: "effective_project rt auth (lq_project lq) db = (Ok project, db)"
      and o: "owner_user_filter auth (lq_owner lq) = Ok owner"
      and rest: "op_bind (with_err internal_error (list_runs duration (q\<lparr>q_project := project, q_owner := owner\<rparr>))) (\<lambda>(rows, total).
        op_bind (op_map (\<lambda>row. op_bind (best_effort [] (get_tags (rn_id (rr_run row)))) (\<lambda>tags. op_return (run_response row tags))) rows)
          (\<lambda>runs. op_return \<lparr>lo_runs = runs, lo_total = total, lo_limit = q_limit q, lo_offset = q_offset q\<rparr>)) db = (Ok resp, db')"
    by (fastforce simp: http_list_runs_def op_bind_Ok_iff lift_result_Ok_iff dest: effective_project_Ok(1))
  let ?q = "q\<lparr>q_project := project, q_owner := owner\<rparr>"
  have wf: "opt_holds (q_filter ?q) (\<lambda>e. list_all wf_condition (conditions e))" using parse_list_query_wf [OF q] by simp
  define S where "S = sort_by (run_order duration (q_sort_field q) (q_sort_order q)) (filter (\<lambda>r. query_matches ?q (run_view db r)) (t_runs db))"
  have "lo_runs resp = map (\<lambda>row. run_response row (ok_val (fst (get_tags (rn_id (rr_run row)) db))))
      (map (run_row duration) (take (min (q_limit q) (nat I64_MAX)) (drop (min (q_offset q) (nat I64_MAX)) S)))" "db' = db"
    using rest
    by (auto simp: list_tags op_bind_apply with_err_def list_runs_apply [OF wf] Let_def S_def)
  then have "\<exists>r \<in> set (t_runs db). rp_run_id x = rn_id r \<and> rp_project_id x = rn_project_id r \<and> query_matches ?q (run_view db r)"
    if "x \<in> set (lo_runs resp)" for x
    using that by (auto simp: run_response_def run_row_def S_def Let_def dest!: in_set_takeD in_set_dropD)
  with q p o \<open>db' = db\<close> show ?thesis by (rule that)
qed

text \<open>A project that bears the identifier of another one as its name.\<close>

definition name_clash :: "string \<Rightarrow> Db \<Rightarrow> bool" where
  "name_clash pid db \<longleftrightarrow> (\<exists>p \<in> set (t_projects db). pj_name p = pid \<and> pj_id p \<noteq> pid)"

lemma query_project_match:
  assumes "query_matches q (run_view db r)" "q_project q = Some pid" "\<not> name_clash pid db"
  shows "rn_project_id r = pid"
  using assms by (auto simp: query_matches_def opt_holds_def run_view_def name_clash_def dest!: find_SomeD)

text \<open>
  C16: the list shows a caller only what it may see. When no project is named after the identifier
  of a project the caller has access to, every run of an answered listing belongs to a project the
  caller has access to, and for a user session without platform rights it is one of the user's own
  runs. The database is as it was.
\<close>

theorem http_list_runs_isolated:
  assumes "http_list_runs rt ch duration auth lq db = (Ok resp, db')"
    and "\<And>pid. project_granted auth pid \<Longrightarrow> \<not> name_clash pid db" and "x \<in> set (lo_runs resp)"
  shows "db' = db \<and> project_granted auth (rp_project_id x)
    \<and> (\<exists>r \<in> set (t_runs db). rn_id r = rp_run_id x
         \<and> (is_ui_jwt auth \<and> \<not> is_platform_admin auth \<longrightarrow> rn_user_id r = auth_user_id auth \<and> rn_user_id r \<noteq> None))"
  using assms(1)
proof (rule http_list_runs_Ok)
  fix q project owner
  assume p: "effective_project rt auth (lq_project lq) db = (Ok project, db)"
    and o: "owner_user_filter auth (lq_owner lq) = Ok owner" and db': "db' = db"
    and rows: "\<And>x. x \<in> set (lo_runs resp) \<Longrightarrow> \<exists>r \<in> set (t_runs db). rp_run_id x = rn_id r \<and> rp_project_id x = rn_project_id r
       \<and> query_matches (q\<lparr>q_project := project, q_owner := owner\<rparr>) (run_view db r)"
  from rows [OF assms(3)] obtain r where r: "r \<in> set (t_runs db)" "rp_run_id x = rn_id r" "rp_project_id x = rn_project_id r"
    "query_matches (q\<lparr>q_project := project, q_owner := owner\<rparr>) (run_view db r)" by blast
  have "project_granted auth (rn_project_id r)"
  proof (cases project)
    case None
    then show ?thesis using effective_project_Ok(2) [OF p] by simp
  next
    case (Some pid)
    have "project_granted auth pid" using effective_project_Ok(2) [OF p] Some by simp
    moreover from this have "rn_project_id r = pid" using query_project_match [OF r(4)] Some assms(2) by simp
    ultimately show ?thesis by simp
  qed
  moreover have "rn_user_id r = auth_user_id auth \<and> rn_user_id r \<noteq> None" if "is_ui_jwt auth" "\<not> is_platform_admin auth"
  proof -
    obtain u where "auth_user_id auth = Some u" "owner = Some u"
      using owner_user_filter_Ok [OF o \<open>is_ui_jwt auth\<close> \<open>\<not> is_platform_admin auth\<close>] by blast
    then show ?thesis using r(4) by (simp add: query_matches_def opt_holds_def run_view_def)
  qed
  ultimately show ?thesis using r(1-3) db' by auto
qed

definition plain_list_query :: ListRunsQuery where
  "plain_list_query =
     \<lparr>lq_project = None, lq_owner = None, lq_status = None, lq_name = None, lq_q = None, lq_tags = None, lq_params = None,
      lq_filter = None, lq_sort_by = None, lq_sort_order = None, lq_created_after = None, lq_created_before = None,
      lq_limit = None, lq_offset = None\<rparr>"

lemma plain_list_query_parsed:
  "parse_list_query ch plain_list_query = Ok
     \<lparr>q_project = None, q_owner = None, q_status = None, q_query = None, q_name = None, q_created_after = None,
      q_created_before = None, q_tags = [], q_params = [], q_filter = None, q_sort_field = SortCreatedAt,
      q_sort_order = Desc, q_limit = 100, q_offset = 0\<rparr>"
  by (simp add: parse_list_query_def plain_list_query_def parse_metadata_filters_def parse_run_filter_expr_def
      parse_run_list_sort_field_def parse_run_list_sort_order_def transpose_map_def)

text \<open>What a key limited to a project gets when it asks for no more than a hundred runs.\<close>

definition project_query :: "string \<Rightarrow> RunListQuery" where
  "project_query pid =
     \<lparr>q_project = Some pid, q_owner = None, q_status = None, q_query = None, q_name = None, q_created_after = None,
      q_created_before = None, q_tags = [], q_params = [], q_filter = None, q_sort_field = SortCreatedAt,
      q_sort_order = Desc, q_limit = 100, q_offset = 0\<rparr>"

definition project_key :: "string \<Rightarrow> AuthContext \<Rightarrow> bool" where
  "project_key pid auth \<longleftrightarrow>
     \<not> is_dev_mode auth \<and> \<not> is_platform_admin auth \<and> auth_mode auth = ApiKeyMode \<and> allowed_project_ids auth = None
   \<and> k_project_id (api_key auth) = Some pid \<and> ''read'' \<in> set (k_scopes (api_key auth))"

lemma plain_listing:
  assumes "project_key pid auth" "length (t_runs db) \<le> 100"
  shows "\<exists>resp. http_list_runs rt ch duration auth plain_list_query db = (Ok resp, db)
    \<and> (\<forall>r \<in> set (t_runs db). query_matches (project_query pid) (run_view db r)
         \<longrightarrow> (\<exists>x \<in> set (lo_runs resp). rp_run_id x = rn_id r \<and> rp_project_id x = rn_project_id r))"
proof -
  let ?S = "sort_by (run_order duration SortCreatedAt Desc) (filter (\<lambda>r. query_matches (project_query pid) (run_view db r)) (t_runs db))"
  let ?row = "\<lambda>row. run_response row (ok_val (fst (get_tags (rn_id (rr_run row)) db)))"
  have "require_endpoint_access rt auth Read None None ''runs.list'' ''run'' None db = (Ok (), db)"
    using endpoint_guard.pass [of "(rt, auth, Read, None, None, ''runs.list'', ''run'', None)" db] assms(1)
    by (simp add: endpoint_granted_def scope_granted_def project_key_def)
  moreover have "effective_project rt auth None db = (Ok (Some pid), db)"
    using assms(1) by (simp add: effective_project_def context_project_id_def project_key_def)
  moreover have "owner_user_filter auth None = Ok None"
    using assms(1) by (simp add: owner_user_filter_def is_ui_jwt_def project_key_def)
  moreover have "list_runs duration (project_query pid) db = (Ok (map (run_row duration) ?S, length ?S), db)"
  proof -
    have "length ?S \<le> 100" using le_trans [OF length_filter_le assms(2)] by simp
    then show ?thesis by (simp add: list_runs_apply opt_holds_def Let_def project_query_def)
  qed
  ultimately have list: "http_list_runs rt ch duration auth plain_list_query db
      = (Ok \<lparr>lo_runs = map ?row (map (run_row duration) ?S), lo_total = length ?S, lo_limit = 100, lo_offset = 0\<rparr>, db)"
    unfolding http_list_runs_def plain_list_query_parsed lift_result_def
    by (simp add: op_bind_first [where db = db and db' = db] op_return_apply list_tags plain_list_query_def with_err_def project_query_def)
  have "?row (run_row duration r) \<in> set (map ?row (map (run_row duration) ?S))"
    if "r \<in> set (t_runs db)" "query_matches (project_query pid) (run_view db r)" for r
    using that by simp
  then show ?thesis unfolding list
    by (intro exI conjI) (auto simp: run_response_def run_row_def Let_def)
qed

lemma project_query_matches:
  assumes "find (\<lambda>p. pj_id p = rn_project_id r) (t_projects db) = Some p"
  shows "query_matches (project_query pid) (run_view db r) \<longleftrightarrow> rn_project_id r = pid \<or> pj_name p = pid"
  using assms by (auto simp: query_matches_def opt_holds_def run_view_def project_query_def)

text \<open>
  a project named like the identifier of another one is shown to the other one's keys. The
  restriction of the list compares the project of the key with the identifier and with the name of
  the project of a run. When somebody names a project after the identifier of a foreign project, a
  key limited to the foreign project lists the runs of that project too, although it has no access
  to them.
\<close>

lemma list_shows_namesake:
  assumes "project_key pid auth" "length (t_runs db) \<le> 100"
    and "r \<in> set (t_runs db)" "find (\<lambda>p. pj_id p = rn_project_id r) (t_projects db) = Some p"
    and "rn_project_id r \<noteq> pid" "pj_name p = pid"
  shows "\<exists>resp. http_list_runs rt ch duration auth plain_list_query db = (Ok resp, db)
    \<and> (\<exists>x \<in> set (lo_runs resp). rp_run_id x = rn_id r \<and> \<not> project_granted auth (rp_project_id x))"
proof -
  have "query_matches (project_query pid) (run_view db r)" using project_query_matches [OF assms(4)] assms(6) by simp
  moreover have "\<not> project_granted auth (rn_project_id r)"
    using assms(1,5) by (simp add: project_granted_def project_key_def)
  ultimately show ?thesis using plain_listing [OF assms(1,2), of rt ch duration] assms(3) by metis
qed

section \<open>The alias cache of a comparison\<close>

text \<open>Reference: every run is read on its own.\<close>

definition compare_one ::
  "Runtime \<Rightarrow> (f64 list \<Rightarrow> f64) \<Rightarrow> AuthContext \<Rightarrow> CompareRunsRequest \<Rightarrow> string \<Rightarrow> (RunCompareData \<times> string set) http" where
  "compare_one rt avg auth req run_id =
     op_bind (guard_run_read rt auth ''runs.compare'' run_id) (\<lambda>run.
     op_bind (with_err internal_error (get_metrics avg run_id (cr_metric_names req) (cr_max_points req) None None)) (\<lambda>series.
     op_bind (best_effort [] (get_metric_names run_id)) (\<lambda>available.
     op_bind (best_effort Map.empty (get_metric_alias_map (rn_project_id run))) (\<lambda>aliases.
       op_return (\<lparr>cd_run_id = run_id, cd_run_name = rn_name run, cd_status = rn_status run, cd_series = series,
                   cd_metric_aliases = aliases\<rparr>, set available)))))"

definition aliases_of :: "string \<Rightarrow> Db \<Rightarrow> (string \<rightharpoonup> string)" where
  "aliases_of p db = ok_val (fst (get_metric_alias_map p db))"

lemma read_aliases: "best_effort Map.empty (get_metric_alias_map p) db = (Ok (aliases_of p db), db)"
  by (simp add: aliases_of_def read_simps)

lemma read_names: "best_effort [] (get_metric_names r) db = (Ok (ok_val (fst (get_metric_names r db))), db)"
  by (simp add: read_simps)

lemma read_series:
  obtains (ok) series where "with_err internal_error (get_metrics avg r ns n a b) db = (Ok series, db)"
  | (err) e where "with_err internal_error (get_metrics avg r ns n a b) db = (Err e, db)"
  by (cases "fst (get_metrics avg r ns n a b db)") (auto simp: with_err_def get_metrics_def)

text \<open>
  the comparison caches the aliases of a project and is none the worse for it. For every request
  and every database the loop with the cache gives the runs, the errors and the database that
  reading each run on its own gives.
\<close>

lemma compare_cache_transparent:
  "compare_loop rt avg auth req Map.empty ids db = op_map (compare_one rt avg auth req) ids db"
proof -
  have loop: "compare_loop rt avg auth req cache ids db = op_map (compare_one rt avg auth req) ids db"
    if "\<And>p a. cache p = Some a \<Longrightarrow> a = aliases_of p db" for cache
    using that
  proof (induction ids arbitrary: cache)
    case (Cons rid ids)
    show ?case
    proof (cases rule: guard_run_read_cases [of rid db rt auth "''runs.compare''"])
      case (granted run)
      let ?p = "rn_project_id run"
      have rest: "compare_loop rt avg auth req (cache(?p \<mapsto> aliases_of ?p db)) ids db = op_map (compare_one rt avg auth req) ids db"
        by (rule Cons.IH) (auto split: if_splits dest: Cons.prems)
      have same: "cache(?p \<mapsto> aliases_of ?p db) = cache" if "cache ?p = Some a" for a
        using that Cons.prems [OF that] by auto
      show ?thesis
      proof (cases rule: read_series [of avg rid "cr_metric_names req" "cr_max_points req" None None db])
        case (ok series)
        let ?d = "(\<lparr>cd_run_id = rid, cd_run_name = rn_name run, cd_status = rn_status run, cd_series = series,
          cd_metric_aliases = aliases_of ?p db\<rparr>, set (ok_val (fst (get_metric_names rid db))))"
        have one: "compare_one rt avg auth req rid db = (Ok ?d, db)"
          using granted(3) ok by (simp add: compare_one_def op_bind_apply read_aliases read_names op_return_def)
        have "compare_loop rt avg auth req cache (rid # ids) db
            = op_bind (compare_loop rt avg auth req (cache(?p \<mapsto> aliases_of ?p db)) ids) (\<lambda>rest. op_return (?d # rest)) db"
          using granted(3) ok same Cons.prems [of ?p]
          by (cases "cache ?p") (simp_all add: op_bind_first read_aliases read_names op_return_apply)
        also have "\<dots> = op_bind (op_map (compare_one rt avg auth req) ids) (\<lambda>rest. op_return (?d # rest)) db"
          by (rule op_bind_same) (rule rest)
        finally show ?thesis using one by (simp add: op_bind_first)
      qed (use granted(3) in \<open>simp_all add: op_bind_apply compare_one_def\<close>)
    qed (simp_all add: op_bind_apply compare_one_def)
  qed simp
  show ?thesis by (rule loop) simp
qed

section \<open>Concrete requests\<close>

text \<open>
  The sample database with a second project, named like the identifier of the first one, and a run
  of it.
\<close>

definition namesake_db :: Db where
  "namesake_db =
     snd (create_run ''2026-01-03 00:00:00'' ''r2'' ''p2'' None None None
       (snd (get_or_create_project ''p2'' ''2026-01-03 00:00:00'' ''p1'' sample_run_db)))"

definition no_duration :: "timestamp \<Rightarrow> timestamp \<Rightarrow> nat option" where
  "no_duration a b = None"

lemma foreign_run_unreadable:
  "\<not> (\<exists>run. find_run ''r2'' namesake_db = Some run \<and> read_granted sample_runtime sample_key_auth run)"
proof -
  have "\<not> read_granted sample_runtime sample_key_auth (the (find_run ''r2'' namesake_db))" by code_simp
  then show ?thesis by force
qed

theorem run_reads_guarded_witness:
  "refused (map_res (\<lambda>_. ()) (http_get_run sample_runtime no_duration sample_key_auth ''r2'')) namesake_db"
  using run_reads_guarded [OF foreign_run_unreadable] by blast

lemma sample_events_answered:
  "is_ok (fst (http_get_run_events sample_runtime sample_key_auth ''r1'' None 1 sample_run_db))"
  by code_simp

theorem run_events_paging_witness:
  "\<exists>page db'. http_get_run_events sample_runtime sample_key_auth ''r1'' None 1 sample_run_db = (Ok page, db')
    \<and> db' = sample_run_db
    \<and> events_after ''r1'' None sample_run_db = le_events page @ events_after ''r1'' (le_next_after_id page) sample_run_db"
proof -
  obtain page db' where page: "http_get_run_events sample_runtime sample_key_auth ''r1'' None 1 sample_run_db = (Ok page, db')"
    using sample_events_answered by (auto simp: is_ok_iff fst_def split: prod.splits)
  show ?thesis using run_events_paging [OF sample_run_db_ok page] page by blast
qed

text \<open>A serde_json that knows one chart, and a run whose first twenty events are plain.\<close>

definition chart_runtime :: Runtime where
  "chart_runtime = sample_runtime\<lparr>rt_serde := sample_serde
     \<lparr>envelope_from_str := (\<lambda>s. if s = ''chart''
        then Some \<lparr>en_kind = ''chart'', en_payload = JObject [(''name'', JString ''roc'')], en_truncated = False\<rparr> else None)\<rparr>\<rparr>"

definition chart_db :: Db where
  "chart_db = snd (insert_run_events ''2026-01-03 00:00:00'' ''r1''
     (map (\<lambda>msg. \<lparr>ei_level = ''info'', ei_source = ''sdk'', ei_message = msg, ei_step = None, ei_timestamp = None\<rparr>)
        (replicate 18 ''hi'' @ [''chart''])) sample_run_db)"

definition chart_query :: StructuredRunLogsQuery where
  "chart_query = \<lparr>sq_after_id = None, sq_limit = 2, sq_names = None\<rparr>"

lemma chart_db_ok: "db_ok chart_db"
  unfolding chart_db_def by (intro store_reach_ok reach_step [OF _ step_insert_events] sample_run_db_steps)

theorem charts_page_gap_witness:
  "http_get_run_charts chart_runtime sample_key_auth ''r1'' chart_query chart_db
     = (Ok \<lparr>sp_run_id = ''r1'', sp_items = [], sp_next_after_id = None, sp_has_more = False\<rparr>, chart_db)
   \<and> List.map_filter (chart_log_from_event_row (rt_serde chart_runtime)) (events_after ''r1'' None chart_db) \<noteq> []"
proof -
  let ?w = "take (clamp (u64_saturating_mul (clamp (sq_limit chart_query) 1 200) 10) 20 1000) (events_after ''r1'' (sq_after_id chart_query) chart_db)"
  have "find_run ''r1'' chart_db = Some (the (find_run ''r1'' chart_db))" by code_simp
  moreover have "validate_path_id ''r1'' ''run_id'' = Ok ()" by code_simp
  moreover have "read_granted chart_runtime sample_key_auth (the (find_run ''r1'' chart_db))" by code_simp
  moreover have "?w = take 20 (events_after ''r1'' None chart_db)"
    by (simp add: chart_query_def clamp_def u64_saturating_mul_def)
  moreover have "list_all (\<lambda>e. chart_log_from_event_row (rt_serde chart_runtime) e = None) (take 20 (events_after ''r1'' None chart_db))"
    by code_simp
  ultimately have "find_run ''r1'' chart_db = Some (the (find_run ''r1'' chart_db))" "validate_path_id ''r1'' ''run_id'' = Ok ()"
    "read_granted chart_runtime sample_key_auth (the (find_run ''r1'' chart_db))"
    "list_all (\<lambda>e. chart_log_from_event_row (rt_serde chart_runtime) e = None) ?w" by simp_all
  moreover from this(4) have "\<forall>e \<in> set ?w. \<forall>c. chart_log_from_event_row (rt_serde chart_runtime) e = Some c \<longrightarrow> \<not> named (parse_name_filter (sq_names chart_query)) cl_name c"
    by (simp add: list_all_iff)
  ultimately have "http_get_run_charts chart_runtime sample_key_auth ''r1'' chart_query chart_db
     = (Ok \<lparr>sp_run_id = ''r1'', sp_items = [], sp_next_after_id = sq_after_id chart_query, sp_has_more = False\<rparr>, chart_db)"
    using chart_db_ok by (intro charts_page_gap)
  moreover have "List.map_filter (chart_log_from_event_row (rt_serde chart_runtime)) (events_after ''r1'' None chart_db) \<noteq> []" by code_simp
  ultimately show ?thesis by (simp add: chart_query_def)
qed

definition sample_chrono :: Chrono where
  "sample_chrono = \<lparr>parse_rfc3339_utc = (\<lambda>_. None), parse_naive = (\<lambda>_. None)\<rparr>"

lemma sample_project_key: "project_key ''p1'' sample_key_auth"
  by code_simp

lemma sample_listing:
  obtains resp x where "http_list_runs sample_runtime sample_chrono no_duration sample_key_auth plain_list_query sample_run_db = (Ok resp, sample_run_db)"
    "x \<in> set (lo_runs resp)" "rp_run_id x = ''r1''"
proof -
  let ?r = "the (find_run ''r1'' sample_run_db)" and ?p = "the (find (\<lambda>p. pj_id p = ''p1'') (t_projects sample_run_db))"
  have r: "?r \<in> set (t_runs sample_run_db)" "rn_id ?r = ''r1''" "rn_project_id ?r = ''p1''" "length (t_runs sample_run_db) \<le> 100" by code_simp+
  have "find (\<lambda>p. pj_id p = ''p1'') (t_projects sample_run_db) = Some ?p" by code_simp
  then have "query_matches (project_query ''p1'') (run_view sample_run_db ?r)"
    using project_query_matches [of ?r sample_run_db ?p] r(3) by simp
  then show ?thesis
    using that plain_listing [OF sample_project_key r(4), of sample_runtime sample_chrono no_duration] r(1,2) by metis
qed

theorem http_list_runs_isolated_witness:
  "\<exists>resp x. http_list_runs sample_runtime sample_chrono no_duration sample_key_auth plain_list_query sample_run_db = (Ok resp, sample_run_db)
    \<and> x \<in> set (lo_runs resp) \<and> rp_run_id x = ''r1'' \<and> project_granted sample_key_auth (rp_project_id x)"
proof -
  obtain resp x where answer: "http_list_runs sample_runtime sample_chrono no_duration sample_key_auth plain_list_query sample_run_db = (Ok resp, sample_run_db)"
    and x: "x \<in> set (lo_runs resp)" "rp_run_id x = ''r1''" by (rule sample_listing)
  have "\<not> name_clash ''p1'' sample_run_db" by code_simp
  then have "\<not> name_clash pid sample_run_db" if "project_granted sample_key_auth pid" for pid
    using that by (simp add: project_granted_def sample_key_auth_def)
  from http_list_runs_isolated [OF answer this x(1)] answer x show ?thesis by blast
qed

theorem list_shows_namesake_witness:
  "\<exists>resp. http_list_runs sample_runtime sample_chrono no_duration sample_key_auth plain_list_query namesake_db = (Ok resp, namesake_db)
    \<and> (\<exists>x. x \<in> set (lo_runs resp) \<and> rp_run_id x = ''r2'' \<and> \<not> project_granted sample_key_auth (rp_project_id x))"
proof -
  let ?r = "the (find_run ''r2'' namesake_db)" and ?p = "the (find (\<lambda>p. pj_id p = ''p2'') (t_projects namesake_db))"
  have r: "?r \<in> set (t_runs namesake_db)" "rn_project_id ?r = ''p2''" "rn_id ?r = ''r2''" "length (t_runs namesake_db) \<le> 100" by code_simp+
  have p: "find (\<lambda>p. pj_id p = ''p2'') (t_projects namesake_db) = Some ?p" "pj_name ?p = ''p1''" by code_simp+
  from r(2) p(1) have find: "find (\<lambda>p. pj_id p = rn_project_id ?r) (t_projects namesake_db) = Some ?p" by simp
  show ?thesis
    using list_shows_namesake [OF sample_project_key r(4,1) find _ p(2), of sample_runtime sample_chrono no_duration] r(2,3) by auto
qed

end
