(* ===== verification/Run_Handlers.thy ===== *)
theory Run_Handlers
  imports Query_Handlers
begin

text \<open>
  The handlers that start, finish and delete a run (apps/api/src/main.rs: http_init_run,
  http_finish_run, http_delete_run). They work on the state of the ingestion: the database, the
  buckets of the write limiter and the commands handed to PostgreSQL.

  Parameters: the identifier and the clock of the request and the parser of UUIDs. The order in
  which a hash map is iterated is the order of the list that stands for it.
\<close>

section \<open>Invariants of handlers\<close>

lemma preserves_with_err [preserves_intros]: "preserves I m \<Longrightarrow> preserves I (with_err f m)"
  by (simp add: preserves_def with_err_def split_beta)

lemma preserves_lift [preserves_intros]: "preserves I (lift_result r)"
  by (simp add: preserves_def lift_result_def)

lemma preserves_best_effort [preserves_intros]: "preserves I m \<Longrightarrow> preserves I (best_effort d m)"
  by (auto simp: preserves_def best_effort_def split: prod.splits result.splits)

lemma preserves_when [preserves_intros]: "preserves I m \<Longrightarrow> preserves I (op_when c d m)"
  by (simp add: op_when_def preserves_return)

section \<open>Requests\<close>

record InitRunHttpRequest =
  in_project :: "string option"
  in_project_id :: "string option"
  in_name :: "string option"
  in_run_id :: "string option"
  in_tags :: "(string \<times> string) list option"
  in_config :: "(string \<times> Json) list option"

record InitRunHttpResponse =
  io_run_id :: string
  io_offline :: bool

record RunExt =
  rx_uuid :: string
  rx_instant :: nat
  rx_parse_uuid :: "string \<Rightarrow> string option"

type_synonym 'a app = "(App, 'a, http_error) op"

definition shadow :: "PgCommand list \<Rightarrow> unit app" where
  "shadow cmds = (\<lambda>s. (Ok (), s\<lparr>app_shadow := app_shadow s @ cmds\<rparr>))"

section \<open>Starting a run\<close>

definition project_missing :: "string \<Rightarrow> http_error" where
  "project_missing project_id = (NOT_FOUND, ''Project not found: '' @ sq project_id)"

text \<open>The project the request names, with its name; a name the client sends along has to agree.\<close>

definition resolve_init_project :: "InitRunHttpRequest \<Rightarrow> (string \<times> string) http" where
  "resolve_init_project req =
     op_bind (lift_result (ok_or (in_project_id req)
       (BAD_REQUEST, ''project_id is required. Create a project first via POST /api/v1/projects.''))) (\<lambda>project_id.
     op_bind (with_err internal_error (get_project_name_by_id project_id)) (\<lambda>found.
     op_bind (lift_result (ok_or found (project_missing project_id))) (\<lambda>resolved.
       case in_project req of
         Some given \<Rightarrow>
           if given \<noteq> resolved
           then op_fail (BAD_REQUEST, ''project_id '' @ sq project_id @ '' does not match project name '' @ sq given)
           else op_return (project_id, resolved)
       | None \<Rightarrow> op_return (project_id, resolved))))"

definition validate_init_tag :: "nat \<Rightarrow> string \<times> string \<Rightarrow> (string \<times> string, http_error) result" where
  "validate_init_tag max_len t =
     (let err = (\<lambda>e. (BAD_REQUEST, ''Invalid initial tag '' @ sq (fst t) @ '': '' @ e)) in
      try_bind (map_err err (canonicalize_metadata_key (fst t) ''tags'')) (\<lambda>key.
      try_bind (map_err err (validate_tag_value (snd t) max_len)) (\<lambda>_. Ok (key, snd t))))"

definition validate_init_param :: "Serde \<Rightarrow> string \<times> Json \<Rightarrow> (string \<times> string, http_error) result" where
  "validate_init_param sd p =
     try_bind (map_err (\<lambda>e. (BAD_REQUEST, ''Invalid config key '' @ sq (fst p) @ '': '' @ e))
       (canonicalize_metadata_key (fst p) ''parameters'')) (\<lambda>key.
     try_bind (map_err (\<lambda>e. (BAD_REQUEST, ''Invalid config value for '' @ sq (fst p) @ '': '' @ e))
       (stringify_config_param_value sd (snd p))) (\<lambda>value. Ok (key, value)))"

definition opt_list :: "'a list option \<Rightarrow> 'a list" where
  "opt_list v = (case v of Some xs \<Rightarrow> xs | None \<Rightarrow> [])"

definition validate_init ::
  "Serde \<Rightarrow> nat \<Rightarrow> InitRunHttpRequest \<Rightarrow> ((string \<times> string) list \<times> (string \<times> string) list, http_error) result" where
  "validate_init sd max_len req =
     try_bind (try_map (validate_init_tag max_len) (opt_list (in_tags req))) (\<lambda>tags.
     try_bind (try_map (validate_init_param sd) (opt_list (in_config req))) (\<lambda>params.
       Ok (tags, params)))"

text \<open>Who started the run: the user of a session, or the key and the user who created it.\<close>

definition run_creator :: "AuthContext \<Rightarrow> Db \<Rightarrow> string option \<times> string option" where
  "run_creator auth db =
     (if is_ui_jwt auth then (None, auth_user_id auth)
      else if is_dev_mode auth then (None, None)
      else
        (Some (k_id (api_key auth)),
         case fst (get_api_key_by_hash (k_key_hash (api_key auth)) db) of
           Ok (Some row) \<Rightarrow> ak_user_id row
         | _ \<Rightarrow> None))"

definition init_event :: RunEventInput where
  "init_event = \<lparr>ei_level = ''info'', ei_source = ''system'', ei_message = ''Run initialized'', ei_step = Some 0, ei_timestamp = None\<rparr>"

definition json_opt_str :: "string option \<Rightarrow> Json" where
  "json_opt_str v = (case v of Some s \<Rightarrow> JString s | None \<Rightarrow> JNull)"

text \<open>The rows of a new run.\<close>

definition store_new_run ::
  "timestamp \<Rightarrow> string \<Rightarrow> string \<Rightarrow> string option \<Rightarrow> string option \<times> string option \<Rightarrow>
   (string \<times> string) list \<Rightarrow> (string \<times> string) list \<Rightarrow> unit http" where
  "store_new_run now run_id project_id name creator tags params =
     op_bind (with_err internal_error (create_run now run_id project_id name (fst creator) (snd creator))) (\<lambda>_.
     op_bind (op_when (tags \<noteq> []) () (with_err internal_error (set_tags run_id tags))) (\<lambda>_.
     op_bind (op_when (params \<noteq> []) 0 (with_err internal_error (insert_params now run_id params))) (\<lambda>_.
     op_bind (best_effort 0 (insert_run_events now run_id [init_event])) (\<lambda>_.
       op_return ()))))"

definition init_audit_metadata ::
  "string \<Rightarrow> string \<Rightarrow> string option \<Rightarrow> (string \<times> string) list \<Rightarrow> (string \<times> string) list \<Rightarrow> Json" where
  "init_audit_metadata project_id project_name user tags params =
     JObject [(''created_by_user_id'', json_opt_str user), (''initial_param_count'', json_nat (length params)),
              (''initial_tag_count'', json_nat (length tags)), (''project_id'', JString project_id),
              (''project_name'', JString project_name), (''source'', JString ''http_init_run'')]"

definition init_new_run :: "Runtime \<Rightarrow> RunExt \<Rightarrow> AuthContext \<Rightarrow> InitRunHttpRequest \<Rightarrow> string \<Rightarrow> unit app" where
  "init_new_run rt rx auth req run_id =
     op_bind (on_db (resolve_init_project req)) (\<lambda>(project_id, project_name).
     op_bind (on_db (require_endpoint_access rt auth Write (Some project_id) (Some run_id) ''run.init'' ''run'' (Some run_id))) (\<lambda>_.
     op_bind (check_write_rate (rx_instant rx) auth (Some project_id)) (\<lambda>_.
     op_bind (\<lambda>s. (validate_init (rt_serde rt) (max_tag_value_length (ct_config (app_tracker s))) req, s)) (\<lambda>(tags, params).
     op_bind (\<lambda>s. (Ok (run_creator auth (app_db s)), s)) (\<lambda>creator.
     op_bind (on_db (store_new_run (rt_now rt) run_id project_id (in_name req) creator tags params)) (\<lambda>_.
     op_bind (shadow (maybe_shadow_write_run_to_postgres (rt_env rt) (rx_parse_uuid rx) run_id project_id (in_name req)
       (if tags = [] then None else Some tags))) (\<lambda>_.
       on_db (emit_audit_event rt (Some auth) (Some project_id) (Some run_id) ''run.init'' ''run'' (Some run_id) ''success''
         (init_audit_metadata project_id project_name (snd creator) tags params)))))))))"

definition init_run_id :: "RunExt \<Rightarrow> InitRunHttpRequest \<Rightarrow> string" where
  "init_run_id rx req = (case in_run_id req of Some r \<Rightarrow> r | None \<Rightarrow> rx_uuid rx)"

definition http_init_run :: "Runtime \<Rightarrow> RunExt \<Rightarrow> AuthContext \<Rightarrow> InitRunHttpRequest \<Rightarrow> InitRunHttpResponse app" where
  "http_init_run rt rx auth req =
     (let run_id = init_run_id rx req; answer = op_return \<lparr>io_run_id = run_id, io_offline = False\<rparr> in
      op_bind (on_db (best_effort False (run_exists run_id))) (\<lambda>found.
        if found
        then op_bind (on_db (guard_run_mutation rt auth ''run.init'' ''reinitialize'' run_id)) (\<lambda>_. answer)
        else op_bind (init_new_run rt rx auth req run_id) (\<lambda>_. answer)))"

section \<open>Finishing and deleting a run\<close>

definition finish_event :: "string \<Rightarrow> RunEventInput" where
  "finish_event status =
     \<lparr>ei_level = (if eq_ignore_ascii_case status ''failed'' then ''error'' else ''info''), ei_source = ''system'',
      ei_message = ''Run marked as '' @ status, ei_step = None, ei_timestamp = None\<rparr>"

definition app_path :: "string \<Rightarrow> string \<Rightarrow> 'a app \<Rightarrow> 'a app" where
  "app_path path_id name m = op_bind (lift_result (validate_path_id path_id name)) (\<lambda>_. m)"

definition http_finish_run :: "Runtime \<Rightarrow> RunExt \<Rightarrow> AuthContext \<Rightarrow> string \<Rightarrow> string \<Rightarrow> string app" where
  "http_finish_run rt rx auth run_id status =
     app_path run_id ''run_id''
       (op_bind (on_db (guard_run_mutation rt auth ''run.finish'' ''finish'' run_id)) (\<lambda>run.
        op_bind (check_write_rate (rx_instant rx) auth (Some (rn_project_id run))) (\<lambda>_.
        op_bind (on_db (with_err internal_error (finish_run (rt_now rt) run_id status))) (\<lambda>_.
        op_bind (on_db (best_effort 0 (insert_run_events (rt_now rt) run_id [finish_event status]))) (\<lambda>_.
        op_bind (shadow (maybe_shadow_finish_run_in_postgres (rt_env rt) (rx_parse_uuid rx) run_id status)) (\<lambda>_.
        op_bind (on_db (emit_audit_event rt (Some auth) (Some (rn_project_id run)) (Some run_id) ''run.finish'' ''run''
          (Some run_id) ''success'' (JObject [(''status'', JString status)]))) (\<lambda>_.
          op_return ''ok'')))))))"

definition http_delete_run :: "Runtime \<Rightarrow> AuthContext \<Rightarrow> string \<Rightarrow> string app" where
  "http_delete_run rt auth run_id =
     app_path run_id ''run_id''
       (op_bind (on_db (guard_run_mutation rt auth ''run.delete'' ''delete'' run_id)) (\<lambda>run.
        op_bind (on_db (with_err store_error (delete_run run_id))) (\<lambda>_.
        op_bind (on_db (emit_audit_event rt (Some auth) (Some (rn_project_id run)) (Some run_id) ''run.delete'' ''run''
          (Some run_id) ''success'' (JObject []))) (\<lambda>_.
          op_return ''ok''))))"

section \<open>Who may change a run\<close>

definition only_audited :: "App \<Rightarrow> App \<Rightarrow> bool" where
  "only_audited s s' \<longleftrightarrow> (\<exists>db'. audit_extends (app_db s) db' \<and> s' = s\<lparr>app_db := db'\<rparr>)"

lemma only_audited_refl [simp]: "only_audited s s"
  by (auto simp: only_audited_def)

text \<open>The shape of an endpoint that changes a run the path names.\<close>

locale run_mutator =
  fixes handler :: "Runtime \<Rightarrow> AuthContext \<Rightarrow> string \<Rightarrow> 'q \<Rightarrow> 'r app"
    and action :: string and verb :: string
    and body :: "Runtime \<Rightarrow> AuthContext \<Rightarrow> string \<Rightarrow> 'q \<Rightarrow> RunRec \<Rightarrow> 'r app"
  assumes shape: "handler rt auth rid q = app_path rid ''run_id''
    (op_bind (on_db (guard_run_mutation rt auth action verb rid)) (body rt auth rid q))"
begin

lemma refused:
  assumes "\<not> (\<exists>run. find_run rid (app_db s) = Some run \<and> mutation_granted rt auth run)"
  shows "\<exists>st msg s'. handler rt auth rid q s = (Err (st, msg), s') \<and> st \<in> {BAD_REQUEST, FORBIDDEN, NOT_FOUND} \<and> only_audited s s'"
proof (cases "validate_path_id rid ''run_id''")
  case (Ok u)
  then show ?thesis using assms
    by (cases rule: guard_run_mutation_cases [of rid "app_db s" rt auth action verb])
      (auto simp: shape app_path_def lift_result_def op_bind_apply on_db_apply only_audited_def)
next
  case (Err e)
  then have "fst e = BAD_REQUEST" by (auto simp: validate_path_id_def split: if_splits)
  with Err show ?thesis by (cases e) (simp add: shape app_path_def lift_result_def op_bind_apply)
qed

lemma answered:
  assumes "handler rt auth rid q s = (Ok x, s')"
  obtains run where "find_run rid (app_db s) = Some run" "mutation_granted rt auth run" "body rt auth rid q run s = (Ok x, s')"
  using assms that
  by (cases rule: guard_run_mutation_cases [of rid "app_db s" rt auth action verb]; cases "validate_path_id rid ''run_id''")
    (auto simp: shape app_path_def lift_result_def op_bind_apply on_db_apply)

end

interpretation finish: run_mutator "\<lambda>rt auth rid (rx, status). http_finish_run rt rx auth rid status" "''run.finish''" "''finish''"
  "\<lambda>rt auth rid (rx, status) run.
     op_bind (check_write_rate (rx_instant rx) auth (Some (rn_project_id run))) (\<lambda>_.
     op_bind (on_db (with_err internal_error (finish_run (rt_now rt) rid status))) (\<lambda>_.
     op_bind (on_db (best_effort 0 (insert_run_events (rt_now rt) rid [finish_event status]))) (\<lambda>_.
     op_bind (shadow (maybe_shadow_finish_run_in_postgres (rt_env rt) (rx_parse_uuid rx) rid status)) (\<lambda>_.
     op_bind (on_db (emit_audit_event rt (Some auth) (Some (rn_project_id run)) (Some rid) ''run.finish'' ''run''
       (Some rid) ''success'' (JObject [(''status'', JString status)]))) (\<lambda>_.
       op_return ''ok'')))))"
  by unfold_locales (auto simp: http_finish_run_def)

interpretation delete: run_mutator "\<lambda>rt auth rid q. http_delete_run rt auth rid" "''run.delete''" "''delete''"
  "\<lambda>rt auth rid q run.
     op_bind (on_db (with_err store_error (delete_run rid))) (\<lambda>_.
     op_bind (on_db (emit_audit_event rt (Some auth) (Some (rn_project_id run)) (Some rid) ''run.delete'' ''run''
       (Some rid) ''success'' (JObject []))) (\<lambda>_.
       op_return ''ok''))"
  by unfold_locales (simp add: http_delete_run_def)

lemma http_init_run_apply:
  "http_init_run rt rx auth req s =
     op_bind (if init_run_id rx req \<in> set (run_ids (app_db s))
       then op_bind (on_db (guard_run_mutation rt auth ''run.init'' ''reinitialize'' (init_run_id rx req))) (\<lambda>_. op_return ())
       else init_new_run rt rx auth req (init_run_id rx req))
     (\<lambda>_. op_return \<lparr>io_run_id = init_run_id rx req, io_offline = False\<rparr>) s"
  by (auto simp: http_init_run_def Let_def op_bind_apply on_db_apply run_exists_def best_effort_def count_where_pos image_iff
      split: result.splits prod.splits)

text \<open>
  C33: nobody finishes, deletes or restarts a run without permission. Finishing and deleting are
  refused with 400, 403 or 404 unless the run exists and the caller has the write scope, access to
  its project, and owns it as a user or by its key; starting a run under an identifier that is
  taken is refused with 403 on the same conditions. A refusal changes nothing but the audit log;
  not even a token of the write limiter is spent.
\<close>

theorem run_changes_guarded:
  assumes "\<not> (\<exists>run. find_run rid (app_db s) = Some run \<and> mutation_granted rt auth run)"
  shows "(\<exists>st msg s'. http_finish_run rt rx auth rid status s = (Err (st, msg), s') \<and> only_audited s s')
    \<and> (\<exists>st msg s'. http_delete_run rt auth rid s = (Err (st, msg), s') \<and> only_audited s s')
    \<and> (rid \<in> set (run_ids (app_db s)) \<and> init_run_id rx req = rid \<longrightarrow>
         (\<exists>msg s'. http_init_run rt rx auth req s = (Err (FORBIDDEN, msg), s') \<and> only_audited s s'))"
proof -
  have "\<exists>msg s'. http_init_run rt rx auth req s = (Err (FORBIDDEN, msg), s') \<and> only_audited s s'"
    if "rid \<in> set (run_ids (app_db s))" "init_run_id rx req = rid"
  proof (cases rule: guard_run_mutation_cases [of rid "app_db s" rt auth "''run.init''" "''reinitialize''"])
    case missing
    then show ?thesis using that(1) by (auto simp: find_run_def find_None_iff)
  next
    case (refused run msg db')
    then show ?thesis using that
      by (auto simp: http_init_run_apply on_db_apply op_bind_apply only_audited_def)
  qed (use assms in blast)
  then show ?thesis
    using finish.refused [OF assms, of "(rx, status)"] delete.refused [OF assms] by auto
qed

section \<open>A new run\<close>

text \<open>What a run keeps while data arrives for it.\<close>

definition run_core :: "RunRec \<Rightarrow> string \<times> string \<times> string option \<times> string \<times> string option \<times> string option" where
  "run_core r = (rn_id r, rn_project_id r, rn_name r, rn_status r, rn_key_id r, rn_user_id r)"

definition cores :: "Db \<Rightarrow> (string \<times> string \<times> string option \<times> string \<times> string option \<times> string option) list" where
  "cores db = map run_core (t_runs db)"

lemma cores_update:
  "(\<And>r. run_core (f r) = run_core r) \<Longrightarrow> map run_core (update_where p f rs) = map run_core rs"
  by (rule map_update_where)

lemma cores_kept:
  "preserves (\<lambda>db. cores db = R) (set_tags rid kvs)" "preserves (\<lambda>db. cores db = R) (insert_params now rid kvs)"
  "preserves (\<lambda>db. cores db = R) (insert_run_events now rid es)"
  unfolding set_tags_def insert_params_def insert_run_events_def insert_event_row_def update_run_def
  by (auto intro!: preserves_bind preserves_for preserves_stmt preserves_write preserves_return
      simp: cores_def cores_update run_core_def split: prod.split)

lemmas cores_same = cores_kept [THEN preservesD, OF refl]

lemma find_core: "find_run rid db = Some r \<Longrightarrow> run_core r \<in> set (cores db)"
  by (auto simp: find_run_def cores_def dest: find_SomeD)

definition new_core :: "string \<Rightarrow> string \<Rightarrow> string option \<Rightarrow> string option \<times> string option \<Rightarrow> string \<times> string \<times> string option \<times> string \<times> string option \<times> string option" where
  "new_core rid pid name creator = (rid, pid, name, ''running'', fst creator, snd creator)"

text \<open>Storing a new run either fails at its row, which leaves the database as it was, or stores everything.\<close>

lemma store_new_run_cases:
  obtains (stored) db' where "store_new_run now rid pid name creator tags params db = (Ok (), db')"
      "rid \<notin> set (run_ids db)" "cores db' = cores db @ [new_core rid pid name creator]"
      "t_tags db' = fold upsert_tag (tag_rows rid tags) (t_tags db)"
      "t_params db' = fold upsert_param (param_rows rid params) (t_params db)"
      "t_metrics db' = t_metrics db" "t_run_events db' = t_run_events db @ [stored_event now rid (event_seq db + 1) init_event]"
  | (refused) "store_new_run now rid pid name creator tags params db = (Err (INTERNAL_SERVER_ERROR, ''Internal server error''), db)"
proof (cases "fst (create_run now rid pid name (fst creator) (snd creator) db)")
  case (Err e)
  then show ?thesis
    by (intro refused)
      (auto simp: store_new_run_def op_bind_apply with_err_def internal_error_def create_run_def insert_run_row_def op_stmt_apply
        simp del: first_violation.simps split: option.splits)
next
  case (Ok u)
  obtain db1 where row: "create_run now rid pid name (fst creator) (snd creator) db = (Ok (), db1)"
    and core: "cores db1 = cores db @ [new_core rid pid name creator]" and fresh: "rid \<notin> set (run_ids db)"
    and view1: "ingest_view db1 = (t_metrics db, t_tags db, t_params db, t_run_events db, event_seq db, run_ids db @ [rid])"
    using Ok that
    by (auto simp: create_run_def insert_run_row_def op_stmt_apply cores_def run_core_def new_core_def ingest_view_def
        split: option.splits if_splits)
  have ids: "rid \<in> set (run_ids d)" if "ingest_view d = (a, b, c, e, f, run_ids db @ [rid])" for d a b c e f
    using that by (auto simp: ingest_view_def simp del: set_map)
  obtain db2 where tags: "op_when (tags \<noteq> []) () (with_err internal_error (set_tags rid tags)) db1 = (Ok (), db2)"
    and view2: "ingest_view db2 = (t_metrics db, fold upsert_tag (tag_rows rid tags) (t_tags db), t_params db, t_run_events db, event_seq db, run_ids db @ [rid])"
    by (rule view_tags [OF ids [OF view1] view1])
  obtain db3 where params: "op_when (params \<noteq> []) 0 (with_err internal_error (insert_params now rid params)) db2 = (Ok (length params), db3)"
    and view3: "ingest_view db3 = (t_metrics db, fold upsert_tag (tag_rows rid tags) (t_tags db),
      fold upsert_param (param_rows rid params) (t_params db), t_run_events db, event_seq db, run_ids db @ [rid])"
    by (rule view_params [OF ids [OF view2] view2])
  obtain db4 where event: "op_when ([init_event] \<noteq> []) 0 (insert_run_events now rid [init_event]) db3 = (Ok (length [init_event]), db4)"
    and view4: "ingest_view db4 = (t_metrics db, fold upsert_tag (tag_rows rid tags) (t_tags db),
      fold upsert_param (param_rows rid params) (t_params db), t_run_events db @ stored_events now rid (event_seq db) [init_event],
      event_seq db + int (length [init_event]), run_ids db @ [rid])"
    by (rule view_events [OF ids [OF view3] view3])
  have "cores db4 = cores db @ [new_core rid pid name creator]"
    using core tags params event by (auto simp: op_when_def with_err_Ok_iff split: if_splits dest!: cores_same)
  moreover have "store_new_run now rid pid name creator tags params db = (Ok (), db4)"
    using row tags params event by (simp add: store_new_run_def op_bind_apply with_err_def [of internal_error "create_run _ _ _ _ _ _"] best_effort_def)
  ultimately show ?thesis using view4 fresh by (intro stored [of db4]) (auto simp: ingest_view_def)
qed

lemma resolve_init_project_reads: "preserves (\<lambda>d. d = db) (resolve_init_project req)"
  unfolding resolve_init_project_def get_project_name_by_id_def get_project_by_id_def
  by (auto intro!: preserves_intros split: option.splits)

lemma resolve_init_project_cases:
  obtains (ok) pid pname where "resolve_init_project req db = (Ok (pid, pname), db)" "in_project_id req = Some pid"
  | (err) e where "resolve_init_project req db = (Err e, db)"
proof (cases "resolve_init_project req db")
  case (Pair r db')
  then have "db' = db" using preservesD [OF resolve_init_project_reads refl] by blast
  moreover have "in_project_id req = Some pid" if "r = Ok (pid, pname)" for pid pname
    using Pair that
    by (auto simp: resolve_init_project_def op_bind_Ok_iff lift_result_Ok_iff split: option.splits if_splits)
  ultimately show ?thesis using Pair ok err by (cases r) auto
qed

lemma on_db_Ok_iff: "on_db m s = (Ok x, s') \<longleftrightarrow> (\<exists>db. m (app_db s) = (Ok x, db) \<and> s' = s\<lparr>app_db := db\<rparr>)"
  by (auto simp: on_db_def split: prod.splits)

text \<open>What a successful start of a run went through, and the state it left.\<close>

lemma init_new_run_Ok:
  assumes "init_new_run rt rx auth req rid s = (Ok (), s')"
  obtains pid tags params l db1 where
    "in_project_id req = Some pid" "endpoint_granted rt auth Write (Some pid)"
    "validate_init (rt_serde rt) (max_tag_value_length (ct_config (app_tracker s))) req = Ok (tags, params)"
    "store_new_run (rt_now rt) rid pid (in_name req) (run_creator auth (app_db s)) tags params (app_db s) = (Ok (), db1)"
    "audit_extends db1 (app_db s')" "app_tracker s' = app_tracker s" "app_idem s' = app_idem s" "app_queue s' = app_queue s"
proof (cases rule: resolve_init_project_cases [of req "app_db s"])
  case (err e)
  then show ?thesis using assms by (simp add: init_new_run_def op_bind_apply on_db_apply)
next
  case (ok pid pname)
  let ?e = "(rt, auth, Write, Some pid, Some rid, ''run.init'', ''run'', Some rid)"
  show ?thesis
  proof (cases "endpoint_granted rt auth Write (Some pid)")
    case False
    then show ?thesis using endpoint_guard.refuse [of ?e "app_db s"] assms ok(1)
      by (auto simp: init_new_run_def op_bind_apply on_db_apply)
  next
    case True
    then have guard: "require_endpoint_access rt auth Write (Some pid) (Some rid) ''run.init'' ''run'' (Some rid) (app_db s) = (Ok (), app_db s)"
      using endpoint_guard.pass [of ?e "app_db s"] by simp
    obtain l tags params db1 where rate: "check_write_rate (rx_instant rx) auth (Some pid) s = (Ok (), s\<lparr>app_writes := l\<rparr>)"
      and valid: "validate_init (rt_serde rt) (max_tag_value_length (ct_config (app_tracker s))) req = Ok (tags, params)"
      and stored: "store_new_run (rt_now rt) rid pid (in_name req) (run_creator auth (app_db s)) tags params (app_db s) = (Ok (), db1)"
      and rest: "op_bind (shadow (maybe_shadow_write_run_to_postgres (rt_env rt) (rx_parse_uuid rx) rid pid (in_name req)
          (if tags = [] then None else Some tags))) (\<lambda>_.
        on_db (emit_audit_event rt (Some auth) (Some pid) (Some rid) ''run.init'' ''run'' (Some rid) ''success''
          (init_audit_metadata pid pname (snd (run_creator auth (app_db s))) tags params))) (s\<lparr>app_writes := l, app_db := db1\<rparr>) = (Ok (), s')"
      using assms ok(1) guard
      by (cases rule: check_write_rate_apply [of "rx_instant rx" auth "Some pid" s])
        (auto simp: init_new_run_def op_bind_Ok_iff on_db_Ok_iff)
    show ?thesis
      using rest by (intro that [OF ok(2) True valid stored])
        (auto simp: shadow_def op_bind_apply on_db_apply emit_audit_event_def insert_audit_event_extends)
  qed
qed

lemma init_run_effect:
  assumes "http_init_run rt rx auth req s = (Ok resp, s')" and "init_run_id rx req \<notin> set (run_ids (app_db s))"
  shows "\<exists>pid tags params. io_run_id resp = init_run_id rx req \<and> in_project_id req = Some pid
    \<and> endpoint_granted rt auth Write (Some pid)
    \<and> validate_init (rt_serde rt) (max_tag_value_length (ct_config (app_tracker s))) req = Ok (tags, params)
    \<and> cores (app_db s') = cores (app_db s) @ [new_core (init_run_id rx req) pid (in_name req) (run_creator auth (app_db s))]
    \<and> t_tags (app_db s') = fold upsert_tag (tag_rows (init_run_id rx req) tags) (t_tags (app_db s))
    \<and> t_params (app_db s') = fold upsert_param (param_rows (init_run_id rx req) params) (t_params (app_db s))
    \<and> t_run_events (app_db s') = t_run_events (app_db s) @
        [\<lparr>ev_id = event_seq (app_db s) + 1, ev_run_id = init_run_id rx req, ev_level = ''info'', ev_source = ''system'',
          ev_message = ''Run initialized'', ev_step = Some 0, ev_timestamp = None, ev_created_at = rt_now rt\<rparr>]
    \<and> t_metrics (app_db s') = t_metrics (app_db s) \<and> app_idem s' = app_idem s \<and> app_queue s' = app_queue s"
proof -
  let ?rid = "init_run_id rx req"
  have resp: "resp = \<lparr>io_run_id = ?rid, io_offline = False\<rparr>" and new: "init_new_run rt rx auth req ?rid s = (Ok (), s')"
    using assms by (auto simp: http_init_run_apply op_bind_Ok_iff)
  obtain pid tags params db1 where ok: "in_project_id req = Some pid" "endpoint_granted rt auth Write (Some pid)"
    "validate_init (rt_serde rt) (max_tag_value_length (ct_config (app_tracker s))) req = Ok (tags, params)"
    "store_new_run (rt_now rt) ?rid pid (in_name req) (run_creator auth (app_db s)) tags params (app_db s) = (Ok (), db1)"
    "audit_extends db1 (app_db s')" "app_idem s' = app_idem s" "app_queue s' = app_queue s"
    by (rule init_new_run_Ok [OF new])
  show ?thesis
  proof (cases rule: store_new_run_cases [of "rt_now rt" ?rid pid "in_name req" "run_creator auth (app_db s)" tags params "app_db s"])
    case (stored db')
    then show ?thesis using resp ok audit_extends_tables [OF ok(5)]
      by (intro exI [of _ pid] exI [of _ tags] exI [of _ params]) (simp add: cores_def stored_event_def init_event_def)
  qed (use ok(4) in simp)
qed

text \<open>
  C34: what starting a run does. When a run is started under an identifier nobody uses yet, the
  caller had the write scope and access to the project; the run is in the database with the
  project, the name and its creator, and it is running; its tags and parameters are the ones of the
  request after canonicalisation, the last value of a key wins; the event that the run was
  initialised is recorded; no other run, tag, parameter, event or metric has changed.
\<close>

theorem init_run_creates:
  assumes "http_init_run rt rx auth req s = (Ok resp, s')" and "init_run_id rx req \<notin> set (run_ids (app_db s))"
  shows "\<exists>pid tags params. io_run_id resp = init_run_id rx req \<and> in_project_id req = Some pid
    \<and> endpoint_granted rt auth Write (Some pid)
    \<and> validate_init (rt_serde rt) (max_tag_value_length (ct_config (app_tracker s))) req = Ok (tags, params)
    \<and> cores (app_db s') = cores (app_db s) @ [new_core (init_run_id rx req) pid (in_name req) (run_creator auth (app_db s))]
    \<and> t_tags (app_db s') = fold upsert_tag (tag_rows (init_run_id rx req) tags) (t_tags (app_db s))
    \<and> t_params (app_db s') = fold upsert_param (param_rows (init_run_id rx req) params) (t_params (app_db s))
    \<and> t_run_events (app_db s') = t_run_events (app_db s) @
        [\<lparr>ev_id = event_seq (app_db s) + 1, ev_run_id = init_run_id rx req, ev_level = ''info'', ev_source = ''system'',
          ev_message = ''Run initialized'', ev_step = Some 0, ev_timestamp = None, ev_created_at = rt_now rt\<rparr>]
    \<and> t_metrics (app_db s') = t_metrics (app_db s) \<and> app_idem s' = app_idem s \<and> app_queue s' = app_queue s"
  using assms by (rule init_run_effect)

text \<open>
  starting a run can be retried. After a start that succeeded, the same caller asking again for
  the same run is answered the same way, whatever the rest of the request says, and nothing
  changes: no row, no audit entry, no token of the limiter. A user session needs an identity for
  this, which every session the middleware admits has.
\<close>

lemma init_run_retry:
  assumes "http_init_run rt rx auth req s = (Ok resp, s')"
    and "is_ui_jwt auth \<Longrightarrow> auth_user_id auth \<noteq> None" and "init_run_id rx' req' = init_run_id rx req"
  shows "http_init_run rt rx' auth req' s' = (Ok resp, s')"
proof -
  let ?rid = "init_run_id rx req"
  have resp: "resp = \<lparr>io_run_id = ?rid, io_offline = False\<rparr>"
    using assms(1) by (auto simp: http_init_run_apply op_bind_Ok_iff)
  obtain run where "find_run ?rid (app_db s') = Some run" "mutation_granted rt auth run"
  proof (cases "?rid \<in> set (run_ids (app_db s))")
    case True
    have "on_db (guard_run_mutation rt auth ''run.init'' ''reinitialize'' ?rid) s = (Ok (the (find_run ?rid (app_db s))), s')"
      using assms(1) True
      by (cases rule: guard_run_mutation_cases [of ?rid "app_db s" rt auth "''run.init''" "''reinitialize''"])
        (auto simp: http_init_run_apply op_bind_apply on_db_apply)
    then show ?thesis
      by (cases rule: guard_run_mutation_cases [of ?rid "app_db s" rt auth "''run.init''" "''reinitialize''"])
        (auto simp: on_db_apply intro: that)
  next
    case False
    then obtain pid where core: "cores (app_db s') = cores (app_db s) @ [new_core ?rid pid (in_name req) (run_creator auth (app_db s))]"
      and granted: "endpoint_granted rt auth Write (Some pid)"
      using init_run_effect [OF assms(1) False] by blast
    have ids: "map rn_id (t_runs (app_db s')) = map fst (cores (app_db s'))" by (simp add: cores_def run_core_def)
    then have "?rid \<in> set (run_ids (app_db s'))" using core by (simp add: new_core_def)
    then obtain run where run: "find_run ?rid (app_db s') = Some run"
      by (cases "find_run ?rid (app_db s')") (auto simp: find_run_def find_None_iff)
    have "run_core run = new_core ?rid pid (in_name req) (run_creator auth (app_db s))"
    proof -
      have "run_core run \<notin> set (cores (app_db s))" using find_run_ids [OF run] False by (auto simp: cores_def run_core_def)
      then show ?thesis using find_core [OF run] by (simp add: core)
    qed
    then have "rn_project_id run = pid" "rn_key_id run = fst (run_creator auth (app_db s))" "rn_user_id run = snd (run_creator auth (app_db s))"
      by (simp_all add: run_core_def new_core_def prod_eq_iff)
    then have "mutation_granted rt auth run"
      using granted assms(2)
      by (auto simp: mutation_granted_def run_owner_granted_def key_owner_granted_def run_creator_def split: if_splits)
    with run show ?thesis by (rule that)
  qed
  then have "guard_run_mutation rt auth ''run.init'' ''reinitialize'' ?rid (app_db s') = (Ok run, app_db s')"
    by (cases rule: guard_run_mutation_cases [of ?rid "app_db s'" rt auth "''run.init''" "''reinitialize''"]) auto
  moreover have "?rid \<in> set (run_ids (app_db s'))" using find_run_ids \<open>find_run ?rid (app_db s') = Some run\<close> by blast
  ultimately show ?thesis by (simp add: http_init_run_apply assms(3) resp op_bind_apply on_db_apply)
qed

section \<open>Deleting and finishing\<close>

lemma audit_of_missing_run:
  "rid \<notin> set (run_ids db) \<Longrightarrow> emit_audit_event rt auth p (Some rid) a t i out md db = (Ok (), db)"
  by (auto simp: emit_audit_event_def insert_audit_event_def op_stmt_apply refers_def split: option.splits)

lemma emit_audit_extends: "emit_audit_event rt auth p r a t i out md db = (Ok u, db') \<Longrightarrow> audit_extends db db'"
  by (auto simp: emit_audit_event_def insert_audit_event_extends)

text \<open>
  a run is deleted without a trace. When deleting a run succeeds, the run, its tags, metrics,
  parameters, events, batches and share links are gone and every other row stays; but the entry for
  the audit log refers to the run that is no longer there, the foreign key refuses it, and the
  failure is only logged. So no deletion of a run ever appears in the audit log.
\<close>

lemma delete_run_unaudited:
  assumes "http_delete_run rt auth rid s = (Ok x, s')"
  shows "\<not> run_referenced rid (app_db s') \<and> t_runs (app_db s') = filter (\<lambda>r. rn_id r \<noteq> rid) (t_runs (app_db s))
    \<and> t_tags (app_db s') = filter (\<lambda>t. tg_run_id t \<noteq> rid) (t_tags (app_db s))
    \<and> t_metrics (app_db s') = filter (\<lambda>m. mt_run_id m \<noteq> rid) (t_metrics (app_db s))
    \<and> map au_id (t_audit_events (app_db s')) = map au_id (t_audit_events (app_db s)) \<and> audit_seq (app_db s') = audit_seq (app_db s)
    \<and> s' = s\<lparr>app_db := app_db s'\<rparr>"
proof -
  obtain run where run: "find_run rid (app_db s) = Some run"
    and body: "op_bind (on_db (with_err store_error (delete_run rid))) (\<lambda>_.
     op_bind (on_db (emit_audit_event rt (Some auth) (Some (rn_project_id run)) (Some rid) ''run.delete'' ''run''
       (Some rid) ''success'' (JObject []))) (\<lambda>_. op_return ''ok'')) s = (Ok x, s')"
    using delete.answered [OF assms] by blast
  let ?db = "(clear_run rid (app_db s))\<lparr>t_runs := delete_where (\<lambda>r. rn_id r = rid) (t_runs (app_db s))\<rparr>"
  have "rid \<in> set (run_ids (app_db s))" using find_run_ids [OF run] by simp
  then have "with_err store_error (delete_run rid) (app_db s) = (Ok (), ?db)" by (simp add: delete_run_result with_err_def)
  moreover have "rid \<notin> set (run_ids ?db)" by (auto simp: delete_where_def)
  ultimately have "s' = s\<lparr>app_db := ?db\<rparr>"
    using body by (simp add: op_bind_apply on_db_apply audit_of_missing_run)
  moreover have "\<not> run_referenced rid ?db"
    using clear_run_unreferenced [of rid "app_db s"] by (simp add: run_referenced_def)
  ultimately show ?thesis by (simp add: clear_run_def delete_where_def map_update_where)
qed

text \<open>
  The status of a finish request is any text, \<open>running\<close> included: a run that was finished that
  way has an end and goes on accepting data.
\<close>

definition marked :: "string \<Rightarrow> string \<Rightarrow> timestamp \<Rightarrow> Db \<Rightarrow> bool" where
  "marked rid status now db \<longleftrightarrow> (\<exists>run. find_run rid db = Some run \<and> rn_status run = status \<and> rn_finished_at run = Some now)"

lemma find_run_update:
  assumes "\<And>r. rn_id (f r) = rn_id r"
  shows "find_run rid (db\<lparr>t_runs := update_where (\<lambda>r. rn_id r = rid) f (t_runs db)\<rparr>) = map_option f (find_run rid db)"
proof -
  have "find (\<lambda>r. rn_id r = rid) (update_where (\<lambda>r. rn_id r = rid) f rs) = map_option f (find (\<lambda>r. rn_id r = rid) rs)" for rs
    by (induction rs) (simp_all add: assms)
  then show ?thesis by (simp add: find_run_def)
qed

lemma marked_events: "preserves (marked rid status now) (insert_run_events now' rid es)"
proof -
  have "preserves (marked rid status now) (insert_event_row now' rid e)" for e
    unfolding insert_event_row_def by (rule preserves_stmt) (simp add: marked_def find_run_def)
  moreover have "preserves (marked rid status now) (update_run rid (\<lambda>r. r\<lparr>rn_updated_at := now'\<rparr>))"
    unfolding update_run_def by (rule preserves_write) (auto simp: marked_def find_run_update)
  ultimately show ?thesis unfolding insert_run_events_def by (auto intro: preserves_intros)
qed

lemma http_finish_run_effect:
  assumes "http_finish_run rt rx auth rid status s = (Ok x, s')"
  shows "marked rid status (rt_now rt) (app_db s')"
proof -
  let ?m = "marked rid status (rt_now rt)"
  obtain run where run: "find_run rid (app_db s) = Some run"
    and body: "op_bind (check_write_rate (rx_instant rx) auth (Some (rn_project_id run))) (\<lambda>_.
     op_bind (on_db (with_err internal_error (finish_run (rt_now rt) rid status))) (\<lambda>_.
     op_bind (on_db (best_effort 0 (insert_run_events (rt_now rt) rid [finish_event status]))) (\<lambda>_.
     op_bind (shadow (maybe_shadow_finish_run_in_postgres (rt_env rt) (rx_parse_uuid rx) rid status)) (\<lambda>_.
     op_bind (on_db (emit_audit_event rt (Some auth) (Some (rn_project_id run)) (Some rid) ''run.finish'' ''run''
       (Some rid) ''success'' (JObject [(''status'', JString status)]))) (\<lambda>_.
       op_return ''ok''))))) s = (Ok x, s')"
    using finish.answered [of rt auth rid "(rx, status)" s x s'] assms by auto
  from body obtain db1 db2 n u where 1: "finish_run (rt_now rt) rid status (app_db s) = (Ok (), db1)"
    and 2: "(best_effort 0 (insert_run_events (rt_now rt) rid [finish_event status]) :: nat http) db1 = (Ok n, db2)"
    and audit: "(emit_audit_event rt (Some auth) (Some (rn_project_id run)) (Some rid) ''run.finish'' ''run''
       (Some rid) ''success'' (JObject [(''status'', JString status)]) :: unit http) db2 = (Ok u, app_db s')"
    by (cases rule: check_write_rate_apply [of "rx_instant rx" auth "Some (rn_project_id run)" s])
      (auto simp: op_bind_Ok_iff on_db_Ok_iff with_err_Ok_iff shadow_def)
  have 3: "audit_extends db2 (app_db s')" using audit by (rule emit_audit_extends)
  have "?m db1" using 1 run by (auto simp: finish_run_def update_run_def marked_def find_run_update)
  then have "?m db2" using preservesD [OF preserves_best_effort [OF marked_events] _ 2] by blast
  then show ?thesis using audit_extends_tables(3) [OF 3] by (simp add: marked_def find_run_def)
qed

text \<open>
  The identifier of a new run is not checked the way every path is, so a client can start a run
  that no endpoint can be asked for.
\<close>

definition slash_request :: InitRunHttpRequest where
  "slash_request = \<lparr>in_project = None, in_project_id = Some ''p1'', in_name = None, in_run_id = Some ''a/b'', in_tags = Some [(''team'', ''x'')], in_config = None\<rparr>"

definition run_ext :: RunExt where
  "run_ext = \<lparr>rx_uuid = ''u1'', rx_instant = 0, rx_parse_uuid = (\<lambda>_. None)\<rparr>"

definition run_app :: App where
  "run_app = (sample_app None)\<lparr>app_db := sample_run_db\<rparr>"

lemma slash_checks:
  "fst (resolve_init_project slash_request sample_run_db) = Ok (''p1'', ''demo'')"
  "validate_init sample_serde 1024 slash_request = Ok ([(''tags.team'', ''x'')], [])"
  "is_ok (fst (store_new_run (rt_now sample_runtime) ''a/b'' ''p1'' None (None, None) [(''tags.team'', ''x'')] [] sample_run_db))"
  "run_ids sample_run_db = [''r1'']" "\<not> is_ok (validate_path_id ''a/b'' ''run_id'')"
  by code_simp+

text \<open>A request of the development mode passes the guards and finds a token in the bucket.\<close>

lemma sample_rate: "check_write_rate 0 sample_dev (Some ''p1'') run_app
    = (Ok (), run_app\<lparr>app_writes := snd (limiter_check 0 ''dev:p1'' (app_writes run_app))\<rparr>)"
proof -
  have key: "scoped_write_rate_limit_key sample_dev (Some ''p1'') = ''dev:p1''" by code_simp
  show ?thesis
  proof (cases "limiter_check 0 ''dev:p1'' (app_writes run_app)")
    case (Pair r l)
    then show ?thesis using sample_bucket by (cases r) (auto simp: check_write_rate_def key run_app_def sample_app_def)
  qed
qed

lemma slash_started:
  obtains s' where "http_init_run sample_runtime run_ext sample_dev slash_request run_app = (Ok \<lparr>io_run_id = ''a/b'', io_offline = False\<rparr>, s')"
proof -
  let ?e = "(sample_runtime, sample_dev, Write, Some ''p1'', Some ''a/b'', ''run.init'', ''run'', Some ''a/b'')"
  let ?db = "app_db run_app"
  have app: "?db = sample_run_db" "rx_instant run_ext = 0" "init_run_id run_ext slash_request = ''a/b''" "rt_serde sample_runtime = sample_serde"
    "max_tag_value_length (ct_config (app_tracker run_app)) = 1024" "in_name slash_request = None" "run_creator sample_dev db = (None, None)" for db
    by (simp_all add: run_app_def run_ext_def init_run_id_def slash_request_def sample_runtime_def sample_app_def tracker_new_def
        default_limits_def run_creator_def dev_mode_def is_ui_jwt_def)
  have same: "run_app\<lparr>app_db := sample_run_db\<rparr> = run_app" by (simp add: run_app_def)
  have "resolve_init_project slash_request ?db = (Ok (''p1'', ''demo''), ?db)"
    using slash_checks(1) by (cases rule: resolve_init_project_cases [of slash_request ?db]) (auto simp: app)
  moreover have "require_endpoint_access sample_runtime sample_dev Write (Some ''p1'') (Some ''a/b'') ''run.init'' ''run'' (Some ''a/b'') ?db = (Ok (), ?db)"
    using endpoint_guard.pass [of ?e ?db] by (simp add: endpoint_granted_def scope_granted_def project_granted_def dev_mode_def)
  moreover obtain db1 where "store_new_run (rt_now sample_runtime) ''a/b'' ''p1'' None (None, None) [(''tags.team'', ''x'')] [] ?db = (Ok (), db1)"
    using slash_checks(3)
    by (cases rule: store_new_run_cases [of "rt_now sample_runtime" "''a/b''" "''p1''" None "(None, None)" "[(''tags.team'', ''x'')]" "[]" sample_run_db])
      (simp_all add: app)
  ultimately have "\<exists>s'. init_new_run sample_runtime run_ext sample_dev slash_request ''a/b'' run_app = (Ok (), s')"
    using sample_rate slash_checks(2)
    by (simp add: init_new_run_def op_bind_apply on_db_apply app same shadow_def emit_audit_event_def)
  then show ?thesis using that slash_checks(4) by (auto simp: http_init_run_apply op_bind_apply app)
qed

lemma slash_run_unreachable:
  "is_ok (fst (http_init_run sample_runtime run_ext sample_dev slash_request run_app)) \<and> \<not> is_ok (validate_path_id ''a/b'' ''run_id'')"
  using slash_started slash_checks(5) by force

theorem init_run_creates_witness:
  "\<exists>s'. http_init_run sample_runtime run_ext sample_dev slash_request run_app = (Ok \<lparr>io_run_id = ''a/b'', io_offline = False\<rparr>, s')
    \<and> cores (app_db s') = cores sample_run_db @ [new_core ''a/b'' ''p1'' None (None, None)]
    \<and> ev_message (last (t_run_events (app_db s'))) = ''Run initialized''"
proof -
  obtain s' where init: "http_init_run sample_runtime run_ext sample_dev slash_request run_app = (Ok \<lparr>io_run_id = ''a/b'', io_offline = False\<rparr>, s')"
    by (rule slash_started)
  have "init_run_id run_ext slash_request = ''a/b''" "in_project_id slash_request = Some ''p1''" "in_name slash_request = None"
    "app_db run_app = sample_run_db" "run_creator sample_dev sample_run_db = (None, None)"
    by (simp_all add: init_run_id_def slash_request_def run_app_def run_creator_def dev_mode_def is_ui_jwt_def)
  then show ?thesis using init_run_creates [OF init] init slash_checks(4) by auto
qed

theorem run_changes_guarded_witness:
  "\<exists>st msg s'. http_delete_run sample_runtime sample_key_auth ''r1'' run_app = (Err (st, msg), s') \<and> only_audited run_app s'"
proof -
  have "\<not> endpoint_granted sample_runtime sample_key_auth Write (Some ''p1'')" by code_simp
  moreover have "rn_project_id (the (find_run ''r1'' sample_run_db)) = ''p1''" by code_simp
  ultimately have "\<not> (\<exists>run. find_run ''r1'' (app_db run_app) = Some run \<and> mutation_granted sample_runtime sample_key_auth run)"
    by (auto simp: mutation_granted_def run_app_def)
  from run_changes_guarded [OF this] show ?thesis by blast
qed

theorem delete_run_unaudited_witness:
  "\<exists>s'. http_delete_run sample_runtime sample_dev ''r1'' run_app = (Ok ''ok'', s')
    \<and> t_runs (app_db s') = [] \<and> map au_id (t_audit_events (app_db s')) = map au_id (t_audit_events sample_run_db)"
proof -
  have run: "find_run ''r1'' sample_run_db = Some (the (find_run ''r1'' sample_run_db))" by code_simp
  have "mutation_granted sample_runtime sample_dev run" for run
    by (simp add: mutation_granted_def endpoint_granted_def scope_granted_def project_granted_def run_owner_granted_def
        key_owner_granted_def dev_mode_def)
  then have "guard_run_mutation sample_runtime sample_dev ''run.delete'' ''delete'' ''r1'' sample_run_db
      = (Ok (the (find_run ''r1'' sample_run_db)), sample_run_db)"
    using run by (cases rule: guard_run_mutation_cases [of "''r1''" sample_run_db sample_runtime sample_dev "''run.delete''" "''delete''"]) auto
  moreover have "validate_path_id ''r1'' ''run_id'' = Ok ()" by code_simp
  ultimately obtain s' where del: "http_delete_run sample_runtime sample_dev ''r1'' run_app = (Ok ''ok'', s')"
    using slash_checks(4)
    by (auto simp: http_delete_run_def app_path_def lift_result_def op_bind_apply on_db_apply run_app_def with_err_def delete_run_result
        emit_audit_event_def)
  have "list_all (\<lambda>r. rn_id r = ''r1'') (t_runs sample_run_db)" by code_simp
  then have "filter (\<lambda>r. rn_id r \<noteq> ''r1'') (t_runs sample_run_db) = []" by (simp add: filter_empty_conv list_all_iff)
  then show ?thesis using delete_run_unaudited [OF del] del by (auto simp: run_app_def)
qed

end
