(* ===== verification/Project_Handlers.thy ===== *)
theory Project_Handlers
  imports Run_Handlers
begin

text \<open>
  The handlers for projects and their metric aliases and the administration of users, sessions and
  the audit log (apps/api/src/main.rs: http_list_projects to http_delete_project and http_admin_*,
  but for the rotation of the bootstrap key, which is in theory Key_Handlers).

  Parameters: the identifiers generated by a request. The set of a user's projects is read in the
  order of the identifiers; the answer is sorted by name, and names are unique.
\<close>

section \<open>Projects\<close>

record ProjectResponse =
  pr_project_id :: string
  pr_name :: string
  pr_description :: "string option"
  pr_created_at :: timestamp
  pr_updated_at :: timestamp

definition project_response_from_row :: "ProjectRow \<Rightarrow> ProjectResponse" where
  "project_response_from_row row =
     \<lparr>pr_project_id = pj_id row, pr_name = pj_name row, pr_description = pj_description row,
      pr_created_at = pj_created_at row, pr_updated_at = pj_updated_at row\<rparr>"

definition http_list_projects :: "Runtime \<Rightarrow> AuthContext \<Rightarrow> ProjectResponse list http" where
  "http_list_projects rt auth =
     op_bind (require_endpoint_access rt auth Read None None ''projects.list'' ''project'' None) (\<lambda>_.
     op_bind (with_err internal_error
       (if is_global auth \<and> (\<not> is_ui_jwt auth \<or> is_platform_admin auth) then list_projects
        else
          (case allowed_project_ids auth of
             Some allowed \<Rightarrow> list_projects_by_ids (sorted_list_of_set allowed)
           | None \<Rightarrow>
               (case context_project_id auth of
                  Some pid \<Rightarrow> list_projects_by_ids [pid]
                | None \<Rightarrow> op_return [])))) (\<lambda>rows.
       op_return (map project_response_from_row rows)))"

text \<open>The database names the constraint that failed; the handler looks for the one on names.\<close>

definition create_project_error :: "string \<Rightarrow> Db \<Rightarrow> SqliteError \<Rightarrow> http_error" where
  "create_project_error name db e =
     (if e = Database UniqueViolation \<and> name \<in> set (map pj_name (t_projects db))
      then (CONFLICT, ''Project '' @ sq name @ '' already exists.'')
      else internal_error e)"

record ProjectExt =
  px_project_id :: string
  px_membership_id :: string
  px_parse_uuid :: "string \<Rightarrow> string option"

definition insert_project :: "Runtime \<Rightarrow> ProjectExt \<Rightarrow> string \<Rightarrow> string option \<Rightarrow> ProjectRow http" where
  "insert_project rt px name description = (\<lambda>db.
     with_err (create_project_error name db) (create_project (px_project_id px) (rt_now rt) name description) db)"

definition project_created :: "Runtime \<Rightarrow> ProjectExt \<Rightarrow> AuthContext \<Rightarrow> ProjectRow \<Rightarrow> ProjectResponse app" where
  "project_created rt px auth row =
     op_bind (shadow (maybe_shadow_write_project_to_postgres (rt_env rt) (px_parse_uuid px) row)) (\<lambda>_.
     op_bind (on_db (emit_audit_event rt (Some auth) (Some (pj_id row)) None ''project.create'' ''project'' (Some (pj_id row))
       ''success'' (JObject [(''auth_mode'', JString (auth_mode_label auth)), (''name'', JString (pj_name row))]))) (\<lambda>_.
       op_return (project_response_from_row row)))"

definition http_create_project ::
  "Runtime \<Rightarrow> ProjectExt \<Rightarrow> AuthContext \<Rightarrow> string \<Rightarrow> string option \<Rightarrow> ProjectResponse app" where
  "http_create_project rt px auth raw_name description =
     (let name = trim raw_name in
      if name = [] then op_fail (BAD_REQUEST, ''Project name is required.'')
      else if is_ui_jwt auth
      then
        op_bind (lift_result (require_scope auth ''write'')) (\<lambda>_.
        op_bind (lift_result (ok_or (auth_user_id auth)
          (FORBIDDEN, ''Unable to resolve user identity for project creation.''))) (\<lambda>user_id.
        op_bind (on_db (insert_project rt px name description)) (\<lambda>row.
        op_bind (on_db (with_err internal_error
          (grant_project_membership (px_membership_id px) (rt_now rt) (pj_id row) user_id ''owner'' (Some user_id)))) (\<lambda>_.
          project_created rt px auth row))))
      else
        op_bind (on_db (require_endpoint_access rt auth Admin None None ''project.create'' ''project'' None)) (\<lambda>_.
          if \<not> is_global auth
          then op_fail (FORBIDDEN, ''Project creation requires a global admin key or UI session.'')
          else op_bind (on_db (insert_project rt px name description)) (\<lambda>row. project_created rt px auth row)))"

text \<open>The project a path names, or 404.\<close>

definition load_project :: "string \<Rightarrow> ProjectRow http" where
  "load_project project_id =
     op_bind (with_err internal_error (get_project_by_id project_id)) (\<lambda>p.
       lift_result (ok_or p (project_missing project_id)))"

definition http_delete_project :: "Runtime \<Rightarrow> AuthContext \<Rightarrow> string \<Rightarrow> string http" where
  "http_delete_project rt auth project_id =
     checked_path project_id ''project_id''
       (op_bind (load_project project_id) (\<lambda>project.
        op_bind (require_endpoint_access rt auth Admin (Some project_id) None ''project.delete'' ''project'' (Some project_id)) (\<lambda>_.
        op_bind
          (if is_ui_jwt auth then require_ui_project_owner auth project_id
           else if \<not> is_global auth
           then op_fail (FORBIDDEN, ''Project deletion requires a global admin key or owner UI session.'')
           else op_return ()) (\<lambda>_.
        op_bind (with_err store_error (delete_project project_id)) (\<lambda>_.
        op_bind (emit_audit_event rt (Some auth) (Some project_id) None ''project.delete'' ''project'' (Some project_id)
          ''success'' (JObject [(''auth_mode'', JString (auth_mode_label auth)), (''name'', JString (pj_name project))])) (\<lambda>_.
          op_return ''ok''))))))"

section \<open>Metric aliases\<close>

record UpsertMetricAliasRequest =
  ua_raw_name :: string
  ua_display_name :: string
  ua_unit :: "string option"
  ua_description :: "string option"
  ua_is_active :: bool

definition default_metric_alias_is_active :: bool where
  "default_metric_alias_is_active = True"

record MetricAliasResponse =
  ma_project_id :: string
  ma_raw_name :: string
  ma_metric_name :: string
  ma_display_name :: string
  ma_unit :: "string option"
  ma_description :: "string option"
  ma_is_active :: bool
  ma_created_at :: timestamp
  ma_updated_at :: timestamp

definition metric_alias_response_from_row :: "MetricAliasRow \<Rightarrow> MetricAliasResponse" where
  "metric_alias_response_from_row row =
     \<lparr>ma_project_id = al_project_id row, ma_raw_name = al_metric_name row, ma_metric_name = al_metric_name row,
      ma_display_name = al_display_name row, ma_unit = al_unit row, ma_description = al_description row,
      ma_is_active = al_is_active row, ma_created_at = al_created_at row, ma_updated_at = al_updated_at row\<rparr>"

definition http_list_project_metric_aliases :: "Runtime \<Rightarrow> AuthContext \<Rightarrow> string \<Rightarrow> (string \<times> MetricAliasResponse list) http" where
  "http_list_project_metric_aliases rt auth project_id =
     checked_path project_id ''project_id''
       (op_bind (load_project project_id) (\<lambda>_.
        op_bind (require_endpoint_access rt auth Read (Some project_id) None ''project.metric_aliases.read'' ''project'' (Some project_id)) (\<lambda>_.
        op_bind (with_err internal_error (list_metric_aliases project_id)) (\<lambda>rows.
          op_return (project_id, map metric_alias_response_from_row rows)))))"

definition nonblank :: "string option \<Rightarrow> string option" where
  "nonblank v = (case map_option trim v of Some t \<Rightarrow> if t = [] then None else Some t | None \<Rightarrow> None)"

definition validate_alias_names :: "UpsertMetricAliasRequest \<Rightarrow> (string \<times> string, http_error) result" where
  "validate_alias_names req =
     (let raw = trim (ua_raw_name req); display = trim (ua_display_name req) in
      if raw = [] then Err (BAD_REQUEST, ''raw_name is required.'')
      else if 256 < length raw then Err (BAD_REQUEST, ''raw_name must be <= 256 characters.'')
      else if display = [] then Err (BAD_REQUEST, ''display_name is required.'')
      else if 128 < length display then Err (BAD_REQUEST, ''display_name must be <= 128 characters.'')
      else Ok (raw, display))"

text \<open>The primary key is upserted, so the only uniqueness that can fail is that of active display names.\<close>

definition alias_error :: "SqliteError \<Rightarrow> http_error" where
  "alias_error e =
     (if e = Database UniqueViolation
      then (CONFLICT, ''display_name must be unique among active metric aliases in the project.'')
      else internal_error e)"

text \<open>The guards in front of a change of an alias.\<close>

definition guard_alias_write :: "Runtime \<Rightarrow> AuthContext \<Rightarrow> string \<Rightarrow> string \<Rightarrow> unit http" where
  "guard_alias_write rt auth action project_id =
     op_bind (require_endpoint_access rt auth Write (Some project_id) None action ''project'' (Some project_id)) (\<lambda>_.
       require_ui_project_editor_or_owner auth project_id)"

definition http_upsert_project_metric_alias ::
  "Runtime \<Rightarrow> AuthContext \<Rightarrow> string \<Rightarrow> UpsertMetricAliasRequest \<Rightarrow> MetricAliasResponse http" where
  "http_upsert_project_metric_alias rt auth project_id req =
     checked_path project_id ''project_id''
       (op_bind (load_project project_id) (\<lambda>_.
        op_bind (guard_alias_write rt auth ''project.metric_aliases.write'' project_id) (\<lambda>_.
        op_bind (lift_result (validate_alias_names req)) (\<lambda>(raw, display).
        op_bind (with_err alias_error (upsert_metric_alias (rt_now rt) project_id raw display (nonblank (ua_unit req))
          (nonblank (ua_description req)) (ua_is_active req))) (\<lambda>row.
        op_bind (emit_audit_event rt (Some auth) (Some project_id) None ''project.metric_aliases.upsert'' ''project''
          (Some project_id) ''success''
          (JObject [(''auth_mode'', JString (auth_mode_label auth)), (''display_name'', JString display),
                    (''is_active'', JBool (ua_is_active req)), (''raw_name'', JString raw)])) (\<lambda>_.
          op_return (metric_alias_response_from_row row)))))))"

definition http_delete_project_metric_alias :: "Runtime \<Rightarrow> AuthContext \<Rightarrow> string \<Rightarrow> string \<Rightarrow> string http" where
  "http_delete_project_metric_alias rt auth project_id metric_name =
     checked_path project_id ''project_id''
       (op_bind (load_project project_id) (\<lambda>_.
        if trim metric_name = [] then op_fail (BAD_REQUEST, ''metric_name is required.'')
        else
          op_bind (guard_alias_write rt auth ''project.metric_aliases.delete'' project_id) (\<lambda>_.
          op_bind (with_err internal_error (delete_metric_alias project_id (trim metric_name))) (\<lambda>deleted.
          if \<not> deleted
          then op_fail (NOT_FOUND, ''Metric alias '' @ sq (trim metric_name) @ '' not found in project '' @ sq project_id @ ''.'')
          else
            op_bind (emit_audit_event rt (Some auth) (Some project_id) None ''project.metric_aliases.delete'' ''project''
              (Some project_id) ''success''
              (JObject [(''auth_mode'', JString (auth_mode_label auth)), (''metric_name'', JString (trim metric_name))])) (\<lambda>_.
              op_return ''ok'')))))"

section \<open>Administration\<close>

record AdminUserResponse =
  xu_user_id :: string
  xu_email :: "string option"
  xu_display_name :: "string option"
  xu_auth_provider :: string
  xu_external_subject :: "string option"
  xu_is_service_account :: bool
  xu_disabled :: bool
  xu_active_project_count :: nat
  xu_active_session_count :: nat
  xu_created_at :: timestamp
  xu_updated_at :: timestamp

definition admin_user_response_from_row :: "UserRow \<Rightarrow> AdminUserResponse" where
  "admin_user_response_from_row row =
     (let u = ur_user row in
      \<lparr>xu_user_id = us_id u, xu_email = us_email u, xu_display_name = us_display_name u,
       xu_auth_provider = us_auth_provider u, xu_external_subject = us_external_subject u,
       xu_is_service_account = us_is_service_account u, xu_disabled = (us_disabled_at u \<noteq> None),
       xu_active_project_count = ur_active_project_count row, xu_active_session_count = ur_active_session_count row,
       xu_created_at = us_created_at u, xu_updated_at = us_updated_at u\<rparr>)"

record AdminSessionResponse =
  xs_session_id :: string
  xs_user_id :: string
  xs_created_at :: timestamp
  xs_last_seen_at :: "timestamp option"
  xs_expires_at :: timestamp
  xs_revoked_at :: "timestamp option"
  xs_client_ip :: "string option"
  xs_user_agent :: "string option"

definition admin_session_response_from_row :: "SessionRec \<Rightarrow> AdminSessionResponse" where
  "admin_session_response_from_row row =
     \<lparr>xs_session_id = se_id row, xs_user_id = se_user_id row, xs_created_at = se_created_at row,
      xs_last_seen_at = se_last_seen_at row, xs_expires_at = se_expires_at row, xs_revoked_at = se_revoked_at row,
      xs_client_ip = se_client_ip row, xs_user_agent = se_user_agent row\<rparr>"

record AdminAuditEventResponse =
  xa_row :: AuditEventRow
  xa_metadata :: Json

definition admin_audit_event_response_from_row :: "Serde \<Rightarrow> AuditEventRow \<Rightarrow> AdminAuditEventResponse" where
  "admin_audit_event_response_from_row sd row =
     \<lparr>xa_row = row,
      xa_metadata = (case json_from_str sd (au_metadata row) of
        Some v \<Rightarrow> v | None \<Rightarrow> JObject [(''raw'', JString (au_metadata row))])\<rparr>"

definition user_missing :: "string \<Rightarrow> http_error" where
  "user_missing user_id = (NOT_FOUND, ''User not found: '' @ sq user_id)"

definition load_user :: "Runtime \<Rightarrow> string \<Rightarrow> UserRow http" where
  "load_user rt user_id =
     op_bind (with_err internal_error (get_user_by_id (rt_now rt) user_id)) (\<lambda>u.
       lift_result (ok_or u (user_missing user_id)))"

definition admin_audit :: "Runtime \<Rightarrow> AuthContext \<Rightarrow> string \<Rightarrow> string \<Rightarrow> string option \<Rightarrow> (string \<times> Json) list \<Rightarrow> unit http" where
  "admin_audit rt auth action resource_type resource_id metadata =
     emit_audit_event rt (Some auth) None None action resource_type resource_id ''success'' (JObject metadata)"

definition http_admin_list_users :: "Runtime \<Rightarrow> AuthContext \<Rightarrow> AdminUserResponse list http" where
  "http_admin_list_users rt auth =
     op_bind (require_platform_admin_access rt auth ''admin.users.list'' ''user'' None) (\<lambda>_.
     op_bind (with_err internal_error (list_users (rt_now rt))) (\<lambda>rows.
     op_bind (admin_audit rt auth ''admin.users.list'' ''user'' None []) (\<lambda>_.
       op_return (map admin_user_response_from_row rows))))"

definition http_admin_list_user_memberships ::
  "Runtime \<Rightarrow> AuthContext \<Rightarrow> string \<Rightarrow> bool \<Rightarrow> (string \<times> UserProjectMembershipRow list) http" where
  "http_admin_list_user_memberships rt auth user_id include_revoked =
     checked_path user_id ''user_id''
       (op_bind (require_platform_admin_access rt auth ''admin.user.memberships.list'' ''user'' (Some user_id)) (\<lambda>_.
        op_bind (load_user rt user_id) (\<lambda>_.
        op_bind (with_err internal_error (list_user_project_memberships user_id include_revoked)) (\<lambda>rows.
        op_bind (admin_audit rt auth ''admin.user.memberships.list'' ''user'' (Some user_id)
          [(''include_revoked'', JBool include_revoked)]) (\<lambda>_.
          op_return (user_id, rows))))))"

definition http_admin_disable_user :: "Runtime \<Rightarrow> AuthContext \<Rightarrow> string \<Rightarrow> AdminUserResponse http" where
  "http_admin_disable_user rt auth user_id =
     checked_path user_id ''user_id''
       (op_bind (require_platform_admin_access rt auth ''admin.user.disable'' ''user'' (Some user_id)) (\<lambda>_.
        op_bind (load_user rt user_id) (\<lambda>_.
        op_bind (with_err internal_error (set_user_disabled (rt_now rt) user_id True)) (\<lambda>_.
        op_bind (with_err internal_error (revoke_all_sessions_for_user (rt_now rt) user_id)) (\<lambda>_.
        op_bind (load_user rt user_id) (\<lambda>user.
        op_bind (admin_audit rt auth ''admin.user.disable'' ''user'' (Some user_id) []) (\<lambda>_.
          op_return (admin_user_response_from_row user))))))))"

definition http_admin_enable_user :: "Runtime \<Rightarrow> AuthContext \<Rightarrow> string \<Rightarrow> AdminUserResponse http" where
  "http_admin_enable_user rt auth user_id =
     checked_path user_id ''user_id''
       (op_bind (require_platform_admin_access rt auth ''admin.user.enable'' ''user'' (Some user_id)) (\<lambda>_.
        op_bind (load_user rt user_id) (\<lambda>_.
        op_bind (with_err internal_error (set_user_disabled (rt_now rt) user_id False)) (\<lambda>_.
        op_bind (load_user rt user_id) (\<lambda>user.
        op_bind (admin_audit rt auth ''admin.user.enable'' ''user'' (Some user_id) []) (\<lambda>_.
          op_return (admin_user_response_from_row user)))))))"

definition http_admin_list_sessions :: "Runtime \<Rightarrow> AuthContext \<Rightarrow> string option \<Rightarrow> bool \<Rightarrow> AdminSessionResponse list http" where
  "http_admin_list_sessions rt auth user_id include_revoked =
     op_bind (require_platform_admin_access rt auth ''admin.sessions.list'' ''auth_session'' None) (\<lambda>_.
     op_bind (case user_id of Some u \<Rightarrow> op_bind (load_user rt u) (\<lambda>_. op_return ()) | None \<Rightarrow> op_return ()) (\<lambda>_.
     op_bind (with_err internal_error (list_auth_sessions_for_admin user_id include_revoked)) (\<lambda>rows.
     op_bind (admin_audit rt auth ''admin.sessions.list'' ''auth_session'' None
       [(''include_revoked'', JBool include_revoked), (''user_id'', json_opt_str user_id)]) (\<lambda>_.
       op_return (map admin_session_response_from_row rows)))))"

definition http_admin_revoke_session :: "Runtime \<Rightarrow> AuthContext \<Rightarrow> string \<Rightarrow> string http" where
  "http_admin_revoke_session rt auth session_id =
     checked_path session_id ''session_id''
       (op_bind (require_platform_admin_access rt auth ''admin.session.revoke'' ''auth_session'' (Some session_id)) (\<lambda>_.
        op_bind (with_err internal_error (revoke_auth_session_by_id (rt_now rt) session_id)) (\<lambda>revoked.
        if \<not> revoked then op_fail (NOT_FOUND, ''Session not found or already revoked: '' @ sq session_id)
        else
          op_bind (admin_audit rt auth ''admin.session.revoke'' ''auth_session'' (Some session_id) []) (\<lambda>_.
            op_return ''ok''))))"

record AdminAuditEventsQuery =
  aq_project_id :: "string option"
  aq_user_id :: "string option"
  aq_key_id :: "string option"
  aq_action :: "string option"
  aq_outcome :: "string option"
  aq_limit :: "nat option"

definition http_admin_list_audit_events ::
  "Runtime \<Rightarrow> AuthContext \<Rightarrow> AdminAuditEventsQuery \<Rightarrow> AdminAuditEventResponse list http" where
  "http_admin_list_audit_events rt auth q =
     op_bind (require_platform_admin_access rt auth ''admin.audit.list'' ''audit_event'' None) (\<lambda>_.
     let page = clamp (case aq_limit q of Some n \<Rightarrow> n | None \<Rightarrow> 100) 1 500 in
     op_bind (with_err internal_error
       (list_audit_events_for_admin (aq_project_id q) (aq_user_id q) (aq_key_id q) (aq_action q) (aq_outcome q) page)) (\<lambda>rows.
     op_bind (admin_audit rt auth ''admin.audit.list'' ''audit_event'' None
       [(''action'', json_opt_str (aq_action q)), (''key_id'', json_opt_str (aq_key_id q)), (''limit'', json_nat page),
        (''outcome'', json_opt_str (aq_outcome q)), (''project_id'', json_opt_str (aq_project_id q)),
        (''user_id'', json_opt_str (aq_user_id q))]) (\<lambda>_.
       op_return (map (admin_audit_event_response_from_row (rt_serde rt)) rows))))"

section \<open>Who may administer\<close>

text \<open>
  Every endpoint of the administration asks for a platform administrator first, once the path is
  well formed.
\<close>

locale admin_endpoint =
  fixes handler :: "Runtime \<Rightarrow> AuthContext \<Rightarrow> 'q \<Rightarrow> 'r http"
    and well_formed :: "'q \<Rightarrow> (unit, http_error) result"
    and event :: "'q \<Rightarrow> string \<times> string \<times> string option"
    and body :: "Runtime \<Rightarrow> AuthContext \<Rightarrow> 'q \<Rightarrow> 'r http"
  assumes shape: "handler rt auth q = op_bind (lift_result (well_formed q)) (\<lambda>_.
      op_bind (case event q of (action, kind, target) \<Rightarrow> require_platform_admin_access rt auth action kind target) (\<lambda>_. body rt auth q))"
    and malformed: "well_formed q = Err e \<Longrightarrow> fst e = BAD_REQUEST"
begin

lemma refused:
  assumes "\<not> platform_granted rt auth"
  shows "refused (handler rt auth q) db"
proof (cases "well_formed q")
  case (Ok u)
  obtain action kind target where e: "event q = (action, kind, target)" by (cases "event q")
  then show ?thesis
    using platform_guard.refuse [of "(rt, auth, action, kind, target)" db] assms Ok
    by (auto simp: refused_def shape op_bind_apply lift_result_def)
next
  case (Err e)
  then show ?thesis using malformed [OF Err] by (cases e) (simp add: refused_def shape op_bind_apply lift_result_def)
qed

lemma granted:
  assumes "platform_granted rt auth" "well_formed q = Ok ()"
  shows "handler rt auth q db = body rt auth q db"
proof -
  obtain action kind target where e: "event q = (action, kind, target)" by (cases "event q")
  then show ?thesis
    using platform_guard.pass [of "(rt, auth, action, kind, target)" db] assms
    by (simp add: shape op_bind_apply lift_result_def)
qed

end

lemma path_malformed: "validate_path_id i n = Err e \<Longrightarrow> fst e = BAD_REQUEST"
  by (auto simp: validate_path_id_def split: if_splits)

lemma no_path: "op_bind (lift_result (Ok ())) (\<lambda>_. m) = m"
  by (rule ext) (simp add: op_bind_apply lift_result_def)

lemmas admin_shape = checked_path_def path_malformed no_path

interpretation admin_users: admin_endpoint "\<lambda>rt auth (q :: unit). http_admin_list_users rt auth" "\<lambda>_. Ok ()"
  "\<lambda>_. (''admin.users.list'', ''user'', None)"
  "\<lambda>rt auth _. op_bind (with_err internal_error (list_users (rt_now rt))) (\<lambda>rows.
     op_bind (admin_audit rt auth ''admin.users.list'' ''user'' None []) (\<lambda>_.
       op_return (map admin_user_response_from_row rows)))"
  by unfold_locales (simp_all add: http_admin_list_users_def admin_shape)

interpretation admin_memberships: admin_endpoint "\<lambda>rt auth (u, b). http_admin_list_user_memberships rt auth u b"
  "\<lambda>(u, b). validate_path_id u ''user_id''" "\<lambda>(u, b). (''admin.user.memberships.list'', ''user'', Some u)"
  "\<lambda>rt auth (u, b). op_bind (load_user rt u) (\<lambda>_.
     op_bind (with_err internal_error (list_user_project_memberships u b)) (\<lambda>rows.
     op_bind (admin_audit rt auth ''admin.user.memberships.list'' ''user'' (Some u) [(''include_revoked'', JBool b)]) (\<lambda>_.
       op_return (u, rows))))"
  by unfold_locales (auto simp: http_admin_list_user_memberships_def admin_shape dest: path_malformed)

interpretation admin_disable: admin_endpoint http_admin_disable_user "\<lambda>u. validate_path_id u ''user_id''"
  "\<lambda>u. (''admin.user.disable'', ''user'', Some u)"
  "\<lambda>rt auth u. op_bind (load_user rt u) (\<lambda>_.
     op_bind (with_err internal_error (set_user_disabled (rt_now rt) u True)) (\<lambda>_.
     op_bind (with_err internal_error (revoke_all_sessions_for_user (rt_now rt) u)) (\<lambda>_.
     op_bind (load_user rt u) (\<lambda>user.
     op_bind (admin_audit rt auth ''admin.user.disable'' ''user'' (Some u) []) (\<lambda>_.
       op_return (admin_user_response_from_row user))))))"
  by unfold_locales (simp_all add: http_admin_disable_user_def admin_shape)

interpretation admin_enable: admin_endpoint http_admin_enable_user "\<lambda>u. validate_path_id u ''user_id''"
  "\<lambda>u. (''admin.user.enable'', ''user'', Some u)"
  "\<lambda>rt auth u. op_bind (load_user rt u) (\<lambda>_.
     op_bind (with_err internal_error (set_user_disabled (rt_now rt) u False)) (\<lambda>_.
     op_bind (load_user rt u) (\<lambda>user.
     op_bind (admin_audit rt auth ''admin.user.enable'' ''user'' (Some u) []) (\<lambda>_.
       op_return (admin_user_response_from_row user)))))"
  by unfold_locales (simp_all add: http_admin_enable_user_def admin_shape)

interpretation admin_sessions: admin_endpoint "\<lambda>rt auth (u, b). http_admin_list_sessions rt auth u b" "\<lambda>_. Ok ()"
  "\<lambda>_. (''admin.sessions.list'', ''auth_session'', None)"
  "\<lambda>rt auth (u, b). op_bind (case u of Some i \<Rightarrow> op_bind (load_user rt i) (\<lambda>_. op_return ()) | None \<Rightarrow> op_return ()) (\<lambda>_.
     op_bind (with_err internal_error (list_auth_sessions_for_admin u b)) (\<lambda>rows.
     op_bind (admin_audit rt auth ''admin.sessions.list'' ''auth_session'' None
       [(''include_revoked'', JBool b), (''user_id'', json_opt_str u)]) (\<lambda>_.
       op_return (map admin_session_response_from_row rows))))"
  by unfold_locales (auto simp: http_admin_list_sessions_def admin_shape)

interpretation admin_revoke: admin_endpoint http_admin_revoke_session "\<lambda>i. validate_path_id i ''session_id''"
  "\<lambda>i. (''admin.session.revoke'', ''auth_session'', Some i)"
  "\<lambda>rt auth i. op_bind (with_err internal_error (revoke_auth_session_by_id (rt_now rt) i)) (\<lambda>revoked.
     if \<not> revoked then op_fail (NOT_FOUND, ''Session not found or already revoked: '' @ sq i)
     else op_bind (admin_audit rt auth ''admin.session.revoke'' ''auth_session'' (Some i) []) (\<lambda>_. op_return ''ok''))"
  by unfold_locales (simp_all add: http_admin_revoke_session_def admin_shape)

interpretation admin_audit_events: admin_endpoint http_admin_list_audit_events "\<lambda>_. Ok ()"
  "\<lambda>_. (''admin.audit.list'', ''audit_event'', None)"
  "\<lambda>rt auth q. let page = clamp (case aq_limit q of Some n \<Rightarrow> n | None \<Rightarrow> 100) 1 500 in
     op_bind (with_err internal_error
       (list_audit_events_for_admin (aq_project_id q) (aq_user_id q) (aq_key_id q) (aq_action q) (aq_outcome q) page)) (\<lambda>rows.
     op_bind (admin_audit rt auth ''admin.audit.list'' ''audit_event'' None
       [(''action'', json_opt_str (aq_action q)), (''key_id'', json_opt_str (aq_key_id q)), (''limit'', json_nat page),
        (''outcome'', json_opt_str (aq_outcome q)), (''project_id'', json_opt_str (aq_project_id q)),
        (''user_id'', json_opt_str (aq_user_id q))]) (\<lambda>_.
       op_return (map (admin_audit_event_response_from_row (rt_serde rt)) rows)))"
  by unfold_locales (simp_all add: http_admin_list_audit_events_def admin_shape)

text \<open>
  C35: the administration is for platform administrators. Listing users, memberships, sessions and
  the audit log, disabling and enabling users and revoking sessions fails with 400 or 403 for
  everybody else and changes nothing but the audit log. The eighth route of the administration,
  which rotates the bootstrap key, is not among them.
\<close>

theorem administration_guarded:
  assumes "\<not> platform_granted rt auth"
    and "m \<in> {map_res (\<lambda>_. ()) (http_admin_list_users rt auth), map_res (\<lambda>_. ()) (http_admin_list_user_memberships rt auth uid b),
      map_res (\<lambda>_. ()) (http_admin_disable_user rt auth uid), map_res (\<lambda>_. ()) (http_admin_enable_user rt auth uid),
      map_res (\<lambda>_. ()) (http_admin_list_sessions rt auth ouid b), map_res (\<lambda>_. ()) (http_admin_revoke_session rt auth sid),
      map_res (\<lambda>_. ()) (http_admin_list_audit_events rt auth q)}"
  shows "refused m db"
  using assms(2) admin_users.refused [OF assms(1), of db] admin_memberships.refused [OF assms(1), of "(uid, b)" db]
    admin_disable.refused [OF assms(1), of uid db] admin_enable.refused [OF assms(1), of uid db]
    admin_sessions.refused [OF assms(1), of "(ouid, b)" db] admin_revoke.refused [OF assms(1), of sid db]
    admin_audit_events.refused [OF assms(1), of q db]
  by (elim insertE emptyE) simp_all

lemma load_user_Ok: "load_user rt uid db = (Ok u, db') \<longleftrightarrow> db' = db \<and> map_option (user_row (rt_now rt) db) (find (\<lambda>x. us_id x = uid) (t_users db)) = Some u"
  by (auto simp: load_user_def op_bind_Ok_iff with_err_Ok_iff lift_result_Ok_iff get_user_by_id_def)

text \<open>
  C36: what disabling a user does. The user exists and is marked as disabled from now on, or already
  was and stays as marked; nothing else of the account and no other account changes. Every session
  of the user is revoked, so that no token resolves to one of them; sessions of other users stay as
  they are, and memberships and keys do too.
\<close>

theorem disable_user_effect:
  assumes "http_admin_disable_user rt auth uid db = (Ok resp, db')"
  shows "platform_granted rt auth \<and> xu_disabled resp
    \<and> (\<exists>u \<in> set (t_users db'). us_id u = uid \<and> us_disabled_at u \<noteq> None)
    \<and> t_users db' = map (\<lambda>u. if us_id u = uid \<and> us_disabled_at u = None
                           then u\<lparr>us_disabled_at := Some (rt_now rt), us_updated_at := rt_now rt\<rparr> else u) (t_users db)
    \<and> (\<forall>th now s. get_active_auth_session_by_token_hash now th db' = (Ok (Some s), db') \<longrightarrow> se_user_id s \<noteq> uid)
    \<and> filter (\<lambda>s. se_user_id s \<noteq> uid) (t_sessions db') = filter (\<lambda>s. se_user_id s \<noteq> uid) (t_sessions db)
    \<and> t_memberships db' = t_memberships db \<and> t_api_keys db' = t_api_keys db"
proof -
  have granted: "platform_granted rt auth"
    using admin_disable.refused [of rt auth uid db] assms by (fastforce simp: refused_def)
  have "validate_path_id uid ''user_id'' = Ok ()"
    using assms by (auto simp: http_admin_disable_user_def checked_path_def op_bind_Ok_iff lift_result_Ok_iff)
  note body = admin_disable.granted [OF granted this, of db, unfolded assms]
  let ?now = "rt_now rt"
  let ?db1 = "snd (set_user_disabled ?now uid True db)"
  let ?db2 = "snd (revoke_all_sessions_for_user ?now uid ?db1)"
  obtain u u' where u: "find (\<lambda>x. us_id x = uid) (t_users db) = Some u" and u': "find (\<lambda>x. us_id x = uid) (t_users ?db2) = Some u'"
    and resp: "resp = admin_user_response_from_row (user_row ?now ?db2 u')" and audit: "audit_extends ?db2 db'"
    using body [symmetric]
    by (auto simp: op_bind_Ok_iff with_err_Ok_iff load_user_Ok admin_audit_def set_user_disabled_def revoke_all_sessions_for_user_def
        revoke_sessions_where_def Let_def dest!: emit_audit_extends)
  have users: "t_users ?db2 = update_where (\<lambda>x. us_id x = uid \<and> us_disabled_at x = None)
      (\<lambda>x. x\<lparr>us_disabled_at := Some ?now, us_updated_at := ?now\<rparr>) (t_users db)"
    and sessions: "t_sessions ?db2 = update_where (\<lambda>s. se_user_id s = uid \<and> se_revoked_at s = None) (stamp_session ?now) (t_sessions db)"
    and rest: "t_memberships ?db2 = t_memberships db" "t_api_keys ?db2 = t_api_keys db"
    by (simp_all add: set_user_disabled_def revoke_all_sessions_for_user_def revoke_sessions_where_def Let_def)
  have found: "us_id u' = uid" "u' \<in> set (t_users ?db2)" using find_SomeD [OF u'] by blast+
  then obtain x where "u' = (if us_id x = uid \<and> us_disabled_at x = None then x\<lparr>us_disabled_at := Some ?now, us_updated_at := ?now\<rparr> else x)"
    unfolding users set_update_where by blast
  then have "us_disabled_at u' \<noteq> None" using found(1) by (cases "us_disabled_at x") (auto split: if_splits)
  have revoked: "se_revoked_at s \<noteq> None" if "s \<in> set (t_sessions ?db2)" "se_user_id s = uid" for s
  proof -
    from that(1) obtain x where "s = (if se_user_id x = uid \<and> se_revoked_at x = None then stamp_session ?now x else x)"
      unfolding sessions set_update_where by blast
    then show ?thesis using that(2) by (cases "se_revoked_at x") (auto simp: stamp_session_def split: if_splits)
  qed
  have others: "filter (\<lambda>s. se_user_id s \<noteq> uid) (t_sessions ?db2) = filter (\<lambda>s. se_user_id s \<noteq> uid) (t_sessions db)"
  proof -
    have "filter (\<lambda>s. se_user_id s \<noteq> uid) (update_where (\<lambda>s. se_user_id s = uid \<and> se_revoked_at s = None) (stamp_session ?now) xs)
        = filter (\<lambda>s. se_user_id s \<noteq> uid) xs" for xs
      by (induction xs) (auto simp: stamp_session_def)
    then show ?thesis by (simp only: sessions)
  qed
  note tables = audit_extends_tables [OF audit]
  have "se_user_id x \<noteq> uid" if "get_active_auth_session_by_token_hash now th db' = (Ok (Some x), db')" for th now x
  proof -
    from that have "x \<in> set (t_sessions ?db2)" "se_revoked_at x = None"
      unfolding get_active_auth_session_by_token_hash_def tables(12) [symmetric] op_read_def by (auto dest: find_SomeD)
    then show ?thesis using revoked by blast
  qed
  moreover have "xu_disabled resp" using \<open>us_disabled_at u' \<noteq> None\<close> by (simp add: resp admin_user_response_from_row_def user_row_def)
  moreover have "u' \<in> set (t_users db')" using found(2) by (simp only: tables(9))
  moreover have "t_users db' = map (\<lambda>u. if us_id u = uid \<and> us_disabled_at u = None
      then u\<lparr>us_disabled_at := Some ?now, us_updated_at := ?now\<rparr> else u) (t_users db)"
    unfolding tables(9) users by (simp only: update_where_def)
  ultimately show ?thesis
    using granted found(1) \<open>us_disabled_at u' \<noteq> None\<close> others rest unfolding tables(10,11,12) by blast
qed

section \<open>Aliases\<close>

text \<open>The active alias of a metric, read off the table.\<close>

definition alias_of :: "string \<Rightarrow> string \<Rightarrow> Db \<Rightarrow> string option" where
  "alias_of pid metric db =
     map_option al_display_name (find (\<lambda>a. alias_pk a = (pid, metric) \<and> al_is_active a) (t_aliases db))"

lemma alias_unique:
  assumes "db_ok db" "a \<in> set (t_aliases db)" "b \<in> set (t_aliases db)" "alias_pk a = alias_pk b"
  shows "a = b"
proof -
  have "distinct (map alias_pk (t_aliases db))"
    using db_okD(3) [OF assms(1)] by (simp add: aliases_ok_def alias_pk_def [abs_def])
  then show ?thesis using assms(2-4) by (auto simp: distinct_map inj_on_def)
qed

lemma aliases_of_lookup:
  assumes "db_ok db"
  shows "aliases_of pid db metric = alias_of pid metric db"
proof -
  define xs where "xs = rev (map (\<lambda>a. (al_metric_name a, al_display_name a))
    (filter al_is_active (sort_by (asc al_metric_name) (filter (\<lambda>a. al_project_id a = pid) (t_aliases db)))))"
  have map: "aliases_of pid db = map_of xs"
    by (simp add: aliases_of_def get_metric_alias_map_def list_metric_aliases_def op_bind_apply op_read_def op_return_def xs_def)
  have in_set: "(m, d) \<in> set xs \<longleftrightarrow> (\<exists>a \<in> set (t_aliases db). alias_pk a = (pid, m) \<and> al_is_active a \<and> al_display_name a = d)" for m d
    by (auto simp: xs_def alias_pk_def)
  show ?thesis
  proof (cases "find (\<lambda>a. alias_pk a = (pid, metric) \<and> al_is_active a) (t_aliases db)")
    case None
    then have "(metric, d) \<notin> set xs" for d using in_set by (auto simp: find_None_iff)
    then have "map_of xs metric = None" by (cases "map_of xs metric") (auto dest: map_of_SomeD)
    then show ?thesis by (simp add: map alias_of_def None)
  next
    case (Some a)
    then have a: "a \<in> set (t_aliases db)" "alias_pk a = (pid, metric)" "al_is_active a" by (auto dest: find_SomeD)
    then have "(metric, al_display_name a) \<in> set xs" using in_set by blast
    then obtain d where d: "map_of xs metric = Some d" using weak_map_of_SomeI by fast
    then obtain b where "b \<in> set (t_aliases db)" "alias_pk b = (pid, metric)" "al_display_name b = d"
      using map_of_SomeD [OF d] in_set by blast
    then have "d = al_display_name a" using alias_unique [OF assms a(1)] a(2) by fastforce
    then show ?thesis by (simp add: map alias_of_def Some d)
  qed
qed

lemma alias_of_upsert:
  "alias_of p m (db\<lparr>t_aliases := upsert_alias_row new (t_aliases db)\<rparr>) =
     (if alias_pk new = (p, m) then if al_is_active new then Some (al_display_name new) else None else alias_of p m db)"
proof -
  let ?P = "\<lambda>a. alias_pk a = (p, m) \<and> al_is_active a" and ?k = "alias_pk new"
  let ?upd = "update_where (\<lambda>a. alias_pk a = ?k) (\<lambda>a. merge_alias (Some a) new)"
  have merged: "alias_pk (merge_alias (Some a) new) = ?k" "al_is_active (merge_alias (Some a) new) = al_is_active new"
    "al_display_name (merge_alias (Some a) new) = al_display_name new" for a
    by (simp_all add: merge_alias_def alias_pk_def)
  have other: "find ?P (?upd xs) = find ?P xs" if "?k \<noteq> (p, m)" for xs
    using that by (induction xs) (auto simp: merged)
  have same: "map_option al_display_name (find ?P (?upd xs))
      = (if al_is_active new \<and> ?k \<in> set (map alias_pk xs) then Some (al_display_name new) else None)" if "?k = (p, m)" for xs
    using that by (induction xs) (auto simp: merged)
  have absent: "find ?P xs = None" if "?k = (p, m)" "?k \<notin> set (map alias_pk xs)" for xs
    using that by (force simp: find_None_iff)
  have app: "find ?P (xs @ [new]) = (case find ?P xs of Some a \<Rightarrow> Some a | None \<Rightarrow> if ?P new then Some new else None)" for xs
    by (induction xs) auto
  show ?thesis
  proof (cases "?k \<in> set (map alias_pk (t_aliases db))")
    case True
    then have "upsert_alias_row new (t_aliases db) = ?upd (t_aliases db)" by (simp add: upsert_alias_row_def)
    then show ?thesis using True same [of "t_aliases db"] other [of "t_aliases db"]
      by (cases "?k = (p, m)") (auto simp: alias_of_def simp del: map_option_eq_Some)
  next
    case False
    then have "upsert_alias_row new (t_aliases db) = t_aliases db @ [new]" by (simp add: upsert_alias_row_def)
    then show ?thesis using False absent [of "t_aliases db"] by (auto simp: alias_of_def app split: option.splits)
  qed
qed

lemma load_project_Ok: "load_project pid db = (Ok p, db') \<longleftrightarrow> db' = db \<and> find (\<lambda>x. pj_id x = pid) (t_projects db) = Some p"
  by (auto simp: load_project_def op_bind_Ok_iff with_err_Ok_iff lift_result_Ok_iff get_project_by_id_def)

lemma guard_alias_write_Ok:
  "guard_alias_write rt auth action pid db = (Ok u, db') \<longleftrightarrow>
     db' = db \<and> endpoint_granted rt auth Write (Some pid) \<and> role_granted (\<lambda>role. role = ''owner'' \<or> role = ''editor'') auth pid db"
proof -
  let ?e = "(rt, auth, Write, Some pid, None, action, ''project'', Some pid)"
  let ?r = "(\<lambda>role. role = ''owner'' \<or> role = ''editor'', ''Access denied: only project owners or editors can update metric aliases.'', auth, pid)"
  show ?thesis
    using endpoint_guard.pass [of ?e db] endpoint_guard.refuse [of ?e db] role_guard.pass [of ?r db] role_guard.refuse [of ?r db]
    by (cases "endpoint_granted rt auth Write (Some pid)"; cases "role_granted (\<lambda>role. role = ''owner'' \<or> role = ''editor'') auth pid db")
      (auto simp: guard_alias_write_def require_ui_project_editor_or_owner_def op_bind_apply)
qed

text \<open>
  writing a metric alias and reading it back. An alias is written only by a caller with the
  write scope, access to the project and, for a user session, the role of an owner or editor. What
  every reader of aliases sees afterwards is the old map with this one metric renamed, or without
  a name when the alias is not active; the aliases of other projects do not change.
\<close>

lemma alias_write_read:
  assumes "db_ok db" and "http_upsert_project_metric_alias rt auth pid req db = (Ok resp, db')"
  shows "endpoint_granted rt auth Write (Some pid) \<and> role_granted (\<lambda>role. role = ''owner'' \<or> role = ''editor'') auth pid db
    \<and> ma_raw_name resp = trim (ua_raw_name req)
    \<and> aliases_of p db' = (if p \<noteq> pid then aliases_of p db
        else (aliases_of p db)(trim (ua_raw_name req) := if ua_is_active req then Some (trim (ua_display_name req)) else None))"
proof -
  from assms(2) obtain raw display row db1 where rights: "endpoint_granted rt auth Write (Some pid)"
      "role_granted (\<lambda>role. role = ''owner'' \<or> role = ''editor'') auth pid db"
    and names: "validate_alias_names req = Ok (raw, display)"
    and upsert: "upsert_metric_alias (rt_now rt) pid raw display (nonblank (ua_unit req)) (nonblank (ua_description req)) (ua_is_active req) db = (Ok row, db1)"
    and audit: "audit_extends db1 db'" and resp: "resp = metric_alias_response_from_row row"
    by (auto simp: http_upsert_project_metric_alias_def checked_path_def op_bind_Ok_iff with_err_Ok_iff lift_result_Ok_iff load_project_Ok
        guard_alias_write_Ok dest!: emit_audit_extends)
  have "raw = trim (ua_raw_name req)" "display = trim (ua_display_name req)"
    using names by (auto simp: validate_alias_names_def Let_def split: if_splits)
  note names = this
  define new where "new = \<lparr>al_project_id = pid, al_metric_name = raw, al_display_name = display, al_unit = nonblank (ua_unit req),
    al_description = nonblank (ua_description req), al_is_active = ua_is_active req, al_created_at = rt_now rt, al_updated_at = rt_now rt\<rparr>"
  have table: "db1 = db\<lparr>t_aliases := upsert_alias_row new (t_aliases db)\<rparr>" and row: "alias_pk row = (pid, raw)"
    using upsert
    by (auto simp: upsert_metric_alias_def Let_def op_bind_Ok_iff op_stmt_apply op_row_def new_def split: option.splits dest!: find_SomeD)
  have "db_ok db1" using upsert_metric_alias_ok [THEN preservesD, OF assms(1) upsert] .
  then have "aliases_of q db1 m = alias_of q m db1" for q m by (rule aliases_of_lookup)
  moreover have "aliases_of q db' = aliases_of q db1" for q
    using audit_extends_tables(2) [OF audit]
    by (simp add: aliases_of_def get_metric_alias_map_def list_metric_aliases_def op_bind_apply op_read_def op_return_def)
  ultimately have "aliases_of q db' m = (if alias_pk new = (q, m) then if ua_is_active req then Some display else None else aliases_of q db m)" for q m
    using aliases_of_lookup [OF assms(1)] alias_of_upsert [where p = q and m = m and db = db and new = new] by (simp add: table new_def)
  then have "aliases_of p db' = (if p \<noteq> pid then aliases_of p db
      else (aliases_of p db)(raw := if ua_is_active req then Some display else None))"
    by (auto simp: fun_eq_iff new_def alias_pk_def)
  then show ?thesis using rights row resp by (simp add: names metric_alias_response_from_row_def alias_pk_def)
qed

section \<open>Deleting and creating projects\<close>

lemma audit_of_missing_project:
  "pid \<notin> set (project_ids db) \<Longrightarrow> emit_audit_event rt auth (Some pid) r a t i out md db = (Ok (), db)"
  by (auto simp: emit_audit_event_def insert_audit_event_def op_stmt_apply refers_def split: option.splits)

definition audit_ids :: "Db \<Rightarrow> int \<times> int list" where
  "audit_ids db = (audit_seq db, map au_id (t_audit_events db))"

lemma delete_project_audit_ids: "preserves (\<lambda>db. audit_ids db = v) (delete_project pid)"
  unfolding delete_project_def clear_and_delete_run_def delete_run_row_def delete_project_keys_def delete_project_row_def
  by (auto intro!: preserves_intros preserves_stmt preserves_write
      simp: audit_ids_def clear_run_def clear_project_audit_def map_update_where Let_def)

definition delete_rights :: "Runtime \<Rightarrow> AuthContext \<Rightarrow> string \<Rightarrow> Db \<Rightarrow> bool" where
  "delete_rights rt auth pid db \<longleftrightarrow>
     endpoint_granted rt auth Admin (Some pid)
   \<and> (if is_ui_jwt auth then role_granted (\<lambda>role. role = ''owner'') auth pid db else is_global auth)"

lemma delete_guard_Ok:
  "op_bind (require_endpoint_access rt auth Admin (Some pid) None a ''project'' (Some pid)) (\<lambda>_.
     if is_ui_jwt auth then require_ui_project_owner auth pid
     else if \<not> is_global auth then op_fail e else op_return ()) db = (Ok u, db') \<longleftrightarrow> db' = db \<and> delete_rights rt auth pid db"
proof -
  let ?e = "(rt, auth, Admin, Some pid, None, a, ''project'', Some pid)"
  let ?r = "(\<lambda>role. role = ''owner'', ''Access denied: only project owners can delete this project.'', auth, pid)"
  show ?thesis
    using endpoint_guard.pass [of ?e db] endpoint_guard.refuse [of ?e db] role_guard.pass [of ?r db] role_guard.refuse [of ?r db]
    by (cases "endpoint_granted rt auth Admin (Some pid)"; cases "role_granted (\<lambda>role. role = ''owner'') auth pid db")
      (auto simp: delete_rights_def require_ui_project_owner_def op_bind_apply)
qed

text \<open>
  deleting a project. It succeeds only for an owner in a user session and for a global key with
  the admin scope; the project, its runs and its keys are gone, nothing refers to it any more, and
  other projects keep theirs. The entry for the audit log refers to the project that is no longer
  there and is refused, so the deletion leaves no entry behind.
\<close>

lemma delete_project_effect:
  assumes "db_ok db" and "http_delete_project rt auth pid db = (Ok x, db')"
  shows "delete_rights rt auth pid db \<and> pid \<notin> set (project_ids db') \<and> \<not> project_referenced pid db'
    \<and> t_projects db' = filter (\<lambda>p. pj_id p \<noteq> pid) (t_projects db)
    \<and> t_runs db' = filter (\<lambda>r. rn_project_id r \<noteq> pid) (t_runs db)
    \<and> t_api_keys db' = filter (\<lambda>k. ak_project_id k \<noteq> Some pid) (t_api_keys db)
    \<and> audit_ids db' = audit_ids db"
proof -
  obtain p db1 where p: "find (\<lambda>q. pj_id q = pid) (t_projects db) = Some p" and rights: "delete_rights rt auth pid db"
    and del: "delete_project pid db = (Ok (), db1)"
    and audit: "(emit_audit_event rt (Some auth) (Some pid) None ''project.delete'' ''project'' (Some pid) ''success''
        (JObject [(''auth_mode'', JString (auth_mode_label auth)), (''name'', JString (pj_name p))]) :: unit http) db1 = (Ok (), db')"
    using assms(2) delete_guard_Ok [of rt auth pid "''project.delete''" "(FORBIDDEN, ''Project deletion requires a global admin key or owner UI session.'')" db]
    by (fastforce simp: http_delete_project_def checked_path_def op_bind_Ok_iff with_err_Ok_iff lift_result_Ok_iff load_project_Ok)
  have "pid \<in> set (project_ids db)" using find_SomeD [OF p] by auto
  then have gone: "pid \<notin> set (project_ids db1)" "\<not> project_referenced pid db1"
    "t_runs db1 = filter (\<lambda>r. rn_project_id r \<noteq> pid) (t_runs db)"
    "t_api_keys db1 = filter (\<lambda>k. ak_project_id k \<noteq> Some pid) (t_api_keys db)"
    "t_projects db1 = filter (\<lambda>p. pj_id p \<noteq> pid) (t_projects db)"
    using delete_project_spec [OF assms(1) del] by (auto split: if_splits)
  then have "db' = db1" using audit by (simp add: audit_of_missing_project)
  moreover have "audit_ids db1 = audit_ids db" using preservesD [OF delete_project_audit_ids refl del] .
  ultimately show ?thesis using rights gone by simp
qed

lemma create_project_cases:
  obtains (created) row where "insert_project rt px name description db = (Ok row, db\<lparr>t_projects := t_projects db @ [row]\<rparr>)"
      "row = \<lparr>pj_id = px_project_id px, pj_name = name, pj_description = description, pj_created_at = rt_now rt, pj_updated_at = rt_now rt\<rparr>"
      "name \<notin> set (map pj_name (t_projects db))"
  | (clash) "name \<in> set (map pj_name (t_projects db))"
      "insert_project rt px name description db = (Err (CONFLICT, ''Project '' @ sq name @ '' already exists.''), db)"
  | (failed) "name \<notin> set (map pj_name (t_projects db))"
      "insert_project rt px name description db = (Err (INTERNAL_SERVER_ERROR, ''Internal server error''), db)"
proof -
  let ?row = "\<lparr>pj_id = px_project_id px, pj_name = name, pj_description = description, pj_created_at = rt_now rt, pj_updated_at = rt_now rt\<rparr>"
  have app: "find P (xs @ [x]) = (if find P xs = None then if P x then Some x else None else find P xs)" for P xs and x :: ProjectRow
    by (induction xs) auto
  consider "px_project_id px \<notin> set (project_ids db) \<and> name \<notin> set (map pj_name (t_projects db))"
    | "name \<in> set (map pj_name (t_projects db))" | "px_project_id px \<in> set (project_ids db)" "name \<notin> set (map pj_name (t_projects db))"
    by blast
  then show ?thesis
  proof cases
    case 1
    then have "find (\<lambda>p. pj_id p = px_project_id px) (t_projects db) = None" by (force simp: find_None_iff)
    then show ?thesis using 1
      by (intro created [of ?row])
        (auto simp: insert_project_def create_project_def insert_project_row_def op_stmt_apply op_bind_apply with_err_def op_row_def app)
  next
    case 2
    then show ?thesis
      by (intro clash; cases "px_project_id px \<in> set (project_ids db)")
        (auto simp: insert_project_def create_project_def insert_project_row_def op_stmt_apply op_bind_apply with_err_def create_project_error_def)
  next
    case 3
    then show ?thesis
      by (intro failed) (auto simp: insert_project_def create_project_def insert_project_row_def op_stmt_apply op_bind_apply with_err_def
          create_project_error_def internal_error_def)
  qed
qed

lemma grant_fresh_project:
  assumes "grant_project_membership mid now pid uid ''owner'' (Some uid) db = (Ok (), db')"
  shows "\<exists>m \<in> set (t_memberships db'). mb_project_id m = pid \<and> mb_user_id m = uid \<and> mb_role m = ''owner'' \<and> mb_revoked_at m = None"
    "t_projects db' = t_projects db" "t_runs db' = t_runs db"
  using assms
  by (auto simp: grant_project_membership_def insert_membership_row_def op_bind_Ok_iff op_stmt_apply revoke_memberships_def op_write_def
      split: option.splits)

text \<open>
  creating a project in a user session. It takes the write scope and a user identity; the new
  project has the trimmed name, which nobody used before, and its creator is an active owner of
  it from the start. A name that is taken is answered with 409 and nothing changes.
\<close>

lemma create_project_in_session:
  assumes "is_ui_jwt auth" "trim raw \<noteq> []" "require_scope auth ''write'' = Ok ()" "auth_user_id auth = Some uid"
  shows "(trim raw \<in> set (map pj_name (t_projects (app_db s))) \<longrightarrow>
      http_create_project rt px auth raw description s = (Err (CONFLICT, ''Project '' @ sq (trim raw) @ '' already exists.''), s))
    \<and> (http_create_project rt px auth raw description s = (Ok resp, s') \<longrightarrow>
        trim raw \<notin> set (map pj_name (t_projects (app_db s))) \<and> pr_name resp = trim raw
      \<and> map pj_name (t_projects (app_db s')) = map pj_name (t_projects (app_db s)) @ [trim raw]
      \<and> role_granted (\<lambda>role. role = ''owner'') auth (pr_project_id resp) (app_db s') \<and> t_runs (app_db s') = t_runs (app_db s))"
proof -
  let ?after = "\<lambda>row. op_bind (on_db (with_err internal_error
      (grant_project_membership (px_membership_id px) (rt_now rt) (pj_id row) uid ''owner'' (Some uid)))) (\<lambda>_. project_created rt px auth row)"
  have body: "http_create_project rt px auth raw description s = op_bind (on_db (insert_project rt px (trim raw) description)) ?after s"
    using assms by (simp add: http_create_project_def Let_def op_bind_apply lift_result_def)
  show ?thesis
  proof (cases rule: create_project_cases [of rt px "trim raw" description "app_db s"])
    case (created row)
    have "role_granted (\<lambda>role. role = ''owner'') auth (pr_project_id resp) (app_db s') \<and> pr_name resp = trim raw
        \<and> t_projects (app_db s') = t_projects (app_db s) @ [row] \<and> t_runs (app_db s') = t_runs (app_db s)"
      if ok: "http_create_project rt px auth raw description s = (Ok resp, s')"
    proof -
      let ?db1 = "(app_db s)\<lparr>t_projects := t_projects (app_db s) @ [row]\<rparr>"
      obtain db2 where grant: "grant_project_membership (px_membership_id px) (rt_now rt) (pj_id row) uid ''owner'' (Some uid) ?db1 = (Ok (), db2)"
        and audit: "audit_extends db2 (app_db s')" and resp: "resp = project_response_from_row row"
        using ok unfolding body
        by (auto simp: created(1) op_bind_Ok_iff on_db_Ok_iff with_err_Ok_iff project_created_def shadow_def dest!: emit_audit_extends)
      show ?thesis
        using grant_fresh_project [OF grant] audit_extends_tables [OF audit] resp assms(1,4) created(2)
        by (auto simp: role_granted_def project_response_from_row_def)
    qed
    then show ?thesis using created by auto
  next
    case clash
    then show ?thesis by (simp add: body op_bind_apply on_db_apply)
  next
    case failed
    then have "http_create_project rt px auth raw description s = (Err (INTERNAL_SERVER_ERROR, ''Internal server error''), s)"
      by (simp add: body op_bind_apply on_db_apply)
    then show ?thesis using failed(1) by simp
  qed
qed

section \<open>Concrete requests\<close>

theorem administration_guarded_witness:
  "refused (map_res (\<lambda>_. ()) (http_admin_disable_user sample_runtime sample_key_auth ''u1'')) sample_run_db"
proof -
  have "\<not> platform_granted sample_runtime sample_key_auth" by code_simp
  from administration_guarded [OF this] show ?thesis by blast
qed

theorem disable_user_effect_witness:
  "\<exists>resp db'. http_admin_disable_user sample_runtime sample_dev ''u1'' sample_run_db = (Ok resp, db') \<and> xu_disabled resp
    \<and> length (t_users db') = length (t_users sample_run_db)
    \<and> filter (\<lambda>s. se_user_id s \<noteq> ''u1'') (t_sessions db') = filter (\<lambda>s. se_user_id s \<noteq> ''u1'') (t_sessions sample_run_db)"
proof -
  have "is_ok (fst (http_admin_disable_user sample_runtime sample_dev ''u1'' sample_run_db))" by code_simp
  then obtain resp db' where ok: "http_admin_disable_user sample_runtime sample_dev ''u1'' sample_run_db = (Ok resp, db')"
    by (auto simp: is_ok_iff fst_def split: prod.splits)
  note effect = disable_user_effect [OF ok]
  then have "length (t_users db') = length (t_users sample_run_db)" by (elim conjE) simp
  with effect ok show ?thesis by blast
qed

definition session_auth :: AuthContext where
  "session_auth = sample_key_auth\<lparr>api_key := (api_key sample_key_auth)\<lparr>k_id := ''ui:u1'', k_scopes := [''read'', ''write'']\<rparr>,
     allowed_project_ids := Some {''p1''}, auth_mode := UiJwt\<rparr>"

definition project_ext :: ProjectExt where
  "project_ext = \<lparr>px_project_id = ''p9'', px_membership_id = ''m9'', px_parse_uuid = (\<lambda>_. None)\<rparr>"

end
