(* ===== verification/Key_Handlers.thy ===== *)
theory Key_Handlers
  imports Project_Handlers Key_Store
begin

text \<open>
  The handlers for API keys (apps/api/src/main.rs: http_create_key, http_list_keys, http_revoke_key
  with the checks of requests from user sessions, and http_admin_rotate_bootstrap_key).

  The state is the cache of keys and the database; unless the server runs with keys in memory only,
  the key store writes to that database. The clocks, the generated key and identifier, the hash
  functions and the formats of dates are parameters.
\<close>

section \<open>Requests of user sessions\<close>

record CreateKeyRequest =
  cq_project_id :: "string option"
  cq_name :: "string option"
  cq_scopes :: "string list"
  cq_expires_in_seconds :: "nat option"

record CreateKeyResponse =
  cx_api_key :: string
  cx_key_id :: string
  cx_key_prefix :: string
  cx_project_id :: "string option"
  cx_name :: "string option"
  cx_scopes :: "string list"
  cx_expires_at :: "string option"

record KeyInfoResponse =
  ky_key_id :: string
  ky_key_prefix :: string
  ky_project_id :: "string option"
  ky_name :: "string option"
  ky_scopes :: "string list"
  ky_created_at :: string
  ky_last_used_at :: "string option"
  ky_is_revoked :: bool

abbreviation DEFAULT_UI_KEY_MAX_TTL_SECONDS :: nat where "DEFAULT_UI_KEY_MAX_TTL_SECONDS \<equiv> 7776000"
abbreviation UI_KEY_NAME_MIN_LEN :: nat where "UI_KEY_NAME_MIN_LEN \<equiv> 3"
abbreviation UI_KEY_NAME_MAX_LEN :: nat where "UI_KEY_NAME_MAX_LEN \<equiv> 64"

definition ui_key_max_ttl_seconds :: "env \<Rightarrow> nat" where
  "ui_key_max_ttl_seconds env =
     (case Option.bind (env ''MLRUNX_UI_KEY_MAX_TTL_SECONDS'') (parse_unsigned U64_MAX) of
        Some v \<Rightarrow> if 0 < v then v else DEFAULT_UI_KEY_MAX_TTL_SECONDS
      | None \<Rightarrow> DEFAULT_UI_KEY_MAX_TTL_SECONDS)"

definition key_name_char :: "char \<Rightarrow> bool" where
  "key_name_char c \<longleftrightarrow> 97 \<le> byte c \<and> byte c \<le> 122 \<or> 48 \<le> byte c \<and> byte c \<le> 57 \<or> c = CHR ''-''"

definition validate_name_segment :: "string \<Rightarrow> (unit, http_error) result" where
  "validate_name_segment segment =
     (if segment = [] \<or> hd segment = CHR ''-'' \<or> last segment = CHR ''-''
      then Err (BAD_REQUEST,
        ''name must use slash-delimited segments with lowercase letters, digits, and hyphens.'')
      else if \<not> list_all key_name_char segment
      then Err (BAD_REQUEST, ''name may only contain lowercase letters, digits, '' @ sq ''/'' @ '', and '' @ sq ''-'' @ ''.'')
      else Ok ())"

definition validate_ui_key_name :: "string option \<Rightarrow> (string, http_error) result" where
  "validate_ui_key_name name =
     (case nonblank name of
        None \<Rightarrow> Err (BAD_REQUEST, ''name is required for UI key creation.'')
      | Some trimmed \<Rightarrow>
          if length trimmed < UI_KEY_NAME_MIN_LEN \<or> UI_KEY_NAME_MAX_LEN < length trimmed
          then Err (BAD_REQUEST, ''name must be between '' @ show_nat UI_KEY_NAME_MIN_LEN @ '' and ''
            @ show_nat UI_KEY_NAME_MAX_LEN @ '' characters.'')
          else try_bind (try_map validate_name_segment (split_on CHR ''/'' trimmed)) (\<lambda>_. Ok trimmed))"

definition resolve_ui_key_ttl_seconds :: "env \<Rightarrow> nat option \<Rightarrow> (nat, http_error) result" where
  "resolve_ui_key_ttl_seconds env expires_in_seconds =
     (case expires_in_seconds of
        None \<Rightarrow> Err (BAD_REQUEST, ''expires_in_seconds is required for UI key creation.'')
      | Some ttl \<Rightarrow>
          if ttl = 0 then Err (BAD_REQUEST, ''expires_in_seconds must be greater than zero.'')
          else if ui_key_max_ttl_seconds env < ttl
          then Err (BAD_REQUEST, ''expires_in_seconds exceeds policy maximum of '' @ show_nat (ui_key_max_ttl_seconds env) @ '' seconds.'')
          else Ok ttl)"

fun normalize_scopes :: "string list \<Rightarrow> string list \<Rightarrow> (string list, http_error) result" where
  "normalize_scopes normalized [] = Ok normalized"
| "normalize_scopes normalized (scope # scopes) =
     (let value = to_ascii_lowercase (trim scope) in
      if value \<notin> {''admin'', ''write'', ''read''}
      then Err (BAD_REQUEST, ''Invalid scope '' @ sq scope @ ''. Valid scopes: admin, write, read'')
      else normalize_scopes (if value \<in> set normalized then normalized else normalized @ [value]) scopes)"

definition normalize_requested_scopes :: "string list \<Rightarrow> (string list, http_error) result" where
  "normalize_requested_scopes scopes =
     (if scopes = [] then Err (BAD_REQUEST, ''At least one scope is required.'') else normalize_scopes [] scopes)"

definition resolve_ui_key_project_id :: "AuthContext \<Rightarrow> string option \<Rightarrow> (string, http_error) result" where
  "resolve_ui_key_project_id auth requested =
     try_bind (ok_or (allowed_project_ids auth) (FORBIDDEN, ''UI session is missing project memberships.'')) (\<lambda>allowed.
       case requested of
         None \<Rightarrow> Err (BAD_REQUEST, ''project_id is required for UI key creation.'')
       | Some project_id \<Rightarrow>
           if project_id \<in> allowed then Ok project_id
           else Err (FORBIDDEN, ''Access denied: cannot manage API keys for project '' @ sq project_id @ ''.''))"

definition ensure_requested_scopes_within_caller :: "AuthContext \<Rightarrow> string list \<Rightarrow> (unit, http_error) result" where
  "ensure_requested_scopes_within_caller auth scopes =
     (case find (\<lambda>scope. \<not> has_scope (api_key auth) scope) scopes of
        Some scope \<Rightarrow> Err (FORBIDDEN, ''Insufficient permissions: your UI session cannot grant '' @ sq scope @ '' scope.'')
      | None \<Rightarrow> Ok ())"

definition filter_keys_to_ui_memberships :: "AuthContext \<Rightarrow> ApiKey list \<Rightarrow> ApiKey list" where
  "filter_keys_to_ui_memberships auth keys =
     (case (allowed_project_ids auth, auth_user_id auth) of
        (Some allowed, Some user_id) \<Rightarrow>
          filter (\<lambda>k. (case k_project_id k of Some p \<Rightarrow> p \<in> allowed | None \<Rightarrow> False) \<and> k_created_by_user_id k = Some user_id) keys
      | _ \<Rightarrow> [])"

section \<open>State\<close>

record KeyApp =
  kp_keys :: "(string \<times> ApiKey) list"
  kp_db :: Db
  kp_in_memory :: bool

definition store_of :: "KeyApp \<Rightarrow> KeyStore" where
  "store_of st = \<lparr>ks_keys = kp_keys st, ks_db = (if kp_in_memory st then None else Some (kp_db st))\<rparr>"

type_synonym 'a keys = "(KeyApp, 'a, http_error) op"

definition with_keys :: "(KeyStore \<Rightarrow> 'a \<times> KeyStore) \<Rightarrow> (KeyApp, 'a, 'e) op" where
  "with_keys f = (\<lambda>st. case f (store_of st) of (x, ks) \<Rightarrow>
     (Ok x, st\<lparr>kp_keys := ks_keys ks, kp_db := (case ks_db ks of Some db \<Rightarrow> db | None \<Rightarrow> kp_db st)\<rparr>))"

definition on_key_db :: "(Db, 'a, 'e) op \<Rightarrow> (KeyApp, 'a, 'e) op" where
  "on_key_db m = (\<lambda>st. case m (kp_db st) of (r, db) \<Rightarrow> (r, st\<lparr>kp_db := db\<rparr>))"

record KeyRequestExt =
  kx_ext :: KeyExt
  kx_secret :: string
  kx_clock :: Clock
  kx_fresh :: string
  kx_salt :: string
  kx_raw :: string
  kx_format :: "SystemTime \<Rightarrow> string"

section \<open>The handlers\<close>

definition json_strs :: "string list \<Rightarrow> Json" where
  "json_strs xs = JArray (map JString xs)"

definition json_opt_nat :: "nat option \<Rightarrow> Json" where
  "json_opt_nat v = (case v of Some n \<Rightarrow> json_nat n | None \<Rightarrow> JNull)"

definition deny_key ::
  "Runtime \<Rightarrow> AuthContext \<Rightarrow> string option \<Rightarrow> string \<Rightarrow> string option \<Rightarrow> (string \<times> Json) list \<Rightarrow> http_error \<Rightarrow> 'a keys" where
  "deny_key rt auth project_id action resource_id metadata e =
     op_bind (on_key_db (emit_audit_event rt (Some auth) project_id None action ''api_key'' resource_id ''denied'' (JObject metadata)))
       (\<lambda>_. op_fail e)"

text \<open>A check whose failure is recorded before it is returned.\<close>

definition checked ::
  "Runtime \<Rightarrow> AuthContext \<Rightarrow> string option \<Rightarrow> string \<Rightarrow> string option \<Rightarrow> (string \<times> Json) list \<Rightarrow> ('a, http_error) result \<Rightarrow> 'a keys" where
  "checked rt auth project_id action resource_id metadata r =
     (case r of Ok x \<Rightarrow> op_return x | Err e \<Rightarrow> deny_key rt auth project_id action resource_id metadata e)"

text \<open>The checks of a request from a user session: the project, the name and the lifetime of the key.\<close>

definition ui_key_target ::
  "Runtime \<Rightarrow> AuthContext \<Rightarrow> CreateKeyRequest \<Rightarrow> string list \<Rightarrow> (string option \<times> string option \<times> nat option) keys" where
  "ui_key_target rt auth req scopes =
     (op_bind (checked rt auth (cq_project_id req) ''api_key.create'' None
        [(''auth_mode'', JString (auth_mode_label auth)), (''reason'', JString ''scope_denied''), (''required_scope'', JString ''write'')]
        (require_scope auth ''write'')) (\<lambda>_.
      op_bind (checked rt auth (cq_project_id req) ''api_key.create'' None
        [(''auth_mode'', JString (auth_mode_label auth)), (''reason'', JString ''admin_scope_not_allowed_for_ui_session'')]
        (if ''admin'' \<in> set scopes
         then Err (FORBIDDEN, ''UI session key creation cannot grant admin scope. Use read/write scopes.'') else Ok ())) (\<lambda>_.
      op_bind (checked rt auth (cq_project_id req) ''api_key.create'' None
        [(''auth_mode'', JString (auth_mode_label auth)), (''caller_scopes'', json_strs (k_scopes (api_key auth))),
         (''reason'', JString ''requested_scope_not_granted_to_ui_session''), (''requested_scopes'', json_strs scopes)]
        (ensure_requested_scopes_within_caller auth scopes)) (\<lambda>_.
      op_bind (checked rt auth (cq_project_id req) ''api_key.create'' None
        [(''auth_mode'', JString (auth_mode_label auth)), (''provided_name'', json_opt_str (cq_name req)),
         (''reason'', JString ''invalid_key_name'')]
        (validate_ui_key_name (cq_name req))) (\<lambda>name.
      op_bind (checked rt auth (cq_project_id req) ''api_key.create'' None
        [(''auth_mode'', JString (auth_mode_label auth)), (''max_ttl_seconds'', json_nat (ui_key_max_ttl_seconds (rt_env rt))),
         (''reason'', JString ''invalid_ttl''), (''requested_ttl_seconds'', json_opt_nat (cq_expires_in_seconds req))]
        (resolve_ui_key_ttl_seconds (rt_env rt) (cq_expires_in_seconds req))) (\<lambda>ttl.
      op_bind (checked rt auth (cq_project_id req) ''api_key.create'' None
        [(''auth_mode'', JString (auth_mode_label auth)), (''reason'', JString ''project_access_denied''),
         (''requested_project_id'', json_opt_str (cq_project_id req))]
        (resolve_ui_key_project_id auth (cq_project_id req))) (\<lambda>project_id.
        op_return (Some project_id, Some name, Some ttl))))))))"

definition key_target ::
  "Runtime \<Rightarrow> AuthContext \<Rightarrow> CreateKeyRequest \<Rightarrow> string list \<Rightarrow> (string option \<times> string option \<times> nat option) keys" where
  "key_target rt auth req scopes =
     (if is_ui_jwt auth then ui_key_target rt auth req scopes
      else
        op_bind (on_key_db (require_endpoint_access rt auth Admin None None ''api_key.create'' ''api_key'' None)) (\<lambda>_.
          op_return (cq_project_id req, nonblank (cq_name req), cq_expires_in_seconds req)))"

definition store_new_key ::
  "Runtime \<Rightarrow> KeyRequestExt \<Rightarrow> AuthContext \<Rightarrow> string list \<Rightarrow> string option \<times> string option \<times> nat option \<Rightarrow> CreateKeyResponse keys" where
  "store_new_key rt kx auth scopes = (\<lambda>(project_id, name, ttl).
     let owner = (if is_ui_jwt auth then auth_user_id auth else None) in
     op_bind (with_keys (create_key_with_owner (kx_ext kx) (kx_secret kx) (kx_clock kx) (kx_fresh kx) (kx_salt kx) (kx_raw kx)
       project_id name scopes ttl owner)) (\<lambda>(raw_key, key).
     op_bind (on_key_db (emit_audit_event rt (Some auth) (k_project_id key) None ''api_key.create'' ''api_key'' (Some (k_id key)) ''success''
       (JObject [(''created_by_user_id'', json_opt_str owner), (''expires_in_seconds'', json_opt_nat ttl), (''scopes'', json_strs scopes)]))) (\<lambda>_.
       op_return \<lparr>cx_api_key = raw_key, cx_key_id = k_id key, cx_key_prefix = k_key_prefix key, cx_project_id = k_project_id key,
                  cx_name = k_name key, cx_scopes = k_scopes key, cx_expires_at = map_option (kx_format kx) (k_expires_at key)\<rparr>)))"

definition http_create_key :: "Runtime \<Rightarrow> KeyRequestExt \<Rightarrow> AuthContext \<Rightarrow> CreateKeyRequest \<Rightarrow> CreateKeyResponse keys" where
  "http_create_key rt kx auth req =
     op_bind (lift_result (normalize_requested_scopes (cq_scopes req))) (\<lambda>scopes.
     op_bind (key_target rt auth req scopes) (store_new_key rt kx auth scopes))"

text \<open>The keys a caller may see, for listing and for revoking.\<close>

definition visible_keys ::
  "Runtime \<Rightarrow> KeyRequestExt \<Rightarrow> AuthContext \<Rightarrow> string \<Rightarrow> string \<Rightarrow> string option \<Rightarrow> ApiKey list keys" where
  "visible_keys rt kx auth action scope resource_id =
     (if is_ui_jwt auth
      then
        op_bind (checked rt auth None action resource_id
          [(''auth_mode'', JString (auth_mode_label auth)), (''reason'', JString ''scope_denied''), (''required_scope'', JString scope)]
          (require_scope auth scope)) (\<lambda>_ st.
          (Ok (filter_keys_to_ui_memberships auth (list_keys (kx_ext kx) (ck_now (kx_clock kx)) None (store_of st))), st))
      else
        op_bind (on_key_db (require_endpoint_access rt auth Admin None None action ''api_key'' resource_id)) (\<lambda>_ st.
          (Ok (list_keys (kx_ext kx) (ck_now (kx_clock kx)) (context_project_id auth) (store_of st)), st)))"

definition unix_secs :: "SystemTime \<Rightarrow> string" where
  "unix_secs t = show_nat (nat (max t 0) div 10 ^ 9)"

definition key_info :: "ApiKey \<Rightarrow> KeyInfoResponse" where
  "key_info k =
     \<lparr>ky_key_id = k_id k, ky_key_prefix = k_key_prefix k, ky_project_id = k_project_id k, ky_name = k_name k, ky_scopes = k_scopes k,
      ky_created_at = unix_secs (k_created_at k), ky_last_used_at = map_option unix_secs (k_last_used_at k),
      ky_is_revoked = (k_revoked_at k \<noteq> None)\<rparr>"

definition http_list_keys :: "Runtime \<Rightarrow> KeyRequestExt \<Rightarrow> AuthContext \<Rightarrow> KeyInfoResponse list keys" where
  "http_list_keys rt kx auth =
     op_bind (visible_keys rt kx auth ''api_key.list'' ''read'' None) (\<lambda>keys. op_return (map key_info keys))"

definition http_revoke_key :: "Runtime \<Rightarrow> KeyRequestExt \<Rightarrow> AuthContext \<Rightarrow> string \<Rightarrow> string keys" where
  "http_revoke_key rt kx auth key_id =
     op_bind (lift_result (validate_path_id key_id ''key_id'')) (\<lambda>_.
     op_bind (visible_keys rt kx auth ''api_key.revoke'' ''write'' (Some key_id)) (\<lambda>keys.
       case find (\<lambda>k. k_id k = key_id) keys of
         None \<Rightarrow> op_fail (NOT_FOUND, ''Key not found: '' @ key_id)
       | Some key \<Rightarrow>
           op_bind (with_keys (revoke_key (kx_clock kx) (k_key_hash key))) (\<lambda>_.
           op_bind (on_key_db (emit_audit_event rt (Some auth) (k_project_id key) None ''api_key.revoke'' ''api_key'' (Some key_id)
             ''success'' (JObject []))) (\<lambda>_. op_return key_id))))"

definition http_admin_rotate_bootstrap_key :: "Runtime \<Rightarrow> KeyRequestExt \<Rightarrow> AuthContext \<Rightarrow> (string \<times> nat) keys" where
  "http_admin_rotate_bootstrap_key rt kx auth =
     (let ttl = bootstrap_key_ttl_seconds_from_env (rt_env rt) in
      op_bind (on_key_db (require_platform_admin_access rt auth ''admin.bootstrap_key.rotate'' ''bootstrap_key'' None)) (\<lambda>_.
      op_bind (with_keys (rotate_bootstrap_key (kx_ext kx) (kx_secret kx) (kx_clock kx) ttl (kx_salt kx) (kx_raw kx))) (\<lambda>r.
      op_bind (lift_result (map_err (\<lambda>_. (INTERNAL_SERVER_ERROR, ''Failed to rotate bootstrap key'')) r)) (\<lambda>raw_key.
      op_bind (on_key_db (admin_audit rt auth ''admin.bootstrap_key.rotate'' ''bootstrap_key'' (Some ''bootstrap'') [])) (\<lambda>_.
        op_return (raw_key, ttl))))))"

section \<open>Taking the handlers apart\<close>

lemma on_key_db_Ok_iff: "on_key_db m st = (Ok x, st') \<longleftrightarrow> (\<exists>db'. m (kp_db st) = (Ok x, db') \<and> st' = st\<lparr>kp_db := db'\<rparr>)"
  by (auto simp: on_key_db_def split: prod.splits)

lemma emit_key_event:
  obtains db' where "on_key_db (emit_audit_event rt a p r act t i out md) st = (Ok () :: (unit, 'e) result, st\<lparr>kp_db := db'\<rparr>)"
    "audit_extends (kp_db st) db'"
proof -
  obtain db' where "emit_audit_event rt a p r act t i out md (kp_db st) = (Ok () :: (unit, 'e) result, db')" "audit_extends (kp_db st) db'"
    by (rule emit_audit_event_apply)
  then show thesis by (intro that) (simp_all add: on_key_db_def)
qed

lemma checked_Ok_iff: "checked rt auth p act i md r st = (Ok x, st') \<longleftrightarrow> r = Ok x \<and> st' = st"
proof (cases r)
  case (Err e)
  obtain db' where "on_key_db (emit_audit_event rt (Some auth) p None act ''api_key'' i ''denied'' (JObject md)) st
    = (Ok () :: (unit, http_error) result, st\<lparr>kp_db := db'\<rparr>)" by (rule emit_key_event)
  then show ?thesis by (auto simp: checked_def deny_key_def Err op_bind_apply op_fail_def)
qed (auto simp: checked_def op_return_apply)

lemma admin_gate_Ok_iff:
  "on_key_db (require_endpoint_access rt auth tier p r a t i) st = (Ok (), st') \<longleftrightarrow> endpoint_granted rt auth tier p \<and> st' = st"
  using require_endpoint_access_cases [of rt auth tier p r a t i "kp_db st"] by (auto simp: on_key_db_Ok_iff refusal_def)

lemma normalize_scopes_Ok:
  assumes "normalize_scopes done scopes = Ok normalized" "distinct done" "set done \<subseteq> {''admin'', ''write'', ''read''}"
  shows "distinct normalized \<and> set normalized \<subseteq> {''admin'', ''write'', ''read''} \<and> (done = [] \<and> scopes = [] \<or> normalized \<noteq> [])
    \<and> set normalized = set done \<union> (\<lambda>s. to_ascii_lowercase (trim s)) ` set scopes"
  using assms
proof (induction scopes arbitrary: "done")
  case (Cons s scopes)
  show ?case
    using Cons.prems Cons.IH [of "if to_ascii_lowercase (trim s) \<in> set done then done else done @ [to_ascii_lowercase (trim s)]"]
    by (auto simp: Let_def split: if_splits)
qed simp

lemma normalize_requested_scopes_Ok:
  assumes "normalize_requested_scopes scopes = Ok normalized"
  shows "distinct normalized" "set normalized \<subseteq> {''admin'', ''write'', ''read''}" "normalized \<noteq> []"
  using normalize_scopes_Ok [of "[]" scopes normalized] assms by (auto simp: normalize_requested_scopes_def split: if_splits)

lemma ensure_scopes_Ok: "ensure_requested_scopes_within_caller auth scopes = Ok () \<longleftrightarrow> (\<forall>s\<in>set scopes. has_scope (api_key auth) s)"
  by (auto simp: ensure_requested_scopes_within_caller_def find_None_iff dest: find_SomeD split: option.splits)

text \<open>What the checks of a session request let through.\<close>

definition ui_key_request_ok :: "Runtime \<Rightarrow> AuthContext \<Rightarrow> string option \<Rightarrow> string list \<Rightarrow> nat option \<Rightarrow> bool" where
  "ui_key_request_ok rt auth project_id scopes ttl \<longleftrightarrow>
     has_scope (api_key auth) ''write''
   \<and> (case (allowed_project_ids auth, project_id) of (Some allowed, Some p) \<Rightarrow> p \<in> allowed | _ \<Rightarrow> False)
   \<and> scopes \<noteq> [] \<and> set scopes \<subseteq> {''write'', ''read''} \<and> list_all (has_scope (api_key auth)) scopes
   \<and> (case ttl of Some t \<Rightarrow> 0 < t \<and> t \<le> ui_key_max_ttl_seconds (rt_env rt) | None \<Rightarrow> False)"

lemma ui_key_target_Ok:
  assumes "ui_key_target rt auth req scopes st = (Ok (p, name, ttl), st')" "normalize_requested_scopes (cq_scopes req) = Ok scopes"
    and "\<not> is_dev_mode auth"
  shows "st' = st \<and> p = cq_project_id req \<and> ttl = cq_expires_in_seconds req \<and> ui_key_request_ok rt auth p scopes ttl
    \<and> (\<exists>n. name = Some n \<and> validate_ui_key_name (cq_name req) = Ok n)"
  using assms normalize_requested_scopes_Ok [OF assms(2)]
  by (auto simp: ui_key_target_def op_bind_Ok_iff checked_Ok_iff op_return_apply ui_key_request_ok_def require_scope_Ok ensure_scopes_Ok
      resolve_ui_key_project_id_def resolve_ui_key_ttl_seconds_def ok_or_def list_all_iff require_scope_def split: option.splits if_splits)

section \<open>Keys created by sessions\<close>

text \<open>The key a request creates, and the answer that shows it.\<close>

definition new_key :: "KeyRequestExt \<Rightarrow> AuthContext \<Rightarrow> string list \<Rightarrow> string option \<times> string option \<times> nat option \<Rightarrow> ApiKey" where
  "new_key kx auth scopes = (\<lambda>(project_id, name, ttl).
     (create_key_from_raw (kx_ext kx) (ck_now (kx_clock kx)) (kx_fresh kx) (kx_salt kx) (kx_raw kx) project_id name scopes
        (map_option (\<lambda>secs. ck_now (kx_clock kx) + int secs * 10 ^ 9) ttl))
     \<lparr>k_created_by_user_id := (if is_ui_jwt auth then auth_user_id auth else None)\<rparr>)"

definition key_shown :: "KeyRequestExt \<Rightarrow> ApiKey \<Rightarrow> CreateKeyResponse" where
  "key_shown kx key =
     \<lparr>cx_api_key = kx_raw kx, cx_key_id = k_id key, cx_key_prefix = k_key_prefix key, cx_project_id = k_project_id key,
      cx_name = k_name key, cx_scopes = k_scopes key, cx_expires_at = map_option (kx_format kx) (k_expires_at key)\<rparr>"

lemma new_key_simps [simp]:
  "k_project_id (new_key kx auth scopes (p, name, ttl)) = p"
  "k_name (new_key kx auth scopes (p, name, ttl)) = name"
  "k_scopes (new_key kx auth scopes t) = scopes"
  "k_id (new_key kx auth scopes t) = kx_fresh kx"
  "k_revoked_at (new_key kx auth scopes t) = None"
  "k_expires_at (new_key kx auth scopes (p, name, ttl)) = map_option (\<lambda>secs. ck_now (kx_clock kx) + int secs * 10 ^ 9) ttl"
  "k_created_by_user_id (new_key kx auth scopes t) = (if is_ui_jwt auth then auth_user_id auth else None)"
  by (simp_all add: new_key_def create_key_from_raw_def split: prod.splits)

lemma store_new_key_apply:
  obtains st' where "store_new_key rt kx auth scopes t st = (Ok (key_shown kx (new_key kx auth scopes t)), st')"
    "kp_keys st' = AList.update (k_key_hash (new_key kx auth scopes t)) (new_key kx auth scopes t) (kp_keys st)"
proof -
  obtain p name ttl where t: "t = (p, name, ttl)" by (cases t)
  let ?key = "new_key kx auth scopes t"
  let ?owner = "if is_ui_jwt auth then auth_user_id auth else None"
  obtain st1 where st1: "with_keys (create_key_with_owner (kx_ext kx) (kx_secret kx) (kx_clock kx) (kx_fresh kx) (kx_salt kx) (kx_raw kx)
       p name scopes ttl ?owner) st = (Ok (kx_raw kx, ?key) :: (string \<times> ApiKey, http_error) result, st1)"
    "kp_keys st1 = AList.update (k_key_hash ?key) ?key (kp_keys st)"
    by (simp add: with_keys_def create_key_with_owner_def Let_def store_of_def new_key_def t)
  obtain db' where "on_key_db (emit_audit_event rt (Some auth) (k_project_id ?key) None ''api_key.create'' ''api_key'' (Some (k_id ?key))
      ''success'' (JObject [(''created_by_user_id'', json_opt_str ?owner), (''expires_in_seconds'', json_opt_nat ttl),
        (''scopes'', json_strs scopes)])) st1 = (Ok () :: (unit, http_error) result, st1\<lparr>kp_db := db'\<rparr>)" by (rule emit_key_event)
  with st1 show thesis by (intro that [of "st1\<lparr>kp_db := db'\<rparr>"])
    (simp_all add: store_new_key_def t Let_def op_bind_apply op_return_apply key_shown_def)
qed

lemma http_create_key_Ok:
  assumes "http_create_key rt kx auth req st = (Ok r, st')"
  obtains scopes t where "normalize_requested_scopes (cq_scopes req) = Ok scopes" "key_target rt auth req scopes st = (Ok t, st)"
    "r = key_shown kx (new_key kx auth scopes t)"
    "kp_keys st' = AList.update (k_key_hash (new_key kx auth scopes t)) (new_key kx auth scopes t) (kp_keys st)"
proof -
  from assms obtain scopes t st1 where ok: "normalize_requested_scopes (cq_scopes req) = Ok scopes"
    "key_target rt auth req scopes st = (Ok t, st1)" "store_new_key rt kx auth scopes t st1 = (Ok r, st')"
    by (auto simp: http_create_key_def op_bind_Ok_iff lift_result_Ok_iff)
  moreover from ok(2) have "st1 = st"
    by (auto simp: key_target_def ui_key_target_def op_bind_Ok_iff checked_Ok_iff op_return_apply admin_gate_Ok_iff split: if_splits)
  ultimately show thesis by (metis store_new_key_apply [of rt kx auth scopes t st] that prod.inject result.inject(1))
qed

lemma ui_create_key_Ok:
  assumes "is_ui_jwt auth" "\<not> is_dev_mode auth" "http_create_key rt kx auth req st = (Ok r, st')"
  obtains scopes n ttl where "cq_expires_in_seconds req = Some ttl"
    "ui_key_request_ok rt auth (cq_project_id req) scopes (Some ttl)" "validate_ui_key_name (cq_name req) = Ok n"
    "r = key_shown kx (new_key kx auth scopes (cq_project_id req, Some n, Some ttl))"
    "kp_keys st' = AList.update (k_key_hash (new_key kx auth scopes (cq_project_id req, Some n, Some ttl)))
       (new_key kx auth scopes (cq_project_id req, Some n, Some ttl)) (kp_keys st)"
proof (rule http_create_key_Ok [OF assms(3)])
  fix scopes t
  assume ok: "normalize_requested_scopes (cq_scopes req) = Ok scopes" "key_target rt auth req scopes st = (Ok t, st)"
    and r: "r = key_shown kx (new_key kx auth scopes t)"
      "kp_keys st' = AList.update (k_key_hash (new_key kx auth scopes t)) (new_key kx auth scopes t) (kp_keys st)"
  obtain p name ttl where t: "t = (p, name, ttl)" by (cases t)
  from ok(2) have "ui_key_target rt auth req scopes st = (Ok (p, name, ttl), st)" by (simp add: key_target_def assms(1) t)
  note target = ui_key_target_Ok [OF this ok(1) assms(2)]
  then obtain n where "name = Some n" "validate_ui_key_name (cq_name req) = Ok n" by blast
  moreover from target obtain secs where "ttl = Some secs" by (auto simp: ui_key_request_ok_def split: option.splits)
  ultimately show thesis using target r by (intro that [of secs scopes n]) (auto simp: t)
qed

text \<open>
  C37: what a user session can delegate. A key created from a session belongs to one of the projects of
  the session, carries no scope but read and write and only scopes the session has itself, is
  marked with the user, and expires after at least a second and at most the configured maximum. It
  is live from its creation to that moment and no longer, and it is the key the store holds under
  its hash.
\<close>

theorem session_key_confined:
  assumes "is_ui_jwt auth" "\<not> is_dev_mode auth" "http_create_key rt kx auth req st = (Ok r, st')"
  shows "\<exists>key allowed p ttl. map_of (kp_keys st') (k_key_hash key) = Some key
    \<and> k_id key = cx_key_id r \<and> k_project_id key = Some p \<and> cx_project_id r = Some p
    \<and> allowed_project_ids auth = Some allowed \<and> p \<in> allowed
    \<and> k_scopes key = cx_scopes r \<and> set (cx_scopes r) \<subseteq> {''write'', ''read''} \<and> cx_scopes r \<noteq> []
    \<and> list_all (has_scope (api_key auth)) (''write'' # cx_scopes r)
    \<and> k_created_by_user_id key = auth_user_id auth
    \<and> 0 < ttl \<and> ttl \<le> ui_key_max_ttl_seconds (rt_env rt)
    \<and> (\<forall>now. is_valid now key \<longleftrightarrow> now < ck_now (kx_clock kx) + int ttl * 10 ^ 9)"
proof (rule ui_create_key_Ok [OF assms])
  fix scopes n ttl
  let ?key = "new_key kx auth scopes (cq_project_id req, Some n, Some ttl)"
  assume ok: "ui_key_request_ok rt auth (cq_project_id req) scopes (Some ttl)" and r: "r = key_shown kx ?key"
    and st': "kp_keys st' = AList.update (k_key_hash ?key) ?key (kp_keys st)"
  from ok obtain allowed p where p: "allowed_project_ids auth = Some allowed" "cq_project_id req = Some p" "p \<in> allowed"
    by (auto simp: ui_key_request_ok_def split: option.splits)
  have "map_of (kp_keys st') (k_key_hash ?key) = Some ?key" by (simp add: st' update_conv')
  moreover have "is_valid now ?key \<longleftrightarrow> now < ck_now (kx_clock kx) + int ttl * 10 ^ 9" for now
    by (auto simp: is_valid_def)
  ultimately show ?thesis using ok p assms(1)
    by (intro exI [of _ ?key] exI [of _ allowed] exI [of _ p] exI [of _ ttl]) (simp add: r key_shown_def ui_key_request_ok_def)
qed

text \<open>
  a key that is bound to one project can create keys for every project. Outside user sessions
  the handler asks for the admin scope but not for the project: whatever project the calling key is
  bound to, the new key gets the project of the request, and a request without one creates a key
  for all projects.
\<close>

lemma scoped_key_creates_any_key:
  assumes "\<not> is_ui_jwt auth" "''admin'' \<in> set (k_scopes (api_key auth))"
    and "normalize_requested_scopes (cq_scopes req) = Ok scopes"
  shows "\<exists>r st' key. http_create_key rt kx auth req st = (Ok r, st')
    \<and> map_of (kp_keys st') (k_key_hash key) = Some key \<and> k_id key = cx_key_id r
    \<and> k_project_id key = cq_project_id req \<and> k_scopes key = scopes
    \<and> (\<forall>p. can_access_project key p \<longleftrightarrow> cq_project_id req = None \<or> cq_project_id req = Some p)"
proof -
  have "endpoint_granted rt auth Admin None" using assms(2) by (simp add: endpoint_granted_def scope_granted_def)
  then have "key_target rt auth req scopes st = (Ok (cq_project_id req, nonblank (cq_name req), cq_expires_in_seconds req), st)"
    (is "_ = (Ok ?t, _)") using admin_gate_Ok_iff [of rt auth Admin None None "''api_key.create''" "''api_key''" None st st]
    by (simp add: key_target_def assms(1) op_bind_apply op_return_apply)
  moreover obtain st' where "store_new_key rt kx auth scopes ?t st = (Ok (key_shown kx (new_key kx auth scopes ?t)), st')"
    "kp_keys st' = AList.update (k_key_hash (new_key kx auth scopes ?t)) (new_key kx auth scopes ?t) (kp_keys st)"
    by (rule store_new_key_apply)
  ultimately show ?thesis using assms(3)
    by (intro exI [of _ "key_shown kx (new_key kx auth scopes ?t)"] exI [of _ st'] exI [of _ "new_key kx auth scopes ?t"])
      (auto simp: http_create_key_def op_bind_apply lift_result_def key_shown_def update_conv' can_access_project_def)
qed

section \<open>Keys of sessions\<close>

text \<open>The keys a session may list and revoke: those its user created for one of its projects.\<close>

definition session_owns :: "AuthContext \<Rightarrow> ApiKey \<Rightarrow> bool" where
  "session_owns auth key \<longleftrightarrow>
     (\<exists>allowed p. allowed_project_ids auth = Some allowed \<and> k_project_id key = Some p \<and> p \<in> allowed)
   \<and> (\<exists>u. auth_user_id auth = Some u \<and> k_created_by_user_id key = Some u)"

lemma set_filter_keys: "set (filter_keys_to_ui_memberships auth keys) = {k \<in> set keys. session_owns auth k}"
  by (cases "allowed_project_ids auth"; cases "auth_user_id auth")
    (auto simp: filter_keys_to_ui_memberships_def session_owns_def split: option.splits)

lemma visible_keys_Ok:
  assumes "visible_keys rt kx auth action scope i st = (Ok keys, st')"
  shows "st' = st \<and> set keys \<subseteq> set (list_keys (kx_ext kx) (ck_now (kx_clock kx)) None (store_of st))
    \<and> (if is_ui_jwt auth then require_scope auth scope = Ok () \<and> (\<forall>k\<in>set keys. session_owns auth k)
       else endpoint_granted rt auth Admin None)"
proof (cases "is_ui_jwt auth")
  case True
  then show ?thesis using assms by (auto simp: visible_keys_def op_bind_Ok_iff checked_Ok_iff set_filter_keys)
next
  case False
  have "set (list_keys ext now p ks) \<subseteq> set (list_keys ext now None ks)" for ext now p ks
    by (auto simp: list_keys_def list_api_keys_def op_read_def split: option.splits)
  from this [of "kx_ext kx" "ck_now (kx_clock kx)" "context_project_id auth" "store_of st"] show ?thesis
    using False assms by (auto simp: visible_keys_def op_bind_Ok_iff admin_gate_Ok_iff)
qed

lemma revoke_idle:
  "\<not> 0 < count_where (\<lambda>k. ak_key_hash k = h \<and> ak_revoked_at k = None) (t_api_keys db)
     \<Longrightarrow> snd (revoke_api_key_by_hash now h db) = db"
  by (simp add: revoke_api_key_by_hash_def revoke_keys_where_def count_where_0 update_where_none)

lemma revoke_key_effect:
  assumes "revoke_key ck h ks = (b, ks')"
  shows "ks_keys ks' = mark_revoked (ck_now ck) h (ks_keys ks)"
    and "ks_db ks' = map_option (\<lambda>db. snd (revoke_api_key_by_hash (ck_db_now ck) h db)) (ks_db ks)"
  using assms revoke_idle [of h _ "ck_db_now ck"]
  by (auto simp: revoke_key_def revoke_api_key_by_hash_def revoke_keys_where_def split: option.splits bool.splits)

lemma mark_revoked_others: "h' \<noteq> h \<Longrightarrow> map_of (mark_revoked now h keys) h' = map_of keys h'"
  by (simp add: mark_revoked_def update_conv' split: option.splits)

lemma mark_revoked_dead: "map_of (mark_revoked now h keys) h = Some k \<Longrightarrow> \<not> is_valid t k"
  by (auto simp: mark_revoked_def update_conv' is_valid_def split: option.splits if_splits)

lemma http_revoke_key_Ok:
  assumes "http_revoke_key rt kx auth key_id st = (Ok x, st')"
  obtains keys key where "visible_keys rt kx auth ''api_key.revoke'' ''write'' (Some key_id) st = (Ok keys, st)"
    "key \<in> set keys" "k_id key = key_id" "kp_keys st' = mark_revoked (ck_now (kx_clock kx)) (k_key_hash key) (kp_keys st)"
    "t_api_keys (kp_db st') = (if kp_in_memory st then t_api_keys (kp_db st)
       else update_where (\<lambda>k. ak_key_hash k = k_key_hash key \<and> ak_revoked_at k = None) (stamp_key (ck_db_now (kx_clock kx))) (t_api_keys (kp_db st)))"
proof -
  from assms obtain keys st0 key b st1 db' where seen: "visible_keys rt kx auth ''api_key.revoke'' ''write'' (Some key_id) st = (Ok keys, st0)"
    and key: "find (\<lambda>k. k_id k = key_id) keys = Some key"
    and st1: "with_keys (revoke_key (kx_clock kx) (k_key_hash key)) st0 = (Ok b :: (bool, http_error) result, st1)"
    and st': "st' = st1\<lparr>kp_db := db'\<rparr>" "audit_extends (kp_db st1) db'"
    by (auto simp: http_revoke_key_def op_bind_Ok_iff lift_result_Ok_iff op_fail_def op_return_apply on_key_db_Ok_iff
      split: option.splits dest!: emit_audit_extends)
  moreover have "st0 = st" using visible_keys_Ok [OF seen] by blast
  ultimately show thesis using find_SomeD [OF key] audit_extends_tables [OF st'(2)]
    by (intro that [of keys key])
      (auto simp: with_keys_def store_of_def revoke_api_key_by_hash_def revoke_keys_where_def split: prod.splits dest: revoke_key_effect)
qed

definition stored_keys :: "KeyRequestExt \<Rightarrow> KeyApp \<Rightarrow> ApiKey set" where
  "stored_keys kx st = set (list_keys (kx_ext kx) (ck_now (kx_clock kx)) None (store_of st))"

definition key_killed :: "ApiKey \<Rightarrow> KeyApp \<Rightarrow> KeyApp \<Rightarrow> bool" where
  "key_killed key st st' \<longleftrightarrow>
     (\<forall>h. h \<noteq> k_key_hash key \<longrightarrow> map_of (kp_keys st') h = map_of (kp_keys st) h)
   \<and> filter (\<lambda>row. ak_key_hash row \<noteq> k_key_hash key) (t_api_keys (kp_db st'))
       = filter (\<lambda>row. ak_key_hash row \<noteq> k_key_hash key) (t_api_keys (kp_db st))
   \<and> (\<forall>k now. map_of (kp_keys st') (k_key_hash key) = Some k \<longrightarrow> \<not> is_valid now k)
   \<and> (\<forall>row\<in>set (t_api_keys (kp_db st')). ak_key_hash row = k_key_hash key \<and> \<not> kp_in_memory st \<longrightarrow> ak_revoked_at row \<noteq> None)"

lemma filter_revoked_others:
  "filter (\<lambda>row. ak_key_hash row \<noteq> h) (update_where (\<lambda>k. ak_key_hash k = h \<and> ak_revoked_at k = None) (stamp_key now) rows)
   = filter (\<lambda>row. ak_key_hash row \<noteq> h) rows"
  by (induction rows) (auto simp: stamp_key_def)

lemma key_killed_by_revoke:
  assumes "kp_keys st' = mark_revoked now (k_key_hash key) (kp_keys st)"
    and "t_api_keys (kp_db st') = (if kp_in_memory st then t_api_keys (kp_db st)
       else update_where (\<lambda>k. ak_key_hash k = k_key_hash key \<and> ak_revoked_at k = None) (stamp_key db_now) (t_api_keys (kp_db st)))"
  shows "key_killed key st st'"
  using assms mark_revoked_dead mark_revoked_others
  by (auto simp: key_killed_def filter_revoked_others set_update_where stamp_key_def split: if_splits)

text \<open>
  C38: sessions manage their own keys only. Listing shows a session nothing but keys its user created
  for one of its projects, and changes nothing. Revoking succeeds only for such a key, needs the
  write scope, leaves every other key as it was, in the cache and in the database, and kills that
  one: neither the cached copy nor the stored row is live afterwards.
\<close>

theorem session_manages_own_keys:
  assumes "is_ui_jwt auth"
  shows "(http_list_keys rt kx auth st = (Ok infos, st1) \<longrightarrow>
            st1 = st \<and> require_scope auth ''read'' = Ok () \<and> set infos \<subseteq> key_info ` {key \<in> stored_keys kx st. session_owns auth key})
    \<and> (http_revoke_key rt kx auth key_id st = (Ok x, st2) \<longrightarrow>
         require_scope auth ''write'' = Ok ()
       \<and> (\<exists>key\<in>stored_keys kx st. k_id key = key_id \<and> session_owns auth key \<and> key_killed key st st2))"
proof (intro conjI impI)
  assume "http_list_keys rt kx auth st = (Ok infos, st1)"
  then obtain keys where "visible_keys rt kx auth ''api_key.list'' ''read'' None st = (Ok keys, st1)" "infos = map key_info keys"
    by (auto simp: http_list_keys_def op_bind_Ok_iff op_return_apply)
  with visible_keys_Ok [OF this(1), folded stored_keys_def] assms show "st1 = st" "require_scope auth ''read'' = Ok ()"
    "set infos \<subseteq> key_info ` {key \<in> stored_keys kx st. session_owns auth key}" by auto
next
  assume "http_revoke_key rt kx auth key_id st = (Ok x, st2)"
  then obtain keys key where seen: "visible_keys rt kx auth ''api_key.revoke'' ''write'' (Some key_id) st = (Ok keys, st)"
    and key: "key \<in> set keys" "k_id key = key_id" "key_killed key st st2"
    by (rule http_revoke_key_Ok) (blast intro: key_killed_by_revoke)
  with visible_keys_Ok [OF seen, folded stored_keys_def] assms show "require_scope auth ''write'' = Ok ()"
    "\<exists>key\<in>stored_keys kx st. k_id key = key_id \<and> session_owns auth key \<and> key_killed key st st2" by auto
qed

definition sample_kx :: KeyRequestExt where
  "sample_kx = \<lparr>kx_ext = sample_ext, kx_secret = ''s'', kx_clock = sample_clock 0, kx_fresh = ''k9'', kx_salt = ''salt'',
     kx_raw = ''mlrunx_new'', kx_format = (\<lambda>_. ''2026'')\<rparr>"

definition sample_key_app :: KeyApp where
  "sample_key_app = \<lparr>kp_keys = [], kp_db = sample_db, kp_in_memory = False\<rparr>"

definition sample_key_request :: CreateKeyRequest where
  "sample_key_request = \<lparr>cq_project_id = Some ''p1'', cq_name = Some '' ci/nightly '', cq_scopes = [''Read'', ''read ''],
     cq_expires_in_seconds = Some 60\<rparr>"

lemma sample_ttl: "resolve_ui_key_ttl_seconds (rt_env sample_runtime) (Some 60) = Ok 60"
  by (simp add: resolve_ui_key_ttl_seconds_def ui_key_max_ttl_seconds_def sample_runtime_def)

lemma is_okE: "is_ok (fst out) \<Longrightarrow> \<exists>x s. out = (Ok x, s)"
  by (cases out; cases "fst out") auto

theorem session_key_confined_witness:
  "\<exists>r st' key. http_create_key sample_runtime sample_kx session_auth sample_key_request sample_key_app = (Ok r, st')
     \<and> map_of (kp_keys st') (k_key_hash key) = Some key \<and> k_project_id key = Some ''p1''"
proof -
  have scopes: "normalize_requested_scopes (cq_scopes sample_key_request) = Ok [''read'']" by code_simp
  have checks: "require_scope session_auth ''write'' = Ok ()" "ensure_requested_scopes_within_caller session_auth [''read''] = Ok ()"
    "validate_ui_key_name (cq_name sample_key_request) = Ok ''ci/nightly''"
    "resolve_ui_key_project_id session_auth (cq_project_id sample_key_request) = Ok ''p1''" by code_simp+
  have ui: "is_ui_jwt session_auth" "\<not> is_dev_mode session_auth" "allowed_project_ids session_auth = Some {''p1''}" by code_simp+
  have "key_target sample_runtime session_auth sample_key_request [''read''] sample_key_app
      = (Ok (Some ''p1'', Some ''ci/nightly'', Some 60), sample_key_app)"
    using checks sample_ttl by (simp add: key_target_def ui ui_key_target_def op_bind_apply checked_def op_return_apply sample_key_request_def)
  note target = this
  obtain st' where "store_new_key sample_runtime sample_kx session_auth [''read''] (Some ''p1'', Some ''ci/nightly'', Some 60) sample_key_app
      = (Ok (key_shown sample_kx (new_key sample_kx session_auth [''read''] (Some ''p1'', Some ''ci/nightly'', Some 60))), st')"
    by (rule store_new_key_apply)
  then obtain r where ok: "http_create_key sample_runtime sample_kx session_auth sample_key_request sample_key_app = (Ok r, st')"
    by (simp add: http_create_key_def op_bind_apply lift_result_def scopes target)
  from session_key_confined [OF ui(1,2) ok] ui(3) ok show ?thesis by auto
qed


definition scoped_admin :: AuthContext where
  "scoped_admin = sample_key_auth\<lparr>api_key := (api_key sample_key_auth)\<lparr>k_scopes := [''admin'']\<rparr>\<rparr>"

theorem scoped_key_creates_any_key_witness:
  "k_project_id (api_key scoped_admin) = Some ''p1''
   \<and> (\<exists>r st' key. http_create_key sample_runtime sample_kx scoped_admin (sample_key_request\<lparr>cq_project_id := None, cq_scopes := [''admin'']\<rparr>)
        sample_key_app = (Ok r, st')
      \<and> map_of (kp_keys st') (k_key_hash key) = Some key \<and> k_scopes key = [''admin''] \<and> can_access_project key ''p2'')"
proof -
  have "\<not> is_ui_jwt scoped_admin" "''admin'' \<in> set (k_scopes (api_key scoped_admin))" by code_simp+
  moreover have "normalize_requested_scopes (cq_scopes (sample_key_request\<lparr>cq_project_id := None, cq_scopes := [''admin'']\<rparr>)) = Ok [''admin'']"
    by code_simp
  ultimately show ?thesis
    using scoped_key_creates_any_key [of scoped_admin "sample_key_request\<lparr>cq_project_id := None, cq_scopes := [''admin'']\<rparr>" "[''admin'']"
      sample_runtime sample_kx sample_key_app]
    by (auto simp: scoped_admin_def sample_key_auth_def)
qed

definition own_key :: ApiKey where
  "own_key = (api_key sample_key_auth)\<lparr>k_id := ''k5'', k_key_hash := ''h5''\<rparr>"

definition foreign_key :: ApiKey where
  "foreign_key = own_key\<lparr>k_id := ''k6'', k_key_hash := ''h6'', k_created_by_user_id := Some ''u2''\<rparr>"

definition two_keys :: KeyApp where
  "two_keys = \<lparr>kp_keys = [(''h5'', own_key), (''h6'', foreign_key)], kp_db = sample_db, kp_in_memory = True\<rparr>"

theorem session_manages_own_keys_witness:
  "\<exists>infos st'. http_list_keys sample_runtime sample_kx session_auth two_keys = (Ok infos, two_keys) \<and> length infos = 1
   \<and> http_revoke_key sample_runtime sample_kx session_auth ''k5'' two_keys = (Ok ''k5'', st')
   \<and> (\<exists>key\<in>stored_keys sample_kx two_keys. k_id key = ''k5'' \<and> session_owns session_auth key \<and> key_killed key two_keys st')
   \<and> fst (http_revoke_key sample_runtime sample_kx session_auth ''k6'' two_keys) = Err (NOT_FOUND, ''Key not found: k6'')"
proof -
  have ui: "is_ui_jwt session_auth" by code_simp
  have "map_res (map k_id) (visible_keys sample_runtime sample_kx session_auth ''api_key.list'' ''read'' None) two_keys = (Ok [''k5''], two_keys)"
    by code_simp
  then obtain keys where "visible_keys sample_runtime sample_kx session_auth ''api_key.list'' ''read'' None two_keys = (Ok keys, two_keys)"
    "map k_id keys = [''k5'']" by (auto simp: map_res_def split: prod.splits result.splits)
  then obtain infos where list: "http_list_keys sample_runtime sample_kx session_auth two_keys = (Ok infos, two_keys)" "length infos = 1"
    by (auto simp: http_list_keys_def op_bind_apply op_return_apply)
  have "fst (http_revoke_key sample_runtime sample_kx session_auth ''k5'' two_keys) = Ok ''k5''" by code_simp
  then obtain st' where revoke: "http_revoke_key sample_runtime sample_kx session_auth ''k5'' two_keys = (Ok ''k5'', st')"
    by (metis prod.collapse)
  have "fst (http_revoke_key sample_runtime sample_kx session_auth ''k6'' two_keys) = Err (NOT_FOUND, ''Key not found: k6'')" by code_simp
  with session_manages_own_keys [OF ui, of sample_runtime sample_kx two_keys infos two_keys "''k5''" "''k5''" st'] list revoke
  show ?thesis by blast
qed

end
