(* ===== verification/Share_Handlers.thy ===== *)
theory Share_Handlers
  imports Key_Handlers
begin

text \<open>
  Share links (apps/api/src/main.rs: http_create_share_token, http_get_shared_run,
  http_get_shared_metrics, http_revoke_share_token and the policy they follow).

  The generated token, the secret of the fingerprints and the text of the date a number of days from
  now are parameters; that text is formed for numbers of days in the range of the date library, and
  the panic of chrono beyond it, which a configured maximum of that size would allow, is not modelled.
\<close>

section \<open>The policy\<close>

record CreateShareResponse =
  cs_token :: string
  cs_share_url :: string
  cs_run_id :: string
  cs_expires_at :: "string option"

record 'd SharedRunResponse = "'d RunResponse" +
  sr_available_metrics :: "string list"

record ShareExt =
  sx_ext :: KeyExt
  sx_secret :: string
  sx_token :: string
  sx_in_days :: "nat \<Rightarrow> timestamp"

abbreviation DEFAULT_SHARE_LINK_MAX_TTL_DAYS :: nat where "DEFAULT_SHARE_LINK_MAX_TTL_DAYS \<equiv> 1"

definition share_links_enabled :: "env \<Rightarrow> bool" where
  "share_links_enabled env = env_flag_default env ''MLRUNX_SHARE_LINKS_ENABLED'' False"

text \<open>Of the numbers an \<open>i64\<close> can hold the positive ones are taken.\<close>

definition share_link_max_ttl_days :: "env \<Rightarrow> nat" where
  "share_link_max_ttl_days env =
     (case Option.bind (env ''MLRUNX_SHARE_LINK_MAX_TTL_DAYS'') (parse_unsigned 9223372036854775807) of
        Some v \<Rightarrow> if 0 < v then v else DEFAULT_SHARE_LINK_MAX_TTL_DAYS
      | None \<Rightarrow> DEFAULT_SHARE_LINK_MAX_TTL_DAYS)"

definition resolve_share_expiry :: "env \<Rightarrow> (nat \<Rightarrow> timestamp) \<Rightarrow> int option \<Rightarrow> (timestamp, http_error) result" where
  "resolve_share_expiry env in_days expires_in_days =
     (case expires_in_days of
        None \<Rightarrow> Err (BAD_REQUEST, ''expires_in_days is required for share links.'')
      | Some days \<Rightarrow>
          if days \<le> 0 then Err (BAD_REQUEST, ''expires_in_days must be greater than zero.'')
          else if int (share_link_max_ttl_days env) < days
          then Err (BAD_REQUEST, ''expires_in_days exceeds policy maximum of '' @ show_nat (share_link_max_ttl_days env) @ '' days.'')
          else Ok (in_days (nat days)))"

definition share_token_hash :: "ShareExt \<Rightarrow> string \<Rightarrow> string" where
  "share_token_hash sx token = hmac_sha256_hex (sx_ext sx) (sx_secret sx) token"

definition share_token_resource_id :: "string \<Rightarrow> string" where
  "share_token_resource_id token_hash = ''share_token:'' @ take 16 token_hash"

section \<open>The handlers\<close>

text \<open>Both handlers that manage links load the run and make the checks on its owner, at the tier of readers.\<close>

definition guard_run_share ::
  "Runtime \<Rightarrow> AuthContext \<Rightarrow> string \<Rightarrow> string \<Rightarrow> string \<Rightarrow> string \<Rightarrow> string \<Rightarrow> RunRec http" where
  "guard_run_share rt auth action resource_type resource_id verb run_id =
     op_bind (load_run run_id) (\<lambda>run.
     op_bind
       (require_endpoint_access rt auth Read (Some (rn_project_id run)) (Some run_id) action resource_type (Some resource_id)) (\<lambda>_.
     op_bind (lift_result (require_ui_run_owner auth run)) (\<lambda>_.
     op_bind (lift_result (require_api_key_run_owner_for_mutation auth run verb)) (\<lambda>_.
       op_return run))))"

definition http_create_share_token :: "Runtime \<Rightarrow> ShareExt \<Rightarrow> AuthContext \<Rightarrow> string \<Rightarrow> int option \<Rightarrow> CreateShareResponse http" where
  "http_create_share_token rt sx auth run_id expires_in_days =
     (if \<not> share_links_enabled (rt_env rt)
      then op_fail (FORBIDDEN, ''Run share links are disabled by server policy.'')
      else
        checked_path run_id ''run_id''
          (op_bind (guard_run_share rt auth ''share_token.create'' ''run'' run_id ''share'' run_id) (\<lambda>run.
           let token_hash = share_token_hash sx (sx_token sx) in
           op_bind (lift_result (resolve_share_expiry (rt_env rt) (sx_in_days sx) expires_in_days)) (\<lambda>expires_at.
           op_bind (with_err internal_error
             (create_share_token (rt_now rt) token_hash run_id (Some (k_key_prefix (api_key auth))) (Some expires_at))) (\<lambda>_.
           op_bind (emit_audit_event rt (Some auth) (Some (rn_project_id run)) (Some run_id) ''share_token.create'' ''share_token''
             (Some (share_token_resource_id token_hash)) ''success'' (JObject [(''expires_at'', JString expires_at)])) (\<lambda>_.
             op_return \<lparr>cs_token = sx_token sx, cs_share_url = ''/api/v1/shared/'' @ sx_token sx, cs_run_id = run_id,
                        cs_expires_at = Some expires_at\<rparr>))))))"

text \<open>The public handlers: the token selects the run, nothing else does.\<close>

definition shared_run :: "Runtime \<Rightarrow> ShareExt \<Rightarrow> string \<Rightarrow> RunRec http" where
  "shared_run rt sx token =
     (if \<not> share_links_enabled (rt_env rt) then op_fail (NOT_FOUND, ''Not found'')
      else
        op_bind (with_err store_error (validate_share_token (rt_now rt) (share_token_hash sx token) (Some token))) (\<lambda>share db.
          case find_run (sh_run_id share) db of
            Some run \<Rightarrow> (Ok run, db)
          | None \<Rightarrow> (Err (internal_error (run_not_found (sh_run_id share))), db)))"

definition http_get_shared_run ::
  "Runtime \<Rightarrow> ShareExt \<Rightarrow> (timestamp \<Rightarrow> timestamp \<Rightarrow> 'd option) \<Rightarrow> string \<Rightarrow> 'd SharedRunResponse http" where
  "http_get_shared_run rt sx duration token =
     op_bind (shared_run rt sx token) (\<lambda>run.
     op_bind (best_effort [] (get_tags (rn_id run))) (\<lambda>tags.
     op_bind (best_effort [] (get_metric_names (rn_id run))) (\<lambda>available.
       op_return (RunResponse.extend (run_response (run_row duration run) tags) (SharedRunResponse.fields available)))))"

definition http_get_shared_metrics ::
  "Runtime \<Rightarrow> ShareExt \<Rightarrow> (f64 list \<Rightarrow> f64) \<Rightarrow> string \<Rightarrow> MetricsQuery \<Rightarrow> MetricsQueryResponse http" where
  "http_get_shared_metrics rt sx avg token q = op_bind (shared_run rt sx token) (\<lambda>run. read_metrics avg run q)"

definition http_revoke_share_token :: "Runtime \<Rightarrow> ShareExt \<Rightarrow> AuthContext \<Rightarrow> string \<Rightarrow> string \<Rightarrow> string http" where
  "http_revoke_share_token rt sx auth run_id token =
     (let token_hash = share_token_hash sx token; resource_id = share_token_resource_id token_hash in
      op_bind (guard_run_share rt auth ''share_token.revoke'' ''share_token'' resource_id ''revoke share links for'' run_id) (\<lambda>run.
      op_bind (with_err store_error (revoke_share_token (rt_now rt) token_hash (Some token))) (\<lambda>_.
      op_bind (emit_audit_event rt (Some auth) (Some (rn_project_id run)) (Some run_id) ''share_token.revoke'' ''share_token''
        (Some resource_id) ''success'' (JObject [])) (\<lambda>_.
        op_return resource_id))))"

section \<open>What a link shows\<close>

text \<open>The link a token opens at a moment: a stored token, not revoked, not past its expiry.\<close>

definition opens :: "timestamp \<Rightarrow> ShareExt \<Rightarrow> string \<Rightarrow> Db \<Rightarrow> ShareTokenRow \<Rightarrow> bool" where
  "opens now sx token db row \<longleftrightarrow>
     row \<in> set (t_share_tokens db) \<and> sh_token row \<in> {share_token_hash sx token, token} \<and> sh_revoked_at row = None
   \<and> (case sh_expires_at row of Some ex \<Rightarrow> now \<le> ex | None \<Rightarrow> True)"

lemma shared_run_Ok:
  assumes "shared_run rt sx token db = (Ok run, db')"
  shows "db' = db \<and> share_links_enabled (rt_env rt)
    \<and> (\<exists>row. opens (rt_now rt) sx token db row \<and> find_run (sh_run_id row) db = Some run)"
proof -
  from assms obtain row db1 where "validate_share_token (rt_now rt) (share_token_hash sx token) (Some token) db = (Ok row, db1)"
    and run: "(case find_run (sh_run_id row) db1 of Some run \<Rightarrow> (Ok run, db1)
      | None \<Rightarrow> (Err (internal_error (run_not_found (sh_run_id row))), db1)) = (Ok run, db')" and on: "share_links_enabled (rt_env rt)"
    by (auto simp: shared_run_def op_bind_Ok_iff with_err_Ok_iff op_fail_def split: if_splits)
  moreover from this(1) have "db1 = db" by (auto simp: validate_share_token_def split: option.splits if_splits)
  ultimately show ?thesis using validate_share_token_Ok [of "rt_now rt" "share_token_hash sx token" "Some token" db row]
    by (fastforce simp: opens_def share_selected_def split: option.splits)
qed

text \<open>
  Both public endpoints have one shape: the token selects the run, and what follows reads it. What a
  visitor can learn is proved here once.
\<close>

locale public_view =
  fixes handler :: "Runtime \<Rightarrow> ShareExt \<Rightarrow> 'q \<Rightarrow> string \<Rightarrow> 'r http"
    and body :: "'q \<Rightarrow> RunRec \<Rightarrow> 'r http"
    and shown :: "'r \<Rightarrow> string"
  assumes shape: "handler rt sx q token = op_bind (shared_run rt sx token) (body q)"
    and reads: "snd (body q run db) = db"
    and about: "body q run db = (Ok x, db') \<Longrightarrow> shown x = rn_id run"
begin

lemma answered:
  assumes "handler rt sx q token db = (Ok x, db')"
  shows "db' = db \<and> share_links_enabled (rt_env rt)
    \<and> (\<exists>row run. opens (rt_now rt) sx token db row \<and> find_run (sh_run_id row) db = Some run \<and> body q run db = (Ok x, db) \<and> shown x = rn_id run)"
proof -
  from assms obtain run db1 where "shared_run rt sx token db = (Ok run, db1)" "body q run db1 = (Ok x, db')"
    by (auto simp: shape op_bind_Ok_iff)
  with shared_run_Ok [OF this(1)] reads [of q run db] about [of q run db x db'] show ?thesis by auto
qed

lemma shows_run:
  assumes "handler rt sx q token db = (Ok x, db')" "\<And>run. body q run db = (Ok x, db) \<Longrightarrow> P run"
  shows "db' = db \<and> share_links_enabled (rt_env rt)
    \<and> (\<exists>row run. opens (rt_now rt) sx token db row \<and> find_run (sh_run_id row) db = Some run \<and> rn_id run = sh_run_id row \<and> P run)"
proof -
  from answered [OF assms(1)] obtain row run where "opens (rt_now rt) sx token db row" "find_run (sh_run_id row) db = Some run"
    "body q run db = (Ok x, db)" and "db' = db" "share_links_enabled (rt_env rt)" by (elim conjE exE)
  moreover from this(2) have "rn_id run = sh_run_id row" by (auto simp: find_run_def dest!: find_SomeD)
  ultimately show ?thesis using assms(2) by blast
qed

lemma closed:
  assumes "\<And>row. \<not> opens (rt_now rt) sx token db row"
  shows "\<not> is_ok (fst (handler rt sx q token db))"
  using answered [of rt sx q token db] assms by (metis is_ok_iff prod.collapse)

end

interpretation shared_detail: public_view "\<lambda>rt sx duration token. http_get_shared_run rt sx duration token"
  "\<lambda>duration run.
     op_bind (best_effort [] (get_tags (rn_id run))) (\<lambda>tags.
     op_bind (best_effort [] (get_metric_names (rn_id run))) (\<lambda>available.
       op_return (RunResponse.extend (run_response (run_row duration run) tags) (SharedRunResponse.fields available))))"
  rp_run_id
  by unfold_locales (auto simp: http_get_shared_run_def read_simps RunResponse.defs SharedRunResponse.defs run_response_def run_row_def Let_def
    split: prod.splits result.splits)

interpretation shared_series: public_view "\<lambda>rt sx (avg, q) token. http_get_shared_metrics rt sx avg token q"
  "\<lambda>(avg, q) run. read_metrics avg run q" ma_run_id
  by unfold_locales (auto simp: http_get_shared_metrics_def read_metrics_about)

text \<open>What the database holds of one run, and the aliases of one project.\<close>

definition run_tags :: "string \<Rightarrow> Db \<Rightarrow> string \<rightharpoonup> string" where
  "run_tags rid db = map_of (rev (map (\<lambda>t. (tg_key t, tg_value t)) (filter (\<lambda>t. tg_run_id t = rid) (t_tags db))))"

definition run_metrics :: "string \<Rightarrow> Db \<Rightarrow> MetricRec list" where
  "run_metrics rid db = filter (\<lambda>m. mt_run_id m = rid) (t_metrics db)"

definition names_in :: "MetricRec list \<Rightarrow> string list" where
  "names_in ms = sort (remdups (map mt_name ms))"

text \<open>
  The answers to a visitor: the row of the run with its tags and the names of its metrics; the series
  of its points, under the names asked for, with aliases of its project.
\<close>

definition detail_of :: "(timestamp \<Rightarrow> timestamp \<Rightarrow> 'd option) \<Rightarrow> RunRec \<Rightarrow> Db \<Rightarrow> 'd SharedRunResponse \<Rightarrow> bool" where
  "detail_of duration run db x \<longleftrightarrow>
     RunResponse.truncate x =
       \<lparr>rp_run_id = rn_id run, rp_project_id = rn_project_id run, rp_name = rn_name run, rp_status = rn_status run,
        rp_metrics_count = nat (rn_metrics_count run), rp_params_count = nat (rn_params_count run),
        rp_tags = run_tags (rn_id run) db, rp_created_at = rn_created_at run, rp_updated_at = rn_updated_at run,
        rp_duration_seconds = duration (case rn_finished_at run of Some t \<Rightarrow> t | None \<Rightarrow> rn_updated_at run) (rn_created_at run)\<rparr>
   \<and> sr_available_metrics x = names_in (run_metrics (rn_id run) db)"

definition series_of :: "(f64 list \<Rightarrow> f64) \<Rightarrow> MetricsQuery \<Rightarrow> RunRec \<Rightarrow> Db \<Rightarrow> MetricsQueryResponse \<Rightarrow> bool" where
  "series_of avg q run db y \<longleftrightarrow>
     ma_run_id y = rn_id run \<and> ma_available_metrics y = names_in (run_metrics (rn_id run) db)
   \<and> (\<forall>m d. ma_metric_aliases y m = Some d \<longrightarrow>
        (\<exists>a \<in> set (t_aliases db). al_project_id a = rn_project_id run \<and> al_metric_name a = m \<and> al_display_name a = d))
   \<and> map ms_name (ma_series y) = (if query_names (mq_names q) = [] then names_in (run_metrics (rn_id run) db) else query_names (mq_names q))
   \<and> (\<forall>s \<in> set (ma_series y). get_metric_series avg (mq_max_points q) (ms_name s)
         (filter (\<lambda>m. mt_name m = ms_name s \<and> step_in (mq_start_step q) (mq_end_step q) (mt_step m)) (run_metrics (rn_id run) db)) = Ok s)"

lemma shared_detail_body:
  assumes "op_bind (best_effort [] (get_tags (rn_id run))) (\<lambda>tags.
     op_bind (best_effort [] (get_metric_names (rn_id run))) (\<lambda>available.
       op_return (RunResponse.extend (run_response (run_row duration run) tags) (SharedRunResponse.fields available)))) db = (Ok x, db')"
  shows "detail_of duration run db x"
  using assms by (auto simp: read_simps RunResponse.defs SharedRunResponse.defs run_response_def run_row_def Let_def collect_map_def
    run_tags_def run_metrics_def names_in_def detail_of_def i64_to_u64_or_zero_def)

lemma try_map_each: "try_map f xs = Ok ys \<Longrightarrow> list_all2 (\<lambda>x y. f x = Ok y) xs ys"
  by (induction xs arbitrary: ys) (auto simp: try_bind_Ok_iff)

lemma series_name: "get_metric_series avg n name rows = Ok s \<Longrightarrow> ms_name s = name"
  by (auto simp: get_metric_series_def Let_def try_bind_Ok_iff)

lemma series_names: "list_all2 (\<lambda>x y. get_metric_series avg n x (rows x) = Ok y) xs ys \<Longrightarrow> map ms_name ys = xs"
  by (induction rule: list_all2_induct) (auto dest: series_name)

lemma run_metric_rows:
  "metric_rows rid a b name db = filter (\<lambda>m. mt_name m = name \<and> step_in a b (mt_step m)) (run_metrics rid db)"
  unfolding metric_rows_def run_metrics_def filter_filter by (rule filter_cong) auto

lemma alias_map_entry:
  "ok_val (fst (get_metric_alias_map pid db)) m = Some d \<Longrightarrow>
   \<exists>a \<in> set (t_aliases db). al_project_id a = pid \<and> al_metric_name a = m \<and> al_display_name a = d"
  by (auto simp: get_metric_alias_map_def list_metric_aliases_def op_bind_apply op_read_def op_return_def dest!: map_of_SomeD)

lemma shared_series_body:
  assumes "read_metrics avg run q db = (Ok y, db')"
  shows "series_of avg q run db y"
proof -
  let ?names = "if query_names (mq_names q) = [] then names_in (run_metrics (rn_id run) db) else query_names (mq_names q)"
  let ?f = "\<lambda>name. get_metric_series avg (mq_max_points q) name (metric_rows (rn_id run) (mq_start_step q) (mq_end_step q) name db)"
  have "fst (get_metrics avg (rn_id run) (query_names (mq_names q)) (mq_max_points q) (mq_start_step q) (mq_end_step q) db) = try_map ?f ?names"
    by (simp only: get_metrics_def names_in_def run_metrics_def fst_conv)
  with assms have y: "try_map ?f ?names = Ok (ma_series y)" "ma_run_id y = rn_id run"
      "ma_available_metrics y = ok_val (fst (get_metric_names (rn_id run) db))"
      "ma_metric_aliases y = ok_val (fst (get_metric_alias_map (rn_project_id run) db))"
    by (simp only: read_metrics_apply, cases "try_map ?f ?names", auto)+
  note each = try_map_each [OF y(1)]
  have "?f (?names ! i) = Ok (ma_series y ! i)" if "i < length (ma_series y)" for i
    using each that by (simp only: list_all2_conv_all_nth)
  then have "?f (ms_name s) = Ok s" if "s \<in> set (ma_series y)" for s
    using that by (metis in_set_conv_nth series_name)
  moreover have "map ms_name (ma_series y) = ?names"
    using each by (rule series_names)
  moreover have "ma_available_metrics y = names_in (run_metrics (rn_id run) db)"
    unfolding y(3) by (simp add: get_metric_names_def op_read_def names_in_def run_metrics_def)
  ultimately show ?thesis using y(2) alias_map_entry [of "rn_project_id run" db] unfolding series_of_def run_metric_rows y(4) by blast
qed

text \<open>
  C39: a share link shows one run. Whoever presents a token learns something only while share links
  are switched on, and only of the run of a stored link that the token opens: one that is not
  revoked and not past its expiry. The answer is that run's row, its tags and the names of its
  metrics; the series are those of its points, under the names asked for, and the aliases are of its
  project. Nothing is changed.
\<close>

theorem shared_view_confined:
  "(http_get_shared_run rt sx duration token db = (Ok x, db1) \<longrightarrow>
      db1 = db \<and> share_links_enabled (rt_env rt)
    \<and> (\<exists>row run. opens (rt_now rt) sx token db row \<and> find_run (sh_run_id row) db = Some run \<and> rn_id run = sh_run_id row
        \<and> detail_of duration run db x))
   \<and> (http_get_shared_metrics rt sx avg token q db = (Ok y, db2) \<longrightarrow>
      db2 = db \<and> share_links_enabled (rt_env rt)
    \<and> (\<exists>row run. opens (rt_now rt) sx token db row \<and> find_run (sh_run_id row) db = Some run \<and> rn_id run = sh_run_id row
        \<and> series_of avg q run db y))"
proof (intro conjI [OF impI impI])
  assume "http_get_shared_run rt sx duration token db = (Ok x, db1)"
  then show "db1 = db \<and> share_links_enabled (rt_env rt)
    \<and> (\<exists>row run. opens (rt_now rt) sx token db row \<and> find_run (sh_run_id row) db = Some run \<and> rn_id run = sh_run_id row
        \<and> detail_of duration run db x)"
    by (rule shared_detail.shows_run) (rule shared_detail_body)
next
  assume "http_get_shared_metrics rt sx avg token q db = (Ok y, db2)"
  then show "db2 = db \<and> share_links_enabled (rt_env rt)
    \<and> (\<exists>row run. opens (rt_now rt) sx token db row \<and> find_run (sh_run_id row) db = Some run \<and> rn_id run = sh_run_id row
        \<and> series_of avg q run db y)"
    using shared_series.shows_run [of rt sx "(avg, q)" token db y db2 "\<lambda>run. series_of avg q run db y"] shared_series_body by simp
qed

section \<open>From creation to revocation\<close>

definition share_granted :: "Runtime \<Rightarrow> AuthContext \<Rightarrow> RunRec \<Rightarrow> bool" where
  "share_granted rt auth run \<longleftrightarrow>
     endpoint_granted rt auth Read (Some (rn_project_id run)) \<and> run_owner_granted auth run \<and> key_owner_granted auth run"

lemma guard_run_share_Ok_iff:
  "guard_run_share rt auth action t i verb rid db = (Ok run, db') \<longleftrightarrow>
     find_run rid db = Some run \<and> share_granted rt auth run \<and> db' = db"
proof (cases "find_run rid db")
  case None
  then show ?thesis by (simp add: guard_run_share_def op_bind_apply load_run_apply)
next
  case (Some r)
  let ?e = "(rt, auth, Read, Some (rn_project_id r), Some rid, action, t, Some i)"
  note e = endpoint_guard.pass [of ?e db] endpoint_guard.refuse [of ?e db]
    and o = run_owner_guard.pass [of "(auth, r)" db] run_owner_guard.refuse [of "(auth, r)" db]
    and k = key_owner_guard.pass [of "(auth, r, verb)" db] key_owner_guard.refuse [of "(auth, r, verb)" db]
  show ?thesis using Some e o k
    by (cases "endpoint_granted rt auth Read (Some (rn_project_id r))"; cases "run_owner_granted auth r"; cases "key_owner_granted auth r")
      (auto simp: guard_run_share_def op_bind_apply load_run_apply share_granted_def op_return_apply)
qed

lemma http_create_share_token_Ok:
  assumes "http_create_share_token rt sx auth rid days db = (Ok r, db')"
  obtains run ex row where "find_run rid db = Some run" "share_granted rt auth run" "share_links_enabled (rt_env rt)"
    "resolve_share_expiry (rt_env rt) (sx_in_days sx) days = Ok ex"
    "row = \<lparr>sh_token = share_token_hash sx (sx_token sx), sh_run_id = rid, sh_key_prefix = Some (k_key_prefix (api_key auth)),
       sh_created_at = rt_now rt, sh_expires_at = Some ex, sh_revoked_at = None\<rparr>"
    "share_token_hash sx (sx_token sx) \<notin> set (map sh_token (t_share_tokens db))"
    "t_share_tokens db' = t_share_tokens db @ [row]" "t_runs db' = t_runs db"
    "cs_token r = sx_token sx" "cs_run_id r = rid" "cs_expires_at r = Some ex"
proof -
  from assms obtain run ex db1 where ok: "find_run rid db = Some run" "share_granted rt auth run" "share_links_enabled (rt_env rt)"
    "resolve_share_expiry (rt_env rt) (sx_in_days sx) days = Ok ex"
    "create_share_token (rt_now rt) (share_token_hash sx (sx_token sx)) rid (Some (k_key_prefix (api_key auth))) (Some ex) db = (Ok (), db1)"
    "audit_extends db1 db'" "cs_token r = sx_token sx" "cs_run_id r = rid" "cs_expires_at r = Some ex"
    by (auto simp: http_create_share_token_def checked_path_def op_bind_Ok_iff lift_result_Ok_iff with_err_Ok_iff guard_run_share_Ok_iff
      op_fail_def op_return_apply Let_def split: if_splits dest!: emit_audit_extends)
  moreover from ok(5) have "share_token_hash sx (sx_token sx) \<notin> set (map sh_token (t_share_tokens db))"
    "db1 = db\<lparr>t_share_tokens := t_share_tokens db @ [\<lparr>sh_token = share_token_hash sx (sx_token sx), sh_run_id = rid,
       sh_key_prefix = Some (k_key_prefix (api_key auth)), sh_created_at = rt_now rt, sh_expires_at = Some ex, sh_revoked_at = None\<rparr>]\<rparr>"
    by (auto simp: create_share_token_def op_stmt_apply split: option.splits if_splits)
  ultimately show thesis using audit_extends_tables [of db1 db'] by (intro that) auto
qed

lemma shared_run_found:
  assumes "share_links_enabled (rt_env rt)" "find (share_selected (share_token_hash sx token, Some token)) (t_share_tokens db) = Some row"
    and "sh_revoked_at row = None" "case sh_expires_at row of Some ex \<Rightarrow> rt_now rt \<le> ex | None \<Rightarrow> True" "find_run (sh_run_id row) db = Some run"
  shows "shared_run rt sx token db = (Ok run, db)"
  using assms by (auto simp: shared_run_def op_bind_apply with_err_def validate_share_token_def split: option.splits)

lemma http_get_shared_run_found:
  assumes "shared_run rt sx token db = (Ok run, db)"
  shows "\<exists>x. http_get_shared_run rt sx duration token db = (Ok x, db) \<and> rp_run_id x = rn_id run"
  using assms by (auto simp: http_get_shared_run_def read_simps RunResponse.defs SharedRunResponse.defs run_response_def run_row_def Let_def
    split: prod.splits result.splits)

lemma http_revoke_share_token_Ok:
  assumes "http_revoke_share_token rt sx auth rid token db = (Ok x, db')"
  shows "\<exists>run. find_run rid db = Some run \<and> share_granted rt auth run"
    and "t_share_tokens db' = share_of.revoke (rt_now rt) (share_token_hash sx token, Some token) (t_share_tokens db)"
proof -
  from assms obtain run db1 where "find_run rid db = Some run" "share_granted rt auth run"
    "revoke_share_token (rt_now rt) (share_token_hash sx token) (Some token) db = (Ok (), db1)" "audit_extends db1 db'"
    by (auto simp: http_revoke_share_token_def op_bind_Ok_iff with_err_Ok_iff guard_run_share_Ok_iff Let_def dest!: emit_audit_extends)
  then show "\<exists>run. find_run rid db = Some run \<and> share_granted rt auth run"
    "t_share_tokens db' = share_of.revoke (rt_now rt) (share_token_hash sx token, Some token) (t_share_tokens db)"
    using audit_extends_tables [of db1 db']
    by (auto simp: revoke_share_token_def Let_def share_of.revoke_def share_of.live_def [abs_def] split: if_splits)
qed

lemma revoked_never_opens:
  assumes "t_share_tokens db' = share_of.revoke now (share_token_hash sx token, Some token) tokens"
  shows "\<not> opens t sx token db' row"
  using share_of.revoke_kills [of _ now "(share_token_hash sx token, Some token)" tokens] assms
  by (fastforce simp: opens_def share_selected_def)

text \<open>
  C40: the life of a share link. When a link is created its caller may read and share the run, and with
  a token that is not itself a stored value the link shows that run to everybody until the date
  in the answer, and nothing after that date. Once the link has been revoked its token opens nothing
  at any time.
\<close>

theorem share_link_lifecycle:
  assumes "http_create_share_token rt sx auth rid days db = (Ok r, db1)" "sx_token sx \<notin> set (map sh_token (t_share_tokens db))"
    and "rt_env later = rt_env rt"
  shows "(\<exists>run ex. find_run rid db = Some run \<and> share_granted rt auth run \<and> cs_expires_at r = Some ex
      \<and> (if rt_now later \<le> ex
         then \<exists>x. http_get_shared_run later sx duration (cs_token r) db1 = (Ok x, db1) \<and> rp_run_id x = rid
         else \<not> is_ok (fst (http_get_shared_run later sx duration (cs_token r) db1))))
    \<and> (http_revoke_share_token revoker sx auth' rid (cs_token r) db1 = (Ok y, db2) \<longrightarrow>
         \<not> is_ok (fst (http_get_shared_run later sx duration (cs_token r) db2)))"
proof (rule http_create_share_token_Ok [OF assms(1)])
  fix run ex row
  assume run: "find_run rid db = Some run" "share_granted rt auth run" and on: "share_links_enabled (rt_env rt)"
    and row: "row = \<lparr>sh_token = share_token_hash sx (sx_token sx), sh_run_id = rid, sh_key_prefix = Some (k_key_prefix (api_key auth)),
       sh_created_at = rt_now rt, sh_expires_at = Some ex, sh_revoked_at = None\<rparr>"
    and new: "share_token_hash sx (sx_token sx) \<notin> set (map sh_token (t_share_tokens db))"
    and db1: "t_share_tokens db1 = t_share_tokens db @ [row]" "t_runs db1 = t_runs db"
    and r: "cs_token r = sx_token sx" "cs_expires_at r = Some ex"
  let ?sel = "share_selected (share_token_hash sx (sx_token sx), Some (sx_token sx))"
  have sel: "?sel s \<longleftrightarrow> s = row" if "s \<in> set (t_share_tokens db1)" for s
    using that new assms(2) unfolding db1 row share_selected_def by (force simp: image_iff)
  have only: "t \<le> ex" if "opens t sx (sx_token sx) db1 s" for s t
    using that sel [of s] by (auto simp: opens_def share_selected_def row)
  have "find ?sel (t_share_tokens db1) = Some row"
    using sel by (auto simp: db1 find_append find_None_iff row share_selected_def split: option.splits dest: find_SomeD)
  moreover have "find_run rid db1 = Some run" using run by (simp add: find_run_def db1)
  ultimately have "shared_run later sx (sx_token sx) db1 = (Ok run, db1)" if "rt_now later \<le> ex"
    using that by (intro shared_run_found [where row = row]) (simp_all add: assms(3) on row)
  then have "\<exists>x. http_get_shared_run later sx duration (cs_token r) db1 = (Ok x, db1) \<and> rp_run_id x = rid" if "rt_now later \<le> ex"
    using http_get_shared_run_found [of later sx "sx_token sx" db1 run duration] that run(1) by (auto simp: r find_run_def dest!: find_SomeD)
  moreover have "\<not> is_ok (fst (http_get_shared_run later sx duration (cs_token r) db1))" if "\<not> rt_now later \<le> ex"
    using only that by (intro shared_detail.closed) (auto simp: r)
  moreover have "\<not> is_ok (fst (http_get_shared_run later sx duration (cs_token r) db2))"
    if "http_revoke_share_token revoker sx auth' rid (cs_token r) db1 = (Ok y, db2)"
    by (rule shared_detail.closed) (rule revoked_never_opens [OF http_revoke_share_token_Ok(2) [OF that]])
  ultimately show ?thesis using run r by auto
qed

text \<open>
  a stored link value is itself a token. The database keeps the fingerprint of a token so that
  reading the database does not open the links; but the lookup also compares the presented text
  itself with the stored values, for links of an older format. So whoever presents a stored
  fingerprint of a live link is shown the run.
\<close>

lemma stored_fingerprint_opens:
  assumes "db_ok db" "share_links_enabled (rt_env rt)"
    and "row \<in> set (t_share_tokens db)" "sh_revoked_at row = None" "case sh_expires_at row of Some ex \<Rightarrow> rt_now rt \<le> ex | None \<Rightarrow> True"
    and "share_token_hash sx (sh_token row) \<notin> set (map sh_token (t_share_tokens db))"
  shows "\<exists>x. http_get_shared_run rt sx duration (sh_token row) db = (Ok x, db) \<and> rp_run_id x = sh_run_id row"
proof -
  let ?sel = "share_selected (share_token_hash sx (sh_token row), Some (sh_token row))"
  have keys: "distinct (map sh_token (t_share_tokens db))" "sh_run_id row \<in> set (run_ids db)"
    using db_okD(14) [OF assms(1)] assms(3) by (auto simp: shares_ok_def)
  have "y = row" if "y \<in> set (t_share_tokens db)" "?sel y" for y
  proof -
    have "sh_token y \<noteq> share_token_hash sx (sh_token row)" using that(1) assms(6) by (metis imageI set_map)
    with that(2) have "sh_token y = sh_token row" by (simp add: share_selected_def)
    with that(1) assms(3) keys(1) show ?thesis by (simp add: distinct_map inj_on_def)
  qed
  then have "find ?sel (t_share_tokens db) = Some row"
    using assms(3) by (intro find_unique) (simp_all add: share_selected_def)
  moreover obtain run where run: "find_run (sh_run_id row) db = Some run" "rn_id run = sh_run_id row"
    using keys(2) by (cases "find_run (sh_run_id row) db") (auto simp: find_run_def find_None_iff dest!: find_SomeD)
  ultimately have "shared_run rt sx (sh_token row) db = (Ok run, db)" using assms by (intro shared_run_found)
  from http_get_shared_run_found [OF this] run(2) show ?thesis by simp
qed

text \<open>
  Revoking checks the run of the path and then revokes whatever the token selects: the link of another
  run, of a project the caller cannot see, is revoked as well.
\<close>

lemma revoke_ignores_run:
  assumes "find_run rid db = Some run" "share_granted rt auth run"
    and "row \<in> set (t_share_tokens db)" "sh_token row = share_token_hash sx token" "sh_revoked_at row = None"
  shows "\<exists>y db'. http_revoke_share_token rt sx auth rid token db = (Ok y, db') \<and> (\<forall>t row'. \<not> opens t sx token db' row')"
proof -
  let ?i = "share_token_resource_id (share_token_hash sx token)"
  have "count_where (\<lambda>s. share_selected (share_token_hash sx token, Some token) s \<and> sh_revoked_at s = None) (t_share_tokens db) \<noteq> 0"
    using assms(3-5) by (auto simp: count_where_0 share_selected_def)
  then obtain db1 where db1: "revoke_share_token (rt_now rt) (share_token_hash sx token) (Some token) db = (Ok (), db1)"
    by (simp add: revoke_share_token_def Let_def)
  obtain db2 where db2: "emit_audit_event rt (Some auth) (Some (rn_project_id run)) (Some rid) ''share_token.revoke'' ''share_token''
    (Some ?i) ''success'' (JObject []) db1 = (Ok () :: (unit, http_error) result, db2)" by (rule emit_audit_event_apply)
  have "guard_run_share rt auth ''share_token.revoke'' ''share_token'' ?i ''revoke share links for'' rid db = (Ok run, db)"
    using assms(1,2) by (simp add: guard_run_share_Ok_iff)
  with db1 db2 have ok: "http_revoke_share_token rt sx auth rid token db = (Ok ?i, db2)"
    by (simp add: http_revoke_share_token_def Let_def op_bind_apply with_err_def op_return_apply)
  with revoked_never_opens [OF http_revoke_share_token_Ok(2) [OF ok]] show ?thesis by blast
qed

definition sample_sx :: ShareExt where
  "sample_sx = \<lparr>sx_ext = sample_ext, sx_secret = ''s'', sx_token = ''tok9'', sx_in_days = (\<lambda>_. ''2026-01-03 00:00:00'')\<rparr>"

definition sharing_runtime :: Runtime where
  "sharing_runtime = sample_runtime\<lparr>rt_env := (\<lambda>n. if n = ''MLRUNX_SHARE_LINKS_ENABLED'' then Some ''true'' else None)\<rparr>"

theorem shared_view_confined_witness:
  "\<exists>x row run. http_get_shared_run sharing_runtime sample_sx (\<lambda>_ _. None :: nat option) ''sh1'' sample_run_db = (Ok x, sample_run_db)
     \<and> opens (rt_now sharing_runtime) sample_sx ''sh1'' sample_run_db row \<and> rn_id run = sh_run_id row
     \<and> detail_of (\<lambda>_ _. None) run sample_run_db x"
proof -
  have "is_ok (fst (http_get_shared_run sharing_runtime sample_sx (\<lambda>_ _. None :: nat option) ''sh1'' sample_run_db))" by code_simp
  then obtain x db' where ok: "http_get_shared_run sharing_runtime sample_sx (\<lambda>_ _. None :: nat option) ''sh1'' sample_run_db = (Ok x, db')"
    using is_okE by blast
  from shared_view_confined [THEN conjunct1, THEN mp, OF ok] ok show ?thesis by blast
qed

theorem stored_fingerprint_opens_witness:
  "\<exists>x. http_get_shared_run sharing_runtime sample_sx (\<lambda>_ _. None :: nat option) ''sh1'' sample_run_db = (Ok x, sample_run_db)
     \<and> rp_run_id x = ''r1''"
proof -
  have "map sh_token (t_share_tokens sample_run_db) = [''sh1'']" "map sh_run_id (t_share_tokens sample_run_db) = [''r1'']"
    "list_all (\<lambda>row. sh_revoked_at row = None \<and> sh_expires_at row = Some ''2026-03-01 00:00:00'') (t_share_tokens sample_run_db)" by code_simp+
  then obtain row where row: "t_share_tokens sample_run_db = [row]" "sh_token row = ''sh1''" "sh_run_id row = ''r1''"
    "sh_revoked_at row = None" "sh_expires_at row = Some ''2026-03-01 00:00:00''" by (auto simp: map_eq_Cons_conv)
  moreover have "share_links_enabled (rt_env sharing_runtime)" "share_token_hash sample_sx ''sh1'' \<noteq> ''sh1''"
    "rt_now sharing_runtime \<le> ''2026-03-01 00:00:00''" by code_simp+
  ultimately show ?thesis
    using stored_fingerprint_opens [OF sample_run_db_ok, of sharing_runtime row sample_sx "\<lambda>_ _. None :: nat option"] by simp
qed

theorem share_link_lifecycle_witness:
  "\<exists>r db1 x. http_create_share_token sharing_runtime sample_sx sample_key_auth ''r1'' (Some 1) sample_run_db = (Ok r, db1)
     \<and> http_get_shared_run sharing_runtime sample_sx (\<lambda>_ _. None :: nat option) (cs_token r) db1 = (Ok x, db1) \<and> rp_run_id x = ''r1''"
proof -
  let ?c = "http_create_share_token sharing_runtime sample_sx sample_key_auth ''r1'' (Some 1) sample_run_db"
  have "is_ok (fst ?c)" by code_simp
  then obtain r db1 where ok: "?c = (Ok r, db1)" using is_okE by blast
  have "(case fst ?c of Ok r \<Rightarrow> cs_expires_at r = Some ''2026-01-03 00:00:00'' | Err e \<Rightarrow> False)" by code_simp
  then have "cs_expires_at r = Some ''2026-01-03 00:00:00''" by (simp add: ok)
  moreover have "sx_token sample_sx \<notin> set (map sh_token (t_share_tokens sample_run_db))" "rt_now sharing_runtime \<le> ''2026-01-03 00:00:00''"
    by code_simp+
  ultimately show ?thesis
    using share_link_lifecycle [OF ok, of sharing_runtime "\<lambda>_ _. None :: nat option"] ok by auto
qed

end
