(* ===== verification/Queue_Processor.thy ===== *)
theory Queue_Processor
  imports Run_Handlers
begin

text \<open>
  The ingest queue and the process behind it (apps/api/src/queue.rs, services/processor/src/main.rs,
  and the insertion of metric points in apps/api/src/storage/clickhouse.rs).

  Redis, ClickHouse and PostgreSQL are services: the model hands them the commands the code builds and
  takes their answers from parameters, on a state of their own. JSON and the calendar are parameters
  too. A processor is a state of the database and of these services, and one turn of its loop is a
  function on it.
\<close>

section \<open>The queue\<close>

record QueueConfig =
  qc_redis_url :: string
  qc_stream_key :: string
  qc_consumer_group :: string
  qc_consumer_name :: string
  qc_read_count :: nat
  qc_block_ms :: nat
  qc_max_len_approx :: nat

definition queue_config_default :: "string \<Rightarrow> QueueConfig" where
  "queue_config_default uuid =
     \<lparr>qc_redis_url = ''redis://127.0.0.1:6379'', qc_stream_key = ''mlrunx:ingest'', qc_consumer_group = ''mlrunx-processor'',
      qc_consumer_name = ''processor-'' @ uuid, qc_read_count = 32, qc_block_ms = 1000, qc_max_len_approx = 100000\<rparr>"

definition env_or :: "env \<Rightarrow> string \<Rightarrow> string \<Rightarrow> string" where
  "env_or env name d = (case env name of Some v \<Rightarrow> v | None \<Rightarrow> d)"

definition env_usize :: "env \<Rightarrow> string \<Rightarrow> nat \<Rightarrow> nat" where
  "env_usize env name d = (case Option.bind (env name) parse_usize of Some v \<Rightarrow> v | None \<Rightarrow> d)"

definition queue_config_from_env :: "env \<Rightarrow> string \<Rightarrow> QueueConfig" where
  "queue_config_from_env env uuid =
     (let d = queue_config_default uuid in
      \<lparr>qc_redis_url = env_or env ''REDIS_URL'' (qc_redis_url d),
       qc_stream_key = env_or env ''MLRUNX_INGEST_STREAM_KEY'' (qc_stream_key d),
       qc_consumer_group = env_or env ''MLRUNX_INGEST_STREAM_GROUP'' (qc_consumer_group d),
       qc_consumer_name = env_or env ''MLRUNX_INGEST_STREAM_CONSUMER'' (qc_consumer_name d),
       qc_read_count = env_usize env ''MLRUNX_INGEST_STREAM_READ_COUNT'' (qc_read_count d),
       qc_block_ms = env_usize env ''MLRUNX_INGEST_STREAM_BLOCK_MS'' (qc_block_ms d),
       qc_max_len_approx = env_usize env ''MLRUNX_INGEST_STREAM_MAXLEN'' (qc_max_len_approx d)\<rparr>)"

text \<open>
  The client library: a command is the list of its arguments, the answer is the value of the type
  the caller asks for or an error. An entry of a stream has a name and fields; a field is text
  or a value that is none.
\<close>

record StreamEntry =
  sg_id :: string
  sg_map :: "string \<rightharpoonup> string option"

record 's Redis =
  rd_connect :: "'s \<Rightarrow> (unit, string) result"
  rd_text :: "string list \<Rightarrow> 's \<Rightarrow> (string, string) result \<times> 's"
  rd_int :: "string list \<Rightarrow> 's \<Rightarrow> (int, string) result \<times> 's"
  rd_unit :: "string list \<Rightarrow> 's \<Rightarrow> (unit, string) result \<times> 's"
  rd_streams :: "string list \<Rightarrow> 's \<Rightarrow> (StreamEntry list list, string) result \<times> 's"

record BatchCodec =
  bc_encode :: "QueuedIngestBatch \<Rightarrow> string option"
  bc_decode :: "string \<Rightarrow> QueuedIngestBatch option"

record QueuedStreamEntry =
  qe_redis_id :: string
  qe_batch :: QueuedIngestBatch

text \<open>\<open>i64::try_from(n).unwrap_or(i64::MAX)\<close> as an argument of a command.\<close>

definition count_arg :: "nat \<Rightarrow> string" where
  "count_arg n = show_nat (min n 9223372036854775807)"

definition connection :: "'s Redis \<Rightarrow> ('s, unit, string) op" where
  "connection rd = (\<lambda>s. (map_err (\<lambda>_. ''failed to connect to Redis'') (rd_connect rd s), s))"

definition enqueue :: "'s Redis \<Rightarrow> BatchCodec \<Rightarrow> QueueConfig \<Rightarrow> QueuedIngestBatch \<Rightarrow> ('s, string, string) op" where
  "enqueue rd bc cfg batch =
     op_bind (lift_result (ok_or (bc_encode bc batch) ''failed to serialize queued batch'')) (\<lambda>payload.
     op_bind (connection rd) (\<lambda>_.
       with_err (\<lambda>_. ''failed to enqueue ingest batch'') (rd_text rd
         [''XADD'', qc_stream_key cfg, ''MAXLEN'', ''~'', count_arg (qc_max_len_approx cfg), ''*'', ''payload'', payload])))"

definition ensure_consumer_group :: "'s Redis \<Rightarrow> QueueConfig \<Rightarrow> ('s, unit, string) op" where
  "ensure_consumer_group rd cfg =
     op_bind (connection rd) (\<lambda>_ s.
       case rd_unit rd [''XGROUP'', ''CREATE'', qc_stream_key cfg, qc_consumer_group cfg, ''0'', ''MKSTREAM''] s of
         (Ok _, s') \<Rightarrow> (Ok (), s')
       | (Err e, s') \<Rightarrow> (if str_contains ''BUSYGROUP'' e then Ok () else Err ''failed to create Redis consumer group'', s'))"

definition decode_entry :: "BatchCodec \<Rightarrow> StreamEntry \<Rightarrow> (QueuedStreamEntry, string) result" where
  "decode_entry bc e =
     try_bind (ok_or (sg_map e ''payload'') ''Redis stream entry missing payload field'') (\<lambda>value.
     try_bind (ok_or value ''failed to decode Redis stream payload'') (\<lambda>payload.
     try_bind (ok_or (bc_decode bc payload) ''failed to decode queued batch'') (\<lambda>batch.
       Ok \<lparr>qe_redis_id = sg_id e, qe_batch = batch\<rparr>)))"

definition read_command :: "QueueConfig \<Rightarrow> string list" where
  "read_command cfg =
     [''XREADGROUP'', ''GROUP'', qc_consumer_group cfg, qc_consumer_name cfg, ''COUNT'', count_arg (qc_read_count cfg),
      ''BLOCK'', count_arg (qc_block_ms cfg), ''STREAMS'', qc_stream_key cfg, ''>'']"

definition read_next :: "'s Redis \<Rightarrow> BatchCodec \<Rightarrow> QueueConfig \<Rightarrow> ('s, QueuedStreamEntry list, string) op" where
  "read_next rd bc cfg =
     op_bind (connection rd) (\<lambda>_.
     op_bind (with_err (\<lambda>_. ''failed to read ingest batches from Redis'') (rd_streams rd (read_command cfg))) (\<lambda>reply.
       lift_result (try_map (decode_entry bc) (concat reply))))"

definition ack :: "'s Redis \<Rightarrow> QueueConfig \<Rightarrow> string \<Rightarrow> ('s, unit, string) op" where
  "ack rd cfg redis_id =
     op_bind (connection rd) (\<lambda>_.
     op_bind (with_err (\<lambda>_. ''failed to acknowledge Redis stream entry'')
       (rd_int rd [''XACK'', qc_stream_key cfg, qc_consumer_group cfg, redis_id])) (\<lambda>_.
       op_return ()))"

section \<open>ClickHouse\<close>

record 't ChPoint =
  ch_run_id :: string
  ch_project_id :: string
  ch_name :: string
  ch_step :: int
  ch_value :: f64
  ch_timestamp :: 't
  ch_batch_id :: string

text \<open>The client: an insertion into a table is opened, takes rows, and is ended.\<close>

record ('t, 'c) ChClient =
  cl_insert :: "string \<Rightarrow> ('c, unit, string) op"
  cl_write :: "'t ChPoint \<Rightarrow> ('c, unit, string) op"
  cl_end :: "('c, unit, string) op"

definition insert_batch :: "('t, 'c) ChClient \<Rightarrow> 't ChPoint list \<Rightarrow> ('c, nat, string) op" where
  "insert_batch cl points =
     (if points = [] then op_return 0
      else
        op_bind (cl_insert cl ''metrics'') (\<lambda>_.
        op_bind (op_for (cl_write cl) points) (\<lambda>_.
        op_bind (cl_end cl) (\<lambda>_.
          op_return (length points)))))"

section \<open>The processor\<close>

text \<open>The calendar: the current time and the time of a number of nanoseconds, when it is in its range.\<close>

record 't Calendar =
  ca_now :: 't
  ca_from_nanos :: "int \<Rightarrow> 't option"

text \<open>\<open>f64::round\<close>: to the nearest integer, halves away from zero.\<close>

definition f_nearest :: "f64 \<Rightarrow> f64" where
  "f_nearest = f_integral (\<lambda>x. if 0 \<le> x then \<lfloor>x + 1 / 2\<rfloor> else \<lceil>x - 1 / 2\<rceil>)"

definition offset_datetime_from_unix_seconds :: "'t Calendar \<Rightarrow> f64 option \<Rightarrow> 't" where
  "offset_datetime_from_unix_seconds cal timestamp =
     (case timestamp of
        None \<Rightarrow> ca_now cal
      | Some seconds \<Rightarrow>
          if \<not> is_finite seconds then ca_now cal
          else
            (let nanos = f_nearest (f_mul seconds (f_of_int 1000000000)) in
             if \<not> (f_le (f_of_int (- (2 ^ 127))) nanos \<and> f_le nanos (f_of_int (2 ^ 127 - 1))) then ca_now cal
             else
               (case ca_from_nanos cal (f_trunc (- (2 ^ 127)) (2 ^ 127 - 1) nanos) of
                  Some t \<Rightarrow> t
                | None \<Rightarrow> ca_now cal)))"

text \<open>
  PostgreSQL: what the processor asks of it, with the answers as parameters. The tags of a run are
  read, the tags of the batch are put over them, and the whole object is written back.
\<close>

datatype PgSync = PgUpsertParams "(string \<times> string \<times> string) list" | PgUpdateTags string Json

definition insert_member :: "string \<Rightarrow> Json \<Rightarrow> (string \<times> Json) list \<Rightarrow> (string \<times> Json) list" where
  "insert_member k v members =
     filter (\<lambda>(k', _). k' < k) members @ (k, v) # filter (\<lambda>(k', _). k < k') members"

fun merge_tags :: "(string \<times> string) list \<Rightarrow> (string \<times> Json) list \<Rightarrow> (string \<times> Json) list" where
  "merge_tags [] members = members"
| "merge_tags ((k, v) # tags) members = merge_tags tags (insert_member k (JString v) members)"

definition as_object :: "Json \<Rightarrow> (string \<times> Json) list" where
  "as_object j = (case j of JObject members \<Rightarrow> members | _ \<Rightarrow> [])"

definition sync_postgres_metadata ::
  "(string \<Rightarrow> string option) \<Rightarrow> (string \<Rightarrow> Json option) \<Rightarrow> QueuedIngestBatch \<Rightarrow> PgSync list" where
  "sync_postgres_metadata parse_uuid run_tags batch =
     (case parse_uuid (qb_run_id batch) of
        None \<Rightarrow> []
      | Some run \<Rightarrow>
          (if qb_params batch \<noteq> [] then [PgUpsertParams (map (\<lambda>(n, v). (run, n, v)) (qb_params batch))] else []) @
          (if qb_tags batch \<noteq> []
           then (case run_tags run of
                   Some tags \<Rightarrow> [PgUpdateTags run (JObject (merge_tags (qb_tags batch) (as_object tags)))]
                 | None \<Rightarrow> [])
           else []))"

record ('s, 'c) Processor =
  ps_db :: Db
  ps_queue :: 's
  ps_points :: 'c
  ps_synced :: "PgSync list"

record ('s, 't, 'c) ProcExt =
  px_redis :: "'s Redis"
  px_codec :: BatchCodec
  px_config :: QueueConfig
  px_clickhouse :: "('t, 'c) ChClient"
  px_calendar :: "'t Calendar"
  px_uuid :: "string \<Rightarrow> string option"
  px_run_tags :: "string \<Rightarrow> Json option"
  px_now :: timestamp
  px_show :: "SqliteError \<Rightarrow> string"

definition in_db :: "('e \<Rightarrow> string) \<Rightarrow> (Db, 'a, 'e) op \<Rightarrow> (('s, 'c) Processor, 'a, string) op" where
  "in_db show_error m = (\<lambda>p. case m (ps_db p) of (r, db) \<Rightarrow> (map_err show_error r, p\<lparr>ps_db := db\<rparr>))"

definition in_queue :: "('s, 'a, string) op \<Rightarrow> (('s, 'c) Processor, 'a, string) op" where
  "in_queue m = (\<lambda>p. case m (ps_queue p) of (r, s) \<Rightarrow> (r, p\<lparr>ps_queue := s\<rparr>))"

definition in_points :: "('c, 'a, string) op \<Rightarrow> (('s, 'c) Processor, 'a, string) op" where
  "in_points m = (\<lambda>p. case m (ps_points p) of (r, c) \<Rightarrow> (r, p\<lparr>ps_points := c\<rparr>))"

definition ch_point :: "'t Calendar \<Rightarrow> QueuedIngestBatch \<Rightarrow> MetricRow \<Rightarrow> 't ChPoint" where
  "ch_point cal batch m =
     \<lparr>ch_run_id = qb_run_id batch, ch_project_id = qb_project_id batch, ch_name = mr_name m, ch_step = mr_step m,
      ch_value = mr_value m, ch_timestamp = offset_datetime_from_unix_seconds cal (mr_timestamp m), ch_batch_id = qb_batch_id batch\<rparr>"

definition batch_events :: "QueuedIngestBatch \<Rightarrow> RunEventInput list" where
  "batch_events batch = qb_events batch @ map warning_event (qb_warnings batch)"

text \<open>The writes of a batch, in the order of the code.\<close>

definition store_batch :: "('s, 't, 'c) ProcExt \<Rightarrow> QueuedIngestBatch \<Rightarrow> (('s, 'c) Processor, unit, string) op" where
  "store_batch px batch =
     (let rid = qb_run_id batch; metrics = qb_metrics batch in
      op_bind (op_when (metrics \<noteq> []) 0 (in_db (px_show px) (insert_metrics rid metrics))) (\<lambda>_.
      op_bind (op_when (metrics \<noteq> []) () (in_db (px_show px)
        (increment_metrics_count (px_now px) rid (usize_to_i64_saturating (length metrics))))) (\<lambda>_.
      op_bind (op_when (metrics \<noteq> []) 0 (in_points (insert_batch (px_clickhouse px) (map (ch_point (px_calendar px) batch) metrics)))) (\<lambda>_.
      op_bind (op_when (qb_tags batch \<noteq> []) () (in_db (px_show px) (set_tags rid (qb_tags batch)))) (\<lambda>_.
      op_bind (op_when (qb_params batch \<noteq> []) 0 (in_db (px_show px) (insert_params (px_now px) rid (qb_params batch)))) (\<lambda>_.
      op_bind (op_when (batch_events batch \<noteq> []) 0 (in_db (px_show px) (insert_run_events (px_now px) rid (batch_events batch)))) (\<lambda>_.
        in_db (px_show px) (record_batch (px_now px) (qb_batch_id batch) rid (qb_seq batch) (qb_payload_hash batch)))))))))"

definition process_entry :: "('s, 't, 'c) ProcExt \<Rightarrow> QueuedStreamEntry \<Rightarrow> (('s, 'c) Processor, unit, string) op" where
  "process_entry px entry =
     op_bind (in_db (px_show px) (best_effort False (batch_exists (qb_batch_id (qe_batch entry))))) (\<lambda>known.
     if known then in_queue (ack (px_redis px) (px_config px) (qe_redis_id entry))
     else
       op_bind (store_batch px (qe_batch entry)) (\<lambda>_.
       op_bind (\<lambda>p. (Ok (), p\<lparr>ps_synced := ps_synced p @ sync_postgres_metadata (px_uuid px) (px_run_tags px) (qe_batch entry)\<rparr>)) (\<lambda>_.
         in_queue (ack (px_redis px) (px_config px) (qe_redis_id entry)))))"

text \<open>One turn of the loop: what was read is processed in order, and a failure is only reported.\<close>

fun process_all ::
  "('s, 't, 'c) ProcExt \<Rightarrow> QueuedStreamEntry list \<Rightarrow> ('s, 'c) Processor \<Rightarrow> (string \<times> (unit, string) result) list \<times> ('s, 'c) Processor" where
  "process_all px [] p = ([], p)"
| "process_all px (entry # entries) p =
     (case process_entry px entry p of (r, p1) \<Rightarrow>
      case process_all px entries p1 of (rs, p2) \<Rightarrow> ((qe_redis_id entry, r) # rs, p2))"

definition processor_turn ::
  "('s, 't, 'c) ProcExt \<Rightarrow> ('s, 'c) Processor \<Rightarrow> (string \<times> (unit, string) result) list \<times> ('s, 'c) Processor" where
  "processor_turn px p =
     (case in_queue (read_next (px_redis px) (px_codec px) (px_config px)) p of
        (Ok entries, p1) \<Rightarrow> process_all px entries p1
      | (Err _, p1) \<Rightarrow> ([], p1))"

text \<open>The loop has no end; the environment of each of its turns is given, with the time of the turn.\<close>

fun processor_loop ::
  "('s, 't, 'c) ProcExt list \<Rightarrow> ('s, 'c) Processor \<Rightarrow> (string \<times> (unit, string) result) list \<times> ('s, 'c) Processor" where
  "processor_loop [] p = ([], p)"
| "processor_loop (px # pxs) p =
     (case processor_turn px p of (rs1, p1) \<Rightarrow> case processor_loop pxs p1 of (rs2, p2) \<Rightarrow> (rs1 @ rs2, p2))"

section \<open>A processed batch is a persisted batch\<close>

lemma in_db_Ok_iff: "in_db f m p = (Ok x, p') \<longleftrightarrow> (\<exists>db'. m (ps_db p) = (Ok x, db') \<and> p' = p\<lparr>ps_db := db'\<rparr>)"
  by (auto simp: in_db_def split: prod.splits)

lemma in_queue_Ok_iff: "in_queue m p = (Ok x, p') \<longleftrightarrow> (\<exists>s'. m (ps_queue p) = (Ok x, s') \<and> p' = p\<lparr>ps_queue := s'\<rparr>)"
  by (auto simp: in_queue_def split: prod.splits)

lemma in_points_Ok_iff: "in_points m p = (Ok x, p') \<longleftrightarrow> (\<exists>c'. m (ps_points p) = (Ok x, c') \<and> p' = p\<lparr>ps_points := c'\<rparr>)"
  by (auto simp: in_points_def split: prod.splits)

lemma op_when_in_db: "op_when c d m (ps_db p) = (Ok x, db') \<Longrightarrow> op_when c d (in_db f m) p = (Ok x, p\<lparr>ps_db := db'\<rparr>)"
  by (auto simp: op_when_def in_db_Ok_iff)

lemma op_when_in_points: "op_when c d m (ps_points p) = (Ok x, c') \<Longrightarrow> op_when c d (in_points m) p = (Ok x, p\<lparr>ps_points := c'\<rparr>)"
  by (auto simp: op_when_def in_points_Ok_iff)

lemma op_when_after_points:
  "op_when c d m db = (Ok x, db') \<Longrightarrow>
   op_when c d (in_db f m) (p\<lparr>ps_db := db, ps_points := c'\<rparr>) = (Ok x, p\<lparr>ps_db := db', ps_points := c'\<rparr>)"
  by (auto simp: op_when_def in_db_Ok_iff)

text \<open>What the events of a batch do to the database, exactly.\<close>

definition touched :: "timestamp \<Rightarrow> string \<Rightarrow> RunRec list \<Rightarrow> RunRec list" where
  "touched now rid = update_where (\<lambda>r. rn_id r = rid) (\<lambda>r. r\<lparr>rn_updated_at := now\<rparr>)"

lemma touched_twice [simp]: "touched now rid (touched now rid rs) = touched now rid rs"
  by (auto simp: touched_def update_where_def)

lemma run_ids_touched [simp]: "map rn_id (touched now rid rs) = map rn_id rs"
  by (simp add: touched_def map_update_where)

lemma run_id_set_touched [simp]: "rn_id ` set (touched now rid rs) = rn_id ` set rs"
  by (metis run_ids_touched set_map)

lemma insert_event_rows:
  assumes "rid \<in> set (run_ids db)"
  shows "op_for (insert_event_row now rid) es db = (Ok (),
    db\<lparr>t_run_events := t_run_events db @ stored_events now rid (event_seq db) es, event_seq := event_seq db + int (length es)\<rparr>)"
  using assms
proof (induction es arbitrary: db)
  case (Cons e es)
  then show ?case by (simp add: op_bind_apply insert_event_row_def op_stmt_apply stored_event_def add.assoc)
qed simp

lemma insert_run_events_exact:
  assumes "rid \<in> set (run_ids db)"
  shows "insert_run_events now rid es db = (Ok (length es),
    db\<lparr>t_run_events := t_run_events db @ stored_events now rid (event_seq db) es, event_seq := event_seq db + int (length es),
       t_runs := (if es = [] then t_runs db else touched now rid (t_runs db))\<rparr>)"
  using insert_event_rows [OF assms, of now es] by (simp add: insert_run_events_def op_bind_apply update_run_def touched_def)

lemma insert_run_events_append:
  assumes "rid \<in> set (run_ids db)"
  shows "insert_run_events now rid (es @ es') db
    = (Ok (length es + length es'), snd (insert_run_events now rid es' (snd (insert_run_events now rid es db))))"
proof -
  let ?db = "snd (insert_run_events now rid es db)"
  have "rid \<in> set (run_ids ?db)" using assms by (simp add: insert_run_events_exact)
  then show ?thesis using assms by (simp add: insert_run_events_exact stored_events_append add.assoc)
qed

text \<open>The writes up to the events are those of the direct path.\<close>

lemma persist_steps:
  assumes rid: "rid \<in> set (run_ids db)" and nan: "\<forall>m \<in> set metrics. \<not> is_nan (mr_value m)"
  obtains d1 d2 d3 d4 where
    "op_when (metrics \<noteq> []) 0 (insert_metrics rid metrics) db = (Ok (length metrics), d1)"
    "op_when (metrics \<noteq> []) () (increment_metrics_count now rid (usize_to_i64_saturating (length metrics))) d1 = (Ok (), d2)"
    "op_when (tags \<noteq> []) () (set_tags rid tags) d2 = (Ok (), d3)"
    "op_when (params \<noteq> []) 0 (insert_params now rid params) d3 = (Ok (length params), d4)"
    "run_ids d4 = run_ids db"
    "persist_ingest_batch_to_sqlite ix now rid metrics params tags events ws db
      = (Ok \<lparr>pb_metric_count = length metrics, pb_tag_count = length tags, pb_event_count = length events + length ws\<rparr>,
         snd (insert_run_events now rid (events @ map warning_event ws) d4))"
proof -
  obtain tm tt tp te i ids where v: "ingest_view db = (tm, tt, tp, te, i, ids)" by (cases "ingest_view db")
  then have ids: "ids = run_ids db" by (simp add: ingest_view_def)
  have run: "rid \<in> set (run_ids d)" if "ingest_view d = (a, b, c, e, f, ids)" for d a b c e f
    using that rid by (auto simp: ingest_view_def ids simp del: set_map)
  obtain d1 where 1: "op_when (metrics \<noteq> []) 0 (with_err (persist_error_to ix ''metrics'') (insert_metrics rid metrics)) db
      = (Ok (length metrics), d1)" "ingest_view d1 = (tm @ map (stored_metric rid) metrics, tt, tp, te, i, ids)"
    by (rule view_metrics [OF rid nan v])
  obtain d2 where 2: "op_when (metrics \<noteq> []) () (with_err (persist_error ix ''update metrics count'')
      (increment_metrics_count now rid (usize_to_i64_saturating (length metrics)))) d1 = (Ok (), d2)"
      "ingest_view d2 = (tm @ map (stored_metric rid) metrics, tt, tp, te, i, ids)"
    by (rule view_count [OF 1(2)])
  obtain d3 where 3: "op_when (tags \<noteq> []) () (with_err (persist_error_to ix ''tags'') (set_tags rid tags)) d2 = (Ok (), d3)"
      "ingest_view d3 = (tm @ map (stored_metric rid) metrics, fold upsert_tag (tag_rows rid tags) tt, tp, te, i, ids)"
    by (rule view_tags [OF run [OF 2(2)] 2(2)])
  obtain d4 where 4: "op_when (params \<noteq> []) 0 (with_err (persist_error_to ix ''params'') (insert_params now rid params)) d3
      = (Ok (length params), d4)"
      "ingest_view d4 = (tm @ map (stored_metric rid) metrics, fold upsert_tag (tag_rows rid tags) tt,
        fold upsert_param (param_rows rid params) tp, te, i, ids)"
    by (rule view_params [OF run [OF 3(2)] 3(2)])
  let ?d5 = "snd (insert_run_events now rid events d4)"
  have r4: "rid \<in> set (run_ids d4)" by (rule run [OF 4(2)])
  then have r5: "rid \<in> set (run_ids ?d5)" by (simp add: insert_run_events_exact)
  have "op_when (events \<noteq> []) 0 (with_err (persist_error_to ix ''run events'') (insert_run_events now rid events)) d4 = (Ok (length events), ?d5)"
    using r4 by (cases "events = []") (simp_all add: with_err_def insert_run_events_exact)
  moreover have "op_when (ws \<noteq> []) 0 (best_effort 0 (insert_run_events now rid (map warning_event ws)) :: nat http) ?d5
      = (Ok (length ws), snd (insert_run_events now rid (map warning_event ws) ?d5))"
    using r5 by (cases "ws = []") (simp_all add: best_effort_def insert_run_events_exact del: set_map)
  ultimately have "persist_ingest_batch_to_sqlite ix now rid metrics params tags events ws db
      = (Ok \<lparr>pb_metric_count = length metrics, pb_tag_count = length tags, pb_event_count = length events + length ws\<rparr>,
         snd (insert_run_events now rid (events @ map warning_event ws) d4))"
    using 1(1) 2(1) 3(1) 4(1) insert_run_events_append [OF r4, of now events "map warning_event ws"]
    by (simp add: persist_ingest_batch_to_sqlite_def op_bind_apply)
  moreover have "run_ids d4 = run_ids db" using 4(2) by (simp add: ingest_view_def ids)
  ultimately show thesis using 1(1) 2(1) 3(1) 4(1) by (intro that [of d1 d2 d3 d4]) (simp_all add: op_when_with_err)
qed

definition batch_row :: "timestamp \<Rightarrow> QueuedIngestBatch \<Rightarrow> BatchRec" where
  "batch_row now b = \<lparr>ba_id = qb_batch_id b, ba_run_id = qb_run_id b, ba_seq = qb_seq b, ba_payload_hash = qb_payload_hash b,
     ba_created_at = now\<rparr>"

lemma batches_kept:
  "preserves (\<lambda>db. t_batches db = bs) (insert_metrics rid ms)"
  "preserves (\<lambda>db. t_batches db = bs) (increment_metrics_count now rid n)"
  "preserves (\<lambda>db. t_batches db = bs) (set_tags rid tags)"
  "preserves (\<lambda>db. t_batches db = bs) (insert_params now rid ps)"
  "preserves (\<lambda>db. t_batches db = bs) (insert_run_events now rid es)"
  unfolding insert_metrics_def insert_metric_row_def increment_metrics_count_def update_run_def set_tags_def insert_params_def
    insert_run_events_def insert_event_row_def
  by (auto intro!: preserves_intros preserves_stmt preserves_write split: prod.splits)

text \<open>
  What ClickHouse has done when it has taken some points: nothing for no point; else an insertion into
  the metrics table was opened, took every point in order, and was ended.
\<close>

fun rows_written :: "('t, 'c) ChClient \<Rightarrow> 't ChPoint list \<Rightarrow> 'c \<Rightarrow> 'c \<Rightarrow> bool" where
  "rows_written cl [] c c' \<longleftrightarrow> c' = c"
| "rows_written cl (x # xs) c c' \<longleftrightarrow> (\<exists>c1. cl_write cl x c = (Ok (), c1) \<and> rows_written cl xs c1 c')"

definition points_taken :: "('t, 'c) ChClient \<Rightarrow> 't ChPoint list \<Rightarrow> 'c \<Rightarrow> 'c \<Rightarrow> bool" where
  "points_taken cl xs c c' \<longleftrightarrow>
     (if xs = [] then c' = c
      else \<exists>c1 c2. cl_insert cl ''metrics'' c = (Ok (), c1) \<and> rows_written cl xs c1 c2 \<and> cl_end cl c2 = (Ok (), c'))"

lemma rows_written_op_for: "rows_written cl xs c c' \<Longrightarrow> op_for (cl_write cl) xs c = (Ok (), c')"
  by (induction xs arbitrary: c) (auto simp: op_bind_apply)

lemma insert_batch_points_taken: "points_taken cl xs c c' \<Longrightarrow> insert_batch cl xs c = (Ok (length xs), c')"
  by (auto simp: points_taken_def insert_batch_def op_bind_apply dest: rows_written_op_for split: if_splits)

lemma process_entry_stores:
  assumes "qb_run_id b \<in> set (run_ids (ps_db p))" "list_all (\<lambda>m. \<not> is_nan (mr_value m)) (qb_metrics b)"
    and "qb_batch_id b \<notin> set (map ba_id (t_batches (ps_db p)))"
    and "points_taken (px_clickhouse px) (map (ch_point (px_calendar px) b) (qb_metrics b)) (ps_points p) c"
    and "ack (px_redis px) (px_config px) i (ps_queue p) = (Ok (), q)"
  shows "\<exists>pb db1 p'. persist_ingest_batch_to_sqlite ix (px_now px) (qb_run_id b) (qb_metrics b) (qb_params b) (qb_tags b) (qb_events b)
        (qb_warnings b) (ps_db p) = (Ok pb, db1)
    \<and> process_entry px \<lparr>qe_redis_id = i, qe_batch = b\<rparr> p = (Ok (), p')
    \<and> p' = \<lparr>ps_db = db1\<lparr>t_batches := t_batches db1 @ [batch_row (px_now px) b]\<rparr>, ps_queue = q, ps_points = c,
         ps_synced = ps_synced p @ sync_postgres_metadata (px_uuid px) (px_run_tags px) b\<rparr>"
proof (rule persist_steps [OF assms(1), of "qb_metrics b"])
  let ?rid = "qb_run_id b" and ?now = "px_now px" and ?es = "qb_events b @ map warning_event (qb_warnings b)"
  fix d1 d2 d3 d4
  assume steps: "op_when (qb_metrics b \<noteq> []) 0 (insert_metrics ?rid (qb_metrics b)) (ps_db p) = (Ok (length (qb_metrics b)), d1)"
    "op_when (qb_metrics b \<noteq> []) () (increment_metrics_count ?now ?rid (usize_to_i64_saturating (length (qb_metrics b)))) d1 = (Ok (), d2)"
    "op_when (qb_tags b \<noteq> []) () (set_tags ?rid (qb_tags b)) d2 = (Ok (), d3)"
    "op_when (qb_params b \<noteq> []) 0 (insert_params ?now ?rid (qb_params b)) d3 = (Ok (length (qb_params b)), d4)"
    and ids: "run_ids d4 = run_ids (ps_db p)"
    and direct: "persist_ingest_batch_to_sqlite ix ?now ?rid (qb_metrics b) (qb_params b) (qb_tags b) (qb_events b) (qb_warnings b) (ps_db p)
      = (Ok \<lparr>pb_metric_count = length (qb_metrics b), pb_tag_count = length (qb_tags b),
              pb_event_count = length (qb_events b) + length (qb_warnings b)\<rparr>, snd (insert_run_events ?now ?rid ?es d4))"
  let ?db1 = "snd (insert_run_events ?now ?rid ?es d4)"
  have r4: "?rid \<in> set (run_ids d4)" using assms(1) ids by (simp del: set_map)
  have d4: "t_batches d4 = t_batches (ps_db p)"
    using steps preservesD [OF preserves_when [OF batches_kept(1)]] preservesD [OF preserves_when [OF batches_kept(2)]]
      preservesD [OF preserves_when [OF batches_kept(3)]] preservesD [OF preserves_when [OF batches_kept(4)]] by metis
  have 5: "op_when (batch_events b \<noteq> []) 0 (insert_run_events ?now ?rid (batch_events b)) d4 = (Ok (length ?es), ?db1)"
    using insert_run_events_exact [OF r4, of ?now ?es] by (cases "?es = []") (simp_all add: batch_events_def)
  have "qb_batch_id b \<notin> set (map ba_id (t_batches ?db1))" "?rid \<in> set (run_ids ?db1)"
    using assms(3) d4 r4 by (simp_all add: insert_run_events_exact)
  then have 6: "record_batch ?now (qb_batch_id b) ?rid (qb_seq b) (qb_payload_hash b) ?db1
      = (Ok (), ?db1\<lparr>t_batches := t_batches ?db1 @ [batch_row ?now b]\<rparr>)"
    by (simp add: record_batch_def op_stmt_apply batch_row_def)
  obtain n where 7: "op_when (qb_metrics b \<noteq> []) 0 (insert_batch (px_clickhouse px) (map (ch_point (px_calendar px) b) (qb_metrics b)))
      (ps_points p) = (Ok n, c)"
    using assms(4) insert_batch_points_taken [OF assms(4)] by (cases "qb_metrics b = []") (auto simp: points_taken_def)
  let ?p = "\<lambda>db. p\<lparr>ps_db := db, ps_points := c\<rparr>"
  have 8: "in_db (px_show px) (record_batch ?now (qb_batch_id b) ?rid (qb_seq b) (qb_payload_hash b)) (?p ?db1)
      = (Ok (), ?p (?db1\<lparr>t_batches := t_batches ?db1 @ [batch_row ?now b]\<rparr>))"
    using 6 by (simp add: in_db_def)
  have store: "store_batch px b p = (Ok (), ?p (?db1\<lparr>t_batches := t_batches ?db1 @ [batch_row ?now b]\<rparr>))"
    by (simp only: store_batch_def Let_def op_bind_apply op_when_in_db [OF steps(1)]
      op_when_in_db [of _ _ _ "p\<lparr>ps_db := d1\<rparr>", simplified, OF steps(2)] op_when_in_points [of _ _ _ "p\<lparr>ps_db := d2\<rparr>", simplified, OF 7]
      op_when_after_points [OF steps(3)] op_when_after_points [OF steps(4)] op_when_after_points [OF 5] 8 prod.case result.case)
  have known: "in_db (px_show px) (best_effort False (batch_exists (qb_batch_id b)) :: bool store) p = (Ok False, p)"
    using assms(3) by (force simp: in_db_def best_effort_def batch_exists_def op_read_def count_where_0 image_iff)
  from assms(5) store known direct show ?thesis by (simp add: process_entry_def op_bind_apply in_queue_def)
qed (use assms(2) in \<open>simp add: list_all_iff\<close>)

text \<open>
  C8: the queue changes when a batch is stored and not what is stored. For a batch that is not on record,
  of a run that exists, without a NaN among its metrics, when ClickHouse takes its points and Redis
  the acknowledgement: processing succeeds, the database is exactly what the direct path makes of
  it with one row more that marks the batch as processed, ClickHouse has taken every metric of the
  batch, in order, the metadata of the batch is sent to PostgreSQL, and the entry is acknowledged.
\<close>

theorem processed_is_persisted:
  assumes "qb_run_id b \<in> set (run_ids (ps_db p))" "list_all (\<lambda>m. \<not> is_nan (mr_value m)) (qb_metrics b)"
    and "qb_batch_id b \<notin> set (map ba_id (t_batches (ps_db p)))"
    and "points_taken (px_clickhouse px) (map (ch_point (px_calendar px) b) (qb_metrics b)) (ps_points p) c"
    and "ack (px_redis px) (px_config px) i (ps_queue p) = (Ok (), q)"
  shows "\<exists>pb db1 p'. persist_ingest_batch_to_sqlite ix (px_now px) (qb_run_id b) (qb_metrics b) (qb_params b) (qb_tags b) (qb_events b)
        (qb_warnings b) (ps_db p) = (Ok pb, db1)
    \<and> process_entry px \<lparr>qe_redis_id = i, qe_batch = b\<rparr> p = (Ok (), p')
    \<and> p' = \<lparr>ps_db = db1\<lparr>t_batches := t_batches db1 @ [batch_row (px_now px) b]\<rparr>, ps_queue = q, ps_points = c,
         ps_synced = ps_synced p @ sync_postgres_metadata (px_uuid px) (px_run_tags px) b\<rparr>"
  using assms by (rule process_entry_stores)

section \<open>A batch is stored once\<close>

definition known_batch :: "string \<Rightarrow> Db \<Rightarrow> bool" where
  "known_batch bid db \<longleftrightarrow> bid \<in> set (map ba_id (t_batches db))"

lemma batch_known:
  "in_db f (best_effort False (batch_exists bid) :: bool store) p = (Ok (known_batch bid (ps_db p)), p)"
  by (auto simp: in_db_def best_effort_def batch_exists_def op_read_def count_where_pos known_batch_def image_iff)

lemma ack_only:
  assumes "known_batch (qb_batch_id (qe_batch e)) (ps_db p)"
  shows "process_entry px e p = in_queue (ack (px_redis px) (px_config px) (qe_redis_id e)) p"
  using assms by (simp add: process_entry_def op_bind_apply batch_known)

lemma in_queue_db [simp]: "ps_db (snd (in_queue m p)) = ps_db p"
  by (simp add: in_queue_def split: prod.splits)

lemma record_batch_known: "record_batch now bid rid n h db = (Ok (), db1) \<Longrightarrow> known_batch bid db1"
  by (auto simp: known_batch_def record_batch_def op_stmt_apply split: option.splits if_splits)

lemma process_entry_known:
  assumes "process_entry px e p = (Ok (), p')"
  shows "known_batch (qb_batch_id (qe_batch e)) (ps_db p')"
proof (cases "known_batch (qb_batch_id (qe_batch e)) (ps_db p)")
  case True
  then show ?thesis using assms in_queue_db [of "ack (px_redis px) (px_config px) (qe_redis_id e)" p] by (simp add: ack_only)
next
  case False
  with assms obtain p1 where "store_batch px (qe_batch e) p = (Ok (), p1)" and p': "ps_db p' = ps_db p1"
    by (auto simp: process_entry_def op_bind_Ok_iff batch_known in_queue_Ok_iff)
  then obtain db db1 where "record_batch (px_now px) (qb_batch_id (qe_batch e)) (qb_run_id (qe_batch e)) (qb_seq (qe_batch e))
      (qb_payload_hash (qe_batch e)) db = (Ok (), db1)" "ps_db p1 = db1"
    by (auto simp: store_batch_def Let_def op_bind_Ok_iff in_db_Ok_iff)
  then show ?thesis by (auto simp: p' dest: record_batch_known)
qed

text \<open>
  C9: processing is idempotent. Once a batch has been processed, every further entry with its identifier,
  delivered again or enqueued again, is acknowledged and leaves the database as it is. The
  identifier alone decides, whatever run the further entry is for.
\<close>

theorem processed_once:
  assumes "process_entry px e p = (Ok (), p1)" "qb_batch_id (qe_batch e') = qb_batch_id (qe_batch e)" "ps_db p2 = ps_db p1"
  shows "process_entry px' e' p2 = in_queue (ack (px_redis px') (px_config px') (qe_redis_id e')) p2
    \<and> ps_db (snd (process_entry px' e' p2)) = ps_db p1"
  using process_entry_known [OF assms(1)] ack_only [of e' p2 px'] assms(2,3) by simp

section \<open>The loop\<close>

lemma preserves_in_db: "preserves I m \<Longrightarrow> preserves (\<lambda>p. I (ps_db p)) (in_db f m)"
  by (auto simp: preserves_def in_db_def split: prod.splits)

lemma preserves_in_queue: "preserves (\<lambda>p. I (ps_db p)) (in_queue m)"
  by (auto simp: preserves_def)

lemma preserves_in_points: "preserves (\<lambda>p. I (ps_db p)) (in_points m)"
  by (auto simp: preserves_def in_points_def split: prod.splits)

lemma process_entry_ok: "preserves (\<lambda>p. db_ok (ps_db p)) (process_entry px e)"
  unfolding process_entry_def store_batch_def Let_def
  by (auto intro!: preserves_intros preserves_in_db preserves_in_queue preserves_in_points simp: preserves_def [of _ "\<lambda>p. (Ok (), _ p)"]
    batch_exists_def split: if_splits)

lemma process_all_inv: "(\<And>e. preserves J (process_entry px e)) \<Longrightarrow> J p \<Longrightarrow> J (snd (process_all px es p))"
proof (induction es arbitrary: p)
  case (Cons e es)
  then have "J (snd (process_entry px e p))" by (simp add: preserves_def)
  with Cons.IH [OF Cons.prems(1)] show ?case by (simp split: prod.splits) (metis snd_conv)
qed simp

lemma processor_loop_ok: "db_ok (ps_db p) \<Longrightarrow> db_ok (ps_db (snd (processor_loop pxs p)))"
proof (induction pxs arbitrary: p)
  case (Cons px pxs)
  have "db_ok (ps_db (snd (processor_turn px p)))"
    using Cons.prems by (auto simp: processor_turn_def in_queue_def split: prod.splits result.splits
      intro!: process_all_inv [where J = "\<lambda>p. db_ok (ps_db p)", OF process_entry_ok])
  with Cons.IH show ?case by (simp split: prod.splits) (metis snd_conv)
qed simp

text \<open>
  What the processor relies on in Redis, as its manual documents it, of the commands on one stream and
  one group: a command of the form \<open>XREADGROUP GROUP g c ... STREAMS key >\<close> delivers entries that were
  not delivered to the group before, each once, and what was delivered stays delivered, by this
  command and by \<open>XACK key g id\<close>. Nothing is said of other commands; with another position than \<open>>\<close>
  Redis delivers again what is pending.
\<close>

definition reads_new :: "string \<Rightarrow> string \<Rightarrow> string list \<Rightarrow> bool" where
  "reads_new key g args \<longleftrightarrow>
     (\<exists>consumer options. args = [''XREADGROUP'', ''GROUP'', g, consumer] @ options @ [''STREAMS'', key, ''>''])"

definition delivers_once :: "'s Redis \<Rightarrow> string \<Rightarrow> string \<Rightarrow> ('s \<Rightarrow> string set) \<Rightarrow> bool" where
  "delivers_once rd key g delivered \<longleftrightarrow>
     (\<forall>args s. reads_new key g args \<longrightarrow> delivered s \<subseteq> delivered (snd (rd_streams rd args s)))
   \<and> (\<forall>args s reply s'. reads_new key g args \<longrightarrow> rd_streams rd args s = (Ok reply, s') \<longrightarrow>
        distinct (map sg_id (concat reply)) \<and> set (map sg_id (concat reply)) \<inter> delivered s = {}
      \<and> set (map sg_id (concat reply)) \<subseteq> delivered s')
   \<and> (\<forall>i s. delivered s \<subseteq> delivered (snd (rd_int rd [''XACK'', key, g, i] s)))"

abbreviation redis_delivers :: "('s \<Rightarrow> string set) \<Rightarrow> ('s, 't, 'c) ProcExt \<Rightarrow> bool" where
  "redis_delivers D px \<equiv> delivers_once (px_redis px) (qc_stream_key (px_config px)) (qc_consumer_group (px_config px)) D"

lemma read_command_new: "reads_new (qc_stream_key cfg) (qc_consumer_group cfg) (read_command cfg)"
  unfolding reads_new_def read_command_def
  by (intro exI [of _ "qc_consumer_name cfg"]
    exI [of _ "[''COUNT'', count_arg (qc_read_count cfg), ''BLOCK'', count_arg (qc_block_ms cfg)]"]) simp

lemma ack_delivered: "delivers_once rd (qc_stream_key cfg) (qc_consumer_group cfg) D \<Longrightarrow> D s \<subseteq> D (snd (ack rd cfg i s))"
proof -
  assume "delivers_once rd (qc_stream_key cfg) (qc_consumer_group cfg) D"
  then have "D s \<subseteq> D (snd (rd_int rd [''XACK'', qc_stream_key cfg, qc_consumer_group cfg, i] s))" unfolding delivers_once_def by blast
  then show ?thesis by (auto simp: ack_def connection_def op_bind_apply with_err_def split: prod.splits result.splits)
qed

lemma queue_kept: "preserves (\<lambda>p. I (ps_queue p)) (in_db f m)" "preserves (\<lambda>p. I (ps_queue p)) (in_points m')"
  by (auto simp: preserves_def in_db_def in_points_def split: prod.splits)

lemma process_entry_delivered:
  assumes "redis_delivers D px"
  shows "preserves (\<lambda>p. X \<subseteq> D (ps_queue p)) (process_entry px e)"
proof -
  have "preserves (\<lambda>p. X \<subseteq> D (ps_queue p)) (in_queue (ack (px_redis px) (px_config px) i))" for i
    using ack_delivered [OF assms, of _ i] by (auto simp: preserves_def in_queue_def split: prod.splits) (metis snd_conv subsetD)
  then show ?thesis unfolding process_entry_def store_batch_def Let_def
    by (auto intro!: preserves_intros queue_kept simp: preserves_def [of _ "\<lambda>p. (Ok (), _ p)"] split: if_splits)
qed

lemma process_all_ids: "map fst (fst (process_all px es p)) = map qe_redis_id es"
proof (induction es arbitrary: p)
  case (Cons e es)
  then show ?case by (auto split: prod.splits) (metis fst_conv)
qed simp

lemma decoded_ids: "try_map (decode_entry bc) es = Ok entries \<Longrightarrow> map qe_redis_id entries = map sg_id es"
proof (induction es arbitrary: entries)
  case (Cons e es)
  then show ?case by (auto simp: try_bind_Ok_iff decode_entry_def)
qed simp

text \<open>What a turn of the loop, or several, attempt: new entries, each once.\<close>

definition attempts_once :: "('s \<Rightarrow> string set) \<Rightarrow> ('s, 'c) Processor \<Rightarrow> string list \<Rightarrow> ('s, 'c) Processor \<Rightarrow> bool" where
  "attempts_once D p ids p' \<longleftrightarrow>
     distinct ids \<and> set ids \<inter> D (ps_queue p) = {} \<and> set ids \<union> D (ps_queue p) \<subseteq> D (ps_queue p')"

lemma attempts_once_append: "attempts_once D p a p1 \<Longrightarrow> attempts_once D p1 b p2 \<Longrightarrow> attempts_once D p (a @ b) p2"
  by (auto simp: attempts_once_def)

lemma processor_turn_once:
  assumes "redis_delivers D px" "processor_turn px p = (rs, p')"
  shows "attempts_once D p (map fst rs) p'"
proof -
  obtain r s1 where read: "read_next (px_redis px) (px_codec px) (px_config px) (ps_queue p) = (r, s1)" by fastforce
  note delivers = assms(1) [unfolded delivers_once_def] and new = read_command_new [of "px_config px"]
  have "D (ps_queue p) \<subseteq> D (snd (rd_streams (px_redis px) (read_command (px_config px)) (ps_queue p)))" using delivers new by blast
  then have grows: "D (ps_queue p) \<subseteq> D s1"
    using read by (auto simp: read_next_def connection_def op_bind_apply with_err_def lift_result_def split: prod.splits result.splits)
  show ?thesis
  proof (cases r)
    case (Err e)
    then show ?thesis using assms(2) read grows by (auto simp: processor_turn_def in_queue_def attempts_once_def)
  next
    case (Ok entries)
    then obtain reply where reply: "rd_streams (px_redis px) (read_command (px_config px)) (ps_queue p) = (Ok reply, s1)"
      "try_map (decode_entry (px_codec px)) (concat reply) = Ok entries"
      using read by (auto simp: read_next_def connection_def op_bind_apply with_err_def lift_result_def split: prod.splits result.splits)
    let ?ids = "map sg_id (concat reply)"
    have ids: "distinct ?ids" "set ?ids \<inter> D (ps_queue p) = {}" "set ?ids \<subseteq> D s1"
      using delivers new reply(1) by blast+
    have turn: "process_all px entries (p\<lparr>ps_queue := s1\<rparr>) = (rs, p')"
      using assms(2) read Ok by (simp add: processor_turn_def in_queue_def)
    have "map fst rs = ?ids" using process_all_ids [of px entries "p\<lparr>ps_queue := s1\<rparr>"] decoded_ids [OF reply(2)] turn by simp
    moreover have "D s1 \<subseteq> D (ps_queue p')"
      using process_all_inv [where J = "\<lambda>p. D s1 \<subseteq> D (ps_queue p)", OF process_entry_delivered [OF assms(1)], of "p\<lparr>ps_queue := s1\<rparr>" entries] turn
      by simp
    ultimately show ?thesis using ids grows unfolding attempts_once_def by (metis Un_least subset_trans)
  qed
qed

text \<open>
  C10: the processor attempts an entry at most once. Over any number of turns of its loop, on a Redis that
  delivers as documented, no entry of the stream is handed to the processing twice, nor one that
  was delivered before, so an attempt that failed is not followed by a successful one: what
  the failed attempt had not written when it failed is not written from this entry later, although the
  entry was never acknowledged and the client was told that its batch was accepted.
\<close>

theorem failed_entry_abandoned:
  assumes "list_all (redis_delivers D) pxs" "processor_loop pxs p = (rs, p')"
  shows "distinct (map fst rs) \<and> set (map fst rs) \<inter> D (ps_queue p) = {}
    \<and> (\<forall>i e. (i, Err e) \<in> set rs \<longrightarrow> (i, Ok ()) \<notin> set rs)"
proof -
  have "attempts_once D p (map fst rs) p'" using assms
  proof (induction pxs arbitrary: p rs)
    case (Cons px pxs)
    then obtain rs1 p1 rs2 where "processor_turn px p = (rs1, p1)" "processor_loop pxs p1 = (rs2, p')" "rs = rs1 @ rs2"
      by (auto split: prod.splits)
    with Cons processor_turn_once [of px D p rs1 p1] show ?case by (auto intro: attempts_once_append)
  qed (simp add: attempts_once_def)
  then show ?thesis unfolding attempts_once_def by (metis eq_key_imp_eq_value result.distinct(1))
qed

text \<open>
  One entry that cannot be decoded fails the whole read: Redis has delivered the entries beside it, and
  none of them is processed.
\<close>

lemma undecodable_entry_discards_read:
  assumes "rd_connect (px_redis px) (ps_queue p) = Ok ()" "rd_streams (px_redis px) (read_command (px_config px)) (ps_queue p) = (Ok reply, s1)"
    and "e \<in> set (concat reply)" "\<not> is_ok (decode_entry (px_codec px) e)"
  shows "processor_turn px p = ([], p\<lparr>ps_queue := s1\<rparr>)"
proof -
  have "\<exists>err. try_map (decode_entry (px_codec px)) es = Err err" if "e \<in> set es" for es
    using that assms(4) by (induction es) (auto simp: try_bind_def is_ok_iff split: result.splits)
  with assms(3) obtain err where "try_map (decode_entry (px_codec px)) (concat reply) = Err err" by blast
  with assms(1,2) show ?thesis
    by (simp add: processor_turn_def in_queue_def read_next_def connection_def op_bind_apply with_err_def lift_result_def)
qed

text \<open>
  Without ClickHouse a batch with metrics is stored in part: its metrics are in the database, its tags,
  parameters and events are not, and the batch is not marked.
\<close>

lemma clickhouse_down_partial:
  assumes "qb_run_id b \<in> set (run_ids (ps_db p))" "list_all (\<lambda>m. \<not> is_nan (mr_value m)) (qb_metrics b)" "qb_metrics b \<noteq> []"
    and "\<not> known_batch (qb_batch_id b) (ps_db p)"
    and "insert_batch (px_clickhouse px) (map (ch_point (px_calendar px) b) (qb_metrics b)) (ps_points p) = (Err e, c)"
  shows "\<exists>p'. process_entry px \<lparr>qe_redis_id = i, qe_batch = b\<rparr> p = (Err e, p') \<and> ps_queue p' = ps_queue p
    \<and> t_metrics (ps_db p') = t_metrics (ps_db p) @ map (stored_metric (qb_run_id b)) (qb_metrics b)
    \<and> t_tags (ps_db p') = t_tags (ps_db p) \<and> t_params (ps_db p') = t_params (ps_db p)
    \<and> t_run_events (ps_db p') = t_run_events (ps_db p) \<and> \<not> known_batch (qb_batch_id b) (ps_db p')"
proof -
  have "\<exists>p'. store_batch px b p = (Err e, p') \<and> ps_queue p' = ps_queue p
    \<and> t_metrics (ps_db p') = t_metrics (ps_db p) @ map (stored_metric (qb_run_id b)) (qb_metrics b)
    \<and> t_tags (ps_db p') = t_tags (ps_db p) \<and> t_params (ps_db p') = t_params (ps_db p)
    \<and> t_run_events (ps_db p') = t_run_events (ps_db p) \<and> t_batches (ps_db p') = t_batches (ps_db p)"
    using assms(1-3,5) by (simp add: store_batch_def Let_def op_bind_apply in_db_def insert_metrics_table list_all_iff
      increment_metrics_count_def update_run_def in_points_def)
  then show ?thesis using assms(4) by (auto simp: process_entry_def op_bind_apply batch_known known_batch_def)
qed

section \<open>A sample queue\<close>

text \<open>A stream whose entries are numbered as they are delivered.\<close>

definition numbered :: "nat \<Rightarrow> string list \<Rightarrow> StreamEntry list" where
  "numbered n payloads =
     map (\<lambda>k. \<lparr>sg_id = replicate (n + k) CHR ''x'', sg_map = [''payload'' \<mapsto> Some (payloads ! k)]\<rparr>) [0..<length payloads]"

definition sample_redis :: "(nat \<times> string list) Redis" where
  "sample_redis =
     \<lparr>rd_connect = (\<lambda>_. Ok ()), rd_text = (\<lambda>_ s. (Ok ''1-0'', s)), rd_int = (\<lambda>_ s. (Ok 1, s)), rd_unit = (\<lambda>_ s. (Ok (), s)),
      rd_streams = (\<lambda>_ (n, payloads). (Ok [numbered n payloads], (n + length payloads, [])))\<rparr>"

definition sample_delivered :: "nat \<times> string list \<Rightarrow> string set" where
  "sample_delivered s = (\<lambda>k. replicate k CHR ''x'') ` {..<fst s}"

lemma replicate_eq: "replicate m x = replicate n x \<longleftrightarrow> m = n"
  by (metis length_replicate)

lemma sample_redis_delivers_once: "delivers_once sample_redis key g sample_delivered"
  by (auto simp: delivers_once_def sample_redis_def sample_delivered_def numbered_def distinct_map inj_on_def replicate_eq comp_def)

definition queued_sample :: QueuedIngestBatch where
  "queued_sample =
     \<lparr>qb_project_id = ''p1'', qb_run_id = ''r1'', qb_batch_id = ''b1'', qb_payload_hash = ''h'', qb_seq = 0, qb_queued_at_unix_ms = 0,
      qb_metrics = [\<lparr>mr_name = ''loss'', mr_step = 1, mr_value = 0, mr_timestamp = None\<rparr>], qb_params = [], qb_tags = [(''tags.z'', ''9'')],
      qb_events = [], qb_warnings = [''late'']\<rparr>"

definition sample_px :: "bool \<Rightarrow> (nat \<times> string list, int, int ChPoint list) ProcExt" where
  "sample_px up =
     \<lparr>px_redis = sample_redis,
      px_codec = \<lparr>bc_encode = (\<lambda>_. Some ''q''), bc_decode = (\<lambda>s. if s = ''q'' then Some queued_sample else None)\<rparr>,
      px_config = queue_config_default ''1'',
      px_clickhouse = \<lparr>cl_insert = (\<lambda>_. if up then op_return () else op_fail ''down''), cl_write = (\<lambda>x c. (Ok (), c @ [x])),
        cl_end = op_return ()\<rparr>,
      px_calendar = \<lparr>ca_now = 0, ca_from_nanos = (\<lambda>n. Some n)\<rparr>, px_uuid = (\<lambda>_. None), px_run_tags = (\<lambda>_. None),
      px_now = ''2026-01-03 00:00:00'', px_show = (\<lambda>_. ''sqlite'')\<rparr>"

definition sample_processor :: "(nat \<times> string list, int ChPoint list) Processor" where
  "sample_processor = \<lparr>ps_db = sample_run_db, ps_queue = (0, [''q'', ''?'']), ps_points = [], ps_synced = []\<rparr>"


lemma sample_metrics: "list_all (\<lambda>m. \<not> is_nan (mr_value m)) (qb_metrics queued_sample)"
  by (simp add: queued_sample_def is_nan_def f_bits_def)

lemma sample_run_ids: "run_ids (ps_db sample_processor) = [''r1'']" "t_batches (ps_db sample_processor) = []"
  by code_simp+

lemma sample_rows: "rows_written (px_clickhouse (sample_px True)) xs c (c @ xs)"
proof (induction xs arbitrary: c)
  case (Cons x xs)
  show ?case using Cons.IH [of "c @ [x]"] by (simp add: sample_px_def)
qed simp

lemma sample_clickhouse: "points_taken (px_clickhouse (sample_px True)) xs c (c @ xs)"
  using sample_rows [of xs c] by (simp add: points_taken_def sample_px_def)

lemma sample_ack: "ack (px_redis (sample_px True)) cfg i q = (Ok (), q)"
  by (simp add: ack_def connection_def op_bind_apply sample_px_def sample_redis_def with_err_def)

lemma sample_batch_new:
  "qb_run_id queued_sample \<in> set (run_ids (ps_db sample_processor))"
  "qb_batch_id queued_sample \<notin> set (map ba_id (t_batches (ps_db sample_processor)))"
  using sample_run_ids by (simp_all add: queued_sample_def del: set_map)

theorem processed_is_persisted_witness:
  "\<exists>pb db1 p'. persist_ingest_batch_to_sqlite (sample_ingest None) (px_now (sample_px True)) ''r1'' (qb_metrics queued_sample) [] [(''tags.z'', ''9'')]
        [] [''late''] (ps_db sample_processor) = (Ok pb, db1)
    \<and> process_entry (sample_px True) \<lparr>qe_redis_id = ''1'', qe_batch = queued_sample\<rparr> sample_processor = (Ok (), p')
    \<and> ps_db p' = db1\<lparr>t_batches := t_batches db1 @ [batch_row (px_now (sample_px True)) queued_sample]\<rparr>
    \<and> map ch_name (ps_points p') = [''loss'']"
  using processed_is_persisted [OF sample_batch_new(1) sample_metrics sample_batch_new(2) sample_clickhouse sample_ack, of "sample_ingest None" "''1''"]
  by (auto simp: queued_sample_def ch_point_def sample_processor_def)

theorem processed_once_witness:
  "\<exists>p1. process_entry (sample_px True) \<lparr>qe_redis_id = ''1'', qe_batch = queued_sample\<rparr> sample_processor = (Ok (), p1)
    \<and> ps_db (snd (process_entry (sample_px True) \<lparr>qe_redis_id = ''2'', qe_batch = queued_sample\<lparr>qb_run_id := ''r2''\<rparr>\<rparr> p1)) = ps_db p1"
proof -
  obtain p1 where ok: "process_entry (sample_px True) \<lparr>qe_redis_id = ''1'', qe_batch = queued_sample\<rparr> sample_processor = (Ok (), p1)"
    using process_entry_stores [OF sample_batch_new(1) sample_metrics sample_batch_new(2) sample_clickhouse sample_ack, of undefined "''1''"] by blast
  from processed_once [OF ok, of "\<lparr>qe_redis_id = ''2'', qe_batch = queued_sample\<lparr>qb_run_id := ''r2''\<rparr>\<rparr>" p1 "sample_px True"] ok
  show ?thesis by simp
qed

theorem failed_entry_abandoned_witness:
  "\<exists>rs p'. processor_loop [sample_px False, sample_px True, sample_px True] (sample_processor\<lparr>ps_queue := (0, [''q''])\<rparr>) = (rs, p')
     \<and> rs = [([], Err ''down'')] \<and> ([], Ok ()) \<notin> set rs"
proof -
  let ?p = "sample_processor\<lparr>ps_queue := (1, [])\<rparr>"
  have "insert_batch (px_clickhouse (sample_px False)) (map (ch_point (px_calendar (sample_px False)) queued_sample) (qb_metrics queued_sample))
      (ps_points ?p) = (Err ''down'', ps_points ?p)"
    by (simp add: insert_batch_def sample_px_def op_bind_apply queued_sample_def op_fail_def)
  moreover have "qb_run_id queued_sample \<in> set (run_ids (ps_db ?p))" "qb_metrics queued_sample \<noteq> []"
    "\<not> known_batch (qb_batch_id queued_sample) (ps_db ?p)"
    using sample_batch_new by (simp_all add: queued_sample_def known_batch_def)
  ultimately obtain p1 where p1: "process_entry (sample_px False) \<lparr>qe_redis_id = [], qe_batch = queued_sample\<rparr> ?p = (Err ''down'', p1)"
      "ps_queue p1 = (1, [])"
    using clickhouse_down_partial [of queued_sample ?p "sample_px False"] sample_metrics by auto
  have idle: "processor_turn (sample_px True) p = ([], p)" if "ps_queue p = (1, [])" for p
    using that by (simp add: processor_turn_def in_queue_def read_next_def connection_def op_bind_apply with_err_def lift_result_def
      sample_px_def sample_redis_def numbered_def)
  have "processor_turn (sample_px False) (sample_processor\<lparr>ps_queue := (0, [''q''])\<rparr>) = ([([], Err ''down'')], p1)"
    using p1(1) by (simp add: processor_turn_def in_queue_def read_next_def connection_def op_bind_apply with_err_def lift_result_def
      sample_redis_def numbered_def decode_entry_def sample_px_def)
  then have loop: "processor_loop [sample_px False, sample_px True, sample_px True] (sample_processor\<lparr>ps_queue := (0, [''q''])\<rparr>)
      = ([([], Err ''down'')], p1)" by (simp add: idle p1(2))
  have "list_all (redis_delivers sample_delivered) [sample_px False, sample_px True, sample_px True]"
    using sample_redis_delivers_once by (simp add: sample_px_def)
  from failed_entry_abandoned [OF this loop] loop show ?thesis by simp
qed

end
