(* ===== verification/Session_Handlers.thy ===== *)
theory Session_Handlers
  imports Key_Handlers Ui_Auth
begin

text \<open>
  The sessions of the dashboard (apps/api/src/main.rs: http_ui_auth_login, http_ui_auth_session,
  http_ui_auth_logout with the cookies they set; the types of crates/api-http-types).

  The state is that of the authentication: the key store with its database and the failure limiter.
  Whether a text can be the value of a header is decided by the HTTP library and a parameter.
\<close>

section \<open>The handlers\<close>

definition header_string :: "Request \<Rightarrow> string \<Rightarrow> string option" where
  "header_string rq name = trimmed_nonempty (rq_header rq name)"

definition infer_client_ip :: "env \<Rightarrow> Request \<Rightarrow> string option" where
  "infer_client_ip env rq = extract_client_ip env (rq\<lparr>rq_socket_addr := None\<rparr>)"

definition extract_bearer_token :: "Request \<Rightarrow> string option" where
  "extract_bearer_token rq = trimmed_nonempty (Option.bind (header_string rq ''authorization'') (strip_prefix ''Bearer ''))"

definition build_cookie :: "string \<Rightarrow> string \<Rightarrow> nat \<Rightarrow> bool \<Rightarrow> bool \<Rightarrow> string \<Rightarrow> string option \<Rightarrow> string" where
  "build_cookie name v ttl_seconds http_only secure same_site domain =
     name @ ''='' @ v @ ''; Path=/; Max-Age='' @ show_nat ttl_seconds @ ''; SameSite='' @ same_site
     @ (case domain of Some d \<Rightarrow> ''; Domain='' @ d | None \<Rightarrow> [])
     @ (if http_only then ''; HttpOnly'' else []) @ (if secure then ''; Secure'' else [])"

definition build_clear_cookie :: "string \<Rightarrow> bool \<Rightarrow> string \<Rightarrow> string option \<Rightarrow> string" where
  "build_clear_cookie name secure same_site domain =
     name @ ''=; Path=/; Max-Age=0; Expires=Thu, 01 Jan 1970 00:00:00 GMT; SameSite='' @ same_site
     @ (case domain of Some d \<Rightarrow> ''; Domain='' @ d | None \<Rightarrow> []) @ (if secure then ''; Secure'' else [])"

record UiAuthLoginResponse =
  ul_set_cookie :: "string list"
  ul_status :: string
  ul_user_id :: string
  ul_expires_at :: timestamp
  ul_project_count :: nat

record UiAuthSessionResponse =
  uv_authenticated :: bool
  uv_auth_mode :: string
  uv_scopes :: "string list"
  uv_project_ids :: "string list"
  uv_key_prefix :: string
  uv_is_dev_mode :: bool
  uv_is_platform_admin :: bool
  uv_ui_session_ttl_seconds :: nat
  uv_ui_key_max_ttl_seconds :: nat

record LoginExt =
  lx_ui :: UiExt
  lx_serde :: Serde
  lx_fresh :: UiFresh
  lx_clock :: Clock
  lx_tick :: nat
  lx_header_ok :: "string \<Rightarrow> bool"

definition set_cookies :: "LoginExt \<Rightarrow> string \<Rightarrow> (string \<times> string) list \<Rightarrow> (string list, http_error) result" where
  "set_cookies lx verb cookies =
     try_map (\<lambda>(what, cookie).
       if lx_header_ok lx cookie then Ok cookie
       else Err (INTERNAL_SERVER_ERROR, ''Failed to '' @ verb @ '' '' @ what @ '' cookie: failed to parse header value'')) cookies"

definition login_jwt :: "Request \<Rightarrow> string option \<Rightarrow> string option" where
  "login_jwt rq body_jwt = (case nonblank body_jwt of Some jwt \<Rightarrow> Some jwt | None \<Rightarrow> extract_bearer_token rq)"

definition login_failure :: "LoginExt \<Rightarrow> AuthConfig \<Rightarrow> Request \<Rightarrow> string \<Rightarrow> AuthState \<Rightarrow> AuthState" where
  "login_failure lx ac rq reason =
     record_auth_failure (lx_serde lx) ac (lx_clock lx) (lx_tick lx) (infer_client_ip (ac_env ac) rq) (header_string rq ''user-agent'')
       (rq\<lparr>rq_method := ''POST'', rq_path := ''/api/v1/ui-auth/login''\<rparr>) reason ''ui_auth_login''"

definition login_cookies :: "LoginExt \<Rightarrow> UiJwtConfig \<Rightarrow> UiSessionIssue \<Rightarrow> (string list, http_error) result" where
  "login_cookies lx ui issue =
     set_cookies lx ''set''
       [(''session'', build_cookie (uj_session_cookie_name ui) (is_session_token issue) (uj_session_ttl_seconds ui) True
           (uj_cookie_secure ui) (uj_cookie_same_site ui) (uj_cookie_domain ui)),
        (''csrf'', build_cookie (uj_csrf_cookie_name ui) (is_csrf_token issue) (uj_session_ttl_seconds ui) False
           (uj_cookie_secure ui) (uj_cookie_same_site ui) (uj_cookie_domain ui))]"

text \<open>The store answers that the login is off before it looks for its database.\<close>

definition on_session_store :: "AuthConfig \<Rightarrow> ('a, string) result \<Rightarrow> string \<Rightarrow> 'a ui \<Rightarrow> AuthState \<Rightarrow> ('a, string) result \<times> AuthState" where
  "on_session_store ac when_off missing m st = (if \<not> uj_enabled (ac_ui ac) then (when_off, st) else on_sqlite missing m st)"

definition http_ui_auth_login ::
  "LoginExt \<Rightarrow> AuthConfig \<Rightarrow> Request \<Rightarrow> string option \<Rightarrow> AuthState \<Rightarrow> (UiAuthLoginResponse, http_error) result \<times> AuthState" where
  "http_ui_auth_login lx ac rq body_jwt st =
     (let ip = infer_client_ip (ac_env ac) rq; agent = header_string rq ''user-agent'' in
      case retry_after_seconds (ac_limits ac) (lx_tick lx) (auth_client_key ip) (as_limits st) of
        (Some retry_after, limits) \<Rightarrow>
          (Err (TOO_MANY_REQUESTS, ''Too many failed authentication attempts. Retry in '' @ show_nat retry_after @ ''s.''),
           login_failure lx ac rq ''rate_limited'' (st\<lparr>as_limits := limits\<rparr>))
      | (None, limits) \<Rightarrow>
          (case login_jwt rq body_jwt of
             None \<Rightarrow> (Err (BAD_REQUEST, ''JWT is required (body `jwt` or Authorization: Bearer <token>).''), st\<lparr>as_limits := limits\<rparr>)
           | Some jwt \<Rightarrow>
               (case on_session_store ac (Err ''UI JWT auth is disabled.'') ''SQLite-backed auth store is required for UI JWT auth.''
                       (create_ui_session_from_jwt (lx_ui lx) ac (lx_fresh lx) (lx_clock lx) jwt agent ip) (st\<lparr>as_limits := limits\<rparr>) of
                  (Err e, st1) \<Rightarrow>
                    (Err (UNAUTHORIZED, e),
                     login_failure lx ac rq
                       (if str_contains ''expired'' (to_ascii_lowercase e) then ''expired_ui_jwt'' else ''invalid_ui_jwt'') st1)
                | (Ok issue, st1) \<Rightarrow>
                    (try_bind (login_cookies lx (ac_ui ac) issue) (\<lambda>cookies.
                       Ok \<lparr>ul_set_cookie = cookies, ul_status = ''ok'', ul_user_id = is_user_id issue, ul_expires_at = is_expires_at issue,
                           ul_project_count = length (is_allowed_project_ids issue)\<rparr>),
                     st1\<lparr>as_limits := record_success (ac_limits ac) (lx_tick lx) (auth_client_key ip) (as_limits st1)\<rparr>))))"

definition http_ui_auth_session :: "AuthConfig \<Rightarrow> AuthContext \<Rightarrow> UiAuthSessionResponse" where
  "http_ui_auth_session ac auth =
     \<lparr>uv_authenticated = True,
      uv_auth_mode = (case auth_mode auth of ApiKeyMode \<Rightarrow> ''api_key'' | UiJwt \<Rightarrow> ''ui_session''),
      uv_scopes = k_scopes (api_key auth),
      uv_project_ids = (case allowed_project_ids auth of Some ids \<Rightarrow> sorted_list_of_set ids | None \<Rightarrow> []),
      uv_key_prefix = k_key_prefix (api_key auth), uv_is_dev_mode = is_dev_mode auth, uv_is_platform_admin = is_platform_admin auth,
      uv_ui_session_ttl_seconds = uj_session_ttl_seconds (ac_ui ac), uv_ui_key_max_ttl_seconds = ui_key_max_ttl_seconds (ac_env ac)\<rparr>"

definition http_ui_auth_logout ::
  "LoginExt \<Rightarrow> AuthConfig \<Rightarrow> Request \<Rightarrow> AuthState \<Rightarrow> (string list, http_error) result \<times> AuthState" where
  "http_ui_auth_logout lx ac rq st =
     (let ui = ac_ui ac;
          clear = set_cookies lx ''clear''
            [(''session'', build_clear_cookie (uj_session_cookie_name ui) (uj_cookie_secure ui) (uj_cookie_same_site ui) (uj_cookie_domain ui)),
             (''csrf'', build_clear_cookie (uj_csrf_cookie_name ui) (uj_cookie_secure ui) (uj_cookie_same_site ui) (uj_cookie_domain ui))] in
      case extract_cookie rq (uj_session_cookie_name ui) of
        None \<Rightarrow> (clear, st)
      | Some token \<Rightarrow>
          (case on_session_store ac (Ok ()) ''SQLite-backed auth store is required for UI session auth.''
                  (revoke_ui_session (lx_ui lx) ac (lx_clock lx) token (header_string rq ''x-csrf-token'')) st of
             (Err e, st1) \<Rightarrow> (Err (if str_contains ''CSRF'' e then FORBIDDEN else UNAUTHORIZED, e), st1)
           | (Ok _, st1) \<Rightarrow> (clear, st1)))"

section \<open>What a login and a logout do\<close>

lemma resolve_memberships_settled:
  assumes "active_memberships uid db \<noteq> {}"
  shows "resolve_memberships_for_user ux ui fr now uid email name db
    = (Ok (sorted_list_of_set (member_scopes uid db), member_projects uid db), db)"
proof -
  obtain ms db' where l: "list_active_project_memberships uid db = (Ok ms, db')"
    by (simp add: list_active_project_memberships_def)
  note set = list_active_project_memberships_set [OF l]
  from set(2) assms have "ms \<noteq> []" by auto
  then show ?thesis
    using set(1) l derived_from_active [OF l]
    by (simp add: resolve_memberships_for_user_def op_bind_apply with_err_def)
qed

lemma resolve_memberships_nonempty:
  assumes "resolve_memberships_for_user ux ui fr now uid email name db = (Ok (scopes, allowed), db')"
  shows "active_memberships uid db' \<noteq> {}"
proof -
  from assms obtain d ms where "list_active_project_memberships uid d = (Ok ms, db')" "ms \<noteq> []"
    by (auto simp: resolve_memberships_for_user_def ui_Ok_iff split_beta Let_def split: if_splits
      dest: list_active_project_memberships_set(1))
  from list_active_project_memberships_set [OF this(1)] this(2) show ?thesis by auto
qed

lemma insert_auth_session_Ok:
  assumes "insert_auth_session now sid uid th ch expires agent ip db = (Ok (), db')"
  shows "th \<notin> se_token_hash ` set (t_sessions db)
    \<and> db' = db\<lparr>t_sessions := t_sessions db @ [\<lparr>se_id = sid, se_user_id = uid, se_token_hash = th, se_csrf_hash = ch,
        se_created_at = now, se_updated_at = now, se_last_seen_at = None, se_expires_at = expires, se_revoked_at = None,
        se_user_agent = agent, se_client_ip = ip\<rparr>]\<rparr>"
  using assms by (auto simp: insert_auth_session_def op_stmt_apply first_violation_None split: option.splits)

lemma create_ui_session_Ok:
  assumes "create_ui_session_from_jwt ux ac fr ck jwt agent ip db = (Ok issue, db')"
  obtains claims session where
    "decode_ui_jwt_claims ux (ac_ui ac) jwt = Ok claims"
    "identified (uj_provider (ac_ui ac)) (claims_subject claims) (is_user_id issue) db'"
    "t_sessions db' = t_sessions db @ [session]" "se_user_id session = is_user_id issue" "se_revoked_at session = None"
    "se_token_hash session = hash_with_hmac ux ac (fr_session_token fr)"
    "se_csrf_hash session = hash_with_hmac ux ac (fr_csrf_token fr)" "se_expires_at session = is_expires_at issue"
    "hash_with_hmac ux ac (fr_session_token fr) \<notin> se_token_hash ` set (t_sessions db)"
    "active_memberships (is_user_id issue) db' \<noteq> {}"
    "is_allowed_project_ids issue = sorted_list_of_set (member_projects (is_user_id issue) db')"
    "is_session_token issue = fr_session_token fr" "is_csrf_token issue = fr_csrf_token fr"
proof -
  from assms obtain claims uid scopes allowed db1 db2 where
    c: "decode_ui_jwt_claims ux (ac_ui ac) jwt = Ok claims"
    and u: "get_or_create_user_identity (fr_user fr) (ck_db_now ck) (uj_provider (ac_ui ac)) (claims_subject claims)
        (jc_email claims) (jc_name claims) db = (Ok uid, db1)"
    and m: "resolve_memberships_for_user ux (ac_ui ac) fr (ck_db_now ck) uid (jc_email claims) (jc_name claims) db1
        = (Ok (scopes, allowed), db2)"
    and i: "\<exists>expires. insert_auth_session (ck_db_now ck) (fr_session fr) uid (hash_with_hmac ux ac (fr_session_token fr))
        (hash_with_hmac ux ac (fr_csrf_token fr)) expires agent ip (snd (sync_platform_admin_flag uid (ac_admin_email ac) db2))
        = (Ok (), db')
      \<and> issue = \<lparr>is_session_token = fr_session_token fr, is_csrf_token = fr_csrf_token fr, is_expires_at = expires,
           is_user_id = uid, is_allowed_project_ids = sorted_list_of_set allowed\<rparr>"
    by (force simp: create_ui_session_from_jwt_def resolve_ui_identity_from_jwt_def ui_Ok_iff Let_def split: if_splits prod.splits)
  let ?db3 = "snd (sync_platform_admin_flag uid (ac_admin_email ac) db2)"
  have flag: "sync_platform_admin_flag uid (ac_admin_email ac) db2 = (fst (sync_platform_admin_flag uid (ac_admin_email ac) db2), ?db3)"
    by simp
  note mem = resolve_memberships_sound [OF m] resolve_memberships_nonempty [OF m]
  have id2: "identified (uj_provider (ac_ui ac)) (claims_subject claims) uid db2" "t_sessions db2 = t_sessions db"
    using get_or_create_user_identity_identified [OF u] mem(1) by (simp_all add: identified_def same_accounts_def)
  note id3 = sync_platform_admin_flag_identified [OF flag id2(1)]
  have mem3: "t_memberships ?db3 = t_memberships db2" by (rule sync_platform_admin_flag_memberships [OF flag])
  from i obtain expires where
    ins: "insert_auth_session (ck_db_now ck) (fr_session fr) uid (hash_with_hmac ux ac (fr_session_token fr))
        (hash_with_hmac ux ac (fr_csrf_token fr)) expires agent ip ?db3 = (Ok (), db')"
    and issue: "issue = \<lparr>is_session_token = fr_session_token fr, is_csrf_token = fr_csrf_token fr, is_expires_at = expires,
           is_user_id = uid, is_allowed_project_ids = sorted_list_of_set allowed\<rparr>" by blast
  note row = insert_auth_session_Ok [OF ins]
  have mem': "t_memberships db' = t_memberships db2" using row mem3 by simp
  show ?thesis
    by (rule that [OF c, where session = "last (t_sessions db')"])
       (use row id2 id3 mem memberships_only [OF mem', of uid] mem' in
          \<open>simp_all add: issue identified_def active_memberships_def\<close>)
qed

lemma lookup_new_session:
  assumes "t_sessions db = older @ [session]" "se_revoked_at session = None" "now < se_expires_at session"
    and "se_token_hash session = hash_with_hmac ux ac token" "hash_with_hmac ux ac token \<notin> se_token_hash ` set older"
  shows "lookup_session ux ac now token db = (Ok (Some (session, hash_with_hmac ux ac token)), db)"
proof -
  have "find (\<lambda>s. se_token_hash s = hash_with_hmac ux ac token \<and> se_revoked_at s = None \<and> now < se_expires_at s) older = None"
    using assms(5) by (force simp: find_None_iff)
  then have "find (\<lambda>s. se_token_hash s = hash_with_hmac ux ac token \<and> se_revoked_at s = None \<and> now < se_expires_at s)
      (t_sessions db) = Some session"
    using assms(1-4) by (simp add: find_append)
  then show ?thesis
    by (simp add: lookup_session_def Let_def op_bind_apply with_err_def get_active_auth_session_by_token_hash_def)
qed

lemma authenticate_found_session:
  assumes "uj_enabled (ac_ui ac)" "lookup_session ux ac (ck_db_now ck) token db = (Ok (Some (session, h)), db)"
    and "active_memberships (se_user_id session) db \<noteq> {}"
    and "require_csrf \<Longrightarrow> check_csrf ux ac ''Missing CSRF token for mutating request.'' csrf session = Ok ()"
  obtains k admin db' where
    "authenticate_ui_session ux ac fr ck token csrf require_csrf db = (Ok (k, member_projects (se_user_id session) db, admin), db')"
    "k_created_by_user_id k = Some (se_user_id session)"
    "k_scopes k = sorted_list_of_set (member_scopes (se_user_id session) db)"
proof -
  have csrf: "(if require_csrf then check_csrf ux ac ''Missing CSRF token for mutating request.'' csrf session else Ok ()) = Ok ()"
    using assms(4) by simp
  have "\<exists>admin db'. authenticate_ui_session ux ac fr ck token csrf require_csrf db =
      (Ok (build_ui_auth_api_key (ck_now ck)
        \<lparr>ri_user_id = se_user_id session, ri_user_name = None, ri_allowed_project_ids = member_projects (se_user_id session) db,
         ri_scopes = sorted_list_of_set (member_scopes (se_user_id session) db), ri_is_platform_admin = admin\<rparr> ''session'',
       member_projects (se_user_id session) db, admin), db')"
    unfolding authenticate_ui_session_def if_not_P [OF assms(1) [THEN not_not [THEN iffD2]]]
    by (simp add: ui_Ok_iff assms(2) csrf resolve_memberships_settled [OF assms(3)])
  then show ?thesis by (elim exE) (rule that, assumption, simp_all add: build_ui_auth_api_key_def)
qed

lemma login_Ok:
  assumes "http_ui_auth_login lx ac rq body_jwt st = (Ok resp, st')"
  obtains jwt agent ip issue db db' where
    "login_jwt rq body_jwt = Some jwt" "uj_enabled (ac_ui ac)" "ks_db (as_store st) = Some db" "ks_db (as_store st') = Some db'"
    "create_ui_session_from_jwt (lx_ui lx) ac (lx_fresh lx) (lx_clock lx) jwt agent ip db = (Ok issue, db')"
    "login_cookies lx (ac_ui ac) issue = Ok (ul_set_cookie resp)" "ul_user_id resp = is_user_id issue"
    "ul_expires_at resp = is_expires_at issue" "ul_project_count resp = length (is_allowed_project_ids issue)"
  using assms
  by (auto simp: http_ui_auth_login_def Let_def on_session_store_def on_sqlite_def try_bind_Ok_iff
    split: prod.splits option.splits result.splits if_splits)

text \<open>The session issued for a token authenticates until it expires.\<close>

lemma issued_session_opens:
  assumes "create_ui_session_from_jwt ux ac issued now jwt agent ip db = (Ok issue, db')" "uj_enabled (ac_ui ac)"
    and "ck_db_now ck < is_expires_at issue" "require_csrf \<longrightarrow> trimmed_nonempty csrf = Some (fr_csrf_token issued)"
  shows "\<exists>k admin. fst (authenticate_ui_session ux ac fr ck (fr_session_token issued) csrf require_csrf db')
      = Ok (k, member_projects (is_user_id issue) db', admin)
    \<and> k_created_by_user_id k = Some (is_user_id issue)
    \<and> k_scopes k = sorted_list_of_set (member_scopes (is_user_id issue) db')"
proof -
  from assms(1) obtain session where s:
    "t_sessions db' = t_sessions db @ [session]" "se_user_id session = is_user_id issue" "se_revoked_at session = None"
    "se_token_hash session = hash_with_hmac ux ac (fr_session_token issued)"
    "se_csrf_hash session = hash_with_hmac ux ac (fr_csrf_token issued)" "se_expires_at session = is_expires_at issue"
    "hash_with_hmac ux ac (fr_session_token issued) \<notin> se_token_hash ` set (t_sessions db)"
    "active_memberships (is_user_id issue) db' \<noteq> {}"
    by (rule create_ui_session_Ok) blast
  have l: "lookup_session ux ac (ck_db_now ck) (fr_session_token issued) db'
      = (Ok (Some (session, hash_with_hmac ux ac (fr_session_token issued))), db')"
    by (rule lookup_new_session [OF s(1,3) _ s(4,7)]) (use assms(3) s(6) in simp)
  have csrf: "check_csrf ux ac ''Missing CSRF token for mutating request.'' csrf session = Ok ()" if require_csrf
    using that assms(4) s(5) by (simp add: check_csrf_Ok csrf_matches_def)
  show ?thesis
    by (rule authenticate_found_session [OF assms(2) l _ csrf, where fr = fr]) (use s(2,8) in auto)
qed

lemma login_cookies_Ok:
  assumes "login_cookies lx ui issue = Ok cookies"
  shows "cookies =
    [build_cookie (uj_session_cookie_name ui) (is_session_token issue) (uj_session_ttl_seconds ui) True
       (uj_cookie_secure ui) (uj_cookie_same_site ui) (uj_cookie_domain ui),
     build_cookie (uj_csrf_cookie_name ui) (is_csrf_token issue) (uj_session_ttl_seconds ui) False
       (uj_cookie_secure ui) (uj_cookie_same_site ui) (uj_cookie_domain ui)]"
  using assms by (auto simp: login_cookies_def set_cookies_def try_bind_Ok_iff split: if_splits)

text \<open>
  C18: a login opens a session for the user of the verified token. A login that succeeds carried a
  token the verifier accepted; the user of the session is the account of the configured provider
  and the token's subject; the cookies set are the session cookie, hidden from scripts, and the
  CSRF cookie, with the tokens drawn for this login. Until the session expires, the session token
  authenticates, for reading always and for writing together with the CSRF token, as that user
  with exactly the projects and the scopes of the active memberships; the response counts them.
\<close>

theorem login_opens_session:
  assumes "http_ui_auth_login lx ac rq body_jwt st = (Ok resp, st')"
  shows "\<exists>jwt claims db'. login_jwt rq body_jwt = Some jwt
    \<and> decode_ui_jwt_claims (lx_ui lx) (ac_ui ac) jwt = Ok claims
    \<and> ks_db (as_store st') = Some db'
    \<and> identified (uj_provider (ac_ui ac)) (claims_subject claims) (ul_user_id resp) db'
    \<and> ul_project_count resp = card (member_projects (ul_user_id resp) db')
    \<and> ul_set_cookie resp =
        [build_cookie (uj_session_cookie_name (ac_ui ac)) (fr_session_token (lx_fresh lx)) (uj_session_ttl_seconds (ac_ui ac)) True
           (uj_cookie_secure (ac_ui ac)) (uj_cookie_same_site (ac_ui ac)) (uj_cookie_domain (ac_ui ac)),
         build_cookie (uj_csrf_cookie_name (ac_ui ac)) (fr_csrf_token (lx_fresh lx)) (uj_session_ttl_seconds (ac_ui ac)) False
           (uj_cookie_secure (ac_ui ac)) (uj_cookie_same_site (ac_ui ac)) (uj_cookie_domain (ac_ui ac))]
    \<and> (\<forall>fr ck csrf require_csrf. ck_db_now ck < ul_expires_at resp
        \<and> (require_csrf \<longrightarrow> trimmed_nonempty csrf = Some (fr_csrf_token (lx_fresh lx))) \<longrightarrow>
        (\<exists>k admin. fst (authenticate_ui_session (lx_ui lx) ac fr ck (fr_session_token (lx_fresh lx)) csrf require_csrf db')
             = Ok (k, member_projects (ul_user_id resp) db', admin)
           \<and> k_created_by_user_id k = Some (ul_user_id resp)
           \<and> k_scopes k = sorted_list_of_set (member_scopes (ul_user_id resp) db')))"
proof -
  from assms obtain jwt agent ip issue db db' where
    jwt: "login_jwt rq body_jwt = Some jwt" and on: "uj_enabled (ac_ui ac)" and db': "ks_db (as_store st') = Some db'"
    and c: "create_ui_session_from_jwt (lx_ui lx) ac (lx_fresh lx) (lx_clock lx) jwt agent ip db = (Ok issue, db')"
    and cookies: "login_cookies lx (ac_ui ac) issue = Ok (ul_set_cookie resp)"
    and resp: "ul_user_id resp = is_user_id issue" "ul_expires_at resp = is_expires_at issue"
      "ul_project_count resp = length (is_allowed_project_ids issue)"
    by (rule login_Ok)
  from c obtain claims where s: "decode_ui_jwt_claims (lx_ui lx) (ac_ui ac) jwt = Ok claims"
    "identified (uj_provider (ac_ui ac)) (claims_subject claims) (is_user_id issue) db'"
    "is_allowed_project_ids issue = sorted_list_of_set (member_projects (is_user_id issue) db')"
    "is_session_token issue = fr_session_token (lx_fresh lx)" "is_csrf_token issue = fr_csrf_token (lx_fresh lx)"
    by (rule create_ui_session_Ok) blast
  show ?thesis
    using issued_session_opens [OF c on] login_cookies_Ok [OF cookies] jwt s db' resp by simp
qed

lemma revoke_by_token_table:
  "revoke_auth_session_by_token_hash now th db =
     (Ok (0 < count_where (session_by_token.live th) (t_sessions db)),
      db\<lparr>t_sessions := session_by_token.revoke now th (t_sessions db)\<rparr>)"
  unfolding revoke_auth_session_by_token_hash_def revoke_sessions_where_def session_by_token.revoke_def
    session_by_token.live_def [abs_def] by (simp add: op_bind_apply)

text \<open>
  The sessions that are live under a hash. A session is stored under the keyed hash of its token, one of
  an earlier release under the plain hash; a logout is for the keyed one where it is live, else
  for the plain one where that is live.
\<close>

definition live_under :: "timestamp \<Rightarrow> string \<Rightarrow> Db \<Rightarrow> SessionRec set" where
  "live_under now th db = {s \<in> set (t_sessions db). se_token_hash s = th \<and> se_revoked_at s = None \<and> now < se_expires_at s}"

definition session_hash :: "UiExt \<Rightarrow> AuthConfig \<Rightarrow> timestamp \<Rightarrow> string \<Rightarrow> Db \<Rightarrow> string" where
  "session_hash ux ac now token db =
     (if live_under now (hash_with_hmac ux ac token) db = {} \<and> live_under now (hash_api_key (ux_key ux) token) db \<noteq> {}
      then hash_api_key (ux_key ux) token else hash_with_hmac ux ac token)"

lemma lookup_session_resolved:
  assumes "lookup_session ux ac now token db = (Ok found, db')"
  shows "case found of Some (session, h) \<Rightarrow> h = session_hash ux ac now token db \<and> session \<in> live_under now h db
    | None \<Rightarrow> live_under now (hash_with_hmac ux ac token) db = {} \<and> live_under now (hash_api_key (ux_key ux) token) db = {}"
proof -
  let ?find = "\<lambda>th. find (\<lambda>s. se_token_hash s = th \<and> se_revoked_at s = None \<and> now < se_expires_at s) (t_sessions db)"
  have none: "?find th = None \<longleftrightarrow> live_under now th db = {}" for th by (auto simp: find_None_iff live_under_def)
  have some: "?find th = Some s \<Longrightarrow> s \<in> live_under now th db" for th s by (auto simp: live_under_def dest!: find_SomeD)
  let ?keyed = "hash_with_hmac ux ac token" and ?plain = "hash_api_key (ux_key ux) token"
  from assms have "found = (case ?find ?keyed of Some s \<Rightarrow> Some (s, ?keyed) | None \<Rightarrow> map_option (\<lambda>s. (s, ?plain)) (?find ?plain))"
    by (auto simp: lookup_session_def Let_def ui_Ok_iff get_active_auth_session_by_token_hash_def split: option.splits)
  then show ?thesis
    using none [of ?keyed] none [of ?plain] some [of ?keyed] some [of ?plain]
    by (cases "?find ?keyed"; cases "?find ?plain") (auto simp: session_hash_def simp del: find_None_iff)
qed

lemma revoke_ui_session_Ok:
  assumes "revoke_ui_session ux ac ck token csrf db = (Ok (), db')" "uj_enabled (ac_ui ac)"
  defines "th \<equiv> session_hash ux ac (ck_db_now ck) token db"
  shows "db' = db\<lparr>t_sessions := session_by_token.revoke (ck_db_now ck) th (t_sessions db)\<rparr>"
    and "live_under (ck_db_now ck) th db \<noteq> {} \<Longrightarrow>
      \<exists>session \<in> live_under (ck_db_now ck) th db. \<exists>provided. trimmed_nonempty csrf = Some provided \<and> csrf_matches ux ac provided session"
proof -
  from assms(1,2) obtain found h where l: "lookup_session ux ac (ck_db_now ck) token db = (Ok found, db)"
    and h: "(case found of Some (session, resolved_hash) \<Rightarrow>
          try_bind (check_csrf ux ac ''Missing CSRF token.'' csrf session) (\<lambda>_. Ok resolved_hash)
        | None \<Rightarrow> Ok (hash_with_hmac ux ac token)) = Ok h"
    and db': "db' = db\<lparr>t_sessions := session_by_token.revoke (ck_db_now ck) h (t_sessions db)\<rparr>"
    by (fastforce simp: revoke_ui_session_def ui_Ok_iff revoke_by_token_table dest: lookup_session_db)
  note found = lookup_session_resolved [OF l]
  have th: "h = th"
  proof (cases found)
    case None
    with found h show ?thesis by (simp add: th_def session_hash_def)
  next
    case (Some p)
    with found h show ?thesis by (auto simp: th_def try_bind_Ok_iff split: prod.splits)
  qed
  with db' show "db' = db\<lparr>t_sessions := session_by_token.revoke (ck_db_now ck) th (t_sessions db)\<rparr>" by simp
  assume "live_under (ck_db_now ck) th db \<noteq> {}"
  with found obtain session where "found = Some (session, th)" "session \<in> live_under (ck_db_now ck) th db"
    by (auto simp: th_def session_hash_def split: option.splits if_splits)
  with h show "\<exists>session \<in> live_under (ck_db_now ck) th db.
      \<exists>provided. trimmed_nonempty csrf = Some provided \<and> csrf_matches ux ac provided session"
    by (auto simp: try_bind_Ok_iff check_csrf_Ok)
qed

lemma session_ended:
  assumes "db' = db\<lparr>t_sessions := session_by_token.revoke now (session_hash ux ac now token db) (t_sessions db)\<rparr>"
    and "live_under now (hash_with_hmac ux ac token) db = {} \<or> live_under now (hash_api_key (ux_key ux) token) db = {}"
    and "now \<le> ck_db_now ck"
  shows "\<not> is_ok (fst (authenticate_ui_session ux ac fr ck token csrf require_csrf db'))"
proof
  let ?a = "authenticate_ui_session ux ac fr ck token csrf require_csrf db'" and ?th = "session_hash ux ac now token db"
  assume "is_ok (fst ?a)"
  then obtain out where "?a = (Ok out, snd ?a)" by (auto simp: is_ok_iff prod_eq_iff)
  then obtain s where s: "s \<in> set (t_sessions db')" "se_revoked_at s = None" "ck_db_now ck < se_expires_at s"
      "se_token_hash s \<in> {hash_with_hmac ux ac token, hash_api_key (ux_key ux) token}"
    by (rule authenticate_ui_session_sound) blast
  from s(1) assms(1) have new: "s \<in> set (session_by_token.revoke now ?th (t_sessions db))" by simp
  have "s \<in> live_under now (se_token_hash s) db" "se_token_hash s \<noteq> ?th"
    using session_by_token.revoke_kills [OF new] session_by_token.revoke_monotone [OF new s(2)] s(2,3) assms(3)
    by (auto simp: live_under_def)
  with s(4) assms(2) show False by (auto simp: session_hash_def split: if_splits)
qed

text \<open>
  C19: a logout ends the session of its cookie. The session is the one live under the keyed hash
  of the token, or, as an earlier release stored it, under the plain hash. After the logout no
  session under that hash is live, and the sessions under every other hash are as they were; a
  session that was live was ended only because the request carried the CSRF token issued with
  it. Unless sessions were live under both hashes, of which only the first is ended, the token
  authenticates no request from then on, whatever CSRF token comes with it.
\<close>

theorem logout_ends_session:
  assumes "http_ui_auth_logout lx ac rq st = (Ok cookies, st')"
    and "uj_enabled (ac_ui ac)" "extract_cookie rq (uj_session_cookie_name (ac_ui ac)) = Some token"
    and "ks_db (as_store st) = Some db"
  defines "now \<equiv> ck_db_now (lx_clock lx)" and "keyed \<equiv> hash_with_hmac (lx_ui lx) ac token"
    and "plain \<equiv> hash_api_key (ux_key (lx_ui lx)) token" and "th \<equiv> session_hash (lx_ui lx) ac (ck_db_now (lx_clock lx)) token db"
  shows "\<exists>db'. ks_db (as_store st') = Some db'
    \<and> (\<forall>s \<in> set (t_sessions db'). se_token_hash s = th \<longrightarrow> se_revoked_at s \<noteq> None)
    \<and> filter (\<lambda>s. se_token_hash s \<noteq> th) (t_sessions db') = filter (\<lambda>s. se_token_hash s \<noteq> th) (t_sessions db)
    \<and> (live_under now th db \<noteq> {} \<longrightarrow>
          (\<exists>session \<in> live_under now th db. \<exists>provided. header_string rq ''x-csrf-token'' = Some provided
             \<and> csrf_matches (lx_ui lx) ac (trim provided) session))
    \<and> (live_under now keyed db = {} \<or> live_under now plain db = {} \<longrightarrow>
          (\<forall>fr ck csrf require_csrf. now \<le> ck_db_now ck \<longrightarrow>
             \<not> is_ok (fst (authenticate_ui_session (lx_ui lx) ac fr ck token csrf require_csrf db'))))"
proof -
  from assms(1-4) obtain db' where db': "ks_db (as_store st') = Some db'"
    and r: "revoke_ui_session (lx_ui lx) ac (lx_clock lx) token (header_string rq ''x-csrf-token'') db = (Ok (), db')"
    by (auto simp: http_ui_auth_logout_def Let_def on_session_store_def on_sqlite_def split: prod.splits result.splits)
  note revoked = revoke_ui_session_Ok [OF r assms(2), folded th_def now_def]
  have tables: "t_sessions db' = session_by_token.revoke now th (t_sessions db)" using revoked(1) by simp
  have "\<exists>session \<in> live_under now th db. \<exists>provided. header_string rq ''x-csrf-token'' = Some provided
      \<and> csrf_matches (lx_ui lx) ac (trim provided) session" if "live_under now th db \<noteq> {}"
    using revoked(2) [OF that] by (fastforce simp: trimmed_nonempty_def split: option.splits if_splits)
  then show ?thesis
    using db' session_ended [where db = db and now = now and ux = "lx_ui lx" and ac = ac and token = token] revoked(1)
    by (intro exI [of _ db'])
      (auto simp: tables th_def now_def keyed_def plain_def session_by_token.revoke_others dest: session_by_token.revoke_kills)
qed

section \<open>A concrete login and logout\<close>

text \<open>
  A verifier that accepts one token; sessions that last until the end of 2026. The user of the
  token is the user \<open>u1\<close> of the sample database.
\<close>

definition login_ux :: UiExt where
  "login_ux = sample_ux\<lparr>ux_key := sample_ext\<lparr>format_datetime := (\<lambda>_. ''2026-12-31 00:00:00'')\<rparr>,
     jw_decode := (\<lambda>_ _ _ _ token. if token = ''good'' then Ok \<lparr>jc_sub = Some ''sub-1'', jc_user_id = None, jc_email = None, jc_name = None\<rparr>
       else Err ''ExpiredSignature'')\<rparr>"

definition login_sample :: LoginExt where
  "login_sample = \<lparr>lx_ui = login_ux, lx_serde = sample_serde, lx_fresh = sample_fresh, lx_clock = sample_now, lx_tick = 7,
     lx_header_ok = (\<lambda>_. True)\<rparr>"

definition login_request :: Request where
  "login_request = sample_post\<lparr>rq_header := (\<lambda>n. if n = ''authorization'' then Some ''Bearer good'' else None)\<rparr>"

definition sample_login :: "(UiAuthLoginResponse, http_error) result \<times> AuthState" where
  "sample_login = http_ui_auth_login login_sample sample_ac login_request None sample_auth_state"

definition logout_request :: Request where
  "logout_request = sample_post\<lparr>rq_header := (\<lambda>n. if n = ''cookie'' then Some ''sid=tok9''
     else if n = ''x-csrf-token'' then Some ''csrf9'' else None)\<rparr>"

definition sample_logout :: "(string list, http_error) result \<times> AuthState" where
  "sample_logout = http_ui_auth_logout login_sample sample_ac logout_request (snd sample_login)"

lemma sample_session_facts:
  "case sample_login of (r, st) \<Rightarrow>
     (case r of Err _ \<Rightarrow> False
      | Ok resp \<Rightarrow> ul_user_id resp = ''u1'' \<and> ul_project_count resp = 2 \<and> ck_db_now sample_now < ul_expires_at resp)
   \<and> (case ks_db (as_store st) of None \<Rightarrow> False
      | Some db \<Rightarrow> list_all (\<lambda>s. se_token_hash s \<noteq> hash_api_key (ux_key login_ux) ''tok9'') (t_sessions db)
          \<and> is_ok (fst (authenticate_ui_session login_ux sample_ac sample_fresh sample_now ''tok9'' (Some ''csrf9'') True db))
          \<and> is_ok (fst (http_ui_auth_logout login_sample sample_ac logout_request st)))"
  by code_simp

lemma sample_session:
  obtains resp db cookies where "sample_login = (Ok resp, snd sample_login)" "ul_user_id resp = ''u1''" "ul_project_count resp = 2"
    "ck_db_now sample_now < ul_expires_at resp" "ks_db (as_store (snd sample_login)) = Some db"
    "list_all (\<lambda>s. se_token_hash s \<noteq> hash_api_key (ux_key login_ux) ''tok9'') (t_sessions db)"
    "is_ok (fst (authenticate_ui_session login_ux sample_ac sample_fresh sample_now ''tok9'' (Some ''csrf9'') True db))"
    "sample_logout = (Ok cookies, snd sample_logout)"
  using sample_session_facts that
  by (cases sample_login) (auto simp: sample_logout_def is_ok_iff prod_eq_iff split: result.splits option.splits)

theorem login_opens_session_witness:
  "\<exists>resp db'. fst sample_login = Ok resp \<and> ul_user_id resp = ''u1'' \<and> ul_project_count resp = 2
   \<and> ks_db (as_store (snd sample_login)) = Some db'
   \<and> (\<exists>k admin. fst (authenticate_ui_session login_ux sample_ac sample_fresh sample_now ''tok9'' (Some ''csrf9'') True db')
        = Ok (k, member_projects ''u1'' db', admin))"
proof -
  obtain resp where login: "sample_login = (Ok resp, snd sample_login)"
    and resp: "ul_user_id resp = ''u1''" "ul_project_count resp = 2" "ck_db_now sample_now < ul_expires_at resp"
    by (rule sample_session)
  have csrf: "trimmed_nonempty (Some ''csrf9'') = Some (fr_csrf_token (lx_fresh login_sample))" by code_simp
  have tok: "lx_ui login_sample = login_ux" "fr_session_token (lx_fresh login_sample) = ''tok9''"
    by (simp_all add: login_sample_def sample_fresh_def)
  from login_opens_session [OF login [unfolded sample_login_def]] obtain db' where
    "ks_db (as_store (snd sample_login)) = Some db'"
    "\<exists>k admin. fst (authenticate_ui_session login_ux sample_ac sample_fresh sample_now ''tok9'' (Some ''csrf9'') True db')
        = Ok (k, member_projects ''u1'' db', admin)"
    using resp csrf unfolding tok sample_login_def by metis
  then show ?thesis using login resp by (metis fst_conv)
qed

theorem logout_ends_session_witness:
  "\<exists>db'. ks_db (as_store (snd sample_logout)) = Some db'
   \<and> \<not> is_ok (fst (authenticate_ui_session login_ux sample_ac sample_fresh sample_now ''tok9'' (Some ''csrf9'') True db'))
   \<and> is_ok (fst (authenticate_ui_session login_ux sample_ac sample_fresh sample_now ''tok9'' (Some ''csrf9'') True
        (the (ks_db (as_store (snd sample_login))))))"
proof -
  obtain db cookies where db: "ks_db (as_store (snd sample_login)) = Some db"
    and plain: "list_all (\<lambda>s. se_token_hash s \<noteq> hash_api_key (ux_key login_ux) ''tok9'') (t_sessions db)"
    and before: "is_ok (fst (authenticate_ui_session login_ux sample_ac sample_fresh sample_now ''tok9'' (Some ''csrf9'') True db))"
    and out: "sample_logout = (Ok cookies, snd sample_logout)"
    by (rule sample_session)
  have on: "uj_enabled (ac_ui sample_ac)" by code_simp
  have cookie: "extract_cookie logout_request (uj_session_cookie_name (ac_ui sample_ac)) = Some ''tok9''" by code_simp
  have ui: "lx_ui login_sample = login_ux" by (simp add: login_sample_def)
  have none: "live_under now (hash_api_key (ux_key login_ux) ''tok9'') db = {}" for now
    using plain by (auto simp: live_under_def list_all_iff)
  have now: "ck_db_now (lx_clock login_sample) = ck_db_now sample_now" by (simp add: login_sample_def)
  from logout_ends_session [OF out [unfolded sample_logout_def] on cookie db] none before show ?thesis
    by (auto simp: ui db sample_logout_def now)
qed

end
