(* ===== verification/Server.thy ===== *)
theory Server
  imports Session_Handlers Share_Handlers Queue_Processor Http_Limiter
begin

text \<open>
  The server (apps/api/src/main.rs): the checks at startup (parse_allowed_origins,
  validate_runtime_security_configuration, main), the routes (build_http_router) and what happens
  to a request before a handler sees it.

  Parameters: the parser of URIs and of header values (http), the opening of a Redis client, the
  matcher of axum, which answers which route of the table a request takes. The layers for
  compression, decompression and CORS are libraries and only configured here. Logging is left out.
\<close>

section \<open>Startup\<close>

fun is_loopback :: "IpAddr \<Rightarrow> bool" where
  "is_loopback (IpV4 a) \<longleftrightarrow> drop_bit 24 a = 127"
| "is_loopback (IpV6 a) \<longleftrightarrow> a = 1"

definition is_production_environment :: "env \<Rightarrow> bool" where
  "is_production_environment env =
     (let raw = or_default (coalesce (env ''MLRUNX_ENVIRONMENT'') (coalesce (env ''APP_ENV'')
            (coalesce (env ''ENVIRONMENT'') (env ''RUST_ENV'')))) ''development'' in
      to_ascii_lowercase (trim raw) \<in> {''prod'', ''production''})"

definition allow_insecure_local_dev :: "env \<Rightarrow> bool" where
  "allow_insecure_local_dev env = env_flag_default env ''MLRUNX_ALLOW_INSECURE_LOCAL_DEV'' False"

text \<open>The store of keys at startup: \<open>ApiKeyStore::new\<close>, \<open>new_with_sqlite\<close>.\<close>

definition auth_config_from_env :: "env \<Rightarrow> AuthConfig" where
  "auth_config_from_env env =
     (let runtime_auth_mode = runtime_auth_mode_from_env env in
      \<lparr>ac_env = env, ac_secret = fst (load_auth_hmac_secret env), ac_secret_source = snd (load_auth_hmac_secret env),
       ac_admin_email = load_admin_email env,
       ac_ui = ui_jwt_from_env env (runtime_auth_mode = AuthHybrid),
       ac_limits = auth_rate_limit_from_env env,
       ac_auth_disabled = (runtime_auth_mode = AuthDisabled),
       ac_bootstrap_ttl = bootstrap_key_ttl_seconds_from_env env\<rparr>)"

record Uri =
  uri_scheme :: "string option"
  uri_authority :: "string option"
  uri_path_and_query :: "(string \<times> string option) option"

record StartExt =
  sx_parse_uri :: "string \<Rightarrow> Uri option"
  sx_header_ok :: "string \<Rightarrow> bool"
  sx_redis_open :: "string \<Rightarrow> bool"
  sx_key :: KeyExt
  sx_clock :: Clock
  sx_salt :: string
  sx_uuid :: string

definition origin_error :: "string \<Rightarrow> string \<Rightarrow> string" where
  "origin_error origin what = ''Invalid origin '' @ sq origin @ '' in MLRUNX_UI_ALLOWED_ORIGINS ('' @ what @ '').''"

definition parse_allowed_origin :: "StartExt \<Rightarrow> string \<Rightarrow> (string, string) result" where
  "parse_allowed_origin sx origin =
     try_bind (ok_or (sx_parse_uri sx origin) (origin_error origin ''failed URI parse'')) (\<lambda>parsed.
     try_bind (ok_or (uri_scheme parsed) (origin_error origin ''missing scheme'')) (\<lambda>scheme.
       if \<not> eq_ignore_ascii_case scheme ''http'' \<and> \<not> eq_ignore_ascii_case scheme ''https''
       then Err (origin_error origin ''scheme must be http or https'')
       else
         try_bind (ok_or (uri_authority parsed) (origin_error origin ''missing host'')) (\<lambda>authority.
           if (case uri_path_and_query parsed of Some (path, q) \<Rightarrow> path \<noteq> ''/'' \<or> q \<noteq> None | None \<Rightarrow> False)
           then Err (origin_error origin ''must not include path/query'')
           else
             (let normalized = scheme @ ''://'' @ authority in
              if sx_header_ok sx normalized then Ok normalized else Err (origin_error origin ''invalid header value'')))))"

definition DEFAULT_ALLOWED_UI_ORIGINS :: "string list" where
  "DEFAULT_ALLOWED_UI_ORIGINS = [''http://localhost:3000'', ''http://127.0.0.1:3000'']"

definition parse_allowed_origins :: "StartExt \<Rightarrow> string option \<Rightarrow> (string list, string) result" where
  "parse_allowed_origins sx raw =
     try_bind
       (case raw of
          None \<Rightarrow> Ok []
        | Some r \<Rightarrow> try_map (parse_allowed_origin sx) (filter (\<lambda>v. v \<noteq> []) (map trim (split_on CHR '','' r))))
       (\<lambda>origins. if origins = [] then try_map (parse_allowed_origin sx) DEFAULT_ALLOWED_UI_ORIGINS else Ok origins)"

definition load_allowed_origins_from_env :: "StartExt \<Rightarrow> env \<Rightarrow> (string list, string) result" where
  "load_allowed_origins_from_env sx env = parse_allowed_origins sx (env ''MLRUNX_UI_ALLOWED_ORIGINS'')"

text \<open>Whether some character of a text is whitespace.\<close>

fun has_whitespace :: "string \<Rightarrow> bool" where
  "has_whitespace [] = False"
| "has_whitespace (c # s) \<longleftrightarrow> 0 < ws_len (c # s) \<or> has_whitespace s"

definition validate_runtime_security_configuration :: "StartExt \<Rightarrow> env \<Rightarrow> UiJwtConfig \<Rightarrow> (unit, string) result" where
  "validate_runtime_security_configuration sx env ui =
     try_bind (load_allowed_origins_from_env sx env) (\<lambda>_.
       if (case uj_cookie_domain ui of Some domain \<Rightarrow> CHR '';'' \<in> set domain \<or> has_whitespace domain | None \<Rightarrow> False)
       then Err ''MLRUNX_UI_COOKIE_DOMAIN must not contain semicolons or whitespace.''
       else if uj_enabled ui \<and> eq_ignore_ascii_case (uj_cookie_same_site ui) ''none'' \<and> \<not> uj_cookie_secure ui
       then Err ''MLRUNX_UI_COOKIE_SAMESITE=None requires MLRUNX_UI_COOKIE_SECURE=true.''
       else if uj_enabled ui \<and> is_production_environment env \<and> \<not> uj_cookie_secure ui
       then Err ''UI JWT/session auth in production requires MLRUNX_UI_COOKIE_SECURE=true.''
       else Ok ())"

text \<open>Of a refusal to start the text is kept, of a failed \<open>expect\<close> its message.\<close>

definition require :: "bool \<Rightarrow> string \<Rightarrow> (unit, string) result" where
  "require b msg = (if b then Ok () else Err msg)"

definition check_disabled_auth :: "env \<Rightarrow> ServerConfig \<Rightarrow> AuthConfig \<Rightarrow> (unit, string) result" where
  "check_disabled_auth env config ac =
     (if \<not> ac_auth_disabled ac then Ok ()
      else
        try_bind (require (allow_insecure_local_dev env)
          ''Refusing to start: MLRUNX_AUTH_MODE=disabled requires MLRUNX_ALLOW_INSECURE_LOCAL_DEV=true.'') (\<lambda>_.
        try_bind (require (\<not> is_production_environment env)
          ''Refusing to start: authentication cannot be disabled in production.'') (\<lambda>_.
          require (is_loopback (fst (sc_http_addr config)) \<and> is_loopback (fst (sc_grpc_addr config)))
            (''Refusing to start: disabled auth mode requires loopback-only bind addresses. ''
             @ ''Set API_HOST=127.0.0.1 (or ::1) when MLRUNX_AUTH_MODE=disabled.''))))"

record ServerState =
  sv_config :: ServerConfig
  sv_auth :: AuthConfig
  sv_auth_state :: AuthState
  sv_separate_db :: "Db option"
  sv_idempotency :: IdempotencyStore
  sv_cardinality :: CardinalityTracker
  sv_queue :: "QueueConfig option"
  sv_write_limiter :: HttpRateLimiter
  sv_http_limiter :: HttpRateLimiter
  sv_allowed_origins :: "string list"

text \<open>
  \<open>opened\<close> is the database \<open>SqliteStore::new\<close> gives, if it can be opened. The store of keys shares
  it with the handlers, unless the keys are kept in memory only: then the handlers have it alone.
\<close>

definition server_main :: "StartExt \<Rightarrow> env \<Rightarrow> Db option \<Rightarrow> (ServerState, string) result" where
  "server_main sx env opened =
     try_bind (map_err (\<lambda>_. ''Invalid server configuration'') (server_config_from_env env)) (\<lambda>config.
     try_bind (ok_or opened ''Failed to initialize SQLite store'') (\<lambda>db.
     let in_memory = (case env ''MLRUNX_API_KEYS_IN_MEMORY'' of
           Some v \<Rightarrow> v = ''1'' \<or> eq_ignore_ascii_case v ''true'' | None \<Rightarrow> False);
         ac = auth_config_from_env env;
         ks = init_from_env (sx_key sx) (ac_secret ac) (sx_clock sx) (ac_bootstrap_ttl ac) (sx_salt sx) env
           \<lparr>ks_keys = [], ks_db = if in_memory then None else Some db\<rparr> in
     try_bind (map_err (\<lambda>e. ''Refusing to start: '' @ e) (validate_startup_configuration env (ac_secret_source ac) (ac_ui ac))) (\<lambda>_.
     try_bind (map_err (\<lambda>e. ''Refusing to start: '' @ e) (validate_runtime_security_configuration sx env (ac_ui ac))) (\<lambda>_.
     try_bind (check_disabled_auth env config ac) (\<lambda>_.
     try_bind
       (if queued_ingest_enabled config
        then (let q = queue_config_from_env env (sx_uuid sx) in
              if sx_redis_open sx (qc_redis_url q) then Ok (Some q) else Err ''Failed to initialize Redis ingest queue'')
        else Ok None) (\<lambda>queue.
     try_bind (map_err (\<lambda>_. ''Invalid MLRUNX_UI_ALLOWED_ORIGINS configuration'') (load_allowed_origins_from_env sx env)) (\<lambda>origins.
       Ok \<lparr>sv_config = config, sv_auth = ac, sv_auth_state = \<lparr>as_store = ks, as_limits = Map.empty\<rparr>,
           sv_separate_db = (if in_memory then Some db else None), sv_idempotency = idem_new,
           sv_cardinality = tracker_new (limits_from_env env), sv_queue = queue,
           sv_write_limiter = from_env_with_prefix env ''MLRUNX_WRITE_RATE_LIMIT'' 500 (f_of_int 200),
           sv_http_limiter = http_limiter_from_env env, sv_allowed_origins = origins\<rparr>)))))))"

section \<open>Routes\<close>

datatype Endpoint =
    RootPage | HealthPage
  | InitRun | IngestBatch | FinishRun
  | ListProjects | CreateProject | DeleteProject
  | ListMetricAliases | UpsertMetricAlias | DeleteMetricAlias
  | AdminListUsers | AdminListUserMemberships | AdminDisableUser | AdminEnableUser
  | AdminListSessions | AdminRevokeSession | AdminListAuditEvents | AdminRotateBootstrapKey
  | ListRuns | GetRun | DeleteRun | GetMetrics | GetRunEvents | GetRunCharts | GetRunImages
  | CompareRuns | CompareRunCharts
  | CreateKey | ListKeys | RevokeKey
  | CreateShareToken | RevokeShareToken | GetSharedRun | GetSharedMetrics
  | UiAuthLogin | UiAuthSession | UiAuthLogout

text \<open>A route: method, path with parameters in braces, handler.\<close>

type_synonym route = "string \<times> string \<times> Endpoint"

definition protected_routes :: "bool \<Rightarrow> bool \<Rightarrow> route list" where
  "protected_routes share_links ui_jwt =
     [(''POST'', ''/api/v1/runs'', InitRun),
      (''POST'', ''/api/v1/ingest/batch'', IngestBatch),
      (''POST'', ''/api/v1/runs/{run_id}/finish'', FinishRun),
      (''GET'', ''/api/v1/projects'', ListProjects),
      (''POST'', ''/api/v1/projects'', CreateProject),
      (''DELETE'', ''/api/v1/projects/{project_id}'', DeleteProject),
      (''GET'', ''/api/v1/projects/{project_id}/metric-aliases'', ListMetricAliases),
      (''POST'', ''/api/v1/projects/{project_id}/metric-aliases'', UpsertMetricAlias),
      (''DELETE'', ''/api/v1/projects/{project_id}/metric-aliases/{metric_name}'', DeleteMetricAlias),
      (''GET'', ''/api/v1/admin/users'', AdminListUsers),
      (''GET'', ''/api/v1/admin/users/{user_id}/memberships'', AdminListUserMemberships),
      (''POST'', ''/api/v1/admin/users/{user_id}/disable'', AdminDisableUser),
      (''POST'', ''/api/v1/admin/users/{user_id}/enable'', AdminEnableUser),
      (''GET'', ''/api/v1/admin/sessions'', AdminListSessions),
      (''POST'', ''/api/v1/admin/sessions/{session_id}/revoke'', AdminRevokeSession),
      (''GET'', ''/api/v1/admin/audit-events'', AdminListAuditEvents),
      (''POST'', ''/api/v1/admin/bootstrap-key/rotate'', AdminRotateBootstrapKey),
      (''GET'', ''/api/v1/runs'', ListRuns),
      (''GET'', ''/api/v1/runs/{run_id}'', GetRun),
      (''DELETE'', ''/api/v1/runs/{run_id}'', DeleteRun),
      (''GET'', ''/api/v1/runs/{run_id}/metrics'', GetMetrics),
      (''GET'', ''/api/v1/runs/{run_id}/events'', GetRunEvents),
      (''GET'', ''/api/v1/runs/{run_id}/charts'', GetRunCharts),
      (''GET'', ''/api/v1/runs/{run_id}/images'', GetRunImages),
      (''POST'', ''/api/v1/runs/compare'', CompareRuns),
      (''POST'', ''/api/v1/runs/compare/charts'', CompareRunCharts),
      (''POST'', ''/api/v1/keys'', CreateKey),
      (''GET'', ''/api/v1/keys'', ListKeys),
      (''DELETE'', ''/api/v1/keys/{key_id}'', RevokeKey)]
     @ (if share_links
        then [(''POST'', ''/api/v1/runs/{run_id}/share'', CreateShareToken),
              (''DELETE'', ''/api/v1/runs/{run_id}/share/{token}'', RevokeShareToken)] else [])
     @ (if ui_jwt
        then [(''GET'', ''/api/v1/ui-auth/session'', UiAuthSession),
              (''POST'', ''/api/v1/ui-auth/logout'', UiAuthLogout)] else [])"

definition public_routes :: "bool \<Rightarrow> bool \<Rightarrow> route list" where
  "public_routes share_links ui_jwt =
     [(''GET'', ''/'', RootPage), (''GET'', ''/health'', HealthPage)]
     @ (if share_links
        then [(''GET'', ''/api/v1/shared/{token}'', GetSharedRun),
              (''GET'', ''/api/v1/shared/{token}/metrics'', GetSharedMetrics)] else [])
     @ (if ui_jwt then [(''POST'', ''/api/v1/ui-auth/login'', UiAuthLogin)] else [])"

text \<open>
  What the matcher makes of a request: a public or a protected route, or a fallback with its status
  (404, 405), inside or outside the layer of the protected routes.
\<close>

datatype routed = ToPublic route | ToProtected route | Fallback bool nat

definition security_headers :: "string \<Rightarrow> (string \<times> string) list" where
  "security_headers req_id =
     [(''x-request-id'', req_id), (''x-content-type-options'', ''nosniff''), (''x-frame-options'', ''DENY''),
      (''referrer-policy'', ''strict-origin-when-cross-origin''), (''x-permitted-cross-domain-policies'', ''none'')]"

datatype dispatched = Refused http_error | Reached Endpoint "AuthContext option"

record RouterExt =
  rx_ui :: UiExt
  rx_serde :: Serde
  rx_match :: "route list \<Rightarrow> route list \<Rightarrow> Request \<Rightarrow> routed"
  rx_status_text :: "nat \<Rightarrow> string"
  rx_header_ok :: "string \<Rightarrow> bool"

text \<open>What one request is given: times, fresh identifiers, the identifier of the response.\<close>

record RequestEnv =
  re_fresh :: UiFresh
  re_clock :: Clock
  re_tick :: nat
  re_request_id :: string

type_synonym headers = "(string \<times> string) list"

definition authenticated ::
  "RouterExt \<Rightarrow> AuthConfig \<Rightarrow> RequestEnv \<Rightarrow> Request \<Rightarrow> (AuthContext \<Rightarrow> dispatched) \<Rightarrow> AuthState \<Rightarrow>
   (dispatched \<times> headers) \<times> AuthState" where
  "authenticated rx ac re rq k st =
     (case auth_middleware (rx_ui rx) (rx_serde rx) ac (re_fresh re) (re_clock re) (re_tick re) rq st of
        (Err e, st') \<Rightarrow> ((Refused e, []), st')
      | (Ok (auth, refresh), st') \<Rightarrow>
          ((k auth,
            case refresh of None \<Rightarrow> []
            | Some (session_token, csrf_token) \<Rightarrow>
                map (Pair ''set-cookie'') (filter (rx_header_ok rx) (ui_session_refresh_cookies (ac_ui ac) session_token csrf_token))),
           st'))"

definition route_request ::
  "RouterExt \<Rightarrow> AuthConfig \<Rightarrow> RequestEnv \<Rightarrow> Request \<Rightarrow> AuthState \<Rightarrow> (dispatched \<times> headers) \<times> AuthState" where
  "route_request rx ac re rq st =
     (let share_links = share_links_enabled (ac_env ac); ui_jwt = uj_enabled (ac_ui ac) in
      case rx_match rx (public_routes share_links ui_jwt) (protected_routes share_links ui_jwt) rq of
        ToPublic (_, _, h) \<Rightarrow> ((Reached h None, []), st)
      | ToProtected (_, _, h) \<Rightarrow> authenticated rx ac re rq (\<lambda>auth. Reached h (Some auth)) st
      | Fallback guarded status \<Rightarrow>
          (let answer = Refused (status, rx_status_text rx status) in
           if guarded then authenticated rx ac re rq (\<lambda>_. answer) st else ((answer, []), st)))"

text \<open>The outer layer: the limit per client, and the headers it puts on the response.\<close>

definition http_request ::
  "RouterExt \<Rightarrow> RequestEnv \<Rightarrow> Request \<Rightarrow> ServerState \<Rightarrow> (dispatched \<times> headers) \<times> ServerState" where
  "http_request rx re rq sv =
     (let env = ac_env (sv_auth sv); (verdict, limiter) = limiter_check (re_tick re) (request_client_ip env rq) (sv_http_limiter sv);
          sv1 = sv\<lparr>sv_http_limiter := limiter\<rparr> in
      case verdict of
        Err retry_after \<Rightarrow> ((Refused (TOO_MANY_REQUESTS, ''Too many requests''), [(''retry-after'', show_nat retry_after)]), sv1)
      | Ok _ \<Rightarrow>
          (case route_request rx (sv_auth sv) re rq (sv_auth_state sv) of
             ((out, cookies), st') \<Rightarrow>
               ((out, cookies @ security_headers (re_request_id re)), sv1\<lparr>sv_auth_state := st'\<rparr>)))"

section \<open>What a running server guarantees\<close>

text \<open>Documented of axum's matcher: the route it takes is one of the table it was given.\<close>

definition match_law :: "RouterExt \<Rightarrow> bool" where
  "match_law rx \<longleftrightarrow>
     (\<forall>public protected rq.
        (case rx_match rx public protected rq of
           ToPublic r \<Rightarrow> r \<in> set public | ToProtected r \<Rightarrow> r \<in> set protected | Fallback _ _ \<Rightarrow> True))"

text \<open>
  The states of a server: it starts, requests come in, handlers and the pruning task change what they
  may change. Of a handler only that is used here which no handler can do: change the configuration.
\<close>

inductive serving :: "StartExt \<Rightarrow> env \<Rightarrow> Db option \<Rightarrow> ServerState \<Rightarrow> bool" for sx env opened where
  start: "server_main sx env opened = Ok sv \<Longrightarrow> serving sx env opened sv"
| request: "serving sx env opened sv \<Longrightarrow> serving sx env opened (snd (http_request rx re rq sv))"
| handled: "serving sx env opened sv \<Longrightarrow>
    serving sx env opened (sv\<lparr>sv_auth_state := st, sv_separate_db := db, sv_idempotency := idem, sv_cardinality := tracker,
      sv_write_limiter := limiter\<rparr>)"
| pruned: "serving sx env opened sv \<Longrightarrow> serving sx env opened (sv\<lparr>sv_http_limiter := prune_stale now (sv_http_limiter sv)\<rparr>)"

lemma http_request_config:
  "sv_auth (snd (http_request rx re rq sv)) = sv_auth sv" "sv_config (snd (http_request rx re rq sv)) = sv_config sv"
  by (simp_all add: http_request_def Let_def split_beta split: result.splits)

lemma server_main_Ok:
  assumes "server_main sx env opened = Ok sv"
  shows "server_config_from_env env = Ok (sv_config sv) \<and> sv_auth sv = auth_config_from_env env
    \<and> validate_startup_configuration env (ac_secret_source (sv_auth sv)) (ac_ui (sv_auth sv)) = Ok ()
    \<and> validate_runtime_security_configuration sx env (ac_ui (sv_auth sv)) = Ok ()
    \<and> check_disabled_auth env (sv_config sv) (sv_auth sv) = Ok ()"
  using assms by (auto simp: server_main_def try_bind_Ok_iff Let_def split: if_splits)

lemma server_main_initial:
  assumes "server_main sx env opened = Ok sv"
  shows "sv_http_limiter sv = http_limiter_from_env env" "as_limits (sv_auth_state sv) = Map.empty"
  using assms by (auto simp: server_main_def try_bind_Ok_iff Let_def split: if_splits)

lemma serving_config:
  assumes "serving sx env opened sv"
  shows "\<exists>sv0. server_main sx env opened = Ok sv0 \<and> sv_auth sv = sv_auth sv0 \<and> sv_config sv = sv_config sv0"
  using assms by (induction rule: serving.induct) (auto simp: http_request_config)

lemma check_disabled_auth_Ok:
  "check_disabled_auth env config ac = Ok () \<longleftrightarrow>
     (ac_auth_disabled ac \<longrightarrow> allow_insecure_local_dev env \<and> \<not> is_production_environment env
        \<and> is_loopback (fst (sc_http_addr config)) \<and> is_loopback (fst (sc_grpc_addr config)))"
  by (auto simp: check_disabled_auth_def require_def)

lemma validate_runtime_security_Ok:
  assumes "validate_runtime_security_configuration sx env ui = Ok ()"
  shows "(\<forall>domain. uj_cookie_domain ui = Some domain \<longrightarrow> CHR '';'' \<notin> set domain \<and> \<not> has_whitespace domain)
    \<and> (uj_enabled ui \<and> (eq_ignore_ascii_case (uj_cookie_same_site ui) ''none'' \<or> is_production_environment env) \<longrightarrow>
         uj_cookie_secure ui)"
  using assms by (auto simp: validate_runtime_security_configuration_def try_bind_Ok_iff split: if_splits)

lemma validate_startup_Ok:
  assumes "validate_startup_configuration env source ui = Ok ()"
  shows "source \<noteq> InsecureDefault"
    and "trust_proxy_headers env \<longrightarrow> (\<exists>rules. trusted_proxy_rules_from_env env = Ok rules \<and> rules \<noteq> [])"
    and "uj_enabled ui \<longrightarrow> \<not> is_blank (uj_issuer ui) \<and> \<not> is_blank (uj_audience ui)
      \<and> \<not> is_blank (if uj_algorithm ui = Hs256 then uj_secret ui else uj_public_key_pem ui)"
  using assms
  by (auto simp: validate_startup_configuration_def validate_startup_configuration_with_proxy_rules_def Let_def
    try_bind_Ok_iff trust_proxy_headers_def split: if_splits UiJwtAlgorithm.splits)

text \<open>
  C13: an insecure configuration does not start. In every state of a running server: the secret of
  the keyed hashes was configured, not the built-in one; forwarded addresses are believed only
  with a list of proxies that parses and is not empty; UI login has an issuer, an audience and
  the key its algorithm needs, and marks its cookies secure in production and when they are sent
  across sites; and authentication is off only in a local development server: asked for twice,
  not in production, with both addresses bound to the loopback interface.
\<close>

theorem insecure_configuration_refused:
  assumes "serving sx env opened sv"
  shows "ac_secret_source (sv_auth sv) \<noteq> InsecureDefault
    \<and> (trust_proxy_headers env \<longrightarrow> (\<exists>rules. trusted_proxy_rules_from_env env = Ok rules \<and> rules \<noteq> []))
    \<and> (uj_enabled (ac_ui (sv_auth sv)) \<longrightarrow>
         \<not> is_blank (uj_issuer (ac_ui (sv_auth sv))) \<and> \<not> is_blank (uj_audience (ac_ui (sv_auth sv)))
       \<and> \<not> is_blank (if uj_algorithm (ac_ui (sv_auth sv)) = Hs256 then uj_secret (ac_ui (sv_auth sv))
            else uj_public_key_pem (ac_ui (sv_auth sv)))
       \<and> (eq_ignore_ascii_case (uj_cookie_same_site (ac_ui (sv_auth sv))) ''none'' \<or> is_production_environment env \<longrightarrow>
            uj_cookie_secure (ac_ui (sv_auth sv))))
    \<and> (ac_auth_disabled (sv_auth sv) \<longrightarrow> allow_insecure_local_dev env \<and> \<not> is_production_environment env
         \<and> is_loopback (fst (sc_http_addr (sv_config sv))) \<and> is_loopback (fst (sc_grpc_addr (sv_config sv))))"
proof -
  from serving_config [OF assms] obtain sv0 where "server_main sx env opened = Ok sv0"
    and same: "sv_auth sv = sv_auth sv0" "sv_config sv = sv_config sv0" by blast
  from server_main_Ok [OF this(1)] have
    startup: "validate_startup_configuration env (ac_secret_source (sv_auth sv)) (ac_ui (sv_auth sv)) = Ok ()"
    and runtime: "validate_runtime_security_configuration sx env (ac_ui (sv_auth sv)) = Ok ()"
    and local: "check_disabled_auth env (sv_config sv) (sv_auth sv) = Ok ()"
    unfolding same by blast+
  show ?thesis
    using validate_startup_Ok [OF startup] validate_runtime_security_Ok [OF runtime] local check_disabled_auth_Ok by blast
qed

text \<open>The handlers that serve requests without a context.\<close>

definition open_endpoints :: "env \<Rightarrow> UiJwtConfig \<Rightarrow> Endpoint set" where
  "open_endpoints env ui =
     {RootPage, HealthPage} \<union> (if share_links_enabled env then {GetSharedRun, GetSharedMetrics} else {})
     \<union> (if uj_enabled ui then {UiAuthLogin} else {})"

lemma public_routes_open:
  "r \<in> set (public_routes (share_links_enabled env) (uj_enabled ui)) \<Longrightarrow> snd (snd r) \<in> open_endpoints env ui"
  by (auto simp: public_routes_def open_endpoints_def)

lemma protected_routes_closed:
  "r \<in> set (protected_routes share_links ui_jwt) \<Longrightarrow>
   snd (snd r) \<notin> {RootPage, HealthPage, GetSharedRun, GetSharedMetrics, UiAuthLogin}"
  by (auto simp: protected_routes_def split: if_splits)

lemma authenticated_Reached:
  assumes "authenticated rx ac re rq k st = ((Reached h ctx, hs), st')"
  obtains auth refresh where "k auth = Reached h ctx"
    "auth_middleware (rx_ui rx) (rx_serde rx) ac (re_fresh re) (re_clock re) (re_tick re) rq st = (Ok (auth, refresh), st')"
  using assms by (auto simp: authenticated_def split: prod.splits result.splits)

lemma route_request_Reached:
  assumes "match_law rx" "route_request rx ac re rq st = ((Reached h ctx, hs), st')"
  shows "(h \<in> open_endpoints (ac_env ac) (ac_ui ac) \<and> ctx = None)
    \<or> (h \<notin> {RootPage, HealthPage, GetSharedRun, GetSharedMetrics, UiAuthLogin} \<and> (\<exists>auth refresh. ctx = Some auth
        \<and> auth_middleware (rx_ui rx) (rx_serde rx) ac (re_fresh re) (re_clock re) (re_tick re) rq st = (Ok (auth, refresh), st')))"
proof -
  let ?pub = "public_routes (share_links_enabled (ac_env ac)) (uj_enabled (ac_ui ac))"
  let ?prot = "protected_routes (share_links_enabled (ac_env ac)) (uj_enabled (ac_ui ac))"
  have law: "case rx_match rx ?pub ?prot rq of ToPublic r \<Rightarrow> r \<in> set ?pub | ToProtected r \<Rightarrow> r \<in> set ?prot | Fallback _ _ \<Rightarrow> True"
    using assms(1) by (simp add: match_law_def)
  show ?thesis
  proof (cases "rx_match rx ?pub ?prot rq")
    case (ToPublic r)
    with assms(2) law public_routes_open [of r] show ?thesis
      by (auto simp: route_request_def Let_def split_beta)
  next
    case (ToProtected r)
    with assms(2) have "authenticated rx ac re rq (\<lambda>auth. Reached (snd (snd r)) (Some auth)) st = ((Reached h ctx, hs), st')"
      by (simp add: route_request_def Let_def split_beta)
    then obtain auth refresh where "Reached (snd (snd r)) (Some auth) = Reached h ctx"
      "auth_middleware (rx_ui rx) (rx_serde rx) ac (re_fresh re) (re_clock re) (re_tick re) rq st = (Ok (auth, refresh), st')"
      by (rule authenticated_Reached)
    moreover have "r \<in> set ?prot" using law ToProtected by simp
    ultimately show ?thesis using protected_routes_closed by fastforce
  next
    case (Fallback guarded status)
    with assms(2) show ?thesis
      by (auto simp: route_request_def Let_def split: if_splits elim: authenticated_Reached)
  qed
qed

lemma http_request_Reached:
  assumes "http_request rx re rq sv = ((Reached h ctx, headers), sv')"
  obtains cookies where "route_request rx (sv_auth sv) re rq (sv_auth_state sv) = ((Reached h ctx, cookies), sv_auth_state sv')"
    "headers = cookies @ security_headers (re_request_id re)"
  using assms by (auto simp: http_request_def Let_def split: result.splits prod.splits)

lemma serving_local:
  assumes "serving sx env opened sv"
  shows "ac_env (sv_auth sv) = env"
    and "ac_auth_disabled (sv_auth sv) \<Longrightarrow> allow_insecure_local_dev env \<and> is_loopback (fst (sc_http_addr (sv_config sv)))"
proof -
  from serving_config [OF assms] obtain sv0 where m: "server_main sx env opened = Ok sv0"
    and same: "sv_auth sv = sv_auth sv0" "sv_config sv = sv_config sv0" by blast
  show "ac_env (sv_auth sv) = env" using server_main_Ok [OF m] same by (simp add: auth_config_from_env_def Let_def)
  show "ac_auth_disabled (sv_auth sv) \<Longrightarrow> allow_insecure_local_dev env \<and> is_loopback (fst (sc_http_addr (sv_config sv)))"
    using server_main_Ok [OF m] check_disabled_auth_Ok unfolding same by blast
qed

text \<open>
  C12: no handler behind the login is reached without a valid credential. In every state of a
  running server, a request that reaches a handler without a context reaches the greeting, the
  health check, a view of a shared run when share links are on, or the login when it is on. Every
  other handler is given a context, and the request itself carries what the context comes from: a
  raw API key for which the store has a live key that it verifies; a bearer token that verifies
  against the configured algorithm, key, issuer and audience, for the account of its subject; or
  the cookie of a stored live session, with the CSRF token of that session where the request
  changes something. A user has the projects and the scopes of the active memberships, and is a
  platform administrator only by the mark in the database or the configured address. Or the context is
  the developer's, on a local server that nothing outside the machine can connect to. All
  these responses carry the security headers.
\<close>

theorem request_authenticated:
  assumes "serving sx env opened sv" "match_law rx" "http_request rx re rq sv = ((Reached h ctx, headers), sv')"
  shows "(case ctx of
      None \<Rightarrow> h \<in> open_endpoints env (ac_ui (sv_auth sv))
    | Some auth \<Rightarrow>
        h \<notin> {RootPage, HealthPage, GetSharedRun, GetSharedMetrics, UiAuthLogin}
      \<and> (if is_dev_mode auth
         then allow_insecure_local_dev env \<and> is_loopback (fst (sc_http_addr (sv_config sv)))
         else key_context (rx_ui rx) (sv_auth sv) (re_clock re) rq (as_store (sv_auth_state sv)) auth
           \<or> (\<exists>db' uid. ks_db (as_store (sv_auth_state sv')) = Some db'
                \<and> user_context (rx_ui rx) (sv_auth sv) (re_clock re) rq (as_store (sv_auth_state sv)) db' auth uid)))
    \<and> set (security_headers (re_request_id re)) \<subseteq> set headers"
proof -
  note env = serving_local(1) [OF assms(1)] and local = serving_local(2) [OF assms(1)]
  from assms(3) obtain cookies where
    r: "route_request rx (sv_auth sv) re rq (sv_auth_state sv) = ((Reached h ctx, cookies), sv_auth_state sv')"
    and headers: "headers = cookies @ security_headers (re_request_id re)"
    by (rule http_request_Reached)
  from route_request_Reached [OF assms(2) r] show ?thesis
  proof (elim disjE conjE exE)
    fix auth refresh
    assume mw: "auth_middleware (rx_ui rx) (rx_serde rx) (sv_auth sv) (re_fresh re) (re_clock re) (re_tick re) rq (sv_auth_state sv)
        = (Ok (auth, refresh), sv_auth_state sv')" and "ctx = Some auth"
      and "h \<notin> {RootPage, HealthPage, GetSharedRun, GetSharedMetrics, UiAuthLogin}"
    moreover have "is_dev_mode auth" if "ac_auth_disabled (sv_auth sv)"
      using mw that by (auto simp: auth_middleware_def dev_mode_def)
    ultimately show ?thesis
      using auth_middleware_Ok [OF _ mw] local headers by (cases "ac_auth_disabled (sv_auth sv)") auto
  qed (simp_all add: env headers)
qed

text \<open>A request over the limit of its client is answered at once, without the headers every other response has.\<close>

lemma rate_limited_response:
  assumes "fst (limiter_check (re_tick re) (request_client_ip (ac_env (sv_auth sv)) rq) (sv_http_limiter sv)) = Err retry_after"
  shows "fst (http_request rx re rq sv) = (Refused (TOO_MANY_REQUESTS, ''Too many requests''), [(''retry-after'', show_nat retry_after)])"
  using assms by (simp add: http_request_def Let_def split_beta)

section \<open>A concrete server\<close>

definition start_sample :: StartExt where
  "start_sample = \<lparr>sx_parse_uri = (\<lambda>_. Some \<lparr>uri_scheme = Some ''http'', uri_authority = Some ''localhost:3000'', uri_path_and_query = None\<rparr>),
     sx_header_ok = (\<lambda>_. True), sx_redis_open = (\<lambda>_. True), sx_key = sample_ext, sx_clock = sample_now, sx_salt = ''salt'', sx_uuid = ''q''\<rparr>"

definition server_env :: env where
  "server_env = (\<lambda>n. if n = ''MLRUNX_AUTH_HMAC_SECRET'' then Some ''secret'' else if n = ''MLRUNX_AUTH_MODE'' then Some ''api_key''
     else if n = ''API_HOST'' then Some ''127.0.0.1'' else if n = ''API_HTTP_PORT'' then Some ''9''
     else if n = ''API_GRPC_PORT'' then Some ''8'' else None)"

lemma server_env_simps:
  "server_env ''MLRUNX_AUTH_HMAC_SECRET'' = Some ''secret''" "server_env ''MLRUNX_AUTH_MODE'' = Some ''api_key''"
  "server_env ''API_HOST'' = Some ''127.0.0.1''" "server_env ''API_HTTP_PORT'' = Some ''9''" "server_env ''API_GRPC_PORT'' = Some ''8''"
  "server_env ''MLRUNX_API_KEY'' = None" "server_env ''MLRUNX_API_KEYS_IN_MEMORY'' = None" "server_env ''MLRUNX_TRUST_PROXY_HEADERS'' = None"
  "server_env ''MLRUNX_UI_COOKIE_DOMAIN'' = None" "server_env ''MLRUNX_RUNTIME_MODE'' = None" "server_env ''INGEST_MODE'' = None"
  "server_env ''MLRUNX_RATE_LIMIT_BURST'' = None" "server_env ''MLRUNX_RATE_LIMIT_PER_SECOND'' = None" "server_env ''RUST_LOG'' = None"
  by (simp_all add: server_env_def)

lemma sample_address:
  "parse_bind_addr ''127.0.0.1'' 9 label = Ok (IpV4 0x7F000001, 9)"
  "parse_bind_addr ''127.0.0.1'' 8 label = Ok (IpV4 0x7F000001, 8)"
proof -
  have ip: "read_ipv4_addr ''127.0.0.1:9'' = Some (0x7F000001, '':9'')" "read_ipv4_addr ''127.0.0.1:8'' = Some (0x7F000001, '':8'')"
    by code_simp+
  have port: "read_port '':9'' = Some (9, [])" "read_port '':8'' = Some (8, [])"
    by (simp_all add: read_port_def read_char_def read_number_def byte_def)
  have shown: "show_nat 9 = ''9''" "show_nat 8 = ''8''" by code_simp+
  show "parse_bind_addr ''127.0.0.1'' 9 label = Ok (IpV4 0x7F000001, 9)"
    using ip(1) port(1) shown(1) by (simp add: parse_bind_addr_def parse_socket_addr_def read_socket_ip_def)
  show "parse_bind_addr ''127.0.0.1'' 8 label = Ok (IpV4 0x7F000001, 8)"
    using ip(2) port(2) shown(2) by (simp add: parse_bind_addr_def parse_socket_addr_def read_socket_ip_def)
qed

lemma sample_config:
  "server_config_from_env server_env = Ok \<lparr>sc_http_addr = (IpV4 0x7F000001, 9), sc_grpc_addr = (IpV4 0x7F000001, 8),
     sc_runtime_mode = Standalone, sc_ingest_mode = Direct, sc_log_level = DEFAULT_RUST_LOG\<rparr>"
proof -
  have "trimmed_nonempty (Some ''9'') = Some ''9''" "trimmed_nonempty (Some ''8'') = Some ''8''"
    "trimmed_nonempty (Some ''127.0.0.1'') = Some ''127.0.0.1''" by code_simp+
  moreover have "parse_unsigned U16_MAX ''9'' = Some 9" "parse_unsigned U16_MAX ''8'' = Some 8"
    by (simp_all add: parse_unsigned_def byte_def)
  ultimately show ?thesis
    by (simp add: server_config_from_env_def server_config_build_def parse_optional_port_def server_env_simps sample_address
      runtime_mode_from_env_def ingest_mode_from_env_def)
qed

lemma sample_mode: "runtime_auth_mode_from_env server_env = AuthApiKey"
proof -
  have "runtime_auth_mode_parse ''api_key'' = Some AuthApiKey" by code_simp
  then show ?thesis by (simp add: runtime_auth_mode_from_env_def server_env_simps)
qed

lemma sample_secret: "ac_secret_source (auth_config_from_env server_env) = ExplicitEnv"
  by (simp add: auth_config_from_env_def Let_def load_auth_hmac_secret_def server_env_simps) code_simp

lemma sample_auth:
  "ac_auth_disabled (auth_config_from_env server_env) = False"
  "uj_enabled (ac_ui (auth_config_from_env server_env)) = False" "uj_cookie_domain (ac_ui (auth_config_from_env server_env)) = None"
  "ac_env (auth_config_from_env server_env) = server_env"
  by (simp_all add: auth_config_from_env_def ui_jwt_from_env_def Let_def server_env_simps sample_mode)

lemma sample_origins: "is_ok (load_allowed_origins_from_env start_sample server_env)"
  by code_simp

lemma sample_checks_pass:
  "validate_startup_configuration server_env ExplicitEnv (ac_ui (auth_config_from_env server_env)) = Ok ()"
  "validate_runtime_security_configuration start_sample server_env (ac_ui (auth_config_from_env server_env)) = Ok ()"
  using sample_origins
  by (simp_all add: validate_startup_configuration_def validate_startup_configuration_with_proxy_rules_def Let_def env_flag_def
    server_env_simps validate_runtime_security_configuration_def sample_auth is_ok_iff try_bind_Ok_iff)

definition sample_server :: ServerState where
  "sample_server = ok_val (server_main start_sample server_env (Some init_schema))"

lemma sample_server_starts: "server_main start_sample server_env (Some init_schema) = Ok sample_server"
proof -
  have "is_ok (server_main start_sample server_env (Some init_schema))"
    using sample_origins
    by (simp add: server_main_def Let_def sample_config sample_secret sample_checks_pass check_disabled_auth_def sample_auth
      queued_ingest_enabled_def is_ok_iff try_bind_Ok_iff)
  then show ?thesis by (auto simp: sample_server_def is_ok_iff)
qed

lemma sample_server_limiter: "sv_http_limiter sample_server = limiter_new 100 (f_of_int 50)"
  using server_main_initial(1) [OF sample_server_starts]
  by (simp add: http_limiter_from_env_def from_env_with_prefix_def server_env_simps)

lemma sample_server_state: "sv_auth sample_server = auth_config_from_env server_env" "as_limits (sv_auth_state sample_server) = Map.empty"
  using server_main_Ok [OF sample_server_starts] server_main_initial(2) [OF sample_server_starts] by simp_all

text \<open>A matcher without parameters in paths.\<close>

definition match_sample :: "route list \<Rightarrow> route list \<Rightarrow> Request \<Rightarrow> routed" where
  "match_sample public protected rq =
     (let hits = (\<lambda>r. fst r = rq_method rq \<and> fst (snd r) = rq_path rq) in
      case find hits public of Some r \<Rightarrow> ToPublic r | None \<Rightarrow>
      (case find hits protected of Some r \<Rightarrow> ToProtected r | None \<Rightarrow> Fallback True 404))"

definition router_sample :: RouterExt where
  "router_sample = \<lparr>rx_ui = sample_ux, rx_serde = sample_serde, rx_match = match_sample, rx_status_text = (\<lambda>_. []),
     rx_header_ok = (\<lambda>_. True)\<rparr>"

definition request_env_sample :: RequestEnv where
  "request_env_sample = \<lparr>re_fresh = sample_fresh, re_clock = sample_now, re_tick = 7, re_request_id = ''id''\<rparr>"

definition get_sample :: "string \<Rightarrow> Request" where
  "get_sample path = \<lparr>rq_method = ''GET'', rq_path = path, rq_header = Map.empty, rq_connect_info = None, rq_socket_addr = None\<rparr>"

lemma match_law_sample: "match_law router_sample"
  by (auto simp: match_law_def router_sample_def match_sample_def Let_def split: option.splits dest: find_SomeD)

lemma sample_request_admitted: "fst (limiter_check 7 ''unknown'' (limiter_new 100 (f_of_int 50))) = Ok ()"
  by code_simp

lemma sample_client: "request_client_ip server_env (get_sample path) = ''unknown''"
  by (simp add: request_client_ip_def extract_client_ip_def get_sample_def should_trust_forwarded_headers_def trust_proxy_headers_def
    server_env_simps extract_socket_client_ip_def env_flag_def)

theorem insecure_configuration_refused_witness:
  "ac_secret_source (sv_auth sample_server) \<noteq> InsecureDefault
   \<and> check_disabled_auth server_env (sv_config sample_server) (sv_auth sample_server\<lparr>ac_auth_disabled := True\<rparr>)
       = Err ''Refusing to start: MLRUNX_AUTH_MODE=disabled requires MLRUNX_ALLOW_INSECURE_LOCAL_DEV=true.''"
proof -
  have "allow_insecure_local_dev server_env = False" by code_simp
  then show ?thesis
    using insecure_configuration_refused [OF serving.start [OF sample_server_starts]]
    by (simp add: check_disabled_auth_def require_def)
qed

text \<open>
  A server whose store knows the key of the project \<open>p1\<close>, for reading. The state is one a handler
  may leave behind.
\<close>

definition keyed_server :: ServerState where
  "keyed_server = sample_server\<lparr>sv_auth_state :=
     \<lparr>as_store = \<lparr>ks_keys = [(''sha:k'', create_key_from_raw sample_ext 0 ''k1'' ''salt'' ''k'' (Some ''p1'') None [''read''] None)],
        ks_db = Some init_schema\<rparr>, as_limits = Map.empty\<rparr>\<rparr>"

definition keyed_request :: Request where
  "keyed_request = (get_sample ''/api/v1/runs'')\<lparr>rq_header := [''x-api-key'' \<mapsto> ''k'']\<rparr>"

definition keyed_store :: KeyStore where
  "keyed_store = as_store (sv_auth_state keyed_server)"

lemma keyed_server_serving: "serving start_sample server_env (Some init_schema) keyed_server"
  using serving.handled [OF serving.start [OF sample_server_starts], where st = "sv_auth_state keyed_server" and db = "sv_separate_db sample_server"
    and idem = "sv_idempotency sample_server" and tracker = "sv_cardinality sample_server" and limiter = "sv_write_limiter sample_server"]
  by (simp add: keyed_server_def)

lemma keyed_server_simps:
  "sv_auth keyed_server = auth_config_from_env server_env" "sv_http_limiter keyed_server = limiter_new 100 (f_of_int 50)"
  "as_limits (sv_auth_state keyed_server) = Map.empty" "as_store (sv_auth_state keyed_server) = keyed_store"
  by (simp_all add: keyed_server_def keyed_store_def sample_server_state sample_server_limiter)

lemma keyed_credential: "extract_request_credential (auth_config_from_env server_env) keyed_request = CredApiKey ''k''"
proof -
  have "trimmed_nonempty (Some ''k'') = Some ''k''" by code_simp
  then show ?thesis by (simp add: extract_request_credential_def keyed_request_def)
qed

lemma keyed_client: "request_client_ip server_env keyed_request = ''unknown''" "extract_client_ip server_env keyed_request = None"
  by (simp_all add: keyed_request_def request_client_ip_def extract_client_ip_def get_sample_def should_trust_forwarded_headers_def
    trust_proxy_headers_def server_env_simps extract_socket_client_ip_def env_flag_def)

lemma keyed_secret: "ac_secret (auth_config_from_env server_env) = ''secret''"
  by (simp add: auth_config_from_env_def Let_def load_auth_hmac_secret_def server_env_simps) code_simp

definition keyed_valid :: "ApiKey option \<times> KeyStore" where
  "keyed_valid = validate_key sample_ext ''secret'' sample_now ''k'' keyed_store"

lemma keyed_store_eq: "keyed_store = \<lparr>ks_keys = [(''sha:k'', create_key_from_raw sample_ext 0 ''k1'' ''salt'' ''k'' (Some ''p1'') None [''read''] None)],
        ks_db = Some init_schema\<rparr>"
  by (simp add: keyed_store_def keyed_server_def)

lemma keyed_valid_eq:
  "fst keyed_valid = Some (create_key_from_raw sample_ext 0 ''k1'' ''salt'' ''k'' (Some ''p1'') None [''read''] None\<lparr>k_last_used_at := Some 7\<rparr>)"
  "ks_db (snd keyed_valid) = Some init_schema"
  unfolding keyed_valid_def keyed_store_eq by code_simp+

definition keyed_context :: AuthContext where
  "keyed_context = \<lparr>api_key = the (fst keyed_valid), is_dev_mode = False, is_platform_admin = False, allowed_project_ids = None,
     auth_mode = ApiKeyMode, request_id = ''q9'', client_ip = None, user_agent = None\<rparr>"

lemma keyed_access: "fst (require_endpoint_access sample_runtime keyed_context Read (Some ''p1'') None ''a'' ''t'' None init_schema) = Ok ()"
  unfolding keyed_context_def keyed_valid_eq option.sel by code_simp

lemma keyed_passes:
  "\<exists>sv'. http_request router_sample request_env_sample keyed_request keyed_server
       = ((Reached ListRuns (Some keyed_context), security_headers ''id''), sv')
     \<and> ks_db (as_store (sv_auth_state sv')) = Some init_schema"
proof -
  have off: "share_links_enabled server_env = False" by code_simp
  have m: "match_sample (public_routes False False) (protected_routes False False) keyed_request
      = ToProtected (''GET'', ''/api/v1/runs'', ListRuns)"
    by code_simp
  have key: "validate_key (ux_key sample_ux) ''secret'' sample_now ''k'' keyed_store = (Some (the (fst keyed_valid)), snd keyed_valid)"
    using keyed_valid_eq(1) by (simp add: keyed_valid_def sample_ux_def prod_eq_iff)
  have agent: "extract_user_agent keyed_request = None"
    by (simp add: extract_user_agent_def keyed_request_def get_sample_def trimmed_nonempty_def)
  have "\<exists>st'. auth_middleware sample_ux sample_serde (auth_config_from_env server_env) sample_fresh sample_now 7 keyed_request
      (sv_auth_state keyed_server) = (Ok (keyed_context, None), st') \<and> ks_db (as_store st') = Some init_schema"
    by (simp add: auth_middleware_def sample_auth keyed_client agent keyed_credential authenticate_request_def retry_after_seconds_def
      keyed_server_simps authenticate_credential_def validate_request_key_def keyed_secret key keyed_context_def keyed_valid_eq(2)
      sample_fresh_def)
  then obtain st' where mw: "auth_middleware sample_ux sample_serde (auth_config_from_env server_env) sample_fresh sample_now 7 keyed_request
      (sv_auth_state keyed_server) = (Ok (keyed_context, None), st')" and db: "ks_db (as_store st') = Some init_schema" by blast
  show ?thesis
    by (simp add: http_request_def Let_def split_beta request_env_sample_def keyed_server_simps sample_auth keyed_client
      sample_request_admitted route_request_def off m router_sample_def authenticated_def mw db)
qed

theorem request_authenticated_witness:
  "(\<exists>headers sv'. http_request router_sample request_env_sample keyed_request keyed_server
       = ((Reached ListRuns (Some keyed_context), headers), sv') \<and> set (security_headers ''id'') \<subseteq> set headers)
   \<and> key_context sample_ux (auth_config_from_env server_env) sample_now keyed_request keyed_store keyed_context
   \<and> fst (http_request router_sample request_env_sample (get_sample ''/api/v1/projects'') sample_server)
       = (Refused (auth_status_code MissingKey, auth_error_message MissingKey), security_headers ''id'')"
proof -
  let ?p = "http_request router_sample request_env_sample (get_sample ''/api/v1/projects'') sample_server"
  have off: "share_links_enabled server_env = False" by code_simp
  note env = request_env_sample_def sample_server_state sample_auth sample_client sample_server_limiter sample_request_admitted
  have m: "match_sample (public_routes False False) (protected_routes False False) (get_sample ''/api/v1/projects'')
      = ToProtected (''GET'', ''/api/v1/projects'', ListProjects)"
    by code_simp
  have cred: "extract_request_credential (auth_config_from_env server_env) (get_sample path) = CredMissing" for path
    by (simp add: extract_request_credential_def get_sample_def trimmed_nonempty_def sample_auth)
  have p: "fst ?p = (Refused (auth_status_code MissingKey, auth_error_message MissingKey), security_headers ''id'')"
    by (simp add: http_request_def Let_def split_beta env route_request_def off m router_sample_def authenticated_def
      auth_middleware_def authenticate_request_def retry_after_seconds_def cred authenticate_credential_def)
  from keyed_passes obtain sv' where
    r: "http_request router_sample request_env_sample keyed_request keyed_server
       = ((Reached ListRuns (Some keyed_context), security_headers ''id''), sv')" by blast
  have "rx_ui router_sample = sample_ux" "re_clock request_env_sample = sample_now" "re_request_id request_env_sample = ''id''"
      "\<not> is_dev_mode keyed_context" "auth_mode keyed_context = ApiKeyMode"
    by (simp_all add: router_sample_def request_env_sample_def keyed_context_def)
  with request_authenticated [OF keyed_server_serving match_law_sample r] show ?thesis
    using r p by (auto simp: keyed_server_simps user_context_def)
qed

end
