(* ===== verification/Spec2Isabelle.thy ===== *)
theory Spec2Isabelle
  imports Idempotency Cardinality_Limits Metadata Run_Filter Run_Sql Store_Props Ui_Auth Http_Limiter Metrics Ingest
    Grpc_Ingest Share_Handlers Queue_Processor Session_Handlers Server
begin

text \<open>
  MLRunX is a server for the tracking of machine learning experiments. Clients send batches of
  metrics, tags, parameters and events of runs over HTTP or gRPC, a dashboard reads them, and API
  keys, user sessions and share links decide who may do what. The development models the API
  server (apps/api), the processor of queued batches (services/processor) and the crates they
  share, as functions on explicit states, and proves what makes each part correct and what the
  parts guarantee together.

  \<^bold>\<open>Parts and how they interact.\<close> A request passes the limit per client address, the router and,
  on all routes but a few, the authentication (theory Server; theories Http_Limiter, Client_Ip,
  Rate_Limiter, Key_Store, Ui_Auth). The handler checks scope, project and ownership (Access),
  validates names and events (Metadata, Structured), and works on the SQLite store (Schema,
  Sqlite_Accounts, Sqlite_Runs). A batch of an ingestion is deduplicated (Idempotency), held to
  the cardinality limits (Cardinality_Limits) and written to the store, or handed to the queue,
  from which the processor writes it later (Ingest, Queue_Processor). The gRPC service keeps runs
  and points in memory (Grpc_Ingest, Metrics).

  \<^bold>\<open>Theories and sources\<close> (paths under src/):
  \<^item> Prelude: results, the state monad of fallible operations (\<open>op\<close>), strings as UTF-8 bytes with the
    functions of Rust's standard library, saturating conversions, tables as lists of rows, the
    collection \<open>preserves_intros\<close> for invariants of operations. Float64: binary64 on bit patterns.
  \<^item> Idempotency (apps/api/src/services/idempotency.rs): the store of known batches; a call is three
    critical sections, and the lemmas about concurrent calls interleave them. The locale
    \<open>dedup_store\<close> states what the ingestion relies on.
  \<^item> Cardinality_Limits (services/limits.rs): limits, tracker, validation; None is the panic of a
    slice inside a character, and the reachable trackers include those that a panic leaves.
  \<^item> Metadata, Run_Filter (main.rs): keys and filters of the run list, tokenizer, parser and
    conditions of the filter language. Run_Sql (storage/sqlite.rs, list_runs): the SQL text, the
    values of its placeholders and the meaning of both.
  \<^item> Schema, Sqlite_Accounts, Sqlite_Runs, Store_Props (storage/sqlite.rs): tables with their
    constraints, every operation of the store, and the invariant \<open>db_ok\<close> over all of them. The
    locales \<open>revocable\<close>, \<open>upsert_table\<close> and \<open>replace_table\<close> are interpreted by the tables of keys,
    sessions, memberships, share links, tags, parameters and aliases.
  \<^item> Rate_Limiter, Client_Ip, Key_Store, Ui_Auth (auth/mod.rs): the limiter of failed logins,
    addresses and trusted proxies, API keys, JWT identities, sessions, CSRF, the middleware.
  \<^item> Access (auth/mod.rs, main.rs, crates/api-policy): scopes, project and ownership checks. The
    locale \<open>guard\<close> is what a check promises: a verdict, and nothing changed but the audit log.
  \<^item> Structured (main.rs): image and chart events. Http_Limiter (main.rs): token buckets.
    Metrics (services/metrics.rs and the metric query of storage/sqlite.rs): series and
    downsampling. Server_Config (config.rs, and the shadow writes of main.rs).
  \<^item> Ingest (main.rs, http_ingest_batch), Run_Handlers (runs are created, finished, deleted),
    Query_Handlers (runs are listed, read, compared), Project_Handlers (projects, aliases,
    administration), Key_Handlers, Share_Handlers, Session_Handlers (login, session, logout): the
    HTTP handlers, each with its guards, its writes and its error paths. The locales
    \<open>run_reader\<close>, \<open>run_mutator\<close>, \<open>admin_endpoint\<close> and \<open>public_view\<close> state what handlers of one kind
    share; every handler of the kind is an interpretation.
  \<^item> Grpc_Ingest (services/ingest.rs): the gRPC calls, with the critical sections of the metric call
    as steps of their own.
  \<^item> Queue_Processor (queue.rs, services/processor/src/main.rs, the insertion of
    storage/clickhouse.rs): the commands to Redis, the processing of an entry, the loop.
  \<^item> Server (main.rs, build_http_router and main): startup, routes, layers, and the states of a
    running server as an inductive predicate.
  \<^item> This theory: the composition of server, authentication and access control.

  \<^bold>\<open>What is proved.\<close> Invariants: the constraints of the database, the limits of the tracker and the
  exactly-once accounting of the gRPC service hold in every reachable state; in every such
  database the deletions of runs and projects do exactly what they are for. Equivalence and
  refinement: the parser accepts exactly a grammar, the SQL of the run list selects exactly what
  the filter means, the recursive JSON check is its specification, the queue stores what the direct
  path stores. Safety: who reaches an endpoint, a project, a run, a key, a session or a shared
  view, traced back to the credential the request carries (\<open>key_context\<close>, \<open>user_context\<close>: a stored
  live key, a verified token, a stored live session with its CSRF token); what a startup refuses; what the limiters let through. Round trips: sessions and share
  links open until they end. Errors: what a refused or failed operation has left behind, the
  defects that modelling showed among them. Lemmas beside the properties prove the functional behaviour
  of the single operations.

  \<^bold>\<open>State, bounds and fuel.\<close> Stateful code is a function from a state to a result and a state; a table
  is the list of its rows. \<open>u32\<close>, \<open>i64\<close> and \<open>u64\<close> values are bounded where the code saturates, wraps
  or refuses; addresses are words; \<open>f64\<close> is binary64 with its rounding. The filter parser carries
  fuel, three units per token and three more: every call consumes a token or passes to one of
  the two calls below it, and the lemmas show that this fuel never runs out. The processor's loop
  has no end; \<open>processor_loop\<close> runs it over a list of environments, one per turn, and its
  theorems hold for every list. Concurrency is modelled where the code releases a lock between
  two steps of one call (Idempotency, Grpc_Ingest).

  \<^bold>\<open>Parameters.\<close> Digests (HMAC-SHA-256, SHA-256, Argon2), the verification of tokens (jsonwebtoken),
  clocks, generated identifiers and tokens, serde_json's texts, chrono's dates, UUID and URI
  parsers, the order of hash maps, SQLite's averages and date arithmetic, axum's matcher, and
  the services Redis, ClickHouse and PostgreSQL are arguments; what a theorem needs of them is a
  hypothesis. Foreign keys are enforced, since the SQLite bundled by rusqlite is compiled so.

  \<^bold>\<open>Not modelled.\<close> Panics of date arithmetic: where the time and a configured or requested lifetime
  leave the range of SystemTime or chrono (expiry of keys, sessions and share links) Rust panics, and
  the model's times go on. The clients of PostgreSQL and MinIO and the queries of the ClickHouse client
  (storage/postgres.rs, minio.rs, clickhouse.rs): they pass texts to services whose behaviour is
  not in the repository; the commands the server issues to PostgreSQL are recorded. The migration
  of old database files, logging and tracing, the sockets, compression and CORS layers, the
  generated protobuf code, the Python client and the web interface.
\<close>

section \<open>From the request to the project\<close>

text \<open>
  C14: tenants are isolated, from the socket to the endpoint. In every state of a running server, a
  request that reached a handler and then passes the check of an endpoint of a project carries
  one of two credentials. It presents an API key that the store has, live and verified, with the
  scope and bound to that project or to none. Or it is of an authenticated user, with a verified
  token or a stored live session, who is a platform administrator by the mark in the database or
  the configured address, or has an active membership in that project; where scopes of the tier are
  enforced, some active membership of the user gives the scope. The only other way is the developer's
  context of a local server that only this machine can reach.
\<close>

theorem server_tenant_isolation:
  assumes "serving sx env opened sv" "match_law rx"
    and "http_request rx re rq sv = ((Reached h (Some auth), headers), sv')"
    and "ks_db (as_store (sv_auth_state sv')) = Some db"
    and "require_endpoint_access rt auth tier (Some p) r a t i db = (Ok (), db')"
  shows "(is_dev_mode auth \<and> allow_insecure_local_dev env \<and> is_loopback (fst (sc_http_addr (sv_config sv))))
    \<or> (key_context (rx_ui rx) (sv_auth sv) (re_clock re) rq (as_store (sv_auth_state sv)) auth
        \<and> k_project_id (api_key auth) \<in> {None, Some p} \<and> has_scope (api_key auth) (tier_scope tier))
    \<or> (\<exists>uid. user_context (rx_ui rx) (sv_auth sv) (re_clock re) rq (as_store (sv_auth_state sv)) db auth uid
        \<and> (is_platform_admin auth \<or> member_access rt tier uid p db))"
proof -
  from assms(3) obtain cookies where
    r: "route_request rx (sv_auth sv) re rq (sv_auth_state sv) = ((Reached h (Some auth), cookies), sv_auth_state sv')"
    by (rule http_request_Reached)
  from route_request_Reached [OF assms(2) r] obtain refresh where
    mw: "auth_middleware (rx_ui rx) (rx_serde rx) (sv_auth sv) (re_fresh re) (re_clock re) (re_tick re) rq (sv_auth_state sv)
        = (Ok (auth, refresh), sv_auth_state sv')" by blast
  show ?thesis
  proof (cases "ac_auth_disabled (sv_auth sv)")
    case True
    with mw have "is_dev_mode auth" by (auto simp: auth_middleware_def dev_mode_def)
    with serving_local(2) [OF assms(1) True] show ?thesis by blast
  next
    case False
    from request_tenant_isolation [OF this mw assms(4,5)] show ?thesis by blast
  qed
qed

theorem server_tenant_isolation_witness:
  "k_project_id (api_key keyed_context) \<in> {None, Some ''p1''} \<and> has_scope (api_key keyed_context) (tier_scope Read)
   \<and> key_context sample_ux (auth_config_from_env server_env) sample_now keyed_request keyed_store keyed_context
   \<and> fst (require_endpoint_access sample_runtime keyed_context Read (Some ''p2'') None ''a'' ''t'' None init_schema) \<noteq> Ok ()"
proof -
  from keyed_passes obtain sv' where
    r: "http_request router_sample request_env_sample keyed_request keyed_server
       = ((Reached ListRuns (Some keyed_context), security_headers ''id''), sv')"
    and db: "ks_db (as_store (sv_auth_state sv')) = Some init_schema" by blast
  let ?e = "require_endpoint_access sample_runtime keyed_context Read (Some ''p1'') None ''a'' ''t'' None init_schema"
  have e: "?e = (Ok (), snd ?e)" using keyed_access by (simp add: prod_eq_iff)
  have other: "fst (require_endpoint_access sample_runtime keyed_context Read (Some ''p2'') None ''a'' ''t'' None init_schema) \<noteq> Ok ()"
    unfolding keyed_context_def keyed_valid_eq option.sel by code_simp
  have "rx_ui router_sample = sample_ux" "re_clock request_env_sample = sample_now" "\<not> is_dev_mode keyed_context"
      "auth_mode keyed_context = ApiKeyMode"
    by (simp_all add: router_sample_def request_env_sample_def keyed_context_def)
  then show ?thesis
    using server_tenant_isolation [OF keyed_server_serving match_law_sample r db e] other
    by (simp add: keyed_server_simps user_context_def)
qed

end
